(* ===== verification/Prelude.thy ===== *)
theory Prelude
  imports Main "HOL-Library.Word"
begin

unbundle bit_operations_syntax

text \<open>
  Shared vocabulary of the development: the platform's integer types (base/compiler and
  Platform_Types.h) as words of their width, memory as a map from addresses to bytes, the
  iteration of a C \<open>for\<close> loop as recursion on the number of completed iterations, and the
  word and list lemmas the components use.
\<close>

type_synonym uint8 = "8 word"
type_synonym uint16 = "16 word"
type_synonym uint32 = "32 word"

text \<open>A non-null pointer to bytes that are only read: \<open>p i\<close> is \<open>p[i]\<close>.\<close>

type_synonym byte_ptr = "nat \<Rightarrow> uint8"

datatype Std_ReturnType = E_OK | E_NOT_OK

named_theorems loop_simps \<open>a C loop over an index as a fold over the bytes it reads\<close>

subsection \<open>Loops\<close>

text \<open>
  A loop body that reads byte \<open>i\<close> in its iteration \<open>i\<close>: the accumulator after \<open>n\<close>
  iterations is a fold over the bytes read so far.
\<close>

definition read_bytes :: "byte_ptr \<Rightarrow> nat \<Rightarrow> uint8 list" where
  "read_bytes p n = map p [0..<n]"

lemma read_bytes_0 [simp]: "read_bytes p 0 = []"
  by (simp add: read_bytes_def)

lemma read_bytes_Suc: "read_bytes p (Suc n) = read_bytes p n @ [p n]"
  by (simp add: read_bytes_def)

lemma length_read_bytes [simp]: "length (read_bytes p n) = n"
  by (simp add: read_bytes_def)

lemma nth_read_bytes [simp]: "i < n \<Longrightarrow> read_bytes p n ! i = p i"
  by (simp add: read_bytes_def)

lemma read_bytes_add: "read_bytes p (m + n) = read_bytes p m @ read_bytes (\<lambda>i. p (m + i)) n"
  by (induction n) (simp_all add: read_bytes_Suc)

lemma read_bytes_cong: "(\<And>i. i < n \<Longrightarrow> p i = q i) \<Longrightarrow> read_bytes p n = read_bytes q n"
  by (simp add: read_bytes_def)

lemma read_bytes_split:
  "k < n \<Longrightarrow> read_bytes p n = read_bytes p k @ p k # read_bytes (\<lambda>i. p (Suc k + i)) (n - Suc k)"
  using read_bytes_add [of p "Suc k" "n - Suc k"] by (simp add: read_bytes_Suc)

lemma loop_as_foldl:
  assumes "g 0 = s" and "\<And>i. g (Suc i) = f (g i) (p i)"
  shows "g n = foldl f s (read_bytes p n)"
  using assms by (induction n) (simp_all add: read_bytes_Suc)

lemma foldl_inj:
  assumes inj: "\<And>x y b. f x b = f y b \<Longrightarrow> x = y"
    and eq: "foldl f x bs = foldl f y bs"
  shows "x = y"
  using eq
proof (induction bs arbitrary: x y)
  case Nil
  then show ?case by simp
next
  case (Cons b bs)
  then have "f x b = f y b" by simp
  then show ?case by (rule inj)
qed

lemma funpow_rev_iterate: "(f ^^ n) (f x) = (f ^^ Suc n) x"
  by (simp add: funpow_swap1)

subsection \<open>Words\<close>

lemma test_bit_mask: "x AND 2 ^ n \<noteq> 0 \<longleftrightarrow> bit x n" for x :: "'a::len word"
  by (simp add: and_exp_eq_0_iff_not_bit)

lemma unat_uint8_less: "unat (x :: uint8) < 256"
  using unsigned_less [of x] by simp

lemma unat_ucast_up:
  fixes x :: "'a::len word"
  assumes "LENGTH('a) \<le> LENGTH('b)"
  shows "unat (ucast x :: 'b::len word) = unat x"
proof -
  have "unat x < 2 ^ LENGTH('a)" by (rule unsigned_less)
  also have "\<dots> \<le> 2 ^ LENGTH('b)" using assms by (simp add: power_increasing)
  finally show ?thesis by (simp add: unsigned_ucast_eq take_bit_nat_eq_self)
qed

lemma xor_right_eq: "x XOR z = y XOR z \<longleftrightarrow> x = y" for x y z :: "'a::len word"
proof
  assume "x XOR z = y XOR z"
  then have "(x XOR z) XOR z = (y XOR z) XOR z" by simp
  then show "x = y" by (simp add: xor.assoc)
qed simp

lemma of_nat_add_exp:
  assumes "i < 2 ^ k"
  shows "(of_nat (i + 2 ^ k) :: 'a::len word) = of_nat i XOR 2 ^ k"
proof (rule bit_word_eqI)
  fix n :: nat
  assume n: "n < LENGTH('a)"
  have "\<not> bit i k"
    using assms by (simp add: bit_iff_odd)
  then have "i AND 2 ^ k = 0"
    by (simp add: and_exp_eq_0_iff_not_bit)
  then have "i + 2 ^ k = i XOR 2 ^ k"
    by (rule disjunctive_add_eq_xor)
  then show "bit (of_nat (i + 2 ^ k) :: 'a word) n = bit (of_nat i XOR 2 ^ k :: 'a word) n"
    using n by (simp add: bit_simps)
qed

end
