(* ===== verification/Fifo.thy ===== *)
theory Fifo
  imports Prelude
begin

text \<open>
  The contract of a bounded first-in first-out buffer, as a locale, and what a client gets
  from it over a whole sequence of operations. A step reports the elements it accepted and
  the elements it delivered; theories \<open>Queue\<close> and \<open>Safety_Queue\<close> interpret the locale on
  the two queues of the platform.
\<close>

text \<open>The accepted and delivered elements of a sequence of operations, and its final state.\<close>

primrec run_ops :: "('o \<Rightarrow> 's \<Rightarrow> 'e list \<times> 'e list \<times> 's) \<Rightarrow> 'o list \<Rightarrow> 's \<Rightarrow> 'e list \<times> 'e list \<times> 's" where
  "run_ops step [] s = ([], [], s)"
| "run_ops step (x # xs) s =
     (case step x s of (i, d, s') \<Rightarrow>
        (case run_ops step xs s' of (is, ds, s'') \<Rightarrow> (i @ is, d @ ds, s'')))"

text \<open>Every operation of the sequence is permitted in the state it is executed in.\<close>

primrec run_ok :: "('o \<Rightarrow> 's \<Rightarrow> 'e list \<times> 'e list \<times> 's) \<Rightarrow> ('o \<Rightarrow> 's \<Rightarrow> bool) \<Rightarrow> 'o list \<Rightarrow> 's \<Rightarrow> bool" where
  "run_ok step ok [] s = True"
| "run_ok step ok (x # xs) s = (ok x s \<and> run_ok step ok xs (snd (snd (step x s))))"

locale bounded_fifo =
  fixes inv :: "'s \<Rightarrow> bool"
    and items :: "'s \<Rightarrow> 'e list"
    and cap :: "'s \<Rightarrow> nat"
    and ok :: "'o \<Rightarrow> 's \<Rightarrow> bool"
    and offers :: "'o \<Rightarrow> 's \<Rightarrow> 'e option"
    and takes :: "'o \<Rightarrow> bool"
    and step :: "'o \<Rightarrow> 's \<Rightarrow> 'e list \<times> 'e list \<times> 's"
  assumes step_inv: "inv s \<Longrightarrow> ok x s \<Longrightarrow> inv (snd (snd (step x s)))"
    and step_cap: "inv s \<Longrightarrow> ok x s \<Longrightarrow> cap (snd (snd (step x s))) = cap s"
    and inv_cap: "inv s \<Longrightarrow> length (items s) \<le> cap s"
    and offer: "inv s \<Longrightarrow> ok x s \<Longrightarrow> offers x s = Some e \<Longrightarrow> step x s = (i, d, s') \<Longrightarrow>
       d = [] \<and> i = (if length (items s) < cap s then [e] else []) \<and> items s' = items s @ i"
    and take_next: "inv s \<Longrightarrow> ok x s \<Longrightarrow> takes x \<Longrightarrow> step x s = (i, d, s') \<Longrightarrow>
       i = [] \<and> d = take 1 (items s) \<and> items s' = drop 1 (items s)"
    and other: "inv s \<Longrightarrow> ok x s \<Longrightarrow> offers x s = None \<Longrightarrow> \<not> takes x \<Longrightarrow> step x s = (i, d, s') \<Longrightarrow>
       i = [] \<and> d = [] \<and> items s' = items s"
begin

lemma step_conserves:
  assumes "inv s" and "ok x s" and "step x s = (i, d, s')"
  shows "items s @ i = d @ items s'"
proof (cases "takes x")
  case True
  then show ?thesis using take_next [OF assms(1,2) True assms(3)] by simp
next
  case False
  then show ?thesis
    using offer [OF assms(1,2) _ assms(3)] other [OF assms(1,2) _ False assms(3)]
    by (cases "offers x s") auto
qed

lemma run_inv:
  "inv s \<Longrightarrow> run_ok step ok xs s \<Longrightarrow> run_ops step xs s = (is, ds, s') \<Longrightarrow> inv s' \<and> cap s' = cap s"
proof (induction xs arbitrary: s "is" ds)
  case (Cons x xs)
  then show ?case
    using step_inv [of s x] step_cap [of s x] by (force split: prod.splits)
qed simp

text \<open>
  What was stored before and was accepted since is what was delivered followed by what is
  stored now: no element is lost, duplicated, invented or reordered.
\<close>

lemma run_fifo:
  "inv s \<Longrightarrow> run_ok step ok xs s \<Longrightarrow> run_ops step xs s = (is, ds, s') \<Longrightarrow>
     items s @ is = ds @ items s'"
proof (induction xs arbitrary: s "is" ds)
  case (Cons x xs)
  obtain i d t where x: "step x s = (i, d, t)" by (metis prod_cases3)
  obtain is1 ds1 where r: "run_ops step xs t = (is1, ds1, s')" "is = i @ is1" "ds = d @ ds1"
    using Cons.prems(3) x by (auto split: prod.splits)
  have "items t @ is1 = ds1 @ items s'"
    using Cons.IH [of t is1 ds1] step_inv [of s x] Cons.prems(1,2) x r(1) by simp
  moreover have "items s @ i = d @ items t"
    using step_conserves [of s x] Cons.prems(1,2) x by simp
  ultimately show ?case using r(2,3) by (metis append.assoc)
qed simp

lemma run_bounded:
  assumes "inv s" and "run_ok step ok xs s" and "run_ops step xs s = (is, ds, s')"
  shows "length (items s') \<le> cap s"
  using run_inv [OF assms] inv_cap by metis

end

end
