(* ===== verification/Os_Irq.thy ===== *)
theory Os_Irq
  imports Prelude
begin

text \<open>
  Interrupt suspension, system/Os/rtos/inc/Os.h. The nesting counters are \<open>sint8\<close>
  (\<open>Os_IntCounterType\<close>), compared with 0 only; \<open>Irq_Disable\<close>/\<open>Irq_Enable\<close> and their
  \<open>Suspend\<close>/\<open>Resume\<close> forms set the processor's interrupt enable. The machine record also
  holds the memory, which the data structures of the platform are placed in.

  Shown: \<open>n\<close> nested suspensions followed by \<open>n\<close> resumptions restore the counter, keep
  interrupts off in between and re-enable them with the last resumption only.
\<close>

record machine =
  mem :: "nat \<Rightarrow> uint8"
  Os_IntDisableAllCnt :: uint8
  Os_IntSuspendAllCnt :: uint8
  irq_enabled :: bool

text \<open>\<open>None\<close> stands for a failed \<open>ASSERT\<close>: disabling does not nest.\<close>

definition DisableAllInterrupts :: "machine \<Rightarrow> machine option" where
  "DisableAllInterrupts s =
     (let s = s\<lparr>irq_enabled := False, Os_IntDisableAllCnt := Os_IntDisableAllCnt s + 1\<rparr>
      in if Os_IntDisableAllCnt s = 1 then Some s else None)"

definition EnableAllInterrupts :: "machine \<Rightarrow> machine" where
  "EnableAllInterrupts s =
     (if Os_IntDisableAllCnt s = 0 then s
      else s\<lparr>Os_IntDisableAllCnt := Os_IntDisableAllCnt s - 1, irq_enabled := True\<rparr>)"

definition SuspendAllInterrupts :: "machine \<Rightarrow> machine" where
  "SuspendAllInterrupts s =
     s\<lparr>irq_enabled := False, Os_IntSuspendAllCnt := Os_IntSuspendAllCnt s + 1\<rparr>"

definition ResumeAllInterrupts :: "machine \<Rightarrow> machine" where
  "ResumeAllInterrupts s =
     (if Os_IntSuspendAllCnt s = 0 then s
      else (let s = s\<lparr>Os_IntSuspendAllCnt := Os_IntSuspendAllCnt s - 1\<rparr>
            in if Os_IntSuspendAllCnt s = 0 then s\<lparr>irq_enabled := True\<rparr> else s))"

definition SuspendOSInterrupts :: "machine \<Rightarrow> machine" where
  "SuspendOSInterrupts s =
     s\<lparr>irq_enabled := False, Os_IntSuspendAllCnt := Os_IntSuspendAllCnt s + 1\<rparr>"

definition ResumeOSInterrupts :: "machine \<Rightarrow> machine" where
  "ResumeOSInterrupts s =
     (if Os_IntSuspendAllCnt s = 0 then s
      else (let s = s\<lparr>Os_IntSuspendAllCnt := Os_IntSuspendAllCnt s - 1\<rparr>
            in if Os_IntSuspendAllCnt s = 0 then s\<lparr>irq_enabled := True\<rparr> else s))"

lemma mem_SuspendOSInterrupts [simp]: "mem (SuspendOSInterrupts s) = mem s"
  by (simp add: SuspendOSInterrupts_def)

lemma mem_ResumeOSInterrupts [simp]: "mem (ResumeOSInterrupts s) = mem s"
  by (simp add: ResumeOSInterrupts_def Let_def)

lemma mem_update_SuspendOSInterrupts:
  "SuspendOSInterrupts s\<lparr>mem := m\<rparr> = SuspendOSInterrupts (s\<lparr>mem := m\<rparr>)"
  by (simp add: SuspendOSInterrupts_def)

lemma Resume_last:
  "Os_IntSuspendAllCnt s = 1 \<Longrightarrow> ResumeOSInterrupts s = s\<lparr>Os_IntSuspendAllCnt := 0, irq_enabled := True\<rparr>"
  by (simp add: ResumeOSInterrupts_def Let_def)

lemma Resume_nested:
  "Os_IntSuspendAllCnt s \<noteq> 0 \<Longrightarrow> Os_IntSuspendAllCnt s - 1 \<noteq> 0 \<Longrightarrow>
     ResumeOSInterrupts s = s\<lparr>Os_IntSuspendAllCnt := Os_IntSuspendAllCnt s - 1\<rparr>"
  by (simp add: ResumeOSInterrupts_def Let_def)

lemma Resume_Suspend:
  assumes "Os_IntSuspendAllCnt s + 1 \<noteq> 0"
  shows "ResumeOSInterrupts (SuspendOSInterrupts s) =
     s\<lparr>irq_enabled := (Os_IntSuspendAllCnt s = 0)\<rparr>"
  using assms by (simp add: SuspendOSInterrupts_def ResumeOSInterrupts_def Let_def)

lemma suspend_pow:
  "(SuspendOSInterrupts ^^ n) s =
     (if n = 0 then s
      else s\<lparr>irq_enabled := False, Os_IntSuspendAllCnt := Os_IntSuspendAllCnt s + of_nat n\<rparr>)"
  by (induction n) (simp_all add: SuspendOSInterrupts_def algebra_simps)

lemma resume_pow:
  assumes "n < unat (Os_IntSuspendAllCnt s)"
  shows "(ResumeOSInterrupts ^^ n) s = s\<lparr>Os_IntSuspendAllCnt := Os_IntSuspendAllCnt s - of_nat n\<rparr>"
  using assms
proof (induction n)
  case (Suc n)
  let ?c = "Os_IntSuspendAllCnt s"
  have n: "n < 256" using Suc.prems unat_uint8_less [of ?c] by simp
  have IH: "(ResumeOSInterrupts ^^ n) s = s\<lparr>Os_IntSuspendAllCnt := ?c - of_nat n\<rparr>"
    using Suc by simp
  have ne: "?c - of_nat k \<noteq> 0" if "k < unat ?c" for k
  proof
    assume "?c - of_nat k = 0"
    then have "?c = of_nat k" by simp
    then have "unat ?c = k mod 256" by (simp add: unat_of_nat)
    then show False using that mod_less_eq_dividend [of k 256] by simp
  qed
  have "?c - of_nat n \<noteq> 0" "?c - of_nat n - 1 \<noteq> 0"
    using ne [of n] ne [of "Suc n"] Suc.prems by (simp_all add: algebra_simps)
  then have "ResumeOSInterrupts (s\<lparr>Os_IntSuspendAllCnt := ?c - of_nat n\<rparr>)
      = s\<lparr>Os_IntSuspendAllCnt := ?c - of_nat n - 1\<rparr>"
    by (simp add: Resume_nested)
  then show ?case by (simp add: IH algebra_simps)
qed simp

text \<open>
  Nested suspensions: from an unsuspended state, \<open>n\<close> suspensions (at most 255, the range
  of the counter) keep interrupts disabled through the first \<open>n - 1\<close> resumptions; the last
  one restores the counter and enables interrupts.
\<close>

theorem suspend_resume_nesting:
  assumes "Os_IntSuspendAllCnt s = 0" and "0 < n" and "n < 256"
  shows "(\<forall>k<n. \<not> irq_enabled ((ResumeOSInterrupts ^^ k) ((SuspendOSInterrupts ^^ n) s)))
    \<and> (ResumeOSInterrupts ^^ n) ((SuspendOSInterrupts ^^ n) s) = s\<lparr>irq_enabled := True\<rparr>"
proof -
  let ?t = "(SuspendOSInterrupts ^^ n) s"
  have t: "?t = s\<lparr>irq_enabled := False, Os_IntSuspendAllCnt := of_nat n\<rparr>"
    using assms by (simp add: suspend_pow)
  have u: "unat (of_nat n :: uint8) = n" using assms by (simp add: unat_of_nat)
  have part: "(ResumeOSInterrupts ^^ k) ?t = ?t\<lparr>Os_IntSuspendAllCnt := of_nat n - of_nat k\<rparr>"
    if "k < n" for k
    using resume_pow [of k ?t] that u by (simp add: t)
  obtain m where m: "n = Suc m" using assms by (cases n) auto
  then have "m < n" by simp
  have nz: "(of_nat n :: uint8) - of_nat m = 1" by (simp add: m)
  have "(ResumeOSInterrupts ^^ n) ?t = ResumeOSInterrupts ((ResumeOSInterrupts ^^ m) ?t)"
    by (simp only: m funpow.simps o_apply)
  also have "(ResumeOSInterrupts ^^ m) ?t = s\<lparr>irq_enabled := False, Os_IntSuspendAllCnt := 1\<rparr>"
    unfolding part [OF \<open>m < n\<close>] nz by (simp add: t)
  also have "ResumeOSInterrupts \<dots> = s\<lparr>irq_enabled := True\<rparr>"
    using assms by (simp add: Resume_last)
  finally show ?thesis using part by (simp add: t)
qed

theorem suspend_resume_nesting_witness:
  "\<exists>s. Os_IntSuspendAllCnt s = 0 \<and> irq_enabled s
     \<and> (ResumeOSInterrupts ^^ 3) ((SuspendOSInterrupts ^^ 3) s) = s"
  by (rule exI [of _ "\<lparr>mem = \<lambda>_. 0, Os_IntDisableAllCnt = 0, Os_IntSuspendAllCnt = 0, irq_enabled = True\<rparr>"])
    (use suspend_resume_nesting [of "\<lparr>mem = \<lambda>_. 0, Os_IntDisableAllCnt = 0, Os_IntSuspendAllCnt = 0,
       irq_enabled = True\<rparr>" 3] in simp)

end
