(* ===== verification/Queue.thy ===== *)
theory Queue
  imports Fifo Os_Irq
begin

text \<open>
  The circular-buffer queue, datastructures/Queue/src/Queue.c and inc/Queue.h. Pointers are
  addresses of the machine's memory, \<open>None\<close> is NULL; the buffer and the data the clients
  pass lie in that memory, the queue's control structure is the record \<open>Queue_t\<close>.

  Shown: the well-formedness of the control structure is invariant; the operations implement
  a bounded FIFO of byte strings (an interpretation of locale \<open>bounded_fifo\<close>), over any
  sequence of operations and of client writes outside the buffer; a full queue reports the
  loss with the next delivery; peeking does not consume; membership is decided correctly
  exactly as long as the stored elements do not wrap around the end of the buffer.
\<close>

datatype Queue_ReturnType = QUEUE_E_OK | QUEUE_E_TRUE | QUEUE_E_NO_INIT | QUEUE_E_FULL
  | QUEUE_E_NO_DATA | QUEUE_E_LOST_DATA | QUEUE_E_CRC_ERR | QUEUE_E_NO_CONTAINS
  | QUEUE_E_ALREADY_INIT | QUEUE_E_FALSE | QUEUE_E_NULL

text \<open>A compare function reads the two objects of the given size in memory.\<close>

type_synonym cmpFunc = "(nat \<Rightarrow> uint8) \<Rightarrow> nat \<Rightarrow> nat \<Rightarrow> nat \<Rightarrow> int"

record Queue_t =
  max_count :: uint8
  count :: uint8
  bufFullFlag :: bool
  isInit :: bool
  dataSize :: nat
  head :: nat
  tail :: nat
  bufStart :: nat
  bufEnd :: nat
  compare_func :: cmpFunc

definition MEMCPY :: "nat \<Rightarrow> nat \<Rightarrow> nat \<Rightarrow> machine \<Rightarrow> machine" where
  "MEMCPY dst src n s =
     s\<lparr>mem := (\<lambda>a. if dst \<le> a \<and> a < dst + n then mem s (src + (a - dst)) else mem s a)\<rparr>"

definition Queue_Init ::
    "Queue_t option \<Rightarrow> nat option \<Rightarrow> uint8 \<Rightarrow> nat \<Rightarrow> cmpFunc option \<Rightarrow> machine
     \<Rightarrow> Queue_ReturnType \<times> Queue_t option \<times> machine" where
  "Queue_Init queue buffer mcount dsize cmp s =
     (let s = SuspendOSInterrupts s in
      case (queue, buffer, cmp) of
        (Some q, Some b, Some c) \<Rightarrow>
          if isInit q then (QUEUE_E_ALREADY_INIT, queue, ResumeOSInterrupts s)
          else (let q = q\<lparr>bufStart := b\<rparr>;
                    q = q\<lparr>bufEnd := b + unat mcount * dsize\<rparr>;
                    q = q\<lparr>head := bufStart q\<rparr>;
                    q = q\<lparr>tail := bufStart q\<rparr>;
                    q = q\<lparr>dataSize := dsize\<rparr>;
                    q = q\<lparr>count := 0\<rparr>;
                    q = q\<lparr>max_count := mcount\<rparr>;
                    q = q\<lparr>compare_func := c\<rparr>;
                    q = q\<lparr>isInit := True\<rparr>;
                    q = q\<lparr>bufFullFlag := False\<rparr>
                in (QUEUE_E_OK, Some q, ResumeOSInterrupts s))
      | _ \<Rightarrow> (QUEUE_E_NULL, queue, ResumeOSInterrupts s))"

definition Queue_Add ::
    "Queue_t option \<Rightarrow> nat option \<Rightarrow> machine \<Rightarrow> Queue_ReturnType \<times> Queue_t option \<times> machine" where
  "Queue_Add queue dataPtr s =
     (let s = SuspendOSInterrupts s in
      case (queue, dataPtr) of
        (Some q, Some p) \<Rightarrow>
          if \<not> isInit q then (QUEUE_E_NO_INIT, queue, ResumeOSInterrupts s)
          else if count q = max_count q
          then (QUEUE_E_FULL, Some (q\<lparr>bufFullFlag := True\<rparr>), ResumeOSInterrupts s)
          else (let s = MEMCPY (head q) p (dataSize q) s;
                    q = q\<lparr>head := head q + dataSize q\<rparr>;
                    q = (if head q = bufEnd q then q\<lparr>head := bufStart q\<rparr> else q);
                    q = q\<lparr>count := count q + 1\<rparr>
                in (QUEUE_E_OK, Some q, ResumeOSInterrupts s))
      | _ \<Rightarrow> (QUEUE_E_NULL, queue, ResumeOSInterrupts s))"

definition Queue_Next ::
    "Queue_t option \<Rightarrow> nat option \<Rightarrow> machine \<Rightarrow> Queue_ReturnType \<times> Queue_t option \<times> machine" where
  "Queue_Next queue dataPtr s =
     (let s = SuspendOSInterrupts s in
      case (queue, dataPtr) of
        (Some q, Some p) \<Rightarrow>
          if \<not> isInit q then (QUEUE_E_NO_INIT, queue, ResumeOSInterrupts s)
          else if count q = 0 then (QUEUE_E_NO_DATA, queue, ResumeOSInterrupts s)
          else (let s = MEMCPY p (tail q) (dataSize q) s;
                    q = q\<lparr>tail := tail q + dataSize q\<rparr>;
                    q = (if tail q = bufEnd q then q\<lparr>tail := bufStart q\<rparr> else q);
                    q = q\<lparr>count := count q - 1\<rparr>
                in if bufFullFlag q
                   then (QUEUE_E_LOST_DATA, Some (q\<lparr>bufFullFlag := False\<rparr>), ResumeOSInterrupts s)
                   else (QUEUE_E_OK, Some q, ResumeOSInterrupts s))
      | _ \<Rightarrow> (QUEUE_E_NULL, queue, ResumeOSInterrupts s))"

definition Queue_Peek ::
    "Queue_t option \<Rightarrow> nat option \<Rightarrow> machine \<Rightarrow> Queue_ReturnType \<times> machine" where
  "Queue_Peek queue dataPtr s =
     (let s = SuspendOSInterrupts s in
      case (queue, dataPtr) of
        (Some q, Some p) \<Rightarrow>
          if \<not> isInit q then (QUEUE_E_NO_INIT, ResumeOSInterrupts s)
          else if count q = 0 then (QUEUE_E_NO_DATA, ResumeOSInterrupts s)
          else (QUEUE_E_OK, ResumeOSInterrupts (MEMCPY p (tail q) (dataSize q) s))
      | _ \<Rightarrow> (QUEUE_E_NULL, ResumeOSInterrupts s))"

text \<open>The search loop with \<open>n\<close> iterations left; the iterator only moves forward.\<close>

primrec Queue_Contains_loop :: "cmpFunc \<Rightarrow> (nat \<Rightarrow> uint8) \<Rightarrow> nat \<Rightarrow> nat \<Rightarrow> nat \<Rightarrow> nat \<Rightarrow> Queue_ReturnType" where
  "Queue_Contains_loop cmp m p sz 0 iter = QUEUE_E_FALSE"
| "Queue_Contains_loop cmp m p sz (Suc n) iter =
     (if cmp m iter p sz = 0 then QUEUE_E_TRUE else Queue_Contains_loop cmp m p sz n (iter + sz))"

definition Queue_Contains ::
    "Queue_t option \<Rightarrow> nat option \<Rightarrow> machine \<Rightarrow> Queue_ReturnType \<times> machine" where
  "Queue_Contains queue dataPtr s =
     (let s = SuspendOSInterrupts s in
      case (queue, dataPtr) of
        (Some q, Some p) \<Rightarrow>
          if \<not> isInit q then (QUEUE_E_NO_INIT, ResumeOSInterrupts s)
          else if count q = 0 then (QUEUE_E_NO_DATA, ResumeOSInterrupts s)
          else (Queue_Contains_loop (compare_func q) (mem s) p (dataSize q) (unat (count q)) (tail q),
                ResumeOSInterrupts s)
      | _ \<Rightarrow> (QUEUE_E_NULL, ResumeOSInterrupts s))"

subsection \<open>The ring structure\<close>

text \<open>
  The definitions and lemmas of this group hold for every structure that starts with the
  fields of \<open>Queue_t\<close>; theory \<open>Safety_Queue\<close> uses them again.
\<close>

definition slot_addr :: "'a Queue_t_scheme \<Rightarrow> nat \<Rightarrow> nat" where
  "slot_addr q i = bufStart q + i * dataSize q"

text \<open>\<open>t\<close> is the number of the slot the tail points to.\<close>

definition ring :: "'a Queue_t_scheme \<Rightarrow> nat \<Rightarrow> bool" where
  "ring q t \<longleftrightarrow> 0 < dataSize q \<and> t < unat (max_count q) \<and> count q \<le> max_count q
     \<and> bufEnd q = slot_addr q (unat (max_count q))
     \<and> tail q = slot_addr q t
     \<and> head q = slot_addr q ((t + unat (count q)) mod unat (max_count q))"

definition Queue_wf :: "'a Queue_t_scheme \<Rightarrow> bool" where
  "Queue_wf q \<longleftrightarrow> isInit q \<and> (\<exists>t<unat (max_count q). ring q t)"

definition in_buffer :: "'a Queue_t_scheme \<Rightarrow> nat \<Rightarrow> bool" where
  "in_buffer q a \<longleftrightarrow> bufStart q \<le> a \<and> a < bufEnd q"

text \<open>The object at an address of an element's size lies outside the buffer.\<close>

definition outside :: "'a Queue_t_scheme \<Rightarrow> nat \<Rightarrow> bool" where
  "outside q p \<longleftrightarrow> p + dataSize q \<le> bufStart q \<or> bufEnd q \<le> p"

definition tail_slot :: "'a Queue_t_scheme \<Rightarrow> nat" where
  "tail_slot q = (tail q - bufStart q) div dataSize q"

definition obj :: "(nat \<Rightarrow> uint8) \<Rightarrow> nat \<Rightarrow> nat \<Rightarrow> uint8 list" where
  "obj m p n = read_bytes (\<lambda>j. m (p + j)) n"

text \<open>The stored elements, oldest first.\<close>

definition Queue_items :: "'a Queue_t_scheme \<Rightarrow> (nat \<Rightarrow> uint8) \<Rightarrow> uint8 list list" where
  "Queue_items q m =
     map (\<lambda>i. obj m (slot_addr q ((tail_slot q + i) mod unat (max_count q))) (dataSize q))
       [0..<unat (count q)]"

text \<open>The control structure after storing and after removing an element.\<close>

definition push_upd :: "'a Queue_t_scheme \<Rightarrow> 'a Queue_t_scheme" where
  "push_upd q = q\<lparr>head := (if head q + dataSize q = bufEnd q then bufStart q else head q + dataSize q),
                  count := count q + 1\<rparr>"

definition pop_upd :: "'a Queue_t_scheme \<Rightarrow> 'a Queue_t_scheme" where
  "pop_upd q = q\<lparr>tail := (if tail q + dataSize q = bufEnd q then bufStart q else tail q + dataSize q),
                 count := count q - 1\<rparr>"

lemma ring_tail_slot: "ring q t \<Longrightarrow> tail_slot q = t"
  by (simp add: ring_def tail_slot_def slot_addr_def)

lemma Queue_wf_ring: "Queue_wf q \<Longrightarrow> ring q (tail_slot q)"
  by (auto simp: Queue_wf_def ring_tail_slot)

lemma Queue_wfI: "isInit q \<Longrightarrow> ring q t \<Longrightarrow> Queue_wf q"
  by (auto simp: Queue_wf_def ring_def)

lemma slot_addr_Suc: "slot_addr q (Suc i) = slot_addr q i + dataSize q"
  by (simp add: slot_addr_def)

lemma slot_addr_eq_iff: "0 < dataSize q \<Longrightarrow> slot_addr q i = slot_addr q j \<longleftrightarrow> i = j"
  by (simp add: slot_addr_def)

lemma mod_Suc_wrap: "i < n \<Longrightarrow> Suc i mod n = (if Suc i = n then 0 else Suc i)" for i n :: nat
  by auto

text \<open>Moving an index pointer to the next slot, as the code does it.\<close>

lemma next_slot:
  assumes "0 < dataSize q" and "i < n" and "bufEnd q = slot_addr q n"
  shows "(if slot_addr q i + dataSize q = bufEnd q then bufStart q else slot_addr q i + dataSize q)
       = slot_addr q (Suc i mod n)"
  unfolding slot_addr_Suc [symmetric] assms(3) slot_addr_eq_iff [OF assms(1)]
  using assms(2) by (simp add: mod_Suc_wrap slot_addr_def [of q 0])

lemma count_inc: "count q \<le> max_count q \<Longrightarrow> count q \<noteq> max_count q \<Longrightarrow>
    unat (count q + 1) = unat (count q) + 1 \<and> unat (count q) < unat (max_count q)"
proof -
  assume "count q \<le> max_count q" "count q \<noteq> max_count q"
  then have "count q < max_count q" by simp
  then have "unat (count q) < unat (max_count q)" by (simp add: word_less_nat_alt)
  then show ?thesis
    using unat_uint8_less [of "max_count q"] by (simp add: unat_word_ariths)
qed

lemma count_dec: "c \<noteq> 0 \<Longrightarrow> unat (c - 1) = unat c - 1 \<and> 0 < unat c" for c :: uint8
  by (simp add: unat_minus_one unat_gt_0)

lemma ring_push_upd:
  assumes r: "ring q t" and room: "count q \<noteq> max_count q"
  shows "ring (push_upd q) t"
proof -
  let ?n = "unat (max_count q)"
  have c: "unat (count q + 1) = unat (count q) + 1" "unat (count q) < ?n"
    using count_inc [of q] r room by (simp_all add: ring_def)
  have n: "0 < ?n" using c by simp
  have h: "head q = slot_addr q ((t + unat (count q)) mod ?n)" "bufEnd q = slot_addr q ?n"
      "0 < dataSize q"
    using r by (simp_all add: ring_def)
  have "(if head q + dataSize q = bufEnd q then bufStart q else head q + dataSize q)
      = slot_addr q (Suc ((t + unat (count q)) mod ?n) mod ?n)"
    unfolding h(1) by (rule next_slot) (use h n in simp_all)
  also have "Suc ((t + unat (count q)) mod ?n) mod ?n = (t + unat (count q + 1)) mod ?n"
    by (simp add: c mod_Suc_eq)
  finally show ?thesis
    using r c by (simp add: ring_def push_upd_def slot_addr_def word_le_nat_alt)
qed

lemma ring_pop_upd:
  assumes r: "ring q t" and ne: "count q \<noteq> 0"
  shows "ring (pop_upd q) (Suc t mod unat (max_count q))"
proof -
  let ?n = "unat (max_count q)"
  have c: "unat (count q - 1) = unat (count q) - 1" "0 < unat (count q)"
    using count_dec [OF ne] by simp_all
  have h: "tail q = slot_addr q t" "bufEnd q = slot_addr q ?n" "0 < dataSize q" "t < ?n"
    using r by (simp_all add: ring_def)
  have tl: "(if tail q + dataSize q = bufEnd q then bufStart q else tail q + dataSize q)
      = slot_addr q (Suc t mod ?n)"
    unfolding h(1) by (rule next_slot) (use h in simp_all)
  obtain k where "unat (count q) = Suc k" using c(2) by (cases "unat (count q)") auto
  then have "(Suc t mod ?n + (unat (count q) - 1)) mod ?n = (t + unat (count q)) mod ?n"
    by (simp add: mod_add_left_eq)
  moreover have "count q - 1 \<le> max_count q"
    using r by (auto simp: ring_def word_le_nat_alt c(1))
  ultimately show ?thesis
    using r c tl h by (simp add: ring_def pop_upd_def slot_addr_def)
qed

lemma mod_add_apart:
  fixes t i c n :: nat
  assumes "i < c" and "c < n"
  shows "(t + i) mod n \<noteq> (t + c) mod n"
proof
  assume "(t + i) mod n = (t + c) mod n"
  then have "n dvd (t + c) - (t + i)" using assms by (intro mod_eq_dvd_iff_nat [THEN iffD1]) simp_all
  then show False using assms by (auto dest: dvd_imp_le)
qed

lemma slot_apart:
  fixes h i j d :: nat
  assumes "i \<noteq> h" and "j < d"
  shows "\<not> (h * d \<le> i * d + j \<and> i * d + j < h * d + d)"
proof (cases "i < h")
  case True
  then have "Suc i * d \<le> h * d" by (intro mult_le_mono1) simp
  then show ?thesis using assms by simp
next
  case False
  then have "Suc h * d \<le> i * d" using assms by (intro mult_le_mono1) simp
  then show ?thesis using assms by simp
qed

lemma slot_in_buffer:
  assumes "ring q t" and "i < unat (max_count q)" and "j < dataSize q"
  shows "in_buffer q (slot_addr q i + j)"
proof -
  have "i * dataSize q + j < Suc i * dataSize q" using assms(3) by simp
  also have "\<dots> \<le> unat (max_count q) * dataSize q"
    using assms(2) by (intro mult_le_mono1) simp
  finally show ?thesis using assms(1) by (simp add: in_buffer_def ring_def slot_addr_def)
qed

lemma obj_cong: "(\<And>j. j < n \<Longrightarrow> m (p + j) = m' (p' + j)) \<Longrightarrow> obj m p n = obj m' p' n"
  unfolding obj_def by (rule read_bytes_cong)

lemma mem_MEMCPY:
  "mem (MEMCPY dst src n s) a = (if dst \<le> a \<and> a < dst + n then mem s (src + (a - dst)) else mem s a)"
  by (simp add: MEMCPY_def)

lemma obj_MEMCPY_same: "obj (mem (MEMCPY dst src n s)) dst n = obj (mem s) src n"
  by (rule obj_cong) (simp add: mem_MEMCPY)

lemma obj_MEMCPY_other:
  assumes "i \<noteq> h"
  shows "obj (mem (MEMCPY (slot_addr q h) src (dataSize q) s)) (slot_addr q i) (dataSize q)
       = obj (mem s) (slot_addr q i) (dataSize q)"
  by (rule obj_cong) (use slot_apart [OF assms] in \<open>auto simp: mem_MEMCPY slot_addr_def\<close>)

text \<open>Memory outside the buffer does not matter.\<close>

lemma Queue_items_frame:
  assumes "ring q t" and "\<And>a. in_buffer q a \<Longrightarrow> m a = m' a"
  shows "Queue_items q m = Queue_items q m'"
  unfolding Queue_items_def
proof (rule map_cong [OF refl])
  fix i
  have "(tail_slot q + i) mod unat (max_count q) < unat (max_count q)"
    using assms(1) by (simp add: ring_def)
  then show "obj m (slot_addr q ((tail_slot q + i) mod unat (max_count q))) (dataSize q)
      = obj m' (slot_addr q ((tail_slot q + i) mod unat (max_count q))) (dataSize q)"
    using slot_in_buffer [OF assms(1)] assms(2) by (intro obj_cong) simp
qed

lemma MEMCPY_outside:
  assumes "outside q p" and "in_buffer q a"
  shows "mem (MEMCPY p src (dataSize q) s) a = mem s a"
  using assms by (auto simp: mem_MEMCPY outside_def in_buffer_def)

lemma Queue_items_push:
  assumes r: "ring q t" and room: "count q \<noteq> max_count q"
  shows "Queue_items (push_upd q) (mem (MEMCPY (head q) p (dataSize q) s))
       = Queue_items q (mem s) @ [obj (mem s) p (dataSize q)]"
proof -
  let ?n = "unat (max_count q)" and ?c = "unat (count q)"
  let ?m = "mem (MEMCPY (head q) p (dataSize q) s)"
  have c: "unat (count q + 1) = ?c + 1" "?c < ?n"
    using count_inc [of q] r room by (simp_all add: ring_def)
  have t: "tail_slot q = t" "tail_slot (push_upd q) = t" "t < ?n"
    using ring_tail_slot [OF r] ring_tail_slot [OF ring_push_upd [OF r room]] r
    by (simp_all add: ring_def)
  have h: "head q = slot_addr q ((t + ?c) mod ?n)" using r by (simp add: ring_def)
  have sl: "slot_addr (push_upd q) i = slot_addr q i" for i
    by (simp add: slot_addr_def push_upd_def)
  have "obj ?m (slot_addr q ((t + i) mod ?n)) (dataSize q)
      = obj (mem s) (slot_addr q ((t + i) mod ?n)) (dataSize q)" if "i < ?c" for i
  proof -
    have "(t + i) mod ?n \<noteq> (t + ?c) mod ?n" using that c(2) by (rule mod_add_apart)
    then show ?thesis unfolding h by (rule obj_MEMCPY_other)
  qed
  moreover have "obj ?m (slot_addr q ((t + ?c) mod ?n)) (dataSize q) = obj (mem s) p (dataSize q)"
    unfolding h [symmetric] by (rule obj_MEMCPY_same)
  ultimately show ?thesis
    unfolding Queue_items_def t sl by (simp add: push_upd_def c)
qed

lemma Queue_items_pop:
  assumes r: "ring q t" and ne: "count q \<noteq> 0"
  shows "Queue_items q m = obj m (tail q) (dataSize q) # Queue_items (pop_upd q) m"
proof -
  let ?n = "unat (max_count q)"
  obtain k where k: "unat (count q) = Suc k" using count_dec [OF ne] by (cases "unat (count q)") auto
  have t: "tail_slot q = t" "tail_slot (pop_upd q) = Suc t mod ?n" "t < ?n" "tail q = slot_addr q t"
    using ring_tail_slot [OF r] ring_tail_slot [OF ring_pop_upd [OF r ne]] r by (simp_all add: ring_def)
  have sl: "slot_addr (pop_upd q) i = slot_addr q i" for i
    by (simp add: slot_addr_def pop_upd_def)
  have "(Suc t mod ?n + i) mod ?n = (t + Suc i) mod ?n" for i
    by (simp add: mod_add_left_eq)
  moreover have "[0..<unat (count q)] = 0 # map Suc [0..<unat (count q - 1)]"
    using count_dec [OF ne] by (simp add: k upt_conv_Cons map_Suc_upt del: upt_Suc)
  ultimately show ?thesis
    unfolding Queue_items_def t sl by (simp add: pop_upd_def t o_def)
qed

subsection \<open>The operations on a well-formed queue\<close>

lemma mem_MEMCPY_Suspend: "mem (MEMCPY d p n (SuspendOSInterrupts s)) = mem (MEMCPY d p n s)"
  by (auto simp: MEMCPY_def)

lemma Queue_Add_full:
  "isInit q \<Longrightarrow> count q = max_count q \<Longrightarrow>
   Queue_Add (Some q) (Some p) s
     = (QUEUE_E_FULL, Some (q\<lparr>bufFullFlag := True\<rparr>), ResumeOSInterrupts (SuspendOSInterrupts s))"
  by (simp add: Queue_Add_def)

lemma Queue_Add_room:
  "isInit q \<Longrightarrow> count q \<noteq> max_count q \<Longrightarrow>
   Queue_Add (Some q) (Some p) s
     = (QUEUE_E_OK, Some (push_upd q),
        ResumeOSInterrupts (MEMCPY (head q) p (dataSize q) (SuspendOSInterrupts s)))"
  by (simp add: Queue_Add_def Let_def push_upd_def)

lemma Queue_Next_empty:
  "isInit q \<Longrightarrow> count q = 0 \<Longrightarrow>
   Queue_Next (Some q) (Some p) s
     = (QUEUE_E_NO_DATA, Some q, ResumeOSInterrupts (SuspendOSInterrupts s))"
  by (simp add: Queue_Next_def)

lemma Queue_Next_data:
  "isInit q \<Longrightarrow> count q \<noteq> 0 \<Longrightarrow>
   Queue_Next (Some q) (Some p) s
     = (if bufFullFlag q then QUEUE_E_LOST_DATA else QUEUE_E_OK,
        Some ((pop_upd q)\<lparr>bufFullFlag := False\<rparr>),
        ResumeOSInterrupts (MEMCPY p (tail q) (dataSize q) (SuspendOSInterrupts s)))"
  by (simp add: Queue_Next_def Let_def pop_upd_def)

lemma ring_flag [simp]: "ring (q\<lparr>bufFullFlag := b\<rparr>) t = ring q t"
  by (simp add: ring_def slot_addr_def)

lemma items_flag [simp]: "Queue_items (q\<lparr>bufFullFlag := b\<rparr>) m = Queue_items q m"
  by (simp add: Queue_items_def slot_addr_def tail_slot_def)

lemma length_Queue_items [simp]: "length (Queue_items q m) = unat (count q)"
  by (simp add: Queue_items_def)

subsection \<open>Queue operations as steps of a client\<close>

datatype queue_op = OpAdd nat | OpNext nat | OpPeek nat | OpWrite nat uint8

text \<open>
  One step: the elements accepted, the elements delivered (read back from the client's
  object) and the new state. \<open>OpWrite\<close> is a store of the client to its own memory.
\<close>

definition Queue_step :: "queue_op \<Rightarrow> Queue_t \<times> machine
    \<Rightarrow> uint8 list list \<times> uint8 list list \<times> (Queue_t \<times> machine)" where
  "Queue_step x = (\<lambda>(q, s).
     case x of
       OpAdd p \<Rightarrow>
         (case Queue_Add (Some q) (Some p) s of (r, q', s') \<Rightarrow>
            (if r = QUEUE_E_OK then [obj (mem s) p (dataSize q)] else [], [], (case q' of None \<Rightarrow> q | Some q' \<Rightarrow> q'), s'))
     | OpNext p \<Rightarrow>
         (case Queue_Next (Some q) (Some p) s of (r, q', s') \<Rightarrow>
            ([], if r = QUEUE_E_OK \<or> r = QUEUE_E_LOST_DATA then [obj (mem s') p (dataSize q)] else [],
             (case q' of None \<Rightarrow> q | Some q' \<Rightarrow> q'), s'))
     | OpPeek p \<Rightarrow> (case Queue_Peek (Some q) (Some p) s of (r, s') \<Rightarrow> ([], [], q, s'))
     | OpWrite a v \<Rightarrow> ([], [], q, s\<lparr>mem := (mem s)(a := v)\<rparr>))"

text \<open>Clients pass and write objects outside the buffer.\<close>

definition Queue_client_ok :: "queue_op \<Rightarrow> Queue_t \<times> machine \<Rightarrow> bool" where
  "Queue_client_ok x = (\<lambda>(q, s).
     case x of OpAdd p \<Rightarrow> outside q p | OpNext p \<Rightarrow> outside q p | OpPeek p \<Rightarrow> outside q p
     | OpWrite a v \<Rightarrow> \<not> in_buffer q a)"

definition Queue_offers :: "queue_op \<Rightarrow> Queue_t \<times> machine \<Rightarrow> uint8 list option" where
  "Queue_offers x = (\<lambda>(q, s). case x of OpAdd p \<Rightarrow> Some (obj (mem s) p (dataSize q)) | _ \<Rightarrow> None)"

lemma Queue_items_MEMCPY_outside:
  "ring q t \<Longrightarrow> outside q p \<Longrightarrow>
     Queue_items q (mem (MEMCPY p src (dataSize q) s)) = Queue_items q (mem s)"
  by (rule Queue_items_frame) (simp_all add: MEMCPY_outside)

lemma Queue_step_Add:
  assumes "Queue_wf q"
  shows "Queue_step (OpAdd p) (q, s) =
     (if count q = max_count q
      then ([], [], q\<lparr>bufFullFlag := True\<rparr>, ResumeOSInterrupts (SuspendOSInterrupts s))
      else ([obj (mem s) p (dataSize q)], [], push_upd q,
            ResumeOSInterrupts (MEMCPY (head q) p (dataSize q) (SuspendOSInterrupts s))))"
  using assms by (simp add: Queue_step_def Queue_wf_def Queue_Add_full Queue_Add_room)

lemma Queue_step_Next:
  assumes "Queue_wf q"
  shows "Queue_step (OpNext p) (q, s) =
     (if count q = 0 then ([], [], q, ResumeOSInterrupts (SuspendOSInterrupts s))
      else ([], [obj (mem s) (tail q) (dataSize q)], (pop_upd q)\<lparr>bufFullFlag := False\<rparr>,
            ResumeOSInterrupts (MEMCPY p (tail q) (dataSize q) (SuspendOSInterrupts s))))"
  using assms
  by (simp add: Queue_step_def Queue_wf_def Queue_Next_empty Queue_Next_data mem_MEMCPY_Suspend
      obj_MEMCPY_same)

lemma Queue_step_wf:
  assumes "Queue_wf q" and "Queue_step x (q, s) = (i, d, q', s')"
  shows "Queue_wf q' \<and> max_count q' = max_count q"
proof -
  obtain t where r: "ring q t" and init: "isInit q" using assms(1) by (auto simp: Queue_wf_def)
  have upd: "isInit (push_upd q)" "isInit (pop_upd q)" "max_count (push_upd q) = max_count q"
      "max_count (pop_upd q) = max_count q"
    using init by (simp_all add: push_upd_def pop_upd_def)
  show ?thesis
  proof (cases x)
    case (OpAdd p)
    then show ?thesis
      using assms upd Queue_wfI [OF upd(1) ring_push_upd [OF r]] Queue_wfI [of "q\<lparr>bufFullFlag := True\<rparr>"]
        r init by (auto simp: Queue_step_Add split: if_splits)
  next
    case (OpNext p)
    then show ?thesis
      using assms upd ring_pop_upd [OF r] Queue_wfI [of "(pop_upd q)\<lparr>bufFullFlag := False\<rparr>"]
      by (auto simp: Queue_step_Next split: if_splits)
  qed (use assms in \<open>auto simp: Queue_step_def split: prod.splits\<close>)
qed

lemma outside_push [simp]: "outside (push_upd q) = outside q" "in_buffer (push_upd q) = in_buffer q"
  by (auto simp: fun_eq_iff outside_def in_buffer_def push_upd_def)

lemma pop_upd_sel [simp]: "dataSize (pop_upd q) = dataSize q" "outside (pop_upd q) = outside q"
  by (auto simp: fun_eq_iff outside_def pop_upd_def)

interpretation queue: bounded_fifo
  "\<lambda>(q, s). Queue_wf q" "\<lambda>(q, s). Queue_items q (mem s)" "\<lambda>(q, s). unat (max_count q)"
  Queue_client_ok Queue_offers "\<lambda>x. \<exists>p. x = OpNext p" Queue_step
proof (unfold_locales, goal_cases)
  case (1 s x)
  then show ?case
    by (cases s; cases "Queue_step x s") (auto dest: Queue_step_wf)
next
  case (2 s x)
  then show ?case
    by (cases s; cases "Queue_step x s") (auto dest: Queue_step_wf)
next
  case (3 s)
  then show ?case
    by (auto simp: Queue_wf_def ring_def word_le_nat_alt)
next
  case (4 s x e i d s')
  obtain q m where s: "s = (q, m)" by (cases s)
  obtain p where x: "x = OpAdd p" "e = obj (mem m) p (dataSize q)"
    using 4(3) by (auto simp: Queue_offers_def s split: queue_op.splits)
  obtain t where r: "ring q t" using 4(1) by (auto simp: s Queue_wf_def)
  have "count q \<noteq> max_count q \<longleftrightarrow> unat (count q) < unat (max_count q)"
    using r count_inc [of q] by (auto simp: ring_def)
  then show ?case
    using 4(1,4) Queue_items_push [OF r]
    by (auto simp: s x Queue_step_Add mem_MEMCPY_Suspend split: if_splits)
next
  case (5 s x i d s')
  obtain q m where s: "s = (q, m)" by (cases s)
  obtain p where x: "x = OpNext p" using 5(3) by auto
  obtain t where r: "ring q t" using 5(1) by (auto simp: s Queue_wf_def)
  have out: "outside q p" using 5(2) by (simp add: s x Queue_client_ok_def)
  show ?case
  proof (cases "count q = 0")
    case True
    then show ?thesis using 5(1,4) by (auto simp: s x Queue_step_Next Queue_items_def)
  next
    case False
    have "Queue_items (pop_upd q) (mem (MEMCPY p (tail q) (dataSize q) m))
        = Queue_items (pop_upd q) (mem m)"
      using Queue_items_MEMCPY_outside [OF ring_pop_upd [OF r False], of p "tail q" m] out by simp
    then show ?thesis
      using 5(1,4) False Queue_items_pop [OF r False, of "mem m"]
      by (auto simp: s x Queue_step_Next mem_MEMCPY_Suspend)
  qed
next
  case (6 s x i d s')
  obtain q m where s: "s = (q, m)" by (cases s)
  obtain t where r: "ring q t" using 6(1) by (auto simp: s Queue_wf_def)
  show ?case
  proof (cases x)
    case (OpPeek p)
    then show ?thesis
      using 6 r Queue_items_MEMCPY_outside [OF r, of p "tail q" m]
      by (auto simp: s Queue_step_def Queue_Peek_def Queue_client_ok_def Let_def mem_MEMCPY_Suspend
          split: if_splits)
  next
    case (OpWrite a v)
    have "Queue_items q ((mem m)(a := v)) = Queue_items q (mem m)"
      using 6(2) by (intro Queue_items_frame [OF r]) (auto simp: OpWrite s Queue_client_ok_def)
    then show ?thesis using 6(5) by (auto simp: OpWrite s Queue_step_def)
  qed (use 6 in \<open>auto simp: s Queue_offers_def\<close>)
qed

subsection \<open>Correctness of the queue\<close>

lemma Queue_Init_wf:
  assumes "\<not> isInit q" and "0 < mcount" and "0 < dsize"
    and "Queue_Init (Some q) (Some b) mcount dsize (Some cmp) s = (r, q', s')"
  shows "\<exists>q1. r = QUEUE_E_OK \<and> q' = Some q1 \<and> Queue_wf q1 \<and> Queue_items q1 m = []
       \<and> max_count q1 = mcount \<and> dataSize q1 = dsize \<and> bufStart q1 = b
       \<and> compare_func q1 = cmp \<and> \<not> bufFullFlag q1"
proof -
  have "0 < unat mcount" using assms(2) by (simp add: unat_gt_0 word_gt_0)
  then show ?thesis
    using assms
    by (auto simp: Queue_Init_def Let_def Queue_wf_def ring_def slot_addr_def Queue_items_def)
qed

text \<open>
  C3. First in, first out: on a queue initialised by \<open>Queue_Init\<close>, over any sequence of
  \<open>Queue_Add\<close>, \<open>Queue_Next\<close> and \<open>Queue_Peek\<close> calls and of client writes outside the
  buffer, the elements accepted so far are the elements delivered so far followed by those
  still stored, in order, and never more than \<open>max_count\<close> are stored.
\<close>

theorem Queue_is_fifo:
  assumes "\<not> isInit q" and "0 < mcount" and "0 < dsize"
    and "Queue_Init (Some q) (Some b) mcount dsize (Some cmp) s = (QUEUE_E_OK, Some q1, s1)"
    and "run_ok Queue_step Queue_client_ok ops (q1, s1)"
    and "run_ops Queue_step ops (q1, s1) = (ins, outs, q2, s2)"
  shows "ins = outs @ Queue_items q2 (mem s2) \<and> length (Queue_items q2 (mem s2)) \<le> unat mcount
       \<and> Queue_wf q2"
proof -
  have q1: "Queue_wf q1" "Queue_items q1 (mem s1) = []" "max_count q1 = mcount"
    using Queue_Init_wf [OF assms(1-4), of "mem s1"] by auto
  then show ?thesis
    using queue.run_fifo [OF _ assms(5,6)] queue.run_inv [OF _ assms(5,6)]
      queue.run_bounded [OF _ assms(5,6)]
    by simp
qed

definition demo_machine :: machine where
  "demo_machine = \<lparr>mem = (\<lambda>a. of_nat a), Os_IntDisableAllCnt = 0, Os_IntSuspendAllCnt = 0,
     irq_enabled = True\<rparr>"

definition demo_queue :: Queue_t where
  "demo_queue = \<lparr>max_count = 0, count = 0, bufFullFlag = False, isInit = False, dataSize = 0,
     head = 0, tail = 0, bufStart = 0, bufEnd = 0,
     compare_func = (\<lambda>m a b n. if obj m a n = obj m b n then 0 else 1)\<rparr>"

definition demo_init :: "Queue_t \<times> machine" where
  "demo_init = (demo_queue\<lparr>max_count := 2, isInit := True, dataSize := 2, head := 100, tail := 100,
     bufStart := 100, bufEnd := 104\<rparr>, demo_machine)"

definition demo_ops :: "queue_op list" where
  "demo_ops = [OpAdd 10, OpAdd 20, OpAdd 30, OpNext 50, OpAdd 30, OpNext 60]"

lemma demo_Init:
  "Queue_Init (Some demo_queue) (Some 100) 2 2 (Some (compare_func demo_queue)) demo_machine
     = (QUEUE_E_OK, Some (fst demo_init), snd demo_init)"
  by (simp add: Queue_Init_def demo_init_def demo_queue_def demo_machine_def SuspendOSInterrupts_def
      ResumeOSInterrupts_def Let_def)

lemma demo_run_ok: "run_ok Queue_step Queue_client_ok demo_ops demo_init"
  by code_simp

lemma demo_run:
  "(case run_ops Queue_step demo_ops demo_init of (ins, outs, q, s) \<Rightarrow>
      ins = [[10, 11], [20, 21], [30, 31]] \<and> outs = [[10, 11], [20, 21]]
      \<and> Queue_items q (mem s) = [[30, 31]])"
  by code_simp

theorem Queue_is_fifo_witness:
  "(case run_ops Queue_step demo_ops demo_init of (ins, outs, q, s) \<Rightarrow>
      ins = [[10, 11], [20, 21], [30, 31]] \<and> ins = outs @ Queue_items q (mem s))"
proof -
  obtain ins outs q s where r: "run_ops Queue_step demo_ops demo_init = (ins, outs, q, s)"
    by (metis prod_cases4)
  have "ins = outs @ Queue_items q (mem s)"
    using Queue_is_fifo [of demo_queue 2 2 100 "compare_func demo_queue" demo_machine "fst demo_init"
        "snd demo_init" demo_ops ins outs q s] demo_Init demo_run_ok r
    by (simp add: demo_queue_def)
  then show ?thesis using demo_run r by simp
qed

text \<open>
  Overflow is reported: an element offered to a full queue is refused without touching
  the stored elements, the next delivery returns the oldest element with
  \<open>QUEUE_E_LOST_DATA\<close>, and the one after it reports no loss any more.
\<close>

theorem Queue_overflow_reported:
  assumes "Queue_wf q" and "count q = max_count q" and "outside q p2" and "1 < max_count q"
    and "Queue_Add (Some q) (Some p1) s = (r1, Some q1, s1)"
    and "Queue_Next (Some q1) (Some p2) s1 = (r2, Some q2, s2)"
    and "Queue_Next (Some q2) (Some p3) s2 = (r3, Some q3, s3)"
  shows "r1 = QUEUE_E_FULL \<and> Queue_items q1 (mem s1) = Queue_items q (mem s)
       \<and> r2 = QUEUE_E_LOST_DATA
       \<and> Queue_items q (mem s) = obj (mem s2) p2 (dataSize q) # Queue_items q2 (mem s2)
       \<and> r3 = QUEUE_E_OK"
proof -
  obtain t where r: "ring q t" and init: "isInit q" using assms(1) by (auto simp: Queue_wf_def)
  have ne: "count q \<noteq> 0" "count q - 1 \<noteq> 0" using assms(2,4) by auto
  have 1: "r1 = QUEUE_E_FULL" "q1 = q\<lparr>bufFullFlag := True\<rparr>" "mem s1 = mem s"
    using assms(2,5) init by (auto simp: Queue_Add_full)
  have 2: "r2 = QUEUE_E_LOST_DATA" "q2 = (pop_upd q)\<lparr>bufFullFlag := False\<rparr>"
      "mem s2 = mem (MEMCPY p2 (tail q) (dataSize q) s1)"
    using assms(6) init ne by (auto simp: Queue_Next_data 1 mem_MEMCPY_Suspend pop_upd_def)
  have "r3 = QUEUE_E_OK"
    using assms(7) init ne by (auto simp: 2 Queue_Next_data pop_upd_def)
  moreover have "Queue_items (pop_upd q) (mem s2) = Queue_items (pop_upd q) (mem s)"
    using Queue_items_MEMCPY_outside [OF ring_pop_upd [OF r ne(1)], of p2 "tail q" s1] assms(3)
    by (simp add: 2 1)
  moreover have "obj (mem s2) p2 (dataSize q) = obj (mem s) (tail q) (dataSize q)"
    by (simp add: 2(3) obj_MEMCPY_same 1)
  ultimately show ?thesis
    using Queue_items_pop [OF r ne(1), of "mem s"] by (simp add: 1 2)
qed

definition demo_full :: Queue_t where
  "demo_full = (fst demo_init)\<lparr>count := 2\<rparr>"

lemma demo_full_wf: "Queue_wf demo_full"
  by code_simp

theorem Queue_overflow_reported_witness:
  "\<exists>q1 s1 q2 s2. Queue_Add (Some demo_full) (Some 30) demo_machine = (QUEUE_E_FULL, Some q1, s1)
     \<and> Queue_Next (Some q1) (Some 50) s1 = (QUEUE_E_LOST_DATA, Some q2, s2)
     \<and> fst (Queue_Next (Some q2) (Some 60) s2) = QUEUE_E_OK"
proof -
  obtain r1 q1 s1 r2 q2 s2 r3 q3 s3 where
    r: "Queue_Add (Some demo_full) (Some 30) demo_machine = (r1, Some q1, s1)"
      "Queue_Next (Some q1) (Some 50) s1 = (r2, Some q2, s2)"
      "Queue_Next (Some q2) (Some 60) s2 = (r3, Some q3, s3)"
    by (simp add: Queue_Add_def Queue_Next_def Let_def demo_full_def demo_init_def demo_queue_def)
  have "outside demo_full 50" "count demo_full = max_count demo_full" "1 < max_count demo_full"
    by (simp_all add: outside_def demo_full_def demo_init_def demo_queue_def)
  then have "r1 = QUEUE_E_FULL \<and> r2 = QUEUE_E_LOST_DATA \<and> r3 = QUEUE_E_OK"
    using Queue_overflow_reported [OF demo_full_wf _ _ _ r] by simp
  then show ?thesis using r by simp
qed

lemma Contains_loop_iff:
  "Queue_Contains_loop cmp m p sz n iter =
     (if \<exists>i<n. cmp m (iter + i * sz) p sz = 0 then QUEUE_E_TRUE else QUEUE_E_FALSE)"
proof (induction n arbitrary: iter)
  case (Suc n)
  have "(\<exists>i<Suc n. cmp m (iter + i * sz) p sz = 0) \<longleftrightarrow>
      cmp m iter p sz = 0 \<or> (\<exists>i<n. cmp m (iter + sz + i * sz) p sz = 0)"
    by (simp add: Ex_less_Suc2 add.assoc)
  then show ?case using Suc by auto
qed simp

text \<open>
  Membership: as long as the stored elements do not wrap around the end of the buffer,
  \<open>Queue_Contains\<close> answers \<open>QUEUE_E_TRUE\<close> exactly when an element equal to the client's
  object is stored, for a compare function that returns 0 exactly on equal objects.
\<close>

theorem Queue_Contains_unwrapped:
  assumes "Queue_wf q" and "count q \<noteq> 0"
    and cmp: "\<And>m a b n. compare_func q m a b n = 0 \<longleftrightarrow> obj m a n = obj m b n"
    and "tail_slot q + unat (count q) \<le> unat (max_count q)"
  shows "fst (Queue_Contains (Some q) (Some p) s) = QUEUE_E_TRUE
       \<longleftrightarrow> obj (mem s) p (dataSize q) \<in> set (Queue_items q (mem s))"
proof -
  have r: "ring q (tail_slot q)" using assms(1) by (rule Queue_wf_ring)
  have "slot_addr q ((tail_slot q + i) mod unat (max_count q)) = tail q + i * dataSize q"
    if "i < unat (count q)" for i
    using that assms(4) r by (simp add: ring_def slot_addr_def algebra_simps)
  then have "set (Queue_items q (mem s))
      = {obj (mem s) (tail q + i * dataSize q) (dataSize q) | i. i < unat (count q)}"
    by (force simp: Queue_items_def)
  then show ?thesis
    using assms(1,2) by (auto simp: Queue_Contains_def Queue_wf_def Contains_loop_iff cmp)
qed

definition demo_wrapped :: "Queue_t \<times> machine" where
  "demo_wrapped = snd (snd (run_ops Queue_step [OpAdd 10, OpAdd 20, OpNext 50, OpAdd 30] demo_init))"

theorem Queue_Contains_unwrapped_witness:
  "Queue_wf demo_full
   \<and> (fst (Queue_Contains (Some demo_full) (Some 10) demo_machine) = QUEUE_E_TRUE
      \<longleftrightarrow> obj (mem demo_machine) 10 2 \<in> set (Queue_items demo_full (mem demo_machine)))"
proof -
  have "compare_func demo_full m a b n = 0 \<longleftrightarrow> obj m a n = obj m b n" for m a b n
    by (simp add: demo_full_def demo_init_def demo_queue_def)
  moreover have "count demo_full \<noteq> 0" "dataSize demo_full = 2"
    "tail_slot demo_full + unat (count demo_full) \<le> unat (max_count demo_full)"
    by (simp_all add: tail_slot_def demo_full_def demo_init_def demo_queue_def)
  ultimately show ?thesis
    using Queue_Contains_unwrapped [OF demo_full_wf, of 10 demo_machine] demo_full_wf by simp
qed

text \<open>
  The iterator of \<open>Queue_Contains\<close> is not wrapped at \<open>bufEnd\<close>: in a state reached from
  \<open>Queue_Init\<close> by permitted operations, an element that is stored is reported as absent,
  because the loop leaves the buffer instead of continuing at its start.
\<close>

theorem Queue_Contains_misses_wrapped:
  "run_ok Queue_step Queue_client_ok [OpAdd 10, OpAdd 20, OpNext 50, OpAdd 30] demo_init
   \<and> Queue_wf (fst demo_wrapped)
   \<and> obj (mem (snd demo_wrapped)) 30 2 \<in> set (Queue_items (fst demo_wrapped) (mem (snd demo_wrapped)))
   \<and> fst (Queue_Contains (Some (fst demo_wrapped)) (Some 30) (snd demo_wrapped)) = QUEUE_E_FALSE
   \<and> tail (fst demo_wrapped) + dataSize (fst demo_wrapped) = bufEnd (fst demo_wrapped)"
  by code_simp

text \<open>
  Every call of the queue, on every path, leaves the interrupt suspension count as it
  found it (below its maximum), and the error paths for NULL pointers and uninitialised
  queues change neither the queue nor the memory.
\<close>

theorem Queue_calls_balanced:
  assumes "Os_IntSuspendAllCnt s + 1 \<noteq> 0"
  shows "Os_IntSuspendAllCnt (snd (snd (Queue_Init q b n d c s))) = Os_IntSuspendAllCnt s
    \<and> Os_IntSuspendAllCnt (snd (snd (Queue_Add q p s))) = Os_IntSuspendAllCnt s
    \<and> Os_IntSuspendAllCnt (snd (snd (Queue_Next q p s))) = Os_IntSuspendAllCnt s
    \<and> Os_IntSuspendAllCnt (snd (Queue_Peek q p s)) = Os_IntSuspendAllCnt s
    \<and> Os_IntSuspendAllCnt (snd (Queue_Contains q p s)) = Os_IntSuspendAllCnt s
    \<and> (\<forall>r q' s'. r \<in> {QUEUE_E_NULL, QUEUE_E_NO_INIT, QUEUE_E_ALREADY_INIT, QUEUE_E_NO_DATA} \<longrightarrow>
         Queue_Init q b n d c s = (r, q', s') \<or> Queue_Add q p s = (r, q', s')
           \<or> Queue_Next q p s = (r, q', s') \<longrightarrow> q' = q \<and> mem s' = mem s)"
proof -
  have b: "Os_IntSuspendAllCnt (ResumeOSInterrupts (SuspendOSInterrupts s)) = Os_IntSuspendAllCnt s"
    using assms by (simp add: Resume_Suspend)
  have m: "Os_IntSuspendAllCnt (ResumeOSInterrupts (MEMCPY x y z (SuspendOSInterrupts s)))
      = Os_IntSuspendAllCnt s" for x y z
    using assms by (simp add: MEMCPY_def SuspendOSInterrupts_def ResumeOSInterrupts_def Let_def)
  note ops = Queue_Init_def Queue_Add_def Queue_Next_def Queue_Peek_def Queue_Contains_def
  show ?thesis
    by (intro conjI) (auto simp: ops b m Let_def split: option.splits if_splits)
qed

theorem Queue_calls_balanced_witness:
  "Os_IntSuspendAllCnt demo_machine + 1 \<noteq> 0
   \<and> Os_IntSuspendAllCnt (snd (snd (Queue_Add (Some demo_full) (Some 10) demo_machine))) = 0"
  using Queue_calls_balanced [of demo_machine] by (simp add: demo_machine_def)

end
