(* ===== verification/Crc_Lib.thy ===== *)
theory Crc_Lib
  imports Prelude
begin

text \<open>
  The algebra behind the CRC library: one step of the modulo-2 division is a linear,
  injective map on words, and a byte-wise table loop is correct for it as soon as its table
  holds the eight-fold step of every byte. The two locales state exactly that; theory \<open>Crc\<close>
  interprets them on the code's divisions and tables.
\<close>

subsection \<open>Division steps\<close>

text \<open>One division step, most significant bit first, and its reflected form.\<close>

definition msb_step :: "'a::len word \<Rightarrow> 'a word \<Rightarrow> 'a word" where
  "msb_step poly r = (if bit r (LENGTH('a) - 1) then push_bit 1 r XOR poly else push_bit 1 r)"

definition lsb_step :: "'a::len word \<Rightarrow> 'a word \<Rightarrow> 'a word" where
  "lsb_step poly r = (if bit r 0 then drop_bit 1 r XOR poly else drop_bit 1 r)"

lemma bit_push_1: "n < LENGTH('a) \<Longrightarrow> bit (push_bit 1 r) n \<longleftrightarrow> 0 < n \<and> bit r (n - 1)"
  for r :: "'a::len word"
  unfolding bit_push_bit_iff by auto

lemma bit_msb_step:
  "n < LENGTH('a) \<Longrightarrow> bit (msb_step poly r) n =
     ((0 < n \<and> bit r (n - 1)) \<noteq> (bit r (LENGTH('a) - 1) \<and> bit poly n))"
  for r :: "'a::len word"
  unfolding msb_step_def by (simp only: if_distrib bit_xor_iff bit_push_1 split: if_split) auto

lemma bit_lsb_step:
  "n < LENGTH('a) \<Longrightarrow> bit (lsb_step poly r) n =
     ((Suc n < LENGTH('a) \<and> bit r (Suc n)) \<noteq> (bit r 0 \<and> bit poly n))"
  for r :: "'a::len word"
  using bit_imp_le_length [of r "Suc n"]
  by (auto simp: lsb_step_def bit_simps not_less)

lemma msb_step_xor: "msb_step poly (x XOR y) = msb_step poly x XOR msb_step poly y"
  by (rule bit_word_eqI) (auto simp: bit_msb_step bit_xor_iff)

lemma lsb_step_xor: "lsb_step poly (x XOR y) = lsb_step poly x XOR lsb_step poly y"
  by (rule bit_word_eqI) (auto simp: bit_lsb_step bit_xor_iff)

text \<open>A division by a polynomial with a constant term loses no information.\<close>

lemma msb_step_inj:
  fixes x y poly :: "'a::len word"
  assumes poly: "bit poly 0" and eq: "msb_step poly x = msb_step poly y"
  shows "x = y"
proof (rule bit_word_eqI)
  fix n :: nat
  assume n: "n < LENGTH('a)"
  have bits: "bit (msb_step poly x) k = bit (msb_step poly y) k" for k
    using eq by simp
  have top: "bit x (LENGTH('a) - 1) = bit y (LENGTH('a) - 1)"
    using bits [of 0] poly by (simp add: bit_msb_step)
  show "bit x n = bit y n"
  proof (cases "Suc n < LENGTH('a)")
    case True
    then show ?thesis using bits [of "Suc n"] top by (auto simp: bit_msb_step)
  next
    case False
    then have "n = LENGTH('a) - 1" using n by simp
    then show ?thesis using top by simp
  qed
qed

lemma lsb_step_inj:
  fixes x y poly :: "'a::len word"
  assumes poly: "bit poly (LENGTH('a) - 1)" and eq: "lsb_step poly x = lsb_step poly y"
  shows "x = y"
proof (rule bit_word_eqI)
  fix n :: nat
  assume n: "n < LENGTH('a)"
  have bits: "bit (lsb_step poly x) k = bit (lsb_step poly y) k" for k
    using eq by simp
  have low: "bit x 0 = bit y 0"
    using bits [of "LENGTH('a) - 1"] poly by (simp add: bit_lsb_step)
  show "bit x n = bit y n"
  proof (cases n)
    case 0
    then show ?thesis using low by simp
  next
    case (Suc m)
    then show ?thesis using bits [of m] low n by (auto simp: bit_lsb_step)
  qed
qed

text \<open>Bits that do not reach the end of the register are only shifted.\<close>

lemma msb_step_pow_shift:
  fixes x :: "'a::len word"
  assumes "\<And>k. LENGTH('a) \<le> k + n \<Longrightarrow> \<not> bit x k"
  shows "(msb_step poly ^^ n) x = push_bit n x"
  using assms
proof (induction n)
  case 0
  then show ?case by simp
next
  case (Suc n)
  have IH: "(msb_step poly ^^ n) x = push_bit n x"
    by (rule Suc.IH) (simp add: Suc.prems)
  have "\<not> bit (push_bit n x) (LENGTH('a) - 1)"
    using Suc.prems [of "LENGTH('a) - 1 - n"] by (auto simp: bit_simps)
  then have "msb_step poly (push_bit n x) = push_bit 1 (push_bit n x)"
    by (simp only: msb_step_def if_False)
  then show ?case using IH by (simp only: funpow.simps o_apply push_bit_push_bit plus_1_eq_Suc)
qed

lemma lsb_step_pow_shift:
  fixes x :: "'a::len word"
  assumes "\<And>k. k < n \<Longrightarrow> \<not> bit x k"
  shows "(lsb_step poly ^^ n) x = drop_bit n x"
  using assms
proof (induction n)
  case 0
  then show ?case by simp
next
  case (Suc n)
  then have "(lsb_step poly ^^ n) x = drop_bit n x" by simp
  moreover have "lsb_step poly (drop_bit n x) = drop_bit 1 (drop_bit n x)"
    using Suc.prems [of n] by (simp add: lsb_step_def bit_simps)
  ultimately show ?case by (simp only: funpow.simps o_apply drop_bit_drop_bit plus_1_eq_Suc)
qed

subsection \<open>Table-driven division\<close>

text \<open>
  Doubling a list of table entries by one more basis element: how a table over all bytes is
  generated by the entries of the eight single-bit bytes.
\<close>

definition dbl :: "'a::len word list \<Rightarrow> 'a word \<Rightarrow> 'a word list" where
  "dbl L c = L @ map (\<lambda>v. v XOR c) L"

lemma linear_table:
  fixes f :: "uint8 \<Rightarrow> 'a::len word"
  assumes linear: "\<And>x y. f (x XOR y) = f x XOR f y" and "k \<le> 8"
  shows "map (\<lambda>i. f (of_nat i)) [0..<2 ^ k] = foldl dbl [0] (map (\<lambda>j. f (2 ^ j)) [0..<k])"
  using \<open>k \<le> 8\<close>
proof (induction k)
  case 0
  have "f 0 = 0" using linear [of 0 0] by simp
  then show ?case by simp
next
  case (Suc k)
  let ?L = "map (\<lambda>i. f (of_nat i)) [0..<2 ^ k]"
  have "[0..<2 ^ Suc k] = [0..<2 ^ k] @ map (\<lambda>i. i + 2 ^ k) [0..<2 ^ k]"
    using upt_add_eq_append [of 0 "2 ^ k" "2 ^ k"] by (simp add: map_add_upt mult_2)
  then have "map (\<lambda>i. f (of_nat i)) [0..<2 ^ Suc k]
      = ?L @ map (\<lambda>i. f (of_nat (i + 2 ^ k))) [0..<2 ^ k]"
    by (simp only: map_append map_map o_def)
  also have "map (\<lambda>i. f (of_nat (i + 2 ^ k))) [0..<2 ^ k] = map (\<lambda>v. v XOR f (2 ^ k)) ?L"
    unfolding map_map o_def
    by (rule map_cong [OF refl]) (simp only: of_nat_add_exp linear set_upt atLeastLessThan_iff)
  finally show ?case using Suc by (simp add: dbl_def)
qed

text \<open>
  The contract of a division: every step is linear and injective. \<open>inject\<close> brings a byte
  into the register.
\<close>

locale crc_division =
  fixes step :: "'a::len word \<Rightarrow> 'a word"
    and inject :: "uint8 \<Rightarrow> 'a word"
  assumes step_xor: "step (x XOR y) = step x XOR step y"
    and step_inj: "step x = step y \<Longrightarrow> x = y"
    and inject_xor: "inject (b XOR c) = inject b XOR inject c"
    and inject_inj: "inject b = inject c \<Longrightarrow> b = c"
begin

definition byte_step :: "'a word \<Rightarrow> uint8 \<Rightarrow> 'a word" where
  "byte_step r b = (step ^^ 8) (r XOR inject b)"

lemma pow_xor: "(step ^^ n) (x XOR y) = (step ^^ n) x XOR (step ^^ n) y"
  by (induction n) (simp_all add: step_xor)

lemma pow_inj: "(step ^^ n) x = (step ^^ n) y \<Longrightarrow> x = y"
proof (induction n)
  case 0
  then show ?case by simp
next
  case (Suc n)
  then have "(step ^^ n) x = (step ^^ n) y" by (auto intro: step_inj)
  then show ?case by (rule Suc.IH)
qed

lemma xor_right_inj: "r XOR x = r XOR y \<longleftrightarrow> x = y" for r x y :: "'a word"
proof
  assume "r XOR x = r XOR y"
  then have "r XOR (r XOR x) = r XOR (r XOR y)" by simp
  then show "x = y" by (simp flip: xor.assoc)
qed simp

lemma byte_step_inj_left: "byte_step r b = byte_step r' b \<Longrightarrow> r = r'"
  unfolding byte_step_def xor.commute [of r] xor.commute [of r']
  by (drule pow_inj) (simp add: xor_right_inj)

lemma byte_step_inj_right: "byte_step r b = byte_step r c \<Longrightarrow> b = c"
  unfolding byte_step_def
  by (drule pow_inj) (simp add: xor_right_inj inject_inj)

text \<open>A changed byte changes the remainder, whatever precedes and follows it.\<close>

lemma one_byte_detected:
  assumes "foldl byte_step s (bs @ b # cs) = foldl byte_step s (bs @ c # cs)"
  shows "b = c"
proof -
  let ?r = "foldl byte_step s bs"
  have "foldl byte_step (byte_step ?r b) cs = foldl byte_step (byte_step ?r c) cs"
    using assms by simp
  then have "byte_step ?r b = byte_step ?r c"
    by (rule foldl_inj [rotated]) (rule byte_step_inj_left)
  then show ?thesis by (rule byte_step_inj_right)
qed

lemma one_byte_detected_update:
  assumes "j < length bs" and "v \<noteq> bs ! j"
  shows "foldl byte_step s (bs[j := v]) \<noteq> foldl byte_step s bs"
proof
  assume "foldl byte_step s (bs[j := v]) = foldl byte_step s bs"
  then have "foldl byte_step s (take j bs @ v # drop (Suc j) bs)
    = foldl byte_step s (take j bs @ bs ! j # drop (Suc j) bs)"
    using assms(1) by (simp add: upd_conv_take_nth_drop flip: id_take_nth_drop)
  then have "v = bs ! j" by (rule one_byte_detected)
  with assms(2) show False ..
qed

lemma one_byte_detected_read:
  assumes "k < n" and "p k \<noteq> q k" and same: "\<And>i. i \<noteq> k \<Longrightarrow> p i = q i"
  shows "foldl byte_step s (read_bytes p n) \<noteq> foldl byte_step s (read_bytes q n)"
proof
  assume eq: "foldl byte_step s (read_bytes p n) = foldl byte_step s (read_bytes q n)"
  have pre: "read_bytes p k = read_bytes q k"
    by (rule read_bytes_cong) (simp add: same)
  have suf: "read_bytes (\<lambda>i. p (Suc k + i)) (n - Suc k) = read_bytes (\<lambda>i. q (Suc k + i)) (n - Suc k)"
    by (rule read_bytes_cong) (simp add: same)
  have "p k = q k"
    using eq unfolding read_bytes_split [OF \<open>k < n\<close>, of p] read_bytes_split [OF \<open>k < n\<close>, of q] pre suf
    by (rule one_byte_detected)
  with \<open>p k \<noteq> q k\<close> show False ..
qed

end

text \<open>
  The contract of a table loop for a division: \<open>index\<close> is the byte the table is entered
  with, \<open>shift\<close> what stays of the register, and entry \<open>i\<close> of the table is the eight-fold
  step of the injected byte \<open>i\<close>.
\<close>

locale crc_table = crc_division step inject
  for step :: "'a::len word \<Rightarrow> 'a word" and inject :: "uint8 \<Rightarrow> 'a word" +
  fixes index :: "'a word \<Rightarrow> uint8"
    and shift :: "'a word \<Rightarrow> 'a word"
    and tab :: "'a word list"
  assumes pow8_split: "(step ^^ 8) x = shift x XOR (step ^^ 8) (inject (index x))"
    and index_inject: "index (x XOR inject b) = index x XOR b"
    and shift_inject: "shift (x XOR inject b) = shift x"
    and tab_basis: "tab = foldl dbl [0] (map (\<lambda>j. (step ^^ 8) (inject (2 ^ j))) [0..<8])"
begin

definition table_step :: "'a word \<Rightarrow> uint8 \<Rightarrow> 'a word" where
  "table_step r b = shift r XOR tab ! unat (index r XOR b)"

lemma tab_nth: "tab ! unat b = (step ^^ 8) (inject b)"
proof -
  have "map (\<lambda>i. (step ^^ 8) (inject (of_nat i))) [0..<2 ^ 8] = tab"
    unfolding tab_basis by (rule linear_table) (simp_all add: inject_xor pow_xor)
  then have "tab ! unat b = map (\<lambda>i. (step ^^ 8) (inject (of_nat i))) [0..<2 ^ 8] ! unat b"
    by simp
  also have "\<dots> = (step ^^ 8) (inject b)"
    using unat_uint8_less [of b] by (subst nth_map) simp_all
  finally show ?thesis .
qed

theorem table_step_eq: "table_step r b = byte_step r b"
  unfolding table_step_def byte_step_def tab_nth
  by (subst (2) pow8_split) (simp add: index_inject shift_inject)

lemma table_loop_eq: "foldl table_step s bs = foldl byte_step s bs"
  by (induction bs arbitrary: s) (simp_all add: table_step_eq)

end

end
