(* ===== verification/Crc.thy ===== *)
theory Crc
  imports Crc_Lib
begin

text \<open>
  The CRC library, safety_security/SafeLib/Crc/src: Crc_8.c, Crc_16.c, Crc_32.c and
  Crc_32P4.c. Every routine exists in a runtime variant (bitwise division) and in a table
  variant, chosen at compile time by \<open>Crc_8_Mode\<close>, \<open>Crc_8_8H2FMode\<close>, \<open>Crc_16_Mode\<close>,
  \<open>Crc_32_Mode\<close> and \<open>Crc_32P4_Mode\<close>; here the mode is an argument. A data pointer is
  \<open>None\<close> for NULL, and otherwise the bytes found from that address on. The \<open>for\<close> loops
  over a byte counter recurse on the number of bytes already processed.

  Shown: the table variants compute what the runtime variants compute, for every input; a
  calculation may be split over several calls; a change confined to one byte of the data is
  always visible in the result; a NULL pointer gives 0.
\<close>

datatype Crc_Mode = CRC_RUNTIME | CRC_TABLE

subsection \<open>Crc\_8.c\<close>

text \<open>The inner loop of \<open>calculateCRC8\<close>: \<open>bit\<close> counts down from 8.\<close>

primrec calculateCRC8_bits :: "nat \<Rightarrow> uint8 \<Rightarrow> uint8 \<Rightarrow> uint8" where
  "calculateCRC8_bits 0 poly remainder = remainder"
| "calculateCRC8_bits (Suc i) poly remainder =
     calculateCRC8_bits i poly
       (if remainder AND 0x80 \<noteq> 0 then push_bit 1 remainder XOR poly else push_bit 1 remainder)"

primrec calculateCRC8_bytes :: "byte_ptr \<Rightarrow> uint8 \<Rightarrow> uint8 \<Rightarrow> nat \<Rightarrow> uint8" where
  "calculateCRC8_bytes message poly start 0 = start"
| "calculateCRC8_bytes message poly start (Suc byte) =
     calculateCRC8_bits 8 poly (calculateCRC8_bytes message poly start byte XOR message byte)"

definition calculateCRC8 :: "byte_ptr option \<Rightarrow> uint32 \<Rightarrow> uint8 \<Rightarrow> uint8 \<Rightarrow> uint8" where
  "calculateCRC8 message nBytes start poly =
     (case message of None \<Rightarrow> start
      | Some p \<Rightarrow> calculateCRC8_bytes p poly start (unat nBytes))"

definition Crc_8_Polynomial :: uint8 where "Crc_8_Polynomial = 0x1D"

definition Crc_8_StartValue :: uint8 where "Crc_8_StartValue = 0xFF"

definition Crc_8_Xor :: uint8 where "Crc_8_Xor = 0xFF"

definition Crc_8_Tab :: "uint8 list" where
  "Crc_8_Tab = [
    0x00, 0x1D, 0x3A, 0x27, 0x74, 0x69, 0x4E, 0x53,
    0xE8, 0xF5, 0xD2, 0xCF, 0x9C, 0x81, 0xA6, 0xBB,
    0xCD, 0xD0, 0xF7, 0xEA, 0xB9, 0xA4, 0x83, 0x9E,
    0x25, 0x38, 0x1F, 0x02, 0x51, 0x4C, 0x6B, 0x76,
    0x87, 0x9A, 0xBD, 0xA0, 0xF3, 0xEE, 0xC9, 0xD4,
    0x6F, 0x72, 0x55, 0x48, 0x1B, 0x06, 0x21, 0x3C,
    0x4A, 0x57, 0x70, 0x6D, 0x3E, 0x23, 0x04, 0x19,
    0xA2, 0xBF, 0x98, 0x85, 0xD6, 0xCB, 0xEC, 0xF1,
    0x13, 0x0E, 0x29, 0x34, 0x67, 0x7A, 0x5D, 0x40,
    0xFB, 0xE6, 0xC1, 0xDC, 0x8F, 0x92, 0xB5, 0xA8,
    0xDE, 0xC3, 0xE4, 0xF9, 0xAA, 0xB7, 0x90, 0x8D,
    0x36, 0x2B, 0x0C, 0x11, 0x42, 0x5F, 0x78, 0x65,
    0x94, 0x89, 0xAE, 0xB3, 0xE0, 0xFD, 0xDA, 0xC7,
    0x7C, 0x61, 0x46, 0x5B, 0x08, 0x15, 0x32, 0x2F,
    0x59, 0x44, 0x63, 0x7E, 0x2D, 0x30, 0x17, 0x0A,
    0xB1, 0xAC, 0x8B, 0x96, 0xC5, 0xD8, 0xFF, 0xE2,
    0x26, 0x3B, 0x1C, 0x01, 0x52, 0x4F, 0x68, 0x75,
    0xCE, 0xD3, 0xF4, 0xE9, 0xBA, 0xA7, 0x80, 0x9D,
    0xEB, 0xF6, 0xD1, 0xCC, 0x9F, 0x82, 0xA5, 0xB8,
    0x03, 0x1E, 0x39, 0x24, 0x77, 0x6A, 0x4D, 0x50,
    0xA1, 0xBC, 0x9B, 0x86, 0xD5, 0xC8, 0xEF, 0xF2,
    0x49, 0x54, 0x73, 0x6E, 0x3D, 0x20, 0x07, 0x1A,
    0x6C, 0x71, 0x56, 0x4B, 0x18, 0x05, 0x22, 0x3F,
    0x84, 0x99, 0xBE, 0xA3, 0xF0, 0xED, 0xCA, 0xD7,
    0x35, 0x28, 0x0F, 0x12, 0x41, 0x5C, 0x7B, 0x66,
    0xDD, 0xC0, 0xE7, 0xFA, 0xA9, 0xB4, 0x93, 0x8E,
    0xF8, 0xE5, 0xC2, 0xDF, 0x8C, 0x91, 0xB6, 0xAB,
    0x10, 0x0D, 0x2A, 0x37, 0x64, 0x79, 0x5E, 0x43,
    0xB2, 0xAF, 0x88, 0x95, 0xC6, 0xDB, 0xFC, 0xE1,
    0x5A, 0x47, 0x60, 0x7D, 0x2E, 0x33, 0x14, 0x09,
    0x7F, 0x62, 0x45, 0x58, 0x0B, 0x16, 0x31, 0x2C,
    0x97, 0x8A, 0xAD, 0xB0, 0xE3, 0xFE, 0xD9, 0xC4]"

primrec Crc_8_table_loop :: "byte_ptr \<Rightarrow> uint8 \<Rightarrow> nat \<Rightarrow> uint8" where
  "Crc_8_table_loop Crc_DataPtr crc 0 = crc"
| "Crc_8_table_loop Crc_DataPtr crc (Suc byte) =
     Crc_8_Tab ! unat (Crc_8_table_loop Crc_DataPtr crc byte XOR Crc_DataPtr byte)"

definition Crc_CalculateCRC8 ::
    "Crc_Mode \<Rightarrow> byte_ptr option \<Rightarrow> uint32 \<Rightarrow> uint8 \<Rightarrow> bool \<Rightarrow> uint8" where
  "Crc_CalculateCRC8 mode Crc_DataPtr Crc_Length Crc_StartValue8 Crc_IsFirstCall =
     (case Crc_DataPtr of None \<Rightarrow> 0
      | Some p \<Rightarrow>
          (let crc = (if Crc_IsFirstCall then Crc_8_StartValue else Crc_StartValue8 XOR Crc_8_Xor);
               crc = (case mode of
                        CRC_RUNTIME \<Rightarrow> calculateCRC8 Crc_DataPtr Crc_Length crc Crc_8_Polynomial
                      | CRC_TABLE \<Rightarrow> Crc_8_table_loop p crc (unat Crc_Length))
           in crc XOR Crc_8_Xor))"

definition Crc_8_8H2FPolynomial :: uint8 where "Crc_8_8H2FPolynomial = 0x2F"

definition Crc_8_8H2FStartValue :: uint8 where "Crc_8_8H2FStartValue = 0xFF"

definition Crc_8_8H2FXor :: uint8 where "Crc_8_8H2FXor = 0xFF"

definition Crc_8_8H2FTab :: "uint8 list" where
  "Crc_8_8H2FTab = [
    0x00, 0x2F, 0x5E, 0x71, 0xBC, 0x93, 0xE2, 0xCD,
    0x57, 0x78, 0x09, 0x26, 0xEB, 0xC4, 0xB5, 0x9A,
    0xAE, 0x81, 0xF0, 0xDF, 0x12, 0x3D, 0x4C, 0x63,
    0xF9, 0xD6, 0xA7, 0x88, 0x45, 0x6A, 0x1B, 0x34,
    0x73, 0x5C, 0x2D, 0x02, 0xCF, 0xE0, 0x91, 0xBE,
    0x24, 0x0B, 0x7A, 0x55, 0x98, 0xB7, 0xC6, 0xE9,
    0xDD, 0xF2, 0x83, 0xAC, 0x61, 0x4E, 0x3F, 0x10,
    0x8A, 0xA5, 0xD4, 0xFB, 0x36, 0x19, 0x68, 0x47,
    0xE6, 0xC9, 0xB8, 0x97, 0x5A, 0x75, 0x04, 0x2B,
    0xB1, 0x9E, 0xEF, 0xC0, 0x0D, 0x22, 0x53, 0x7C,
    0x48, 0x67, 0x16, 0x39, 0xF4, 0xDB, 0xAA, 0x85,
    0x1F, 0x30, 0x41, 0x6E, 0xA3, 0x8C, 0xFD, 0xD2,
    0x95, 0xBA, 0xCB, 0xE4, 0x29, 0x06, 0x77, 0x58,
    0xC2, 0xED, 0x9C, 0xB3, 0x7E, 0x51, 0x20, 0x0F,
    0x3B, 0x14, 0x65, 0x4A, 0x87, 0xA8, 0xD9, 0xF6,
    0x6C, 0x43, 0x32, 0x1D, 0xD0, 0xFF, 0x8E, 0xA1,
    0xE3, 0xCC, 0xBD, 0x92, 0x5F, 0x70, 0x01, 0x2E,
    0xB4, 0x9B, 0xEA, 0xC5, 0x08, 0x27, 0x56, 0x79,
    0x4D, 0x62, 0x13, 0x3C, 0xF1, 0xDE, 0xAF, 0x80,
    0x1A, 0x35, 0x44, 0x6B, 0xA6, 0x89, 0xF8, 0xD7,
    0x90, 0xBF, 0xCE, 0xE1, 0x2C, 0x03, 0x72, 0x5D,
    0xC7, 0xE8, 0x99, 0xB6, 0x7B, 0x54, 0x25, 0x0A,
    0x3E, 0x11, 0x60, 0x4F, 0x82, 0xAD, 0xDC, 0xF3,
    0x69, 0x46, 0x37, 0x18, 0xD5, 0xFA, 0x8B, 0xA4,
    0x05, 0x2A, 0x5B, 0x74, 0xB9, 0x96, 0xE7, 0xC8,
    0x52, 0x7D, 0x0C, 0x23, 0xEE, 0xC1, 0xB0, 0x9F,
    0xAB, 0x84, 0xF5, 0xDA, 0x17, 0x38, 0x49, 0x66,
    0xFC, 0xD3, 0xA2, 0x8D, 0x40, 0x6F, 0x1E, 0x31,
    0x76, 0x59, 0x28, 0x07, 0xCA, 0xE5, 0x94, 0xBB,
    0x21, 0x0E, 0x7F, 0x50, 0x9D, 0xB2, 0xC3, 0xEC,
    0xD8, 0xF7, 0x86, 0xA9, 0x64, 0x4B, 0x3A, 0x15,
    0x8F, 0xA0, 0xD1, 0xFE, 0x33, 0x1C, 0x6D, 0x42]"

primrec Crc_8_8H2F_table_loop :: "byte_ptr \<Rightarrow> uint8 \<Rightarrow> nat \<Rightarrow> uint8" where
  "Crc_8_8H2F_table_loop Crc_DataPtr crc 0 = crc"
| "Crc_8_8H2F_table_loop Crc_DataPtr crc (Suc byte) =
     Crc_8_8H2FTab ! unat (Crc_8_8H2F_table_loop Crc_DataPtr crc byte XOR Crc_DataPtr byte)"

definition Crc_CalculateCRC8H2F ::
    "Crc_Mode \<Rightarrow> byte_ptr option \<Rightarrow> uint32 \<Rightarrow> uint8 \<Rightarrow> bool \<Rightarrow> uint8" where
  "Crc_CalculateCRC8H2F mode Crc_DataPtr Crc_Length Crc_StartValue8H2F Crc_IsFirstCall =
     (case Crc_DataPtr of None \<Rightarrow> 0
      | Some p \<Rightarrow>
          (let crc = (if Crc_IsFirstCall then Crc_8_8H2FStartValue
                      else Crc_StartValue8H2F XOR Crc_8_8H2FXor);
               crc = (case mode of
                        CRC_RUNTIME \<Rightarrow> calculateCRC8 Crc_DataPtr Crc_Length crc Crc_8_8H2FPolynomial
                      | CRC_TABLE \<Rightarrow> Crc_8_8H2F_table_loop p crc (unat Crc_Length))
           in crc XOR Crc_8_8H2FXor))"

subsection \<open>Crc\_16.c\<close>

definition Crc_16_CCITTStartValue :: uint16 where "Crc_16_CCITTStartValue = 0xFFFF"

definition Crc_16_CCITTPolynomial :: uint16 where "Crc_16_CCITTPolynomial = 0x1021"

definition Crc_16_CCITTXor :: uint16 where "Crc_16_CCITTXor = 0x0000"

primrec calculateCRC16_bits :: "nat \<Rightarrow> uint16 \<Rightarrow> uint16" where
  "calculateCRC16_bits 0 remainder = remainder"
| "calculateCRC16_bits (Suc i) remainder =
     calculateCRC16_bits i
       (if remainder AND 0x8000 \<noteq> 0 then push_bit 1 remainder XOR Crc_16_CCITTPolynomial
        else push_bit 1 remainder)"

primrec calculateCRC16_bytes :: "byte_ptr \<Rightarrow> uint16 \<Rightarrow> nat \<Rightarrow> uint16" where
  "calculateCRC16_bytes message start 0 = start"
| "calculateCRC16_bytes message start (Suc byte) =
     calculateCRC16_bits 8
       (calculateCRC16_bytes message start byte XOR push_bit 8 (ucast (message byte)))"

definition calculateCRC16 :: "byte_ptr option \<Rightarrow> uint32 \<Rightarrow> uint16 \<Rightarrow> uint16" where
  "calculateCRC16 message nBytes start =
     (case message of None \<Rightarrow> start | Some p \<Rightarrow> calculateCRC16_bytes p start (unat nBytes))"

definition Crc_16_Tab :: "uint16 list" where
  "Crc_16_Tab = [
    0x0000, 0x1021, 0x2042, 0x3063, 0x4084, 0x50A5, 0x60C6, 0x70E7,
    0x8108, 0x9129, 0xA14A, 0xB16B, 0xC18C, 0xD1AD, 0xE1CE, 0xF1EF,
    0x1231, 0x0210, 0x3273, 0x2252, 0x52B5, 0x4294, 0x72F7, 0x62D6,
    0x9339, 0x8318, 0xB37B, 0xA35A, 0xD3BD, 0xC39C, 0xF3FF, 0xE3DE,
    0x2462, 0x3443, 0x0420, 0x1401, 0x64E6, 0x74C7, 0x44A4, 0x5485,
    0xA56A, 0xB54B, 0x8528, 0x9509, 0xE5EE, 0xF5CF, 0xC5AC, 0xD58D,
    0x3653, 0x2672, 0x1611, 0x0630, 0x76D7, 0x66F6, 0x5695, 0x46B4,
    0xB75B, 0xA77A, 0x9719, 0x8738, 0xF7DF, 0xE7FE, 0xD79D, 0xC7BC,
    0x48C4, 0x58E5, 0x6886, 0x78A7, 0x0840, 0x1861, 0x2802, 0x3823,
    0xC9CC, 0xD9ED, 0xE98E, 0xF9AF, 0x8948, 0x9969, 0xA90A, 0xB92B,
    0x5AF5, 0x4AD4, 0x7AB7, 0x6A96, 0x1A71, 0x0A50, 0x3A33, 0x2A12,
    0xDBFD, 0xCBDC, 0xFBBF, 0xEB9E, 0x9B79, 0x8B58, 0xBB3B, 0xAB1A,
    0x6CA6, 0x7C87, 0x4CE4, 0x5CC5, 0x2C22, 0x3C03, 0x0C60, 0x1C41,
    0xEDAE, 0xFD8F, 0xCDEC, 0xDDCD, 0xAD2A, 0xBD0B, 0x8D68, 0x9D49,
    0x7E97, 0x6EB6, 0x5ED5, 0x4EF4, 0x3E13, 0x2E32, 0x1E51, 0x0E70,
    0xFF9F, 0xEFBE, 0xDFDD, 0xCFFC, 0xBF1B, 0xAF3A, 0x9F59, 0x8F78,
    0x9188, 0x81A9, 0xB1CA, 0xA1EB, 0xD10C, 0xC12D, 0xF14E, 0xE16F,
    0x1080, 0x00A1, 0x30C2, 0x20E3, 0x5004, 0x4025, 0x7046, 0x6067,
    0x83B9, 0x9398, 0xA3FB, 0xB3DA, 0xC33D, 0xD31C, 0xE37F, 0xF35E,
    0x02B1, 0x1290, 0x22F3, 0x32D2, 0x4235, 0x5214, 0x6277, 0x7256,
    0xB5EA, 0xA5CB, 0x95A8, 0x8589, 0xF56E, 0xE54F, 0xD52C, 0xC50D,
    0x34E2, 0x24C3, 0x14A0, 0x0481, 0x7466, 0x6447, 0x5424, 0x4405,
    0xA7DB, 0xB7FA, 0x8799, 0x97B8, 0xE75F, 0xF77E, 0xC71D, 0xD73C,
    0x26D3, 0x36F2, 0x0691, 0x16B0, 0x6657, 0x7676, 0x4615, 0x5634,
    0xD94C, 0xC96D, 0xF90E, 0xE92F, 0x99C8, 0x89E9, 0xB98A, 0xA9AB,
    0x5844, 0x4865, 0x7806, 0x6827, 0x18C0, 0x08E1, 0x3882, 0x28A3,
    0xCB7D, 0xDB5C, 0xEB3F, 0xFB1E, 0x8BF9, 0x9BD8, 0xABBB, 0xBB9A,
    0x4A75, 0x5A54, 0x6A37, 0x7A16, 0x0AF1, 0x1AD0, 0x2AB3, 0x3A92,
    0xFD2E, 0xED0F, 0xDD6C, 0xCD4D, 0xBDAA, 0xAD8B, 0x9DE8, 0x8DC9,
    0x7C26, 0x6C07, 0x5C64, 0x4C45, 0x3CA2, 0x2C83, 0x1CE0, 0x0CC1,
    0xEF1F, 0xFF3E, 0xCF5D, 0xDF7C, 0xAF9B, 0xBFBA, 0x8FD9, 0x9FF8,
    0x6E17, 0x7E36, 0x4E55, 0x5E74, 0x2E93, 0x3EB2, 0x0ED1, 0x1EF0]"

primrec Crc_16_table_loop :: "byte_ptr \<Rightarrow> uint16 \<Rightarrow> nat \<Rightarrow> uint16" where
  "Crc_16_table_loop Crc_DataPtr crc 0 = crc"
| "Crc_16_table_loop Crc_DataPtr crc (Suc byte) =
     (let r = Crc_16_table_loop Crc_DataPtr crc byte
      in push_bit 8 r
         XOR Crc_16_Tab ! unat ((drop_bit 8 r XOR ucast (Crc_DataPtr byte)) AND 0x00FF))"

definition Crc_CalculateCRC16 ::
    "Crc_Mode \<Rightarrow> byte_ptr option \<Rightarrow> uint32 \<Rightarrow> uint16 \<Rightarrow> bool \<Rightarrow> uint16" where
  "Crc_CalculateCRC16 mode Crc_DataPtr Crc_Length Crc_StartValue16 Crc_IsFirstCall =
     (case Crc_DataPtr of None \<Rightarrow> 0
      | Some p \<Rightarrow>
          (let crc = (if Crc_IsFirstCall then Crc_16_CCITTStartValue
                      else Crc_StartValue16 XOR Crc_16_CCITTXor);
               crc = (case mode of
                        CRC_RUNTIME \<Rightarrow> calculateCRC16 Crc_DataPtr Crc_Length crc
                      | CRC_TABLE \<Rightarrow> Crc_16_table_loop p crc (unat Crc_Length))
           in crc XOR Crc_16_CCITTXor))"

subsection \<open>Crc\_32.c\<close>

definition Crc_32_StartValue :: uint32 where "Crc_32_StartValue = 0xFFFFFFFF"

definition Crc_32_Polynomial :: uint32 where "Crc_32_Polynomial = 0x04C11DB7"

definition Crc_32_Xor :: uint32 where "Crc_32_Xor = 0xFFFFFFFF"

text \<open>
  The reflection loops: the pair holds \<open>reflection\<close> and \<open>tmpData\<close> after \<open>bit\<close>
  iterations.
\<close>

primrec reflectResult_loop :: "uint32 \<Rightarrow> nat \<Rightarrow> uint32 \<times> uint32" where
  "reflectResult_loop data 0 = (0, data)"
| "reflectResult_loop data (Suc i) =
     (case reflectResult_loop data i of (reflection, tmpData) \<Rightarrow>
        (if tmpData AND 1 \<noteq> 0 then reflection OR push_bit (31 - i) 1 else reflection,
         drop_bit 1 tmpData))"

definition reflectResult :: "uint32 \<Rightarrow> uint32" where
  "reflectResult data = fst (reflectResult_loop data 32)"

primrec reflectInData_loop :: "uint8 \<Rightarrow> nat \<Rightarrow> uint8 \<times> uint32" where
  "reflectInData_loop data 0 = (0, ucast data)"
| "reflectInData_loop data (Suc i) =
     (case reflectInData_loop data i of (reflection, tmpData) \<Rightarrow>
        (if tmpData AND 1 \<noteq> 0 then reflection OR push_bit (7 - i) 1 else reflection,
         drop_bit 1 tmpData))"

definition reflectInData :: "uint8 \<Rightarrow> uint8" where
  "reflectInData data = fst (reflectInData_loop data 8)"

primrec calculateCRC32_bits :: "nat \<Rightarrow> uint32 \<Rightarrow> uint32" where
  "calculateCRC32_bits 0 remainder = remainder"
| "calculateCRC32_bits (Suc i) remainder =
     calculateCRC32_bits i
       (if remainder AND 0x80000000 \<noteq> 0 then push_bit 1 remainder XOR Crc_32_Polynomial
        else push_bit 1 remainder)"

primrec calculateCRC32_bytes :: "byte_ptr \<Rightarrow> uint32 \<Rightarrow> nat \<Rightarrow> uint32" where
  "calculateCRC32_bytes message remainder 0 = remainder"
| "calculateCRC32_bytes message remainder (Suc byte) =
     calculateCRC32_bits 8
       (calculateCRC32_bytes message remainder byte
        XOR push_bit 24 (ucast (reflectInData (message byte))))"

definition calculateCRC32 :: "byte_ptr option \<Rightarrow> uint32 \<Rightarrow> uint32 \<Rightarrow> uint32" where
  "calculateCRC32 message nBytes start =
     (let remainder = reflectResult start;
          remainder = (case message of None \<Rightarrow> remainder
                       | Some p \<Rightarrow> calculateCRC32_bytes p remainder (unat nBytes))
      in reflectResult remainder)"

definition Crc_32_Tab :: "uint32 list" where
  "Crc_32_Tab = [
    0x00000000, 0x77073096, 0xEE0E612C, 0x990951BA, 0x076DC419, 0x706AF48F, 0xE963A535, 0x9E6495A3,
    0x0EDB8832, 0x79DCB8A4, 0xE0D5E91E, 0x97D2D988, 0x09B64C2B, 0x7EB17CBD, 0xE7B82D07, 0x90BF1D91,
    0x1DB71064, 0x6AB020F2, 0xF3B97148, 0x84BE41DE, 0x1ADAD47D, 0x6DDDE4EB, 0xF4D4B551, 0x83D385C7,
    0x136C9856, 0x646BA8C0, 0xFD62F97A, 0x8A65C9EC, 0x14015C4F, 0x63066CD9, 0xFA0F3D63, 0x8D080DF5,
    0x3B6E20C8, 0x4C69105E, 0xD56041E4, 0xA2677172, 0x3C03E4D1, 0x4B04D447, 0xD20D85FD, 0xA50AB56B,
    0x35B5A8FA, 0x42B2986C, 0xDBBBC9D6, 0xACBCF940, 0x32D86CE3, 0x45DF5C75, 0xDCD60DCF, 0xABD13D59,
    0x26D930AC, 0x51DE003A, 0xC8D75180, 0xBFD06116, 0x21B4F4B5, 0x56B3C423, 0xCFBA9599, 0xB8BDA50F,
    0x2802B89E, 0x5F058808, 0xC60CD9B2, 0xB10BE924, 0x2F6F7C87, 0x58684C11, 0xC1611DAB, 0xB6662D3D,
    0x76DC4190, 0x01DB7106, 0x98D220BC, 0xEFD5102A, 0x71B18589, 0x06B6B51F, 0x9FBFE4A5, 0xE8B8D433,
    0x7807C9A2, 0x0F00F934, 0x9609A88E, 0xE10E9818, 0x7F6A0DBB, 0x086D3D2D, 0x91646C97, 0xE6635C01,
    0x6B6B51F4, 0x1C6C6162, 0x856530D8, 0xF262004E, 0x6C0695ED, 0x1B01A57B, 0x8208F4C1, 0xF50FC457,
    0x65B0D9C6, 0x12B7E950, 0x8BBEB8EA, 0xFCB9887C, 0x62DD1DDF, 0x15DA2D49, 0x8CD37CF3, 0xFBD44C65,
    0x4DB26158, 0x3AB551CE, 0xA3BC0074, 0xD4BB30E2, 0x4ADFA541, 0x3DD895D7, 0xA4D1C46D, 0xD3D6F4FB,
    0x4369E96A, 0x346ED9FC, 0xAD678846, 0xDA60B8D0, 0x44042D73, 0x33031DE5, 0xAA0A4C5F, 0xDD0D7CC9,
    0x5005713C, 0x270241AA, 0xBE0B1010, 0xC90C2086, 0x5768B525, 0x206F85B3, 0xB966D409, 0xCE61E49F,
    0x5EDEF90E, 0x29D9C998, 0xB0D09822, 0xC7D7A8B4, 0x59B33D17, 0x2EB40D81, 0xB7BD5C3B, 0xC0BA6CAD,
    0xEDB88320, 0x9ABFB3B6, 0x03B6E20C, 0x74B1D29A, 0xEAD54739, 0x9DD277AF, 0x04DB2615, 0x73DC1683,
    0xE3630B12, 0x94643B84, 0x0D6D6A3E, 0x7A6A5AA8, 0xE40ECF0B, 0x9309FF9D, 0x0A00AE27, 0x7D079EB1,
    0xF00F9344, 0x8708A3D2, 0x1E01F268, 0x6906C2FE, 0xF762575D, 0x806567CB, 0x196C3671, 0x6E6B06E7,
    0xFED41B76, 0x89D32BE0, 0x10DA7A5A, 0x67DD4ACC, 0xF9B9DF6F, 0x8EBEEFF9, 0x17B7BE43, 0x60B08ED5,
    0xD6D6A3E8, 0xA1D1937E, 0x38D8C2C4, 0x4FDFF252, 0xD1BB67F1, 0xA6BC5767, 0x3FB506DD, 0x48B2364B,
    0xD80D2BDA, 0xAF0A1B4C, 0x36034AF6, 0x41047A60, 0xDF60EFC3, 0xA867DF55, 0x316E8EEF, 0x4669BE79,
    0xCB61B38C, 0xBC66831A, 0x256FD2A0, 0x5268E236, 0xCC0C7795, 0xBB0B4703, 0x220216B9, 0x5505262F,
    0xC5BA3BBE, 0xB2BD0B28, 0x2BB45A92, 0x5CB36A04, 0xC2D7FFA7, 0xB5D0CF31, 0x2CD99E8B, 0x5BDEAE1D,
    0x9B64C2B0, 0xEC63F226, 0x756AA39C, 0x026D930A, 0x9C0906A9, 0xEB0E363F, 0x72076785, 0x05005713,
    0x95BF4A82, 0xE2B87A14, 0x7BB12BAE, 0x0CB61B38, 0x92D28E9B, 0xE5D5BE0D, 0x7CDCEFB7, 0x0BDBDF21,
    0x86D3D2D4, 0xF1D4E242, 0x68DDB3F8, 0x1FDA836E, 0x81BE16CD, 0xF6B9265B, 0x6FB077E1, 0x18B74777,
    0x88085AE6, 0xFF0F6A70, 0x66063BCA, 0x11010B5C, 0x8F659EFF, 0xF862AE69, 0x616BFFD3, 0x166CCF45,
    0xA00AE278, 0xD70DD2EE, 0x4E048354, 0x3903B3C2, 0xA7672661, 0xD06016F7, 0x4969474D, 0x3E6E77DB,
    0xAED16A4A, 0xD9D65ADC, 0x40DF0B66, 0x37D83BF0, 0xA9BCAE53, 0xDEBB9EC5, 0x47B2CF7F, 0x30B5FFE9,
    0xBDBDF21C, 0xCABAC28A, 0x53B39330, 0x24B4A3A6, 0xBAD03605, 0xCDD70693, 0x54DE5729, 0x23D967BF,
    0xB3667A2E, 0xC4614AB8, 0x5D681B02, 0x2A6F2B94, 0xB40BBE37, 0xC30C8EA1, 0x5A05DF1B, 0x2D02EF8D]"

primrec Crc_32_table_loop :: "byte_ptr \<Rightarrow> uint32 \<Rightarrow> nat \<Rightarrow> uint32" where
  "Crc_32_table_loop Crc_DataPtr crc 0 = crc"
| "Crc_32_table_loop Crc_DataPtr crc (Suc byte) =
     (let r = Crc_32_table_loop Crc_DataPtr crc byte
      in (drop_bit 8 r AND 0x00FFFFFF)
         XOR Crc_32_Tab ! unat ((r XOR ucast (Crc_DataPtr byte)) AND 0xFF))"

definition Crc_CalculateCRC32 ::
    "Crc_Mode \<Rightarrow> byte_ptr option \<Rightarrow> uint32 \<Rightarrow> uint32 \<Rightarrow> bool \<Rightarrow> uint32" where
  "Crc_CalculateCRC32 mode Crc_DataPtr Crc_Length Crc_StartValue32 Crc_IsFirstCall =
     (case Crc_DataPtr of None \<Rightarrow> 0
      | Some p \<Rightarrow>
          (let crc = (if Crc_IsFirstCall then Crc_32_StartValue else Crc_StartValue32 XOR Crc_32_Xor);
               crc = (case mode of
                        CRC_RUNTIME \<Rightarrow> calculateCRC32 Crc_DataPtr Crc_Length crc
                      | CRC_TABLE \<Rightarrow> Crc_32_table_loop p crc (unat Crc_Length))
           in crc XOR Crc_32_Xor))"

subsection \<open>Crc\_32P4.c\<close>

text \<open>Its \<open>reflectResult\<close> and \<open>reflectInData\<close> are verbatim copies of those of Crc\_32.c.\<close>

definition Crc_32P4_StartValue :: uint32 where "Crc_32P4_StartValue = 0xFFFFFFFF"

definition Crc_32P4_Polynomial :: uint32 where "Crc_32P4_Polynomial = 0xF4ACFB13"

definition Crc_32P4_Xor :: uint32 where "Crc_32P4_Xor = 0xFFFFFFFF"

primrec calculateCRC32P4_bits :: "nat \<Rightarrow> uint32 \<Rightarrow> uint32" where
  "calculateCRC32P4_bits 0 remainder = remainder"
| "calculateCRC32P4_bits (Suc i) remainder =
     calculateCRC32P4_bits i
       (if remainder AND 0x80000000 \<noteq> 0 then push_bit 1 remainder XOR Crc_32P4_Polynomial
        else push_bit 1 remainder)"

primrec calculateCRC32P4_bytes :: "byte_ptr \<Rightarrow> uint32 \<Rightarrow> nat \<Rightarrow> uint32" where
  "calculateCRC32P4_bytes message remainder 0 = remainder"
| "calculateCRC32P4_bytes message remainder (Suc byte) =
     calculateCRC32P4_bits 8
       (calculateCRC32P4_bytes message remainder byte
        XOR push_bit 24 (ucast (reflectInData (message byte))))"

definition calculateCRC32P4 :: "byte_ptr option \<Rightarrow> uint32 \<Rightarrow> uint32 \<Rightarrow> uint32" where
  "calculateCRC32P4 message nBytes start =
     (let remainder = reflectResult start;
          remainder = (case message of None \<Rightarrow> remainder
                       | Some p \<Rightarrow> calculateCRC32P4_bytes p remainder (unat nBytes))
      in reflectResult remainder)"

definition Crc_32P4_Tab :: "uint32 list" where
  "Crc_32P4_Tab = [
    0x00000000, 0x30850FF5, 0x610A1FEA, 0x518F101F, 0xC2143FD4, 0xF2913021, 0xA31E203E, 0x939B2FCB,
    0x159615F7, 0x25131A02, 0x749C0A1D, 0x441905E8, 0xD7822A23, 0xE70725D6, 0xB68835C9, 0x860D3A3C,
    0x2B2C2BEE, 0x1BA9241B, 0x4A263404, 0x7AA33BF1, 0xE938143A, 0xD9BD1BCF, 0x88320BD0, 0xB8B70425,
    0x3EBA3E19, 0x0E3F31EC, 0x5FB021F3, 0x6F352E06, 0xFCAE01CD, 0xCC2B0E38, 0x9DA41E27, 0xAD2111D2,
    0x565857DC, 0x66DD5829, 0x37524836, 0x07D747C3, 0x944C6808, 0xA4C967FD, 0xF54677E2, 0xC5C37817,
    0x43CE422B, 0x734B4DDE, 0x22C45DC1, 0x12415234, 0x81DA7DFF, 0xB15F720A, 0xE0D06215, 0xD0556DE0,
    0x7D747C32, 0x4DF173C7, 0x1C7E63D8, 0x2CFB6C2D, 0xBF6043E6, 0x8FE54C13, 0xDE6A5C0C, 0xEEEF53F9,
    0x68E269C5, 0x58676630, 0x09E8762F, 0x396D79DA, 0xAAF65611, 0x9A7359E4, 0xCBFC49FB, 0xFB79460E,
    0xACB0AFB8, 0x9C35A04D, 0xCDBAB052, 0xFD3FBFA7, 0x6EA4906C, 0x5E219F99, 0x0FAE8F86, 0x3F2B8073,
    0xB926BA4F, 0x89A3B5BA, 0xD82CA5A5, 0xE8A9AA50, 0x7B32859B, 0x4BB78A6E, 0x1A389A71, 0x2ABD9584,
    0x879C8456, 0xB7198BA3, 0xE6969BBC, 0xD6139449, 0x4588BB82, 0x750DB477, 0x2482A468, 0x1407AB9D,
    0x920A91A1, 0xA28F9E54, 0xF3008E4B, 0xC38581BE, 0x501EAE75, 0x609BA180, 0x3114B19F, 0x0191BE6A,
    0xFAE8F864, 0xCA6DF791, 0x9BE2E78E, 0xAB67E87B, 0x38FCC7B0, 0x0879C845, 0x59F6D85A, 0x6973D7AF,
    0xEF7EED93, 0xDFFBE266, 0x8E74F279, 0xBEF1FD8C, 0x2D6AD247, 0x1DEFDDB2, 0x4C60CDAD, 0x7CE5C258,
    0xD1C4D38A, 0xE141DC7F, 0xB0CECC60, 0x804BC395, 0x13D0EC5E, 0x2355E3AB, 0x72DAF3B4, 0x425FFC41,
    0xC452C67D, 0xF4D7C988, 0xA558D997, 0x95DDD662, 0x0646F9A9, 0x36C3F65C, 0x674CE643, 0x57C9E9B6,
    0xC8DF352F, 0xF85A3ADA, 0xA9D52AC5, 0x99502530, 0x0ACB0AFB, 0x3A4E050E, 0x6BC11511, 0x5B441AE4,
    0xDD4920D8, 0xEDCC2F2D, 0xBC433F32, 0x8CC630C7, 0x1F5D1F0C, 0x2FD810F9, 0x7E5700E6, 0x4ED20F13,
    0xE3F31EC1, 0xD3761134, 0x82F9012B, 0xB27C0EDE, 0x21E72115, 0x11622EE0, 0x40ED3EFF, 0x7068310A,
    0xF6650B36, 0xC6E004C3, 0x976F14DC, 0xA7EA1B29, 0x347134E2, 0x04F43B17, 0x557B2B08, 0x65FE24FD,
    0x9E8762F3, 0xAE026D06, 0xFF8D7D19, 0xCF0872EC, 0x5C935D27, 0x6C1652D2, 0x3D9942CD, 0x0D1C4D38,
    0x8B117704, 0xBB9478F1, 0xEA1B68EE, 0xDA9E671B, 0x490548D0, 0x79804725, 0x280F573A, 0x188A58CF,
    0xB5AB491D, 0x852E46E8, 0xD4A156F7, 0xE4245902, 0x77BF76C9, 0x473A793C, 0x16B56923, 0x263066D6,
    0xA03D5CEA, 0x90B8531F, 0xC1374300, 0xF1B24CF5, 0x6229633E, 0x52AC6CCB, 0x03237CD4, 0x33A67321,
    0x646F9A97, 0x54EA9562, 0x0565857D, 0x35E08A88, 0xA67BA543, 0x96FEAAB6, 0xC771BAA9, 0xF7F4B55C,
    0x71F98F60, 0x417C8095, 0x10F3908A, 0x20769F7F, 0xB3EDB0B4, 0x8368BF41, 0xD2E7AF5E, 0xE262A0AB,
    0x4F43B179, 0x7FC6BE8C, 0x2E49AE93, 0x1ECCA166, 0x8D578EAD, 0xBDD28158, 0xEC5D9147, 0xDCD89EB2,
    0x5AD5A48E, 0x6A50AB7B, 0x3BDFBB64, 0x0B5AB491, 0x98C19B5A, 0xA84494AF, 0xF9CB84B0, 0xC94E8B45,
    0x3237CD4B, 0x02B2C2BE, 0x533DD2A1, 0x63B8DD54, 0xF023F29F, 0xC0A6FD6A, 0x9129ED75, 0xA1ACE280,
    0x27A1D8BC, 0x1724D749, 0x46ABC756, 0x762EC8A3, 0xE5B5E768, 0xD530E89D, 0x84BFF882, 0xB43AF777,
    0x191BE6A5, 0x299EE950, 0x7811F94F, 0x4894F6BA, 0xDB0FD971, 0xEB8AD684, 0xBA05C69B, 0x8A80C96E,
    0x0C8DF352, 0x3C08FCA7, 0x6D87ECB8, 0x5D02E34D, 0xCE99CC86, 0xFE1CC373, 0xAF93D36C, 0x9F16DC99]"

primrec Crc_32P4_table_loop :: "byte_ptr \<Rightarrow> uint32 \<Rightarrow> nat \<Rightarrow> uint32" where
  "Crc_32P4_table_loop Crc_DataPtr crc 0 = crc"
| "Crc_32P4_table_loop Crc_DataPtr crc (Suc byte) =
     (let r = Crc_32P4_table_loop Crc_DataPtr crc byte
      in (drop_bit 8 r AND 0x00FFFFFF)
         XOR Crc_32P4_Tab ! unat ((r XOR ucast (Crc_DataPtr byte)) AND 0xFF))"

definition Crc_CalculateCRC32P4 ::
    "Crc_Mode \<Rightarrow> byte_ptr option \<Rightarrow> uint32 \<Rightarrow> uint32 \<Rightarrow> bool \<Rightarrow> uint32" where
  "Crc_CalculateCRC32P4 mode Crc_DataPtr Crc_Length Crc_StartValue32 Crc_IsFirstCall =
     (case Crc_DataPtr of None \<Rightarrow> 0
      | Some p \<Rightarrow>
          (let crc = (if Crc_IsFirstCall then Crc_32P4_StartValue
                      else Crc_StartValue32 XOR Crc_32P4_Xor);
               crc = (case mode of
                        CRC_RUNTIME \<Rightarrow> calculateCRC32P4 Crc_DataPtr Crc_Length crc
                      | CRC_TABLE \<Rightarrow> Crc_32P4_table_loop p crc (unat Crc_Length))
           in crc XOR Crc_32P4_Xor))"

subsection \<open>The loops as folds of division steps\<close>

lemma calculateCRC8_bits_eq: "calculateCRC8_bits n poly r = (msb_step poly ^^ n) r"
proof (induction n arbitrary: r)
  case (Suc n)
  have "(if r AND 0x80 \<noteq> 0 then push_bit 1 r XOR poly else push_bit 1 r) = msb_step poly r"
    using test_bit_mask [of r 7] by (simp add: msb_step_def)
  then show ?case
    by (simp only: calculateCRC8_bits.simps Suc.IH funpow_rev_iterate)
qed simp

lemma calculateCRC16_bits_eq:
  "calculateCRC16_bits n r = (msb_step Crc_16_CCITTPolynomial ^^ n) r"
proof (induction n arbitrary: r)
  case (Suc n)
  have "(if r AND 0x8000 \<noteq> 0 then push_bit 1 r XOR Crc_16_CCITTPolynomial else push_bit 1 r)
      = msb_step Crc_16_CCITTPolynomial r"
    using test_bit_mask [of r 15] by (simp add: msb_step_def)
  then show ?case
    by (simp only: calculateCRC16_bits.simps Suc.IH funpow_rev_iterate)
qed simp

lemma msb_step_32:
  "(if r AND 0x80000000 \<noteq> 0 then push_bit 1 r XOR poly else push_bit 1 r) = msb_step poly r"
  for r poly :: uint32
  using test_bit_mask [of r 31] by (simp add: msb_step_def)

lemma calculateCRC32_bits_eq: "calculateCRC32_bits n r = (msb_step Crc_32_Polynomial ^^ n) r"
  by (induction n arbitrary: r)
    (simp_all only: calculateCRC32_bits.simps msb_step_32 funpow_rev_iterate funpow_0)

lemma calculateCRC32P4_bits_eq:
  "calculateCRC32P4_bits n r = (msb_step Crc_32P4_Polynomial ^^ n) r"
  by (induction n arbitrary: r)
    (simp_all only: calculateCRC32P4_bits.simps msb_step_32 funpow_rev_iterate funpow_0)

subsection \<open>Reflection\<close>

lemma mask_low_bit: "x AND 1 \<noteq> 0 \<longleftrightarrow> bit x 0" for x :: "'a::len word"
  using test_bit_mask [of x 0] by simp

lemma bit_set_from_top:
  "k < LENGTH('a) \<Longrightarrow> j < LENGTH('a) \<Longrightarrow> bit (x OR 2 ^ j) k \<longleftrightarrow> bit x k \<or> k = j"
  for x :: "'a::len word"
  by (auto simp: bit_or_iff bit_exp_iff)

lemma reflectResult_loop_inv:
  "i \<le> 32 \<Longrightarrow> snd (reflectResult_loop data i) = drop_bit i data
     \<and> (\<forall>k<32. bit (fst (reflectResult_loop data i)) k \<longleftrightarrow> 32 \<le> k + i \<and> bit data (31 - k))"
proof (induction i)
  case (Suc i)
  then have IH: "snd (reflectResult_loop data i) = drop_bit i data"
    "k < 32 \<Longrightarrow> bit (fst (reflectResult_loop data i)) k \<longleftrightarrow> 32 \<le> k + i \<and> bit data (31 - k)" for k
    by auto
  have "bit (fst (reflectResult_loop data (Suc i))) k \<longleftrightarrow> 32 \<le> k + Suc i \<and> bit data (31 - k)"
    if k: "k < 32" for k
  proof (cases "k + Suc i = 32")
    case True
    then have "31 - k = i" "k = 31 - i" using Suc.prems by simp_all
    then show ?thesis
      using IH k Suc.prems True
      by (auto simp: split_beta mask_low_bit bit_set_from_top bit_drop_bit_eq)
  next
    case False
    then have "k \<noteq> 31 - i" "32 \<le> k + Suc i \<longleftrightarrow> 32 \<le> k + i" using Suc.prems by linarith+
    then show ?thesis
      using IH k Suc.prems
      by (auto simp: split_beta mask_low_bit bit_set_from_top bit_drop_bit_eq)
  qed
  then show ?case using IH(1) by (simp add: split_beta)
qed simp

lemma bit_reflectResult: "k < 32 \<Longrightarrow> bit (reflectResult data) k \<longleftrightarrow> bit data (31 - k)"
  using reflectResult_loop_inv [of 32 data] by (simp add: reflectResult_def)

lemma reflectInData_loop_inv:
  "i \<le> 8 \<Longrightarrow> snd (reflectInData_loop data i) = drop_bit i (ucast data)
     \<and> (\<forall>k<8. bit (fst (reflectInData_loop data i)) k \<longleftrightarrow> 8 \<le> k + i \<and> bit data (7 - k))"
proof (induction i)
  case (Suc i)
  then have IH: "snd (reflectInData_loop data i) = drop_bit i (ucast data)"
    "k < 8 \<Longrightarrow> bit (fst (reflectInData_loop data i)) k \<longleftrightarrow> 8 \<le> k + i \<and> bit data (7 - k)" for k
    by auto
  have "bit (fst (reflectInData_loop data (Suc i))) k \<longleftrightarrow> 8 \<le> k + Suc i \<and> bit data (7 - k)"
    if k: "k < 8" for k
  proof (cases "k + Suc i = 8")
    case True
    then have "7 - k = i" "k = 7 - i" using Suc.prems by simp_all
    then show ?thesis
      using IH k Suc.prems True
      by (auto simp: split_beta mask_low_bit bit_set_from_top bit_drop_bit_eq bit_ucast_iff)
  next
    case False
    then have "k \<noteq> 7 - i" "8 \<le> k + Suc i \<longleftrightarrow> 8 \<le> k + i" using Suc.prems by linarith+
    then show ?thesis
      using IH k Suc.prems
      by (auto simp: split_beta mask_low_bit bit_set_from_top bit_drop_bit_eq bit_ucast_iff)
  qed
  then show ?case using IH(1) by (simp add: split_beta)
qed simp

lemma bit_reflectInData: "k < 8 \<Longrightarrow> bit (reflectInData data) k \<longleftrightarrow> bit data (7 - k)"
  using reflectInData_loop_inv [of 8 data] by (simp add: reflectInData_def)

lemma reflectResult_involutive [simp]: "reflectResult (reflectResult x) = x"
  by (rule bit_word_eqI) (simp add: bit_reflectResult)

lemma reflectResult_xor: "reflectResult (x XOR y) = reflectResult x XOR reflectResult y"
  by (rule bit_word_eqI) (simp add: bit_reflectResult bit_xor_iff)

lemma reflectResult_msb_step:
  "reflectResult (msb_step poly r) = lsb_step (reflectResult poly) (reflectResult r)"
proof (rule bit_word_eqI)
  fix k :: nat
  assume "k < LENGTH(32)"
  then have k: "k < 32" by simp
  then have "(0 < 31 - k \<and> bit r (31 - k - 1)) = (Suc k < 32 \<and> bit (reflectResult r) (Suc k))"
    by (auto simp: bit_reflectResult)
  then show "bit (reflectResult (msb_step poly r)) k
      = bit (lsb_step (reflectResult poly) (reflectResult r)) k"
    using k by (simp add: bit_reflectResult bit_msb_step bit_lsb_step)
qed

lemma reflectResult_msb_pow:
  "reflectResult ((msb_step poly ^^ n) r) = (lsb_step (reflectResult poly) ^^ n) (reflectResult r)"
  by (induction n) (simp_all add: reflectResult_msb_step)

lemma reflectResult_inData:
  "reflectResult (push_bit 24 (ucast (reflectInData b))) = ucast b"
proof (rule bit_word_eqI)
  fix k :: nat
  assume "k < LENGTH(32)"
  moreover have "bit b k \<Longrightarrow> k < 8" using bit_imp_le_length [of b k] by simp
  ultimately show "bit (reflectResult (push_bit 24 (ucast (reflectInData b)))) k
      = bit (ucast b :: uint32) k"
    by (cases "k < 8")
      (auto simp: bit_reflectResult bit_push_bit_iff bit_ucast_iff bit_reflectInData)
qed

subsection \<open>The tables\<close>

text \<open>
  A table is determined by its eight entries for single-bit bytes; the equations below check
  those entries against the division and the whole table against them.
\<close>

lemma funpow_8: "(f ^^ 8) x = f (f (f (f (f (f (f (f x)))))))"
  by (simp add: eval_nat_numeral)

lemma upt_8: "[0..<8] = [0, 1, 2, 3, 4, 5, 6, 7]"
  by (simp add: upt_rec)

lemma msb_step_8: "msb_step poly r = (if r AND 0x80 \<noteq> 0 then push_bit 1 r XOR poly else push_bit 1 r)"
  for r poly :: uint8
  using test_bit_mask [of r 7] by (simp add: msb_step_def)

lemma msb_step_16:
  "msb_step poly r = (if r AND 0x8000 \<noteq> 0 then push_bit 1 r XOR poly else push_bit 1 r)"
  for r poly :: uint16
  using test_bit_mask [of r 15] by (simp add: msb_step_def)

lemma lsb_step_32: "lsb_step poly r = (if r AND 1 \<noteq> 0 then drop_bit 1 r XOR poly else drop_bit 1 r)"
  for r poly :: uint32
  by (simp add: lsb_step_def mask_low_bit)

lemma Crc_8_Tab_basis:
  "Crc_8_Tab = foldl dbl [0] (map (\<lambda>j. (msb_step Crc_8_Polynomial ^^ 8) (2 ^ j)) [0..<8])"
proof -
  have "map (\<lambda>j. (msb_step Crc_8_Polynomial ^^ 8) (2 ^ j)) [0..<8]
      = [0x1D, 0x3A, 0x74, 0xE8, 0xCD, 0x87, 0x13, 0x26]"
    unfolding upt_8 list.map by (simp add: funpow_8 msb_step_8 Crc_8_Polynomial_def)
  then show ?thesis by (simp add: Crc_8_Tab_def dbl_def)
qed

lemma Crc_8_8H2FTab_basis:
  "Crc_8_8H2FTab = foldl dbl [0] (map (\<lambda>j. (msb_step Crc_8_8H2FPolynomial ^^ 8) (2 ^ j)) [0..<8])"
proof -
  have "map (\<lambda>j. (msb_step Crc_8_8H2FPolynomial ^^ 8) (2 ^ j)) [0..<8]
      = [0x2F, 0x5E, 0xBC, 0x57, 0xAE, 0x73, 0xE6, 0xE3]"
    unfolding upt_8 list.map by (simp add: funpow_8 msb_step_8 Crc_8_8H2FPolynomial_def)
  then show ?thesis by (simp add: Crc_8_8H2FTab_def dbl_def)
qed

lemma Crc_16_Tab_basis:
  "Crc_16_Tab = foldl dbl [0]
     (map (\<lambda>j. (msb_step Crc_16_CCITTPolynomial ^^ 8) (push_bit 8 (ucast (2 ^ j :: uint8)))) [0..<8])"
proof -
  have "map (\<lambda>j. (msb_step Crc_16_CCITTPolynomial ^^ 8) (push_bit 8 (ucast (2 ^ j :: uint8)))) [0..<8]
      = [0x1021, 0x2042, 0x4084, 0x8108, 0x1231, 0x2462, 0x48C4, 0x9188]"
    unfolding upt_8 list.map by (simp add: funpow_8 msb_step_16 Crc_16_CCITTPolynomial_def)
  then show ?thesis by (simp add: Crc_16_Tab_def dbl_def)
qed

text \<open>The reflected polynomials.\<close>

lemma reflect_Crc_32_Polynomial: "reflectResult Crc_32_Polynomial = 0xEDB88320"
  by code_simp

lemma reflect_Crc_32P4_Polynomial: "reflectResult Crc_32P4_Polynomial = 0xC8DF352F"
  by code_simp

lemma Crc_32_Tab_basis:
  "Crc_32_Tab = foldl dbl [0]
     (map (\<lambda>j. (lsb_step (reflectResult Crc_32_Polynomial) ^^ 8) (ucast (2 ^ j :: uint8))) [0..<8])"
proof -
  have "map (\<lambda>j. (lsb_step (reflectResult Crc_32_Polynomial) ^^ 8) (ucast (2 ^ j :: uint8))) [0..<8]
      = [0x77073096, 0xEE0E612C, 0x076DC419, 0x0EDB8832,
         0x1DB71064, 0x3B6E20C8, 0x76DC4190, 0xEDB88320]"
    unfolding upt_8 list.map by (simp add: funpow_8 lsb_step_32 reflect_Crc_32_Polynomial)
  then show ?thesis by (simp add: Crc_32_Tab_def dbl_def)
qed

lemma Crc_32P4_Tab_basis:
  "Crc_32P4_Tab = foldl dbl [0]
     (map (\<lambda>j. (lsb_step (reflectResult Crc_32P4_Polynomial) ^^ 8) (ucast (2 ^ j :: uint8))) [0..<8])"
proof -
  have "map (\<lambda>j. (lsb_step (reflectResult Crc_32P4_Polynomial) ^^ 8) (ucast (2 ^ j :: uint8))) [0..<8]
      = [0x30850FF5, 0x610A1FEA, 0xC2143FD4, 0x159615F7,
         0x2B2C2BEE, 0x565857DC, 0xACB0AFB8, 0xC8DF352F]"
    unfolding upt_8 list.map by (simp add: funpow_8 lsb_step_32 reflect_Crc_32P4_Polynomial)
  then show ?thesis by (simp add: Crc_32P4_Tab_def dbl_def)
qed

lemma msb_step_pow_xor:
  "(msb_step poly ^^ n) (x XOR y) = (msb_step poly ^^ n) x XOR (msb_step poly ^^ n) y"
  by (induction n) (simp_all add: msb_step_xor)

lemma lsb_step_pow_xor:
  "(lsb_step poly ^^ n) (x XOR y) = (lsb_step poly ^^ n) x XOR (lsb_step poly ^^ n) y"
  by (induction n) (simp_all add: lsb_step_xor)

subsection \<open>The divisions and tables meet their contracts\<close>

interpretation crc8: crc_table "msb_step Crc_8_Polynomial" "\<lambda>b. b" "\<lambda>r. r" "\<lambda>_. 0" Crc_8_Tab
proof unfold_locales
  show "x = y" if "msb_step Crc_8_Polynomial x = msb_step Crc_8_Polynomial y" for x y
    using that by (rule msb_step_inj [rotated]) (simp add: Crc_8_Polynomial_def)
qed (simp_all only: msb_step_xor Crc_8_Tab_basis xor.left_neutral)

interpretation crc8h2f: crc_table "msb_step Crc_8_8H2FPolynomial" "\<lambda>b. b" "\<lambda>r. r" "\<lambda>_. 0" Crc_8_8H2FTab
proof unfold_locales
  show "x = y" if "msb_step Crc_8_8H2FPolynomial x = msb_step Crc_8_8H2FPolynomial y" for x y
    using that by (rule msb_step_inj [rotated]) (simp add: Crc_8_8H2FPolynomial_def)
qed (simp_all only: msb_step_xor Crc_8_8H2FTab_basis xor.left_neutral)

definition inject16 :: "uint8 \<Rightarrow> uint16" where
  "inject16 b = push_bit 8 (ucast b)"

definition index16 :: "uint16 \<Rightarrow> uint8" where
  "index16 r = ucast (drop_bit 8 r)"

lemma bit_inject16: "k < 16 \<Longrightarrow> bit (inject16 b) k \<longleftrightarrow> 8 \<le> k \<and> bit b (k - 8)"
  by (auto simp: inject16_def bit_push_bit_iff bit_ucast_iff)

lemma bit_index16: "k < 8 \<Longrightarrow> bit (index16 r) k \<longleftrightarrow> bit r (k + 8)"
  by (simp add: index16_def bit_ucast_iff bit_drop_bit_eq add.commute)

lemma pow8_split16:
  "(msb_step poly ^^ 8) x = push_bit 8 x XOR (msb_step poly ^^ 8) (inject16 (index16 x))"
proof -
  let ?y = "x XOR inject16 (index16 x)"
  have "(msb_step poly ^^ 8) ?y = push_bit 8 ?y"
  proof (rule msb_step_pow_shift)
    fix k :: nat
    assume k: "LENGTH(16) \<le> k + 8"
    show "\<not> bit ?y k"
    proof (cases "k < 16")
      case True
      then show ?thesis using k by (simp add: bit_xor_iff bit_inject16 bit_index16)
    next
      case False
      then show ?thesis using bit_imp_le_length [of ?y k] by auto
    qed
  qed
  moreover have "push_bit 8 ?y = push_bit 8 x"
    by (rule bit_word_eqI) (auto simp: bit_push_bit_iff bit_xor_iff bit_inject16)
  ultimately have "(msb_step poly ^^ 8) ?y = push_bit 8 x" by simp
  moreover have "x = ?y XOR inject16 (index16 x)" by (simp add: xor.assoc)
  ultimately show ?thesis by (metis msb_step_pow_xor)
qed

interpretation crc16: crc_table "msb_step Crc_16_CCITTPolynomial" inject16 index16 "push_bit 8" Crc_16_Tab
proof unfold_locales
  show "x = y" if "msb_step Crc_16_CCITTPolynomial x = msb_step Crc_16_CCITTPolynomial y" for x y
    using that by (rule msb_step_inj [rotated]) (simp add: Crc_16_CCITTPolynomial_def)
  show "inject16 (b XOR c) = inject16 b XOR inject16 c" for b c
    by (rule bit_word_eqI) (auto simp: bit_inject16 bit_xor_iff)
  show "b = c" if "inject16 b = inject16 c" for b c
  proof (rule bit_word_eqI)
    fix k assume "k < LENGTH(8)"
    then show "bit b k = bit c k"
      using bit_inject16 [of "k + 8" b] bit_inject16 [of "k + 8" c] that by simp
  qed
  show "index16 (x XOR inject16 b) = index16 x XOR b" for x b
    by (rule bit_word_eqI) (simp add: bit_index16 bit_xor_iff bit_inject16)
  show "push_bit 8 (x XOR inject16 b) = push_bit 8 x" for x b
    by (rule bit_word_eqI) (auto simp: bit_push_bit_iff bit_xor_iff bit_inject16)
  show "Crc_16_Tab = foldl dbl [0]
     (map (\<lambda>j. (msb_step Crc_16_CCITTPolynomial ^^ 8) (inject16 (2 ^ j))) [0..<8])"
    unfolding inject16_def by (rule Crc_16_Tab_basis)
qed (fact msb_step_xor pow8_split16)+

text \<open>
  The register of sixteen bits keeps two bytes apart: the lower one reaches the place of the
  upper one after eight steps.
\<close>

lemma crc16_two_bytes_inj:
  assumes "crc16.byte_step (crc16.byte_step r a) b = crc16.byte_step (crc16.byte_step r a') b'"
  shows "a = a'" and "b = b'"
proof -
  let ?S = "msb_step Crc_16_CCITTPolynomial ^^ 8"
  have shift: "inject16 x = ?S (ucast x)" for x
    unfolding inject16_def by (rule msb_step_pow_shift [symmetric]) (auto simp: bit_ucast_iff dest: bit_imp_le_length)
  have "?S ((r XOR inject16 a) XOR ucast b) = ?S ((r XOR inject16 a') XOR ucast b')"
    using crc16.pow_inj [OF assms [unfolded crc16.byte_step_def]] unfolding crc16.pow_xor shift .
  then have eq: "inject16 a XOR ucast b = inject16 a' XOR ucast b'"
    by (drule_tac crc16.pow_inj) (simp add: xor.assoc crc16.xor_right_inj)
  have bits: "bit (inject16 a XOR ucast b) k = bit (inject16 a' XOR ucast b') k" for k by (simp add: eq)
  show "a = a'"
  proof (rule bit_word_eqI)
    fix k assume k: "k < LENGTH(8)"
    have "\<not> bit x (k + 8)" for x :: uint8 using bit_imp_le_length [of x "k + 8"] by auto
    with bits [of "k + 8"] k show "bit a k = bit a' k" by (simp add: bit_xor_iff bit_inject16 bit_ucast_iff)
  qed
  show "b = b'"
  proof (rule bit_word_eqI)
    fix k assume "k < LENGTH(8)"
    with bits [of k] show "bit b k = bit b' k" by (simp add: bit_xor_iff bit_inject16 bit_ucast_iff)
  qed
qed

definition inject32 :: "uint8 \<Rightarrow> uint32" where
  "inject32 b = ucast b"

definition index32 :: "uint32 \<Rightarrow> uint8" where
  "index32 r = ucast r"

lemma bit_inject32: "k < 32 \<Longrightarrow> bit (inject32 b) k \<longleftrightarrow> k < 8 \<and> bit b k"
  using bit_imp_le_length [of b k] by (auto simp: inject32_def bit_ucast_iff)

lemma bit_index32: "k < 8 \<Longrightarrow> bit (index32 r) k \<longleftrightarrow> bit r k"
  by (simp add: index32_def bit_ucast_iff)

lemma drop_inject32: "drop_bit 8 (x XOR inject32 b) = drop_bit 8 x"
  by (rule bit_word_eqI)
    (auto simp: bit_drop_bit_eq bit_xor_iff inject32_def bit_ucast_iff dest: bit_imp_le_length)

lemma pow8_split32:
  "(lsb_step poly ^^ 8) x = drop_bit 8 x XOR (lsb_step poly ^^ 8) (inject32 (index32 x))"
proof -
  let ?y = "x XOR inject32 (index32 x)"
  have "(lsb_step poly ^^ 8) ?y = drop_bit 8 ?y"
    by (rule lsb_step_pow_shift) (simp add: bit_xor_iff bit_inject32 bit_index32)
  then have "(lsb_step poly ^^ 8) ?y = drop_bit 8 x" by (simp only: drop_inject32)
  moreover have "x = ?y XOR inject32 (index32 x)" by (simp add: xor.assoc)
  ultimately show ?thesis by (metis lsb_step_pow_xor)
qed

lemma inject32_xor: "inject32 (b XOR c) = inject32 b XOR inject32 c"
  by (rule bit_word_eqI) (auto simp: bit_inject32 bit_xor_iff)

lemma index32_inject: "index32 (x XOR inject32 b) = index32 x XOR b"
  by (rule bit_word_eqI) (simp add: bit_index32 bit_xor_iff bit_inject32)

lemma inject32_inj: "inject32 b = inject32 c \<Longrightarrow> b = c"
  using index32_inject [of 0 b] index32_inject [of 0 c] by (simp add: index32_def)

lemmas crc32_laws = lsb_step_xor inject32_xor inject32_inj pow8_split32 index32_inject drop_inject32

interpretation crc32: crc_table
  "lsb_step (reflectResult Crc_32_Polynomial)" inject32 index32 "drop_bit 8" Crc_32_Tab
proof unfold_locales
  show "x = y" if "lsb_step (reflectResult Crc_32_Polynomial) x
      = lsb_step (reflectResult Crc_32_Polynomial) y" for x y
    using that by (rule lsb_step_inj [rotated]) (simp add: reflect_Crc_32_Polynomial)
  show "Crc_32_Tab = foldl dbl [0]
     (map (\<lambda>j. (lsb_step (reflectResult Crc_32_Polynomial) ^^ 8) (inject32 (2 ^ j))) [0..<8])"
    unfolding inject32_def by (rule Crc_32_Tab_basis)
qed (fact crc32_laws)+

interpretation crc32p4: crc_table
  "lsb_step (reflectResult Crc_32P4_Polynomial)" inject32 index32 "drop_bit 8" Crc_32P4_Tab
proof unfold_locales
  show "x = y" if "lsb_step (reflectResult Crc_32P4_Polynomial) x
      = lsb_step (reflectResult Crc_32P4_Polynomial) y" for x y
    using that by (rule lsb_step_inj [rotated]) (simp add: reflect_Crc_32P4_Polynomial)
  show "Crc_32P4_Tab = foldl dbl [0]
     (map (\<lambda>j. (lsb_step (reflectResult Crc_32P4_Polynomial) ^^ 8) (inject32 (2 ^ j))) [0..<8])"
    unfolding inject32_def by (rule Crc_32P4_Tab_basis)
qed (fact crc32_laws)+

lemma calculateCRC8_bytes_fold [loop_simps]:
  "calculateCRC8_bytes p Crc_8_Polynomial s n = foldl crc8.byte_step s (read_bytes p n)"
  by (rule loop_as_foldl) (simp_all add: calculateCRC8_bits_eq crc8.byte_step_def)

lemma calculateCRC8H2F_bytes_fold [loop_simps]:
  "calculateCRC8_bytes p Crc_8_8H2FPolynomial s n = foldl crc8h2f.byte_step s (read_bytes p n)"
  by (rule loop_as_foldl) (simp_all add: calculateCRC8_bits_eq crc8h2f.byte_step_def)

lemma calculateCRC16_bytes_fold [loop_simps]:
  "calculateCRC16_bytes p s n = foldl crc16.byte_step s (read_bytes p n)"
  by (rule loop_as_foldl) (simp_all add: calculateCRC16_bits_eq crc16.byte_step_def inject16_def)

lemma Crc_8_table_loop_fold [loop_simps]:
  "Crc_8_table_loop p s n = foldl crc8.byte_step s (read_bytes p n)"
  unfolding crc8.table_loop_eq [symmetric]
  by (rule loop_as_foldl) (simp_all add: crc8.table_step_def)

lemma Crc_8_8H2F_table_loop_fold [loop_simps]:
  "Crc_8_8H2F_table_loop p s n = foldl crc8h2f.byte_step s (read_bytes p n)"
  unfolding crc8h2f.table_loop_eq [symmetric]
  by (rule loop_as_foldl) (simp_all add: crc8h2f.table_step_def)

text \<open>The table index of the 16 and 32 bit loops is the byte the contract enters the table with.\<close>

lemma index16_mask:
  "unat ((drop_bit 8 r XOR ucast b) AND 0x00FF) = unat (index16 r XOR b)" for r :: uint16
proof -
  have "(drop_bit 8 r XOR ucast b) AND 0x00FF = ucast (index16 r XOR b)"
  proof (rule bit_word_eqI)
    fix k :: nat
    assume "k < LENGTH(16)"
    moreover have "bit (0x00FF :: uint16) k \<longleftrightarrow> k < 8"
      using bit_mask_iff [of 8 k, where 'a = uint16] \<open>k < LENGTH(16)\<close> by (simp add: mask_numeral)
    ultimately show "bit ((drop_bit 8 r XOR ucast b) AND 0x00FF) k
        = bit (ucast (index16 r XOR b) :: uint16) k"
      using bit_imp_le_length [of "index16 r XOR b" k]
      by (auto simp: bit_and_iff bit_xor_iff bit_drop_bit_eq bit_ucast_iff bit_index16 add.commute)
  qed
  then show ?thesis by (simp add: unat_ucast_up)
qed

lemma index32_mask: "unat ((r XOR ucast b) AND 0xFF) = unat (index32 r XOR b)" for r :: uint32
proof -
  have "(r XOR ucast b) AND 0xFF = ucast (index32 r XOR b)"
  proof (rule bit_word_eqI)
    fix k :: nat
    assume "k < LENGTH(32)"
    moreover have "bit (0xFF :: uint32) k \<longleftrightarrow> k < 8"
      using bit_mask_iff [of 8 k, where 'a = uint32] \<open>k < LENGTH(32)\<close> by (simp add: mask_numeral)
    ultimately show "bit ((r XOR ucast b) AND 0xFF) k = bit (ucast (index32 r XOR b) :: uint32) k"
      using bit_imp_le_length [of "index32 r XOR b" k]
      by (auto simp: bit_and_iff bit_xor_iff bit_ucast_iff bit_index32)
  qed
  then show ?thesis by (simp add: unat_ucast_up)
qed

lemma drop_8_mask: "drop_bit 8 r AND 0x00FFFFFF = drop_bit 8 r" for r :: uint32
proof (rule bit_word_eqI)
  fix k :: nat
  assume "k < LENGTH(32)"
  moreover have "bit (0x00FFFFFF :: uint32) k \<longleftrightarrow> k < 24"
    using bit_mask_iff [of 24 k, where 'a = uint32] \<open>k < LENGTH(32)\<close> by (simp add: mask_numeral)
  ultimately show "bit (drop_bit 8 r AND 0x00FFFFFF) k = bit (drop_bit 8 r) k"
    using bit_imp_le_length [of r "8 + k"] by (auto simp: bit_and_iff bit_drop_bit_eq)
qed

lemma Crc_16_table_loop_fold [loop_simps]:
  "Crc_16_table_loop p s n = foldl crc16.byte_step s (read_bytes p n)"
  unfolding crc16.table_loop_eq [symmetric]
  by (rule loop_as_foldl) (simp_all add: crc16.table_step_def Let_def index16_mask)

lemma Crc_32_table_loop_fold [loop_simps]:
  "Crc_32_table_loop p s n = foldl crc32.byte_step s (read_bytes p n)"
  unfolding crc32.table_loop_eq [symmetric]
  by (rule loop_as_foldl) (simp_all add: crc32.table_step_def Let_def index32_mask drop_8_mask)

lemma Crc_32P4_table_loop_fold [loop_simps]:
  "Crc_32P4_table_loop p s n = foldl crc32p4.byte_step s (read_bytes p n)"
  unfolding crc32p4.table_loop_eq [symmetric]
  by (rule loop_as_foldl) (simp_all add: crc32p4.table_step_def Let_def index32_mask drop_8_mask)

lemma calculateCRC32_bytes_fold [loop_simps]:
  "reflectResult (calculateCRC32_bytes p r n) = foldl crc32.byte_step (reflectResult r) (read_bytes p n)"
  by (rule loop_as_foldl)
    (simp_all add: calculateCRC32_bits_eq reflectResult_msb_pow reflectResult_xor
       reflectResult_inData crc32.byte_step_def inject32_def)

lemma calculateCRC32P4_bytes_fold [loop_simps]:
  "reflectResult (calculateCRC32P4_bytes p r n) = foldl crc32p4.byte_step (reflectResult r) (read_bytes p n)"
  by (rule loop_as_foldl)
    (simp_all add: calculateCRC32P4_bits_eq reflectResult_msb_pow reflectResult_xor
       reflectResult_inData crc32p4.byte_step_def inject32_def)

subsection \<open>The entry points as folds\<close>

lemma Crc_CalculateCRC8_fold:
  "Crc_CalculateCRC8 mode (Some p) len s first =
     foldl crc8.byte_step (if first then 0xFF else s XOR 0xFF) (read_bytes p (unat len)) XOR 0xFF"
  by (simp add: Crc_CalculateCRC8_def calculateCRC8_def Crc_8_StartValue_def Crc_8_Xor_def loop_simps
      split: Crc_Mode.split)

lemma Crc_CalculateCRC8H2F_fold:
  "Crc_CalculateCRC8H2F mode (Some p) len s first =
     foldl crc8h2f.byte_step (if first then 0xFF else s XOR 0xFF) (read_bytes p (unat len)) XOR 0xFF"
  by (simp add: Crc_CalculateCRC8H2F_def calculateCRC8_def Crc_8_8H2FStartValue_def
      Crc_8_8H2FXor_def loop_simps split: Crc_Mode.split)

lemma Crc_CalculateCRC16_fold:
  "Crc_CalculateCRC16 mode (Some p) len s first =
     foldl crc16.byte_step (if first then 0xFFFF else s) (read_bytes p (unat len))"
  by (simp add: Crc_CalculateCRC16_def calculateCRC16_def Crc_16_CCITTStartValue_def
      Crc_16_CCITTXor_def loop_simps split: Crc_Mode.split)

lemma Crc_CalculateCRC32_fold:
  "Crc_CalculateCRC32 mode (Some p) len s first =
     foldl crc32.byte_step (if first then 0xFFFFFFFF else s XOR 0xFFFFFFFF)
       (read_bytes p (unat len)) XOR 0xFFFFFFFF"
  by (simp add: Crc_CalculateCRC32_def calculateCRC32_def Crc_32_StartValue_def Crc_32_Xor_def
      loop_simps split: Crc_Mode.split)

lemma Crc_CalculateCRC32P4_fold:
  "Crc_CalculateCRC32P4 mode (Some p) len s first =
     foldl crc32p4.byte_step (if first then 0xFFFFFFFF else s XOR 0xFFFFFFFF)
       (read_bytes p (unat len)) XOR 0xFFFFFFFF"
  by (simp add: Crc_CalculateCRC32P4_def calculateCRC32P4_def Crc_32P4_StartValue_def
      Crc_32P4_Xor_def loop_simps split: Crc_Mode.split)

lemmas Crc_folds = Crc_CalculateCRC8_fold Crc_CalculateCRC8H2F_fold Crc_CalculateCRC16_fold
  Crc_CalculateCRC32_fold Crc_CalculateCRC32P4_fold

subsection \<open>Correctness of the library\<close>

text \<open>
  C13. The table-driven and the bitwise configuration of the CRC routines compute the same
  result: \<open>Crc_CalculateCRC8\<close>, \<open>Crc_CalculateCRC8H2F\<close>, \<open>Crc_CalculateCRC16\<close> and the two
  reflected 32 bit routines, for every data pointer (NULL included), length, start value and
  first-call flag.
\<close>

theorem Crc_table_eq_runtime:
  "Crc_CalculateCRC8 CRC_TABLE ptr len s8 first = Crc_CalculateCRC8 CRC_RUNTIME ptr len s8 first
   \<and> Crc_CalculateCRC8H2F CRC_TABLE ptr len s8 first = Crc_CalculateCRC8H2F CRC_RUNTIME ptr len s8 first
   \<and> Crc_CalculateCRC16 CRC_TABLE ptr len s16 first = Crc_CalculateCRC16 CRC_RUNTIME ptr len s16 first
   \<and> Crc_CalculateCRC32 CRC_TABLE ptr len s32 first = Crc_CalculateCRC32 CRC_RUNTIME ptr len s32 first
   \<and> Crc_CalculateCRC32P4 CRC_TABLE ptr len s32 first = Crc_CalculateCRC32P4 CRC_RUNTIME ptr len s32 first"
proof (cases ptr)
  case None
  then show ?thesis
    by (simp add: Crc_CalculateCRC8_def Crc_CalculateCRC8H2F_def Crc_CalculateCRC16_def
        Crc_CalculateCRC32_def Crc_CalculateCRC32P4_def)
next
  case (Some p)
  then show ?thesis by (simp only: Crc_folds simp_thms)
qed

text \<open>
  A calculation may be split over calls: continuing with the previous result and
  \<open>Crc_IsFirstCall\<close> FALSE over the following bytes gives the result of one call over all
  bytes, in either mode of either call.
\<close>

theorem Crc_call_chaining:
  assumes "unat n1 + unat n2 < 2 ^ 32"
  shows "Crc_CalculateCRC8 m2 (Some (\<lambda>i. p (unat n1 + i))) n2
           (Crc_CalculateCRC8 m1 (Some p) n1 s8 first) False
         = Crc_CalculateCRC8 m1 (Some p) (n1 + n2) s8 first
       \<and> Crc_CalculateCRC8H2F m2 (Some (\<lambda>i. p (unat n1 + i))) n2
           (Crc_CalculateCRC8H2F m1 (Some p) n1 s8 first) False
         = Crc_CalculateCRC8H2F m1 (Some p) (n1 + n2) s8 first
       \<and> Crc_CalculateCRC16 m2 (Some (\<lambda>i. p (unat n1 + i))) n2
           (Crc_CalculateCRC16 m1 (Some p) n1 s16 first) False
         = Crc_CalculateCRC16 m1 (Some p) (n1 + n2) s16 first
       \<and> Crc_CalculateCRC32 m2 (Some (\<lambda>i. p (unat n1 + i))) n2
           (Crc_CalculateCRC32 m1 (Some p) n1 s32 first) False
         = Crc_CalculateCRC32 m1 (Some p) (n1 + n2) s32 first
       \<and> Crc_CalculateCRC32P4 m2 (Some (\<lambda>i. p (unat n1 + i))) n2
           (Crc_CalculateCRC32P4 m1 (Some p) n1 s32 first) False
         = Crc_CalculateCRC32P4 m1 (Some p) (n1 + n2) s32 first"
proof -
  have "unat (n1 + n2) = unat n1 + unat n2"
    using assms by (simp add: unat_add_lem [THEN iffD1])
  then show ?thesis
    by (simp add: Crc_folds read_bytes_add xor.assoc)
qed

theorem Crc_call_chaining_witness:
  "unat (2 :: uint32) + unat (3 :: uint32) < 2 ^ 32
   \<and> Crc_CalculateCRC8 CRC_TABLE (Some (\<lambda>i. of_nat (unat (2 :: uint32) + i))) 3
       (Crc_CalculateCRC8 CRC_RUNTIME (Some of_nat) 2 0 True) False
     = Crc_CalculateCRC8 CRC_RUNTIME (Some of_nat) (2 + 3) 0 True"
  using Crc_call_chaining [of 2 3 CRC_TABLE of_nat CRC_RUNTIME 0 True] by simp

text \<open>
  C38. Every corruption confined to one byte of the data is detected by each of the CRCs,
  wherever the byte is, whatever its old and new value, and for data of any length.
\<close>

theorem Crc_detects_byte_change:
  assumes "k < unat len" and "p k \<noteq> q k" and "\<And>i. i \<noteq> k \<Longrightarrow> p i = q i"
  shows "Crc_CalculateCRC8 mode (Some p) len s8 first \<noteq> Crc_CalculateCRC8 mode (Some q) len s8 first
       \<and> Crc_CalculateCRC8H2F mode (Some p) len s8 first \<noteq> Crc_CalculateCRC8H2F mode (Some q) len s8 first
       \<and> Crc_CalculateCRC16 mode (Some p) len s16 first \<noteq> Crc_CalculateCRC16 mode (Some q) len s16 first
       \<and> Crc_CalculateCRC32 mode (Some p) len s32 first \<noteq> Crc_CalculateCRC32 mode (Some q) len s32 first
       \<and> Crc_CalculateCRC32P4 mode (Some p) len s32 first \<noteq> Crc_CalculateCRC32P4 mode (Some q) len s32 first"
  unfolding Crc_folds xor_right_eq
  using crc8.one_byte_detected_read [of k _ p q, OF assms] crc8h2f.one_byte_detected_read [of k _ p q, OF assms]
    crc16.one_byte_detected_read [of k _ p q, OF assms] crc32.one_byte_detected_read [of k _ p q, OF assms]
    crc32p4.one_byte_detected_read [of k _ p q, OF assms]
  by simp

theorem Crc_detects_byte_change_witness:
  "Crc_CalculateCRC32 CRC_TABLE (Some (\<lambda>_. 7)) 100 0 True
   \<noteq> Crc_CalculateCRC32 CRC_TABLE (Some ((\<lambda>_. 7)(42 := 8))) 100 0 True"
  using Crc_detects_byte_change [of 42 100 "\<lambda>_. 7" "(\<lambda>_. 7)(42 := 8)" CRC_TABLE 0 True 0 0] by simp

text \<open>The check values published for the five parameter sets, on the digits 1 to 9.\<close>

lemma Crc_check_values:
  "Crc_CalculateCRC8 CRC_RUNTIME (Some (\<lambda>i. of_nat (49 + i))) 9 0 True = 0x4B"
  "Crc_CalculateCRC8H2F CRC_RUNTIME (Some (\<lambda>i. of_nat (49 + i))) 9 0 True = 0xDF"
  "Crc_CalculateCRC16 CRC_RUNTIME (Some (\<lambda>i. of_nat (49 + i))) 9 0 True = 0x29B1"
  "Crc_CalculateCRC32 CRC_RUNTIME (Some (\<lambda>i. of_nat (49 + i))) 9 0 True = 0xCBF43926"
  "Crc_CalculateCRC32P4 CRC_RUNTIME (Some (\<lambda>i. of_nat (49 + i))) 9 0 True = 0x1697D06A"
  by code_simp+

end
