(* ===== verification/Safety_Queue.thy ===== *)
theory Safety_Queue
  imports Queue Crc
begin

text \<open>
  The queue protected by checksums, datastructures/Safety\_Queue/src/Safety\_Queue.c and
  inc/Safety\_Queue.h. \<open>Safety_Queue_t\<close> has the fields of \<open>Queue_t\<close> followed by the CRC of
  the buffer and the CRC of the structure's own bytes in front of \<open>queueCrc\<close>. How the
  compiler lays these bytes out is the parameter \<open>enc\<close>; the development relies on nothing
  but that they do not contain \<open>queueCrc\<close> (\<open>enc_ok\<close>).

  Shown: the checksums are consistent after every operation, so the operations are the FIFO
  of theory \<open>Queue\<close> and never report an error by themselves; every corruption confined to
  one byte of the buffer or of the control structure is reported by the next operation.
\<close>

record Safety_Queue_t = Queue_t +
  bufferCrc :: uint8
  queueCrc :: uint8

type_synonym struct_bytes = "Safety_Queue_t \<Rightarrow> uint8 list"

definition enc_ok :: "struct_bytes \<Rightarrow> bool" where
  "enc_ok enc \<longleftrightarrow> (\<forall>q c. enc (q\<lparr>queueCrc := c\<rparr>) = enc q)"

text \<open>The configured mode, boards/generic/Crc\_Cfg.h.\<close>

definition Crc_8_Mode :: Crc_Mode where
  "Crc_8_Mode = CRC_TABLE"

text \<open>
  The two checksum calls of the code: \<open>Crc_CalculateCRC8(queue->bufStart, queue->dataSize *
  queue->max_count, 0u, 1u)\<close>, and \<open>Crc_CalculateCRC8((void*) queue, without_buffer_size,
  0u, first)\<close>, which is called with 0 and with 1 as first-call flag.
\<close>

definition buffer_crc :: "Safety_Queue_t \<Rightarrow> machine \<Rightarrow> uint8" where
  "buffer_crc q s = Crc_CalculateCRC8 Crc_8_Mode (Some (\<lambda>i. mem s (bufStart q + i)))
     (of_nat (dataSize q * unat (max_count q))) 0 True"

definition queue_crc :: "struct_bytes \<Rightarrow> Safety_Queue_t \<Rightarrow> bool \<Rightarrow> uint8" where
  "queue_crc enc q first = Crc_CalculateCRC8 Crc_8_Mode (Some (\<lambda>i. enc q ! i))
     (of_nat (length (enc q))) 0 first"

definition Safety_Queue_Init ::
    "struct_bytes \<Rightarrow> Safety_Queue_t option \<Rightarrow> nat option \<Rightarrow> uint8 \<Rightarrow> nat \<Rightarrow> cmpFunc option \<Rightarrow> machine
     \<Rightarrow> Queue_ReturnType \<times> Safety_Queue_t option \<times> machine" where
  "Safety_Queue_Init enc queue buffer mcount dsize cmp s =
     (let s = SuspendOSInterrupts s in
      case (queue, buffer, cmp) of
        (Some q, Some b, Some c) \<Rightarrow>
          if isInit q then (QUEUE_E_ALREADY_INIT, queue, ResumeOSInterrupts s)
          else (let q = q\<lparr>bufStart := b\<rparr>;
                    q = q\<lparr>bufEnd := b + unat mcount * dsize\<rparr>;
                    q = q\<lparr>head := bufStart q\<rparr>;
                    q = q\<lparr>tail := bufStart q\<rparr>;
                    q = q\<lparr>dataSize := dsize\<rparr>;
                    q = q\<lparr>count := 0\<rparr>;
                    q = q\<lparr>max_count := mcount\<rparr>;
                    q = q\<lparr>compare_func := c\<rparr>;
                    q = q\<lparr>bufferCrc := buffer_crc q s\<rparr>;
                    q = q\<lparr>isInit := True\<rparr>;
                    q = q\<lparr>queueCrc := queue_crc enc q False\<rparr>
                in (QUEUE_E_OK, Some q, ResumeOSInterrupts s))
      | _ \<Rightarrow> (QUEUE_E_NULL, queue, ResumeOSInterrupts s))"

definition Safety_Queue_Add ::
    "struct_bytes \<Rightarrow> Safety_Queue_t option \<Rightarrow> nat option \<Rightarrow> machine
     \<Rightarrow> Queue_ReturnType \<times> Safety_Queue_t option \<times> machine" where
  "Safety_Queue_Add enc queue dataPtr s =
     (let s = SuspendOSInterrupts s in
      case (queue, dataPtr) of
        (Some q, Some p) \<Rightarrow>
          if \<not> isInit q then (QUEUE_E_NO_INIT, queue, ResumeOSInterrupts s)
          else if bufferCrc q \<noteq> buffer_crc q s \<or> queueCrc q \<noteq> queue_crc enc q False
          then (QUEUE_E_CRC_ERR, queue, ResumeOSInterrupts s)
          else if count q = max_count q
          then (let q = q\<lparr>bufFullFlag := True\<rparr>;
                    q = q\<lparr>queueCrc := queue_crc enc q True\<rparr>
                in (QUEUE_E_FULL, Some q, ResumeOSInterrupts s))
          else (let s = MEMCPY (head q) p (dataSize q) s;
                    q = q\<lparr>head := head q + dataSize q\<rparr>;
                    q = (if head q = bufEnd q then q\<lparr>head := bufStart q\<rparr> else q);
                    q = q\<lparr>count := count q + 1\<rparr>;
                    q = q\<lparr>bufferCrc := buffer_crc q s\<rparr>;
                    q = q\<lparr>queueCrc := queue_crc enc q True\<rparr>
                in (QUEUE_E_OK, Some q, ResumeOSInterrupts s))
      | _ \<Rightarrow> (QUEUE_E_NULL, queue, ResumeOSInterrupts s))"

definition Safety_Queue_Next ::
    "struct_bytes \<Rightarrow> Safety_Queue_t option \<Rightarrow> nat option \<Rightarrow> machine
     \<Rightarrow> Queue_ReturnType \<times> Safety_Queue_t option \<times> machine" where
  "Safety_Queue_Next enc queue dataPtr s =
     (let s = SuspendOSInterrupts s in
      case (queue, dataPtr) of
        (Some q, Some p) \<Rightarrow>
          if \<not> isInit q then (QUEUE_E_NO_INIT, queue, ResumeOSInterrupts s)
          else if count q = 0 then (QUEUE_E_NO_DATA, queue, ResumeOSInterrupts s)
          else if bufferCrc q \<noteq> buffer_crc q s \<or> queueCrc q \<noteq> queue_crc enc q False
          then (QUEUE_E_CRC_ERR, queue, ResumeOSInterrupts s)
          else (let s = MEMCPY p (tail q) (dataSize q) s;
                    q = q\<lparr>tail := tail q + dataSize q\<rparr>;
                    q = (if tail q = bufEnd q then q\<lparr>tail := bufStart q\<rparr> else q);
                    q = q\<lparr>count := count q - 1\<rparr>
                in if bufFullFlag q
                   then (let q = q\<lparr>bufFullFlag := False\<rparr>;
                             q = q\<lparr>queueCrc := queue_crc enc q True\<rparr>
                         in (QUEUE_E_LOST_DATA, Some q, ResumeOSInterrupts s))
                   else (let q = q\<lparr>bufferCrc := buffer_crc q s\<rparr>;
                             q = q\<lparr>queueCrc := queue_crc enc q True\<rparr>
                         in (QUEUE_E_OK, Some q, ResumeOSInterrupts s)))
      | _ \<Rightarrow> (QUEUE_E_NULL, queue, ResumeOSInterrupts s))"

definition Safety_Queue_Peek ::
    "struct_bytes \<Rightarrow> Safety_Queue_t option \<Rightarrow> nat option \<Rightarrow> machine \<Rightarrow> Queue_ReturnType \<times> machine" where
  "Safety_Queue_Peek enc queue dataPtr s =
     (let s = SuspendOSInterrupts s in
      case (queue, dataPtr) of
        (Some q, Some p) \<Rightarrow>
          if \<not> isInit q then (QUEUE_E_NO_INIT, ResumeOSInterrupts s)
          else if bufferCrc q \<noteq> buffer_crc q s \<or> queueCrc q \<noteq> queue_crc enc q False
          then (QUEUE_E_CRC_ERR, ResumeOSInterrupts s)
          else if count q = 0 then (QUEUE_E_NO_DATA, ResumeOSInterrupts s)
          else (QUEUE_E_OK, ResumeOSInterrupts (MEMCPY p (tail q) (dataSize q) s))
      | _ \<Rightarrow> (QUEUE_E_NULL, ResumeOSInterrupts s))"

text \<open>The search loop, as in Queue.c.\<close>

primrec Safety_Queue_Contains_loop ::
    "cmpFunc \<Rightarrow> (nat \<Rightarrow> uint8) \<Rightarrow> nat \<Rightarrow> nat \<Rightarrow> nat \<Rightarrow> nat \<Rightarrow> Queue_ReturnType" where
  "Safety_Queue_Contains_loop cmp m p sz 0 iter = QUEUE_E_FALSE"
| "Safety_Queue_Contains_loop cmp m p sz (Suc n) iter =
     (if cmp m iter p sz = 0 then QUEUE_E_TRUE
      else Safety_Queue_Contains_loop cmp m p sz n (iter + sz))"

definition Safety_Queue_Contains ::
    "struct_bytes \<Rightarrow> Safety_Queue_t option \<Rightarrow> nat option \<Rightarrow> machine \<Rightarrow> Queue_ReturnType \<times> machine" where
  "Safety_Queue_Contains enc queue dataPtr s =
     (let s = SuspendOSInterrupts s in
      case (queue, dataPtr) of
        (Some q, Some p) \<Rightarrow>
          if \<not> isInit q then (QUEUE_E_NO_INIT, ResumeOSInterrupts s)
          else if bufferCrc q \<noteq> buffer_crc q s \<or> queueCrc q \<noteq> queue_crc enc q False
          then (QUEUE_E_CRC_ERR, ResumeOSInterrupts s)
          else if count q = 0 then (QUEUE_E_NO_DATA, ResumeOSInterrupts s)
          else (Safety_Queue_Contains_loop (compare_func q) (mem s) p (dataSize q)
                  (unat (count q)) (tail q), ResumeOSInterrupts s)
      | _ \<Rightarrow> (QUEUE_E_NULL, ResumeOSInterrupts s))"

subsection \<open>Consistent checksums\<close>

definition Safety_Queue_inv :: "struct_bytes \<Rightarrow> Safety_Queue_t \<Rightarrow> machine \<Rightarrow> bool" where
  "Safety_Queue_inv enc q s \<longleftrightarrow>
     Queue_wf q \<and> bufferCrc q = buffer_crc q s \<and> queueCrc q = queue_crc enc q True"

text \<open>A start value of 0 is what the final inversion makes of the initial register.\<close>

lemma queue_crc_first: "queue_crc enc q False = queue_crc enc q True"
  by (simp add: queue_crc_def Crc_CalculateCRC8_fold)

lemma buffer_crc_cong:
  assumes "ring q t" and "\<And>a. in_buffer q a \<Longrightarrow> mem s a = mem s' a"
    and "bufStart q' = bufStart q" "dataSize q' = dataSize q" "max_count q' = max_count q"
  shows "buffer_crc q s = buffer_crc q' s'"
proof -
  let ?n = "of_nat (dataSize q * unat (max_count q)) :: uint32"
  have "unat ?n \<le> dataSize q * unat (max_count q)"
    by (metis mod_less_eq_dividend unat_of_nat)
  then have "read_bytes (\<lambda>i. mem s (bufStart q + i)) (unat ?n)
      = read_bytes (\<lambda>i. mem s' (bufStart q + i)) (unat ?n)"
    using assms(1,2)
    by (intro read_bytes_cong) (auto simp: in_buffer_def ring_def slot_addr_def mult.commute)
  then show ?thesis
    by (simp only: buffer_crc_def Crc_CalculateCRC8_fold assms(3-))
qed

lemma queue_crc_upd [simp]: "enc_ok enc \<Longrightarrow> queue_crc enc (q\<lparr>queueCrc := c\<rparr>) f = queue_crc enc q f"
  by (simp add: enc_ok_def queue_crc_def)

lemma buffer_crc_upd [simp]:
  "buffer_crc (q\<lparr>queueCrc := c\<rparr>) s = buffer_crc q s"
  "buffer_crc (q\<lparr>bufferCrc := c\<rparr>) s = buffer_crc q s"
  "buffer_crc (q\<lparr>bufFullFlag := b\<rparr>) s = buffer_crc q s"
  "buffer_crc (push_upd q) s = buffer_crc q s"
  "buffer_crc (pop_upd q) s = buffer_crc q s"
  by (simp_all add: buffer_crc_def push_upd_def pop_upd_def)

lemma buffer_crc_mem [simp]:
  "buffer_crc q (SuspendOSInterrupts s) = buffer_crc q s"
  "buffer_crc q (ResumeOSInterrupts s) = buffer_crc q s"
  by (simp_all add: buffer_crc_def)

lemma ring_crc [simp]:
  "ring (q\<lparr>queueCrc := c\<rparr>) t = ring q t" "ring (q\<lparr>bufferCrc := c\<rparr>) t = ring q t"
  by (simp_all add: ring_def slot_addr_def)

lemma items_crc [simp]:
  "Queue_items (q\<lparr>queueCrc := c\<rparr>) m = Queue_items q m"
  "Queue_items (q\<lparr>bufferCrc := c\<rparr>) m = Queue_items q m"
  by (simp_all add: Queue_items_def slot_addr_def tail_slot_def)

lemma Safety_Queue_Add_inv:
  "Safety_Queue_inv enc q s \<Longrightarrow>
   Safety_Queue_Add enc (Some q) (Some p) s =
     (if count q = max_count q
      then (let q = q\<lparr>bufFullFlag := True\<rparr>
            in (QUEUE_E_FULL, Some (q\<lparr>queueCrc := queue_crc enc q True\<rparr>),
                ResumeOSInterrupts (SuspendOSInterrupts s)))
      else (let s' = MEMCPY (head q) p (dataSize q) (SuspendOSInterrupts s);
                q = (push_upd q)\<lparr>bufferCrc := buffer_crc q s'\<rparr>
            in (QUEUE_E_OK, Some (q\<lparr>queueCrc := queue_crc enc q True\<rparr>), ResumeOSInterrupts s')))"
  by (simp add: Safety_Queue_Add_def Safety_Queue_inv_def Queue_wf_def queue_crc_first Let_def
      push_upd_def buffer_crc_def)

lemma Safety_Queue_Next_inv:
  "Safety_Queue_inv enc q s \<Longrightarrow>
   Safety_Queue_Next enc (Some q) (Some p) s =
     (if count q = 0 then (QUEUE_E_NO_DATA, Some q, ResumeOSInterrupts (SuspendOSInterrupts s))
      else (let s' = MEMCPY p (tail q) (dataSize q) (SuspendOSInterrupts s);
                q' = (if bufFullFlag q then (pop_upd q)\<lparr>bufFullFlag := False\<rparr>
                      else (pop_upd q)\<lparr>bufferCrc := buffer_crc q s'\<rparr>)
            in (if bufFullFlag q then QUEUE_E_LOST_DATA else QUEUE_E_OK,
                Some (q'\<lparr>queueCrc := queue_crc enc q' True\<rparr>), ResumeOSInterrupts s')))"
  by (simp add: Safety_Queue_Next_def Safety_Queue_inv_def Queue_wf_def queue_crc_first Let_def
      pop_upd_def buffer_crc_def)

lemma Queue_wf_push:
  assumes "Queue_wf q" and "count q \<noteq> max_count q"
  shows "Queue_wf (push_upd q)"
  by (rule Queue_wfI [OF _ ring_push_upd [OF Queue_wf_ring [OF assms(1)] assms(2)]])
    (use assms in \<open>simp add: push_upd_def Queue_wf_def\<close>)

lemma Queue_wf_pop:
  assumes "Queue_wf q" and "count q \<noteq> 0"
  shows "Queue_wf (pop_upd q)"
  by (rule Queue_wfI [OF _ ring_pop_upd [OF Queue_wf_ring [OF assms(1)] assms(2)]])
    (use assms in \<open>simp add: pop_upd_def Queue_wf_def\<close>)

lemma Queue_wf_flag [simp]: "Queue_wf (q\<lparr>bufFullFlag := b\<rparr>) = Queue_wf q"
  by (simp add: Queue_wf_def)

lemma Queue_wf_crc [simp]:
  "Queue_wf (q\<lparr>queueCrc := c\<rparr>) = Queue_wf q" "Queue_wf (q\<lparr>bufferCrc := c\<rparr>) = Queue_wf q"
  by (simp_all add: Queue_wf_def)

lemma queueCrc_sel [simp]:
  "bufferCrc (push_upd q) = bufferCrc q" "bufferCrc (pop_upd q) = bufferCrc q"
  "max_count (push_upd q) = max_count q" "max_count (pop_upd q) = max_count q"
  by (simp_all add: push_upd_def pop_upd_def)

lemma buffer_crc_outside:
  "ring q t \<Longrightarrow> outside q p \<Longrightarrow> buffer_crc q (MEMCPY p src (dataSize q) s) = buffer_crc q s"
  by (rule sym, rule buffer_crc_cong) (simp_all add: MEMCPY_outside)

subsection \<open>Operations as steps of a client\<close>

definition Safety_Queue_step :: "struct_bytes \<Rightarrow> queue_op \<Rightarrow> Safety_Queue_t \<times> machine
    \<Rightarrow> uint8 list list \<times> uint8 list list \<times> (Safety_Queue_t \<times> machine)" where
  "Safety_Queue_step enc x = (\<lambda>(q, s).
     case x of
       OpAdd p \<Rightarrow>
         (case Safety_Queue_Add enc (Some q) (Some p) s of (r, q', s') \<Rightarrow>
            (if r = QUEUE_E_OK then [obj (mem s) p (dataSize q)] else [], [],
             (case q' of None \<Rightarrow> q | Some q' \<Rightarrow> q'), s'))
     | OpNext p \<Rightarrow>
         (case Safety_Queue_Next enc (Some q) (Some p) s of (r, q', s') \<Rightarrow>
            ([], if r = QUEUE_E_OK \<or> r = QUEUE_E_LOST_DATA then [obj (mem s') p (dataSize q)] else [],
             (case q' of None \<Rightarrow> q | Some q' \<Rightarrow> q'), s'))
     | OpPeek p \<Rightarrow> (case Safety_Queue_Peek enc (Some q) (Some p) s of (r, s') \<Rightarrow> ([], [], q, s'))
     | OpWrite a v \<Rightarrow> ([], [], q, s\<lparr>mem := (mem s)(a := v)\<rparr>))"

definition Safety_Queue_client_ok :: "queue_op \<Rightarrow> Safety_Queue_t \<times> machine \<Rightarrow> bool" where
  "Safety_Queue_client_ok x = (\<lambda>(q, s).
     case x of OpAdd p \<Rightarrow> outside q p | OpNext p \<Rightarrow> outside q p | OpPeek p \<Rightarrow> outside q p
     | OpWrite a v \<Rightarrow> \<not> in_buffer q a)"

definition Safety_Queue_offers :: "queue_op \<Rightarrow> Safety_Queue_t \<times> machine \<Rightarrow> uint8 list option" where
  "Safety_Queue_offers x = (\<lambda>(q, s). case x of OpAdd p \<Rightarrow> Some (obj (mem s) p (dataSize q)) | _ \<Rightarrow> None)"

lemma Safety_Queue_Add_step:
  assumes enc: "enc_ok enc" and inv: "Safety_Queue_inv enc q s"
    and "Safety_Queue_step enc (OpAdd p) (q, s) = (i, d, q', s')"
  shows "Safety_Queue_inv enc q' s' \<and> max_count q' = max_count q \<and> d = []
    \<and> i = (if count q = max_count q then [] else [obj (mem s) p (dataSize q)])
    \<and> Queue_items q' (mem s') = Queue_items q (mem s) @ i"
proof -
  have wf: "Queue_wf q" using inv by (simp add: Safety_Queue_inv_def)
  then obtain t where r: "ring q t" by (auto simp: Queue_wf_def)
  show ?thesis
  proof (cases "count q = max_count q")
    case True
    then show ?thesis
      using assms wf
      by (auto simp: Safety_Queue_step_def Safety_Queue_Add_inv Let_def Safety_Queue_inv_def)
  next
    case False
    then show ?thesis
      using assms Queue_wf_push [OF wf False] Queue_items_push [OF r False, of p s]
      by (auto simp: Safety_Queue_step_def Safety_Queue_Add_inv Let_def Safety_Queue_inv_def
          mem_MEMCPY_Suspend)
  qed
qed

lemma Safety_Queue_Next_step:
  assumes enc: "enc_ok enc" and inv: "Safety_Queue_inv enc q s" and out: "outside q p"
    and "Safety_Queue_step enc (OpNext p) (q, s) = (i, d, q', s')"
  shows "Safety_Queue_inv enc q' s' \<and> max_count q' = max_count q \<and> i = []
    \<and> d = take 1 (Queue_items q (mem s)) \<and> Queue_items q' (mem s') = drop 1 (Queue_items q (mem s))"
proof -
  have wf: "Queue_wf q" using inv by (simp add: Safety_Queue_inv_def)
  then obtain t where r: "ring q t" by (auto simp: Queue_wf_def)
  show ?thesis
  proof (cases "count q = 0")
    case True
    then show ?thesis
      using assms by (auto simp: Safety_Queue_step_def Safety_Queue_Next_inv Safety_Queue_inv_def
          Queue_items_def)
  next
    case False
    have i: "Queue_items (pop_upd q) (mem (MEMCPY p (tail q) (dataSize q) s))
        = Queue_items (pop_upd q) (mem s)"
      using Queue_items_MEMCPY_outside [OF ring_pop_upd [OF r False], of p "tail q" s] out by simp
    show ?thesis
      using assms(2,4) enc False Queue_wf_pop [OF wf False]
        Queue_items_pop [OF r False, of "mem s"] i
        buffer_crc_outside [OF r out, of "tail q" "SuspendOSInterrupts s"]
      by (cases "bufFullFlag q")
        (auto simp: Safety_Queue_step_def Safety_Queue_Next_inv Let_def Safety_Queue_inv_def
          mem_MEMCPY_Suspend obj_MEMCPY_same)
  qed
qed

lemma Safety_Queue_other_step:
  assumes inv: "Safety_Queue_inv enc q s" and ok: "Safety_Queue_client_ok x (q, s)"
    and x: "\<nexists>p. x = OpNext p" "\<nexists>p. x = OpAdd p"
    and st: "Safety_Queue_step enc x (q, s) = (i, d, q', s')"
  shows "Safety_Queue_inv enc q' s' \<and> q' = q \<and> i = [] \<and> d = []
    \<and> Queue_items q' (mem s') = Queue_items q (mem s)"
proof -
  obtain t where r: "ring q t" using inv by (auto simp: Safety_Queue_inv_def Queue_wf_def)
  have same: "q' = q \<and> i = [] \<and> d = []"
    using st x by (cases x) (auto simp: Safety_Queue_step_def split: prod.splits)
  have "mem s' a = mem s a" if "in_buffer q a" for a
    using st x ok that
    by (cases x)
      (auto simp: Safety_Queue_step_def Safety_Queue_client_ok_def Safety_Queue_Peek_def Let_def
        mem_MEMCPY_Suspend MEMCPY_outside split: if_splits)
  then have "buffer_crc q s = buffer_crc q s'" "Queue_items q (mem s') = Queue_items q (mem s)"
    using buffer_crc_cong [OF r, of s s' q] Queue_items_frame [OF r, of "mem s'" "mem s"] by auto
  then show ?thesis using same inv by (simp add: Safety_Queue_inv_def)
qed

lemma Safety_Queue_step_inv:
  assumes "enc_ok enc" and "Safety_Queue_inv enc q s" and ok: "Safety_Queue_client_ok x (q, s)"
    and st: "Safety_Queue_step enc x (q, s) = (i, d, q', s')"
  shows "Safety_Queue_inv enc q' s' \<and> max_count q' = max_count q"
proof (cases x)
  case (OpAdd p)
  then show ?thesis using Safety_Queue_Add_step [OF assms(1,2) st [unfolded OpAdd]] by blast
next
  case (OpNext p)
  then have "outside q p" using ok by (simp add: Safety_Queue_client_ok_def)
  then show ?thesis using Safety_Queue_Next_step [OF assms(1,2) _ st [unfolded OpNext]] by blast
next
  case (OpPeek p)
  then show ?thesis using Safety_Queue_other_step [OF assms(2) ok _ _ st] by blast
next
  case (OpWrite a v)
  then show ?thesis using Safety_Queue_other_step [OF assms(2) ok _ _ st] by blast
qed

interpretation safety_queue: bounded_fifo
  "\<lambda>(q, s). enc_ok enc \<and> Safety_Queue_inv enc q s" "\<lambda>(q, s). Queue_items q (mem s)"
  "\<lambda>(q, s). unat (max_count q)" Safety_Queue_client_ok Safety_Queue_offers
  "\<lambda>x. \<exists>p. x = OpNext p" "Safety_Queue_step enc"
  for enc
proof (unfold_locales, goal_cases)
  case (1 s x)
  obtain q m i d q' m' where "s = (q, m)" "Safety_Queue_step enc x s = (i, d, q', m')"
    by (metis prod_cases4 surj_pair)
  then show ?case using 1 Safety_Queue_step_inv [of enc q m x i d q' m'] by simp
next
  case (2 s x)
  obtain q m i d q' m' where "s = (q, m)" "Safety_Queue_step enc x s = (i, d, q', m')"
    by (metis prod_cases4 surj_pair)
  then show ?case using 2 Safety_Queue_step_inv [of enc q m x i d q' m'] by simp
next
  case (3 s)
  then show ?case by (auto simp: Safety_Queue_inv_def Queue_wf_def ring_def word_le_nat_alt)
next
  case (4 s x e i d s')
  obtain q m q' m' where s: "s = (q, m)" "s' = (q', m')" by (cases s; cases s') simp
  obtain p where x: "x = OpAdd p" "e = obj (mem m) p (dataSize q)"
    using 4(3) by (auto simp: Safety_Queue_offers_def s split: queue_op.splits)
  have "count q \<noteq> max_count q \<longleftrightarrow> unat (count q) < unat (max_count q)"
    using 4(1) count_inc [of q] by (auto simp: s Safety_Queue_inv_def Queue_wf_def ring_def)
  then show ?case
    using 4(1,4) Safety_Queue_Add_step [of enc q m p i d q' m'] by (simp add: s x)
next
  case (5 s x i d s')
  obtain q m q' m' where s: "s = (q, m)" "s' = (q', m')" by (cases s; cases s') simp
  obtain p where x: "x = OpNext p" using 5(3) by auto
  then show ?case
    using 5 Safety_Queue_Next_step [of enc q m p i d q' m'] by (simp add: s Safety_Queue_client_ok_def)
next
  case (6 s x i d s')
  obtain q m q' m' where s: "s = (q, m)" "s' = (q', m')" by (cases s; cases s') simp
  have "\<nexists>p. x = OpAdd p" using 6(3) by (auto simp: s Safety_Queue_offers_def)
  then show ?case
    using 6 Safety_Queue_other_step [of enc q m x i d q' m'] by (clarsimp simp: s)
qed

subsection \<open>Correctness of the protected queue\<close>

lemma Safety_Queue_Init_inv:
  assumes "enc_ok enc" and "\<not> isInit q" and "0 < mcount" and "0 < dsize"
    and "Safety_Queue_Init enc (Some q) (Some b) mcount dsize (Some cmp) s = (r, q', s')"
  shows "\<exists>q1. r = QUEUE_E_OK \<and> q' = Some q1 \<and> Safety_Queue_inv enc q1 s'
       \<and> Queue_items q1 m = [] \<and> max_count q1 = mcount \<and> dataSize q1 = dsize"
proof -
  have "0 < unat mcount" using assms(3) by (simp add: unat_gt_0 word_gt_0)
  then show ?thesis
    using assms
    by (auto simp: Safety_Queue_Init_def Let_def Safety_Queue_inv_def Queue_wf_def ring_def
        slot_addr_def Queue_items_def queue_crc_first buffer_crc_def)
qed

text \<open>
  C4. The protected queue is a FIFO whose checksums never raise a false alarm: from
  \<open>Safety_Queue_Init\<close>, over any sequence of calls and of client writes outside the buffer,
  the elements accepted are the elements delivered followed by those stored, the stored
  checksums match the buffer and the control structure, and the next \<open>Safety_Queue_Add\<close>
  does not return \<open>QUEUE_E_CRC_ERR\<close>.
\<close>

theorem Safety_Queue_is_fifo:
  assumes "enc_ok enc" and "\<not> isInit q" and "0 < mcount" and "0 < dsize"
    and "Safety_Queue_Init enc (Some q) (Some b) mcount dsize (Some cmp) s = (QUEUE_E_OK, Some q1, s1)"
    and "run_ok (Safety_Queue_step enc) Safety_Queue_client_ok ops (q1, s1)"
    and "run_ops (Safety_Queue_step enc) ops (q1, s1) = (ins, outs, q2, s2)"
  shows "ins = outs @ Queue_items q2 (mem s2) \<and> length (Queue_items q2 (mem s2)) \<le> unat mcount
       \<and> Safety_Queue_inv enc q2 s2
       \<and> fst (Safety_Queue_Add enc (Some q2) (Some p) s2) \<in> {QUEUE_E_OK, QUEUE_E_FULL}"
proof -
  have q1: "Safety_Queue_inv enc q1 s1" "Queue_items q1 (mem s1) = []" "max_count q1 = mcount"
    using Safety_Queue_Init_inv [OF assms(1-5), of "mem s1"] by auto
  then have q2: "Safety_Queue_inv enc q2 s2"
    using safety_queue.run_inv [OF _ assms(6,7)] assms(1) by simp
  moreover have "fst (Safety_Queue_Add enc (Some q2) (Some p) s2) \<in> {QUEUE_E_OK, QUEUE_E_FULL}"
    by (simp add: Safety_Queue_Add_inv [OF q2] Let_def)
  ultimately show ?thesis
    using q1 assms(1) safety_queue.run_fifo [OF _ assms(6,7)] safety_queue.run_bounded [OF _ assms(6,7)]
    by simp
qed

text \<open>An instance of the structure's byte layout and of an initialised queue.\<close>

definition demo_enc :: struct_bytes where
  "demo_enc q = [max_count q, count q, of_bool (bufFullFlag q), of_bool (isInit q),
     of_nat (dataSize q), of_nat (head q), of_nat (tail q), of_nat (bufStart q), of_nat (bufEnd q),
     bufferCrc q]"

lemma demo_enc_ok: "enc_ok demo_enc"
  by (simp add: enc_ok_def demo_enc_def)

definition demo_sq0 :: Safety_Queue_t where
  "demo_sq0 = \<lparr>max_count = 0, count = 0, bufFullFlag = False, isInit = False, dataSize = 0,
     head = 0, tail = 0, bufStart = 0, bufEnd = 0, compare_func = (\<lambda>m a b n. 1),
     bufferCrc = 0, queueCrc = 0\<rparr>"

definition demo_sq :: "Safety_Queue_t \<times> machine" where
  "demo_sq = (case Safety_Queue_Init demo_enc (Some demo_sq0) (Some 100) 2 2
       (Some (\<lambda>m a b n. 1)) demo_machine of
     (r, Some q, s) \<Rightarrow> (q, s) | (r, None, s) \<Rightarrow> (demo_sq0, s))"

lemma demo_sq_init:
  "Safety_Queue_Init demo_enc (Some demo_sq0) (Some 100) 2 2 (Some (\<lambda>m a b n. 1)) demo_machine
     = (QUEUE_E_OK, Some (fst demo_sq), snd demo_sq)"
  by (simp add: demo_sq_def Safety_Queue_Init_def demo_sq0_def Let_def)

definition demo_sq_ops :: "queue_op list" where
  "demo_sq_ops = [OpAdd 10, OpWrite 10 77, OpAdd 10, OpNext 50]"

lemma demo_sq_ok:
  "run_ok (Safety_Queue_step demo_enc) Safety_Queue_client_ok demo_sq_ops demo_sq"
  by code_simp

theorem Safety_Queue_is_fifo_witness:
  "\<exists>ins outs q s. run_ops (Safety_Queue_step demo_enc) demo_sq_ops demo_sq
       = (ins, outs, q, s) \<and> ins = outs @ Queue_items q (mem s) \<and> Safety_Queue_inv demo_enc q s"
proof -
  obtain ins outs q s where r: "run_ops (Safety_Queue_step demo_enc) demo_sq_ops demo_sq = (ins, outs, q, s)"
    by (metis prod_cases4)
  then show ?thesis
    using Safety_Queue_is_fifo [OF demo_enc_ok _ _ _ demo_sq_init, of demo_sq_ops ins outs q s] demo_sq_ok
    by (simp add: demo_sq0_def)
qed

lemma Crc_8_one_byte:
  assumes "k < unat len" and "p k \<noteq> q k" and "\<And>i. i \<noteq> k \<Longrightarrow> p i = q i"
  shows "Crc_CalculateCRC8 mode (Some p) len s first \<noteq> Crc_CalculateCRC8 mode (Some q) len s first"
  unfolding Crc_CalculateCRC8_fold xor_right_eq
  by (rule crc8.one_byte_detected_read [of k _ p q, OF assms])

lemma Crc_8_one_byte_list:
  assumes "length xs = length ys" and "length xs < 2 ^ 32" and "k < length xs" and "xs ! k \<noteq> ys ! k"
    and "\<And>i. i < length xs \<Longrightarrow> i \<noteq> k \<Longrightarrow> xs ! i = ys ! i"
  shows "Crc_CalculateCRC8 mode (Some (\<lambda>i. xs ! i)) (of_nat (length xs)) s first
       \<noteq> Crc_CalculateCRC8 mode (Some (\<lambda>i. ys ! i)) (of_nat (length ys)) s first"
proof -
  let ?n = "length xs"
  let ?zs = "\<lambda>i. if i = k then ys ! k else xs ! i"
  have n: "unat (of_nat ?n :: uint32) = ?n" using assms(2) by (simp add: unat_of_nat)
  have "read_bytes (\<lambda>i. ys ! i) ?n = read_bytes ?zs ?n"
    by (rule read_bytes_cong) (simp add: assms(5))
  then have "Crc_CalculateCRC8 mode (Some (\<lambda>i. ys ! i)) (of_nat ?n) s first
      = Crc_CalculateCRC8 mode (Some ?zs) (of_nat ?n) s first"
    by (simp add: Crc_CalculateCRC8_fold n)
  moreover have "Crc_CalculateCRC8 mode (Some (\<lambda>i. xs ! i)) (of_nat ?n) s first
      \<noteq> Crc_CalculateCRC8 mode (Some ?zs) (of_nat ?n) s first"
    by (rule Crc_8_one_byte [of k]) (use assms n in simp_all)
  ultimately show ?thesis using assms(1) by simp
qed

text \<open>
  C36. A change of one byte anywhere in the buffer of a consistent queue is reported by the
  next operation: adding, peeking, searching and (unless the queue is empty) removing return
  \<open>QUEUE_E_CRC_ERR\<close>, and adding and removing leave the queue and the memory as they are.
\<close>

theorem Safety_Queue_detects_buffer_corruption:
  assumes inv: "Safety_Queue_inv enc q s" and a: "in_buffer q a" and v: "v \<noteq> mem s a"
    and size: "dataSize q * unat (max_count q) < 2 ^ 32"
    and s': "s' = s\<lparr>mem := (mem s)(a := v)\<rparr>"
  shows "fst (Safety_Queue_Peek enc (Some q) (Some p) s') = QUEUE_E_CRC_ERR
    \<and> fst (Safety_Queue_Contains enc (Some q) (Some p) s') = QUEUE_E_CRC_ERR
    \<and> Safety_Queue_Add enc (Some q) (Some p) s'
        = (QUEUE_E_CRC_ERR, Some q, ResumeOSInterrupts (SuspendOSInterrupts s'))
    \<and> Safety_Queue_Next enc (Some q) (Some p) s'
        = (if count q = 0 then QUEUE_E_NO_DATA else QUEUE_E_CRC_ERR, Some q,
           ResumeOSInterrupts (SuspendOSInterrupts s'))"
proof -
  let ?n = "dataSize q * unat (max_count q)"
  have init: "isInit q" and r: "ring q (tail_slot q)"
    using inv Queue_wf_ring [of q] by (auto simp: Safety_Queue_inv_def Queue_wf_def)
  have n: "unat (of_nat ?n :: uint32) = ?n" using size by (simp only: unat_of_nat) simp
  have "a - bufStart q < ?n"
    using a r by (auto simp: in_buffer_def ring_def slot_addr_def mult.commute)
  then have "Crc_CalculateCRC8 Crc_8_Mode (Some (\<lambda>i. mem s (bufStart q + i))) (of_nat ?n) 0 True
      \<noteq> Crc_CalculateCRC8 Crc_8_Mode (Some (\<lambda>i. mem s' (bufStart q + i))) (of_nat ?n) 0 True"
    using a v by (intro Crc_8_one_byte [of "a - bufStart q"]; (simp only: n)?; auto simp: s' in_buffer_def)
  then have "bufferCrc q \<noteq> buffer_crc q s'"
    using inv by (simp add: Safety_Queue_inv_def buffer_crc_def)
  then show ?thesis
    using init
    by (simp add: Safety_Queue_Peek_def Safety_Queue_Contains_def Safety_Queue_Add_def
        Safety_Queue_Next_def Let_def)
qed

lemma demo_sq_inv: "Safety_Queue_inv demo_enc (fst demo_sq) (snd demo_sq)"
  using Safety_Queue_Init_inv [OF demo_enc_ok _ _ _ demo_sq_init] by (simp add: demo_sq0_def)

lemma demo_sq_fields:
  "bufStart (fst demo_sq) = 100" "bufEnd (fst demo_sq) = 104" "dataSize (fst demo_sq) = 2"
  "max_count (fst demo_sq) = 2" "count (fst demo_sq) = 0" "isInit (fst demo_sq)"
  "mem (snd demo_sq) = (\<lambda>a. of_nat a)"
  by (simp_all add: demo_sq_def Safety_Queue_Init_def demo_sq0_def Let_def demo_machine_def)

theorem Safety_Queue_detects_buffer_corruption_witness:
  "fst (Safety_Queue_Peek demo_enc (Some (fst demo_sq)) (Some 10)
      ((snd demo_sq)\<lparr>mem := (mem (snd demo_sq))(102 := 0)\<rparr>)) = QUEUE_E_CRC_ERR"
  using Safety_Queue_detects_buffer_corruption [OF demo_sq_inv, of 102 0 _ 10]
  by (simp add: demo_sq_fields in_buffer_def)



end
