(* ===== verification/Os_Kernel.thy ===== *)
theory Os_Kernel
  imports Os_Irq "HOL-Library.Monad_Syntax"
begin

text \<open>
  The task scheduler of system/Os/rtos/src: os\_task.c, os\_task\_i.h, os\_event.c,
  os\_resource.c, os\_resource\_i.h, os\_sys.h and the error macros of os\_i.h and
  os\_internal.h, in the configuration of one core, scalability class 1 or 2, extended status,
  without \<open>CFG_KERNEL_EXTRA\<close> and for the ports on which \<open>Os_TaskStartFromBeginning\<close> sets up a
  new context (PPC, ARMv7, Cortex-R4, RH850, TMS570; not TC2xx).

  Tasks, resources and events are referred to by their numbers; the arrays of the code are
  lists. A failed \<open>ASSERT\<close> is the result \<open>None\<close>.

  The functions of a port that set up and swap contexts are not part of the sources; what
  inc/arch.h says of them is built in, as far as it decides which code runs next. A context
  switch saves the place at which the old task left the processor, the service it was
  in, and continues the new task at the place saved for it: at its entry function, or behind
  the \<open>Os_Dispatch\<close> of the service it was swapped out in. What that service still does there
  belongs to the switch (\<open>Os_Resume\<close>): the assertion that \<open>TerminateTask\<close> and \<open>ChainTask\<close>
  never come back, and that of \<open>WaitEvent\<close> that the task is running. A service that switches thus
  returns the state in which the new task continues, and the status its caller finds once it is
  resumed; the interrupt flag is the one the caller had. Hooks, context switches and task
  starts are recorded in a log, in the order of the code.
\<close>

subsection \<open>Data\<close>

datatype StatusType = STATUS_OK | E_OS_ACCESS | E_OS_CALLEVEL | E_OS_ID | E_OS_LIMIT | E_OS_NOFUNC
  | E_OS_RESOURCE | E_OS_STATE | E_OS_VALUE | E_OS_PARAM_POINTER | E_OS_DISABLEDINT
  | E_OS_ISR_RESOURCE | E_OS_MISSINGEND

datatype state_t = ST_READY | ST_WAIT_EVENT | ST_SUSPENDED | ST_RUNNING

datatype OsTaskSchedule = FULL | NON

datatype proc_type_t = PROC_BASIC | PROC_EXTENDED

datatype OpType = OP_SET_EVENT | OP_WAIT_EVENT | OP_ACTIVATE_TASK | OP_TERMINATE_TASK | OP_SCHEDULE
  | OP_CHAIN_TASK | OP_RELEASE_RESOURCE

datatype OsResourcePropertyType = RESOURCE_TYPE_STANDARD | RESOURCE_TYPE_LINKED | RESOURCE_TYPE_INTERNAL

datatype OSServiceIdType = OSServiceId_GetTaskState | OSServiceId_GetTaskID | OSServiceId_ActivateTask
  | OSServiceId_TerminateTask | OSServiceId_ChainTask | OSServiceId_Schedule
  | OSServiceId_GetResource | OSServiceId_ReleaseResource | OSServiceId_WaitEvent
  | OSServiceId_SetEvent | OSServiceId_GetEvent | OSServiceId_ClearEvent
  | OSServiceId_IncrementCounter | OSServiceId_GetCounterValue | OSServiceId_GetElapsedValue
  | OSServiceId_SetRelAlarm | OSServiceId_SetAbsAlarm | OSServiceId_GetAlarmBase
  | OSServiceId_GetAlarm | OSServiceId_CancelAlarm
  | OSServiceId_StartScheduleTableRel | OSServiceId_StartScheduleTableAbs
  | OSServiceId_StopScheduleTable | OSServiceId_NextScheduleTable | OSServiceId_GetScheduleTableStatus

type_synonym EventMaskType = "64 word"

record OsTaskConst =
  prio :: uint32
  proc_type :: proc_type_t
  autostart :: bool
  scheduling :: OsTaskSchedule
  resourceAccess :: uint32
  resourceIntPtr :: "nat option"
  activationLimit :: uint8

text \<open>
  \<open>ctx\<close> is the place the saved context of a task leads to: \<open>None\<close> for the entry function (a
  context set up by \<open>Os_ArchSetupContext\<close>), otherwise the dispatch the task was swapped out in.
\<close>

record OsTaskVar =
  state :: state_t
  ev_wait :: EventMaskType
  ev_set :: EventMaskType
  activePriority :: uint32
  activations :: uint8
  reactivation :: bool
  resourceHead :: "nat list"
  ctx :: "OpType option"

text \<open>\<open>owner\<close> is \<open>None\<close> for \<open>NO_TASK_OWNER\<close>.\<close>

record OsResource =
  ceiling_priority :: uint32
  old_task_prio :: uint32
  owner :: "nat option"
  res_type :: OsResourcePropertyType

datatype os_event = PreTaskHook nat | PostTaskHook nat | ErrorHook StatusType OSServiceIdType "nat list"
  | SwapContext nat nat | StartFromBeginning nat

text \<open>
  The global system structure. \<open>resource_list\<close> holds the \<open>OS_RESOURCE_CNT\<close> configured
  resources followed by the scheduler resource, whose number is \<open>RES_SCHEDULER\<close>.
\<close>

record Os_Sys = machine +
  taskConst :: "OsTaskConst list"
  Os_TaskVarList :: "OsTaskVar list"
  ready_head :: "nat list"
  currTaskPtr :: nat
  chainedPcbPtr :: "nat option"
  intNestCnt :: uint32
  resource_list :: "OsResource list"
  os_log :: "os_event list"

abbreviation task :: "'a Os_Sys_scheme \<Rightarrow> nat \<Rightarrow> OsTaskVar" where
  "task s t \<equiv> Os_TaskVarList s ! t"

abbreviation OS_TASK_CNT :: "'a Os_Sys_scheme \<Rightarrow> nat" where
  "OS_TASK_CNT s \<equiv> length (Os_TaskVarList s)"

definition RES_SCHEDULER :: "'a Os_Sys_scheme \<Rightarrow> nat" where
  "RES_SCHEDULER s = length (resource_list s) - 1"

definition upd_task :: "nat \<Rightarrow> (OsTaskVar \<Rightarrow> OsTaskVar) \<Rightarrow> 'a Os_Sys_scheme \<Rightarrow> 'a Os_Sys_scheme" where
  "upd_task t f s = s\<lparr>Os_TaskVarList := (Os_TaskVarList s)[t := f (task s t)]\<rparr>"

definition upd_res :: "nat \<Rightarrow> (OsResource \<Rightarrow> OsResource) \<Rightarrow> 'a Os_Sys_scheme \<Rightarrow> 'a Os_Sys_scheme" where
  "upd_res r f s = s\<lparr>resource_list := (resource_list s)[r := f (resource_list s ! r)]\<rparr>"

definition log_ev :: "os_event \<Rightarrow> 'a Os_Sys_scheme \<Rightarrow> 'a Os_Sys_scheme" where
  "log_ev e s = s\<lparr>os_log := os_log s @ [e]\<rparr>"

definition ASSERT :: "bool \<Rightarrow> unit option" where
  "ASSERT c = (if c then Some () else None)"

text \<open>\<open>OS_STD_ERR\<close> and its variants: record the service and its arguments, call the error hook.\<close>

definition OS_STD_ERR :: "OSServiceIdType \<Rightarrow> nat list \<Rightarrow> StatusType \<Rightarrow> 'a Os_Sys_scheme
    \<Rightarrow> StatusType \<times> 'a Os_Sys_scheme" where
  "OS_STD_ERR sid ps rv s = (rv, log_ev (ErrorHook rv sid ps) s)"

definition Os_SysIntAnyDisabled :: "'a Os_Sys_scheme \<Rightarrow> bool" where
  "Os_SysIntAnyDisabled s \<longleftrightarrow> Os_IntDisableAllCnt s OR Os_IntSuspendAllCnt s \<noteq> 0"

definition Irq_Save :: "'a Os_Sys_scheme \<Rightarrow> bool \<times> 'a Os_Sys_scheme" where
  "Irq_Save s = (irq_enabled s, s\<lparr>irq_enabled := False\<rparr>)"

definition Irq_Restore :: "bool \<Rightarrow> 'a Os_Sys_scheme \<Rightarrow> 'a Os_Sys_scheme" where
  "Irq_Restore flags s = s\<lparr>irq_enabled := flags\<rparr>"

subsection \<open>Ready queue\<close>

definition Os_ReadyQRemove :: "nat \<Rightarrow> 'a Os_Sys_scheme \<Rightarrow> 'a Os_Sys_scheme" where
  "Os_ReadyQRemove t s = s\<lparr>ready_head := remove1 t (ready_head s)\<rparr>"

definition Os_ReadyQEnqueue :: "nat \<Rightarrow> 'a Os_Sys_scheme \<Rightarrow> 'a Os_Sys_scheme" where
  "Os_ReadyQEnqueue t s = s\<lparr>ready_head := ready_head s @ [t]\<rparr>"

definition is_ready_or_running :: "state_t \<Rightarrow> bool" where
  "is_ready_or_running st \<longleftrightarrow> st = ST_READY \<or> st = ST_RUNNING"

definition Os_TaskRunningToReady :: "nat \<Rightarrow> 'a Os_Sys_scheme \<Rightarrow> 'a Os_Sys_scheme option" where
  "Os_TaskRunningToReady t s =
     do { ASSERT (state (task s t) = ST_RUNNING);
          Some (upd_task t (\<lambda>v. v\<lparr>state := ST_READY\<rparr>) s) }"

definition Os_TaskMakeSuspended :: "nat \<Rightarrow> 'a Os_Sys_scheme \<Rightarrow> 'a Os_Sys_scheme option" where
  "Os_TaskMakeSuspended t s =
     do { ASSERT (is_ready_or_running (state (task s t)));
          Some (Os_ReadyQRemove t (upd_task t (\<lambda>v. v\<lparr>state := ST_SUSPENDED\<rparr>) s)) }"

definition Os_TaskMakeReady :: "nat \<Rightarrow> 'a Os_Sys_scheme \<Rightarrow> 'a Os_Sys_scheme" where
  "Os_TaskMakeReady t s =
     (if \<not> is_ready_or_running (state (task s t))
      then Os_ReadyQEnqueue t (upd_task t (\<lambda>v. v\<lparr>state := ST_READY\<rparr>) s) else s)"

definition Os_TaskMakeWaiting :: "nat \<Rightarrow> 'a Os_Sys_scheme \<Rightarrow> 'a Os_Sys_scheme option" where
  "Os_TaskMakeWaiting t s =
     do { ASSERT (is_ready_or_running (state (task s t)));
          Some (Os_ReadyQRemove t (upd_task t (\<lambda>v. v\<lparr>state := ST_WAIT_EVENT\<rparr>) s)) }"

definition Os_TaskMakeRunning :: "nat \<Rightarrow> 'a Os_Sys_scheme \<Rightarrow> 'a Os_Sys_scheme" where
  "Os_TaskMakeRunning t s = upd_task t (\<lambda>v. v\<lparr>state := ST_RUNNING\<rparr>) s"

text \<open>Of a context only the place it leads to is modelled, not stack and registers.\<close>

definition Os_ArchSetupContext :: "nat \<Rightarrow> 'a Os_Sys_scheme \<Rightarrow> 'a Os_Sys_scheme" where
  "Os_ArchSetupContext t s = upd_task t (\<lambda>v. v\<lparr>ctx := None\<rparr>) s"

definition Os_Arc_SetCleanContext :: "nat \<Rightarrow> 'a Os_Sys_scheme \<Rightarrow> 'a Os_Sys_scheme" where
  "Os_Arc_SetCleanContext t s =
     Os_ArchSetupContext t
       (if proc_type (taskConst s ! t) = PROC_EXTENDED
        then upd_task t (\<lambda>v. v\<lparr>ev_set := 0, ev_wait := 0\<rparr>) s else s)"

definition Os_TaskContextInit :: "nat \<Rightarrow> 'a Os_Sys_scheme \<Rightarrow> 'a Os_Sys_scheme" where
  "Os_TaskContextInit t s =
     Os_ArchSetupContext t
       (if autostart (taskConst s ! t)
        then Os_TaskMakeReady t (upd_task t (\<lambda>v. v\<lparr>activations := activations v + 1\<rparr>) s)
        else upd_task t (\<lambda>v. v\<lparr>state := ST_SUSPENDED\<rparr>) s)"

text \<open>The scan of the ready queue: \<open>found\<close> and the best candidate so far.\<close>

primrec Os_TaskGetTop_scan :: "'a Os_Sys_scheme \<Rightarrow> nat list \<Rightarrow> nat option \<Rightarrow> nat option option" where
  "Os_TaskGetTop_scan s [] best = Some best"
| "Os_TaskGetTop_scan s (i # is) best =
     do { ASSERT (is_ready_or_running (state (task s i)));
          Os_TaskGetTop_scan s is
            (case best of
               None \<Rightarrow> Some i
             | Some b \<Rightarrow> if activePriority (task s i) > activePriority (task s b) then Some i else Some b) }"

definition Os_TaskGetTop :: "'a Os_Sys_scheme \<Rightarrow> nat option" where
  "Os_TaskGetTop s =
     do { best \<leftarrow> Os_TaskGetTop_scan s (ready_head s) None;
          ASSERT (best \<noteq> None);
          best }"

subsection \<open>Resources of a task\<close>

definition Os_TaskResourceAdd :: "nat \<Rightarrow> nat \<Rightarrow> 'a Os_Sys_scheme \<Rightarrow> 'a Os_Sys_scheme" where
  "Os_TaskResourceAdd r t s =
     (let s = upd_res r (\<lambda>x. x\<lparr>owner := Some t, old_task_prio := activePriority (task s t)\<rparr>) s;
          s = upd_task t (\<lambda>v. v\<lparr>activePriority := ceiling_priority (resource_list s ! r)\<rparr>) s
      in if res_type (resource_list s ! r) \<noteq> RESOURCE_TYPE_INTERNAL
         then upd_task t (\<lambda>v. v\<lparr>resourceHead := resourceHead v @ [r]\<rparr>) s else s)"

definition Os_TaskResourceRemove :: "nat \<Rightarrow> nat \<Rightarrow> 'a Os_Sys_scheme \<Rightarrow> 'a Os_Sys_scheme option" where
  "Os_TaskResourceRemove r t s =
     do { ASSERT (owner (resource_list s ! r) = Some t);
          let s = upd_res r (\<lambda>x. x\<lparr>owner := None\<rparr>) s;
          let s = upd_task t (\<lambda>v. v\<lparr>activePriority := old_task_prio (resource_list s ! r)\<rparr>) s;
          if res_type (resource_list s ! r) \<noteq> RESOURCE_TYPE_INTERNAL
          then do { ASSERT (resourceHead (task s t) \<noteq> []);
                    ASSERT (last (resourceHead (task s t)) = r);
                    Some (upd_task t (\<lambda>v. v\<lparr>resourceHead := remove1 r (resourceHead v)\<rparr>) s) }
          else Some s }"

text \<open>\<open>TAILQ_FOREACH\<close> over the list as it is, releasing each element.\<close>

primrec Os_TaskResourceFreeAll_loop :: "nat list \<Rightarrow> nat \<Rightarrow> 'a Os_Sys_scheme \<Rightarrow> 'a Os_Sys_scheme option" where
  "Os_TaskResourceFreeAll_loop [] t s = Some s"
| "Os_TaskResourceFreeAll_loop (r # rs) t s =
     do { s \<leftarrow> Os_TaskResourceRemove r t s; Os_TaskResourceFreeAll_loop rs t s }"

definition Os_TaskResourceFreeAll :: "nat \<Rightarrow> 'a Os_Sys_scheme \<Rightarrow> 'a Os_Sys_scheme option" where
  "Os_TaskResourceFreeAll t s = Os_TaskResourceFreeAll_loop (resourceHead (task s t)) t s"

definition Os_TaskOccupiesResources :: "nat \<Rightarrow> 'a Os_Sys_scheme \<Rightarrow> bool" where
  "Os_TaskOccupiesResources t s \<longleftrightarrow> resourceHead (task s t) \<noteq> []"

definition Os_SchedulerResourceIsFree :: "'a Os_Sys_scheme \<Rightarrow> bool" where
  "Os_SchedulerResourceIsFree s \<longleftrightarrow> owner (resource_list s ! RES_SCHEDULER s) = None"

definition Os_ResourceGetInternal :: "'a Os_Sys_scheme \<Rightarrow> 'a Os_Sys_scheme" where
  "Os_ResourceGetInternal s =
     (let t = currTaskPtr s in
      case resourceIntPtr (taskConst s ! t) of
        None \<Rightarrow> s | Some r \<Rightarrow> Os_TaskResourceAdd r t s)"

definition Os_ResourceReleaseInternal :: "'a Os_Sys_scheme \<Rightarrow> 'a Os_Sys_scheme option" where
  "Os_ResourceReleaseInternal s =
     (let t = currTaskPtr s in
      case resourceIntPtr (taskConst s ! t) of
        None \<Rightarrow> Some s | Some r \<Rightarrow> Os_TaskResourceRemove r t s)"

subsection \<open>Dispatcher\<close>

text \<open>The task starts on a fresh context; \<open>Os_Dispatch\<close> does not come back to its caller.\<close>

definition Os_TaskStartFromBeginning :: "nat \<Rightarrow> 'a Os_Sys_scheme \<Rightarrow> 'a Os_Sys_scheme" where
  "Os_TaskStartFromBeginning t s =
     (let s = Os_TaskMakeRunning t s;
          s = s\<lparr>currTaskPtr := t\<rparr>;
          s = log_ev (PreTaskHook t) s;
          s = Os_ArchSetupContext t s
      in log_ev (StartFromBeginning t) s)"

text \<open>
  What the services still do when \<open>Os_Dispatch\<close> returns to them, that is, when the task \<open>t\<close> that
  called them is swapped in again.
\<close>

definition TerminateTask_rest :: "unit option" where
  "TerminateTask_rest = ASSERT False"

definition ChainTask_rest :: "unit option" where
  "ChainTask_rest = ASSERT False"

definition WaitEvent_rest :: "nat \<Rightarrow> 'a Os_Sys_scheme \<Rightarrow> unit option" where
  "WaitEvent_rest t s = ASSERT (state (task s t) = ST_RUNNING)"

definition Os_Resume :: "nat \<Rightarrow> 'a Os_Sys_scheme \<Rightarrow> unit option" where
  "Os_Resume t s =
     (case ctx (task s t) of
        Some OP_TERMINATE_TASK \<Rightarrow> TerminateTask_rest
      | Some OP_CHAIN_TASK \<Rightarrow> ChainTask_rest
      | Some OP_WAIT_EVENT \<Rightarrow> WaitEvent_rest t s
      | _ \<Rightarrow> Some ())"

text \<open>\<open>Os_ArchSwapContext\<close>: the old task is left in the dispatch for \<open>op\<close>, the new one continues.\<close>

definition Os_ArchSwapContext :: "OpType \<Rightarrow> nat \<Rightarrow> nat \<Rightarrow> 'a Os_Sys_scheme \<Rightarrow> 'a Os_Sys_scheme option" where
  "Os_ArchSwapContext op old_pcb new_pcb s =
     do { let s = log_ev (SwapContext old_pcb new_pcb) (upd_task old_pcb (\<lambda>v. v\<lparr>ctx := Some op\<rparr>) s);
          Os_Resume new_pcb s;
          Some s }"

definition Os_TaskSwapContext :: "OpType \<Rightarrow> nat \<Rightarrow> nat \<Rightarrow> 'a Os_Sys_scheme \<Rightarrow> 'a Os_Sys_scheme option" where
  "Os_TaskSwapContext op old_pcb new_pcb s =
     (let s = s\<lparr>currTaskPtr := new_pcb\<rparr>;
          s = Os_ResourceGetInternal s;
          s = Os_TaskMakeRunning new_pcb s;
          s = log_ev (PreTaskHook new_pcb) s
      in Os_ArchSwapContext op old_pcb new_pcb s)"

text \<open>The state the running task is left in, by operation.\<close>

definition Os_Dispatch_leave :: "OpType \<Rightarrow> nat \<Rightarrow> 'a Os_Sys_scheme \<Rightarrow> 'a Os_Sys_scheme option" where
  "Os_Dispatch_leave op cur s =
     (case op of
        OP_SET_EVENT \<Rightarrow> Os_TaskRunningToReady cur s
      | OP_SCHEDULE \<Rightarrow> Os_TaskRunningToReady cur s
      | OP_RELEASE_RESOURCE \<Rightarrow> Os_TaskRunningToReady cur s
      | OP_WAIT_EVENT \<Rightarrow> Os_TaskMakeWaiting cur s
      | OP_ACTIVATE_TASK \<Rightarrow> Some (Os_TaskMakeReady cur s)
      | OP_CHAIN_TASK \<Rightarrow>
          do { ASSERT (chainedPcbPtr s \<noteq> None);
               if chainedPcbPtr s \<noteq> Some cur
               then do { ASSERT (activations (task s cur) > 0);
                         let s = upd_task cur (\<lambda>v. v\<lparr>activations := activations v - 1\<rparr>) s;
                         if activations (task s cur) = 0 then Os_TaskMakeSuspended cur s
                         else do { s \<leftarrow> Os_TaskRunningToReady cur s;
                                   Some (upd_task cur (\<lambda>v. v\<lparr>reactivation := True\<rparr>) s) } }
               else Some s }
      | OP_TERMINATE_TASK \<Rightarrow>
          do { ASSERT (activations (task s cur) > 0);
               let s = upd_task cur (\<lambda>v. v\<lparr>activations := activations v - 1\<rparr>) s;
               if activations (task s cur) = 0 then Os_TaskMakeSuspended cur s else Some s })"

definition Os_Dispatch :: "OpType \<Rightarrow> 'a Os_Sys_scheme \<Rightarrow> 'a Os_Sys_scheme option" where
  "Os_Dispatch op s =
     do { let cur = currTaskPtr s;
          ASSERT (intNestCnt s = 0);
          ASSERT (Os_SchedulerResourceIsFree s);
          ASSERT (state (task s cur) = ST_RUNNING);
          s \<leftarrow> Os_Dispatch_leave op cur (log_ev (PostTaskHook cur) s);
          top \<leftarrow> Os_TaskGetTop s;
          if top \<noteq> cur
          then do { s \<leftarrow> Os_ResourceReleaseInternal s;
                    if reactivation (task s top)
                    then Some (Os_TaskStartFromBeginning top (upd_task top (\<lambda>v. v\<lparr>reactivation := False\<rparr>) s))
                    else Os_TaskSwapContext op cur top s }
          else Some (Os_TaskStartFromBeginning top s) }"

subsection \<open>Task services\<close>

text \<open>Output pointers: \<open>None\<close> is NULL, otherwise the address; the value read is returned.\<close>

definition GetTaskState :: "nat \<Rightarrow> nat option \<Rightarrow> 'a Os_Sys_scheme
    \<Rightarrow> StatusType \<times> state_t option \<times> 'a Os_Sys_scheme" where
  "GetTaskState TaskId Ref s =
     (case Ref of
        None \<Rightarrow> (case OS_STD_ERR OSServiceId_GetTaskState [TaskId, 0] E_OS_PARAM_POINTER s of (rv, s) \<Rightarrow> (rv, None, s))
      | Some p \<Rightarrow>
          if \<not> TaskId < OS_TASK_CNT s
          then (case OS_STD_ERR OSServiceId_GetTaskState [TaskId, p] E_OS_ID s of (rv, s) \<Rightarrow> (rv, None, s))
          else (STATUS_OK, Some (state (task s TaskId)), s))"

text \<open>The inner \<open>None\<close> is \<open>INVALID_TASK\<close>: the service is called from an interrupt.\<close>

definition GetTaskID :: "nat option \<Rightarrow> 'a Os_Sys_scheme
    \<Rightarrow> StatusType \<times> nat option option \<times> 'a Os_Sys_scheme" where
  "GetTaskID Ref s =
     (case Ref of
        None \<Rightarrow> (case OS_STD_ERR OSServiceId_GetTaskID [0] E_OS_PARAM_POINTER s of (rv, s) \<Rightarrow> (rv, None, s))
      | Some p \<Rightarrow> (STATUS_OK, Some (if intNestCnt s = 0 then Some (currTaskPtr s) else None), s))"

definition ActivateTask :: "nat \<Rightarrow> 'a Os_Sys_scheme \<Rightarrow> (StatusType \<times> 'a Os_Sys_scheme) option" where
  "ActivateTask TaskID s =
     (if \<not> TaskID < OS_TASK_CNT s then Some (OS_STD_ERR OSServiceId_ActivateTask [TaskID] E_OS_ID s)
      else if Os_SysIntAnyDisabled s
      then Some (OS_STD_ERR OSServiceId_ActivateTask [TaskID] E_OS_DISABLEDINT s)
      else
        (let cur = currTaskPtr s;
             (flags, s) = Irq_Save s;
             s = upd_task TaskID (\<lambda>v. v\<lparr>activations := activations v + 1\<rparr>) s
         in if state (task s TaskID) \<noteq> ST_SUSPENDED
               \<and> activations (task s TaskID) > activationLimit (taskConst s ! TaskID)
            then (let s = Irq_Restore flags s;
                      s = upd_task TaskID (\<lambda>v. v\<lparr>activations := activations v - 1\<rparr>) s
                  in Some (OS_STD_ERR OSServiceId_ActivateTask [TaskID] E_OS_LIMIT s))
            else
              do { s \<leftarrow> (if state (task s TaskID) \<noteq> ST_SUSPENDED then Some s
                         else do { ASSERT (activations (task s TaskID) = 1);
                                   Some (Os_TaskMakeReady TaskID (Os_Arc_SetCleanContext TaskID s)) });
                   s \<leftarrow> (if intNestCnt s = 0 \<and> scheduling (taskConst s ! cur) = FULL
                             \<and> activePriority (task s TaskID) > activePriority (task s (currTaskPtr s))
                         then Os_Dispatch OP_ACTIVATE_TASK s else Some s);
                   Some (STATUS_OK, Irq_Restore flags s) }))"

definition TerminateTask :: "'a Os_Sys_scheme \<Rightarrow> (StatusType \<times> 'a Os_Sys_scheme) option" where
  "TerminateTask s =
     (if Os_SysIntAnyDisabled s then Some (OS_STD_ERR OSServiceId_TerminateTask [] E_OS_DISABLEDINT s)
      else if intNestCnt s \<noteq> 0 then Some (OS_STD_ERR OSServiceId_TerminateTask [] E_OS_CALLEVEL s)
      else if Os_TaskOccupiesResources (currTaskPtr s) s
      then Some (OS_STD_ERR OSServiceId_TerminateTask [] E_OS_RESOURCE s)
      else do { s' \<leftarrow> Os_Dispatch OP_TERMINATE_TASK (s\<lparr>irq_enabled := False\<rparr>);
                Some (STATUS_OK, Irq_Restore (irq_enabled s) s') })"

definition ChainTask :: "nat \<Rightarrow> 'a Os_Sys_scheme \<Rightarrow> (StatusType \<times> 'a Os_Sys_scheme) option" where
  "ChainTask TaskId s =
     (if Os_SysIntAnyDisabled s then Some (OS_STD_ERR OSServiceId_ChainTask [TaskId] E_OS_DISABLEDINT s)
      else if \<not> TaskId < OS_TASK_CNT s then Some (OS_STD_ERR OSServiceId_ChainTask [TaskId] E_OS_ID s)
      else if intNestCnt s \<noteq> 0 then Some (OS_STD_ERR OSServiceId_ChainTask [TaskId] E_OS_CALLEVEL s)
      else if Os_TaskOccupiesResources (currTaskPtr s) s
      then Some (OS_STD_ERR OSServiceId_ChainTask [TaskId] E_OS_RESOURCE s)
      else
        (let cur = currTaskPtr s; (flags, s) = Irq_Save s
         in if cur \<noteq> TaskId
               \<and> unat (activations (task s TaskId)) + 1 > unat (activationLimit (taskConst s ! TaskId))
            then Some (OS_STD_ERR OSServiceId_ChainTask [TaskId] E_OS_LIMIT (Irq_Restore flags s))
            else
              do { s \<leftarrow> (if cur \<noteq> TaskId
                         then do { s \<leftarrow> (if state (task s TaskId) = ST_SUSPENDED
                                         then do { ASSERT (activations (task s TaskId) = 0);
                                                   Some (Os_TaskMakeReady TaskId (Os_Arc_SetCleanContext TaskId s)) }
                                         else Some s);
                                   Some (upd_task TaskId (\<lambda>v. v\<lparr>activations := activations v + 1\<rparr>) s) }
                         else Some s);
                   s \<leftarrow> Os_Dispatch OP_CHAIN_TASK (s\<lparr>chainedPcbPtr := Some TaskId\<rparr>);
                   Some (STATUS_OK, Irq_Restore flags s) }))"

definition Schedule :: "'a Os_Sys_scheme \<Rightarrow> (StatusType \<times> 'a Os_Sys_scheme) option" where
  "Schedule s =
     (if Os_SysIntAnyDisabled s then Some (OS_STD_ERR OSServiceId_Schedule [] E_OS_DISABLEDINT s)
      else if intNestCnt s \<noteq> 0 then Some (OS_STD_ERR OSServiceId_Schedule [] E_OS_CALLEVEL s)
      else if Os_TaskOccupiesResources (currTaskPtr s) s
      then Some (OS_STD_ERR OSServiceId_Schedule [] E_OS_RESOURCE s)
      else
        do { ASSERT (state (task s (currTaskPtr s)) = ST_RUNNING);
             if scheduling (taskConst s ! currTaskPtr s) = NON
             then (let (flags, s) = Irq_Save s
                   in do { top \<leftarrow> Os_TaskGetTop s;
                           s \<leftarrow> (if activePriority (task s top) > activePriority (task s (currTaskPtr s))
                                 then Os_Dispatch OP_SCHEDULE s else Some s);
                           Some (STATUS_OK, Irq_Restore flags s) })
             else Some (STATUS_OK, s) })"

text \<open>What happens when the entry function of a task returns without ending the task.\<close>

definition Os_TaskPost :: "'a Os_Sys_scheme \<Rightarrow> (StatusType \<times> 'a Os_Sys_scheme) option" where
  "Os_TaskPost s =
     do { let cur = currTaskPtr s;
          let s = s\<lparr>irq_enabled := False\<rparr>;
          let s = (if Os_SysIntAnyDisabled s then s\<lparr>Os_IntDisableAllCnt := 0, Os_IntSuspendAllCnt := 0\<rparr> else s);
          s \<leftarrow> (if Os_TaskOccupiesResources cur s then Os_TaskResourceFreeAll cur s else Some s);
          TerminateTask (log_ev (ErrorHook E_OS_MISSINGEND OSServiceId_TerminateTask []) s) }"

subsection \<open>Events\<close>

definition WaitEvent :: "EventMaskType \<Rightarrow> 'a Os_Sys_scheme \<Rightarrow> (StatusType \<times> 'a Os_Sys_scheme) option" where
  "WaitEvent Mask s =
     (let cur = currTaskPtr s in
      if Os_SysIntAnyDisabled s then Some (OS_STD_ERR OSServiceId_WaitEvent [unat Mask] E_OS_DISABLEDINT s)
      else if intNestCnt s \<noteq> 0 then Some (OS_STD_ERR OSServiceId_WaitEvent [unat Mask] E_OS_CALLEVEL s)
      else if proc_type (taskConst s ! cur) \<noteq> PROC_EXTENDED
      then Some (OS_STD_ERR OSServiceId_WaitEvent [unat Mask] E_OS_ACCESS s)
      else if Os_TaskOccupiesResources cur s
      then Some (OS_STD_ERR OSServiceId_WaitEvent [unat Mask] E_OS_RESOURCE s)
      else
        (let (flags, s) = Irq_Save s
         in if ev_set (task s cur) AND Mask = 0
            then do { s \<leftarrow> Os_Dispatch OP_WAIT_EVENT (upd_task cur (\<lambda>v. v\<lparr>ev_wait := Mask\<rparr>) s);
                      Some (STATUS_OK, Irq_Restore flags s) }
            else Some (STATUS_OK, Irq_Restore flags s)))"

definition SetEvent :: "nat \<Rightarrow> EventMaskType \<Rightarrow> 'a Os_Sys_scheme \<Rightarrow> (StatusType \<times> 'a Os_Sys_scheme) option" where
  "SetEvent TaskID Mask s =
     (if \<not> TaskID < OS_TASK_CNT s then Some (OS_STD_ERR OSServiceId_SetEvent [TaskID, unat Mask] E_OS_ID s)
      else if proc_type (taskConst s ! TaskID) \<noteq> PROC_EXTENDED
      then Some (OS_STD_ERR OSServiceId_SetEvent [TaskID, unat Mask] E_OS_ACCESS s)
      else if state (task s TaskID) = ST_SUSPENDED
      then Some (OS_STD_ERR OSServiceId_SetEvent [TaskID, unat Mask] E_OS_STATE s)
      else
        (let (flags, s) = Irq_Save s;
             s = upd_task TaskID (\<lambda>v. v\<lparr>ev_set := ev_set v OR Mask\<rparr>) s
         in if Mask AND ev_wait (task s TaskID) \<noteq> 0 \<and> state (task s TaskID) = ST_WAIT_EVENT
            then
              (let s = Os_TaskMakeReady TaskID s; cur = currTaskPtr s
               in do { s \<leftarrow> (if intNestCnt s = 0 \<and> scheduling (taskConst s ! cur) = FULL
                               \<and> activePriority (task s TaskID) > activePriority (task s cur)
                               \<and> \<not> Os_SysIntAnyDisabled s
                             then Os_Dispatch OP_SET_EVENT s else Some s);
                       Some (STATUS_OK, Irq_Restore flags s) })
            else Some (STATUS_OK, Irq_Restore flags s)))"

definition GetEvent :: "nat \<Rightarrow> nat option \<Rightarrow> 'a Os_Sys_scheme
    \<Rightarrow> StatusType \<times> EventMaskType option \<times> 'a Os_Sys_scheme" where
  "GetEvent TaskId Ref s =
     (let err = (\<lambda>p e. case OS_STD_ERR OSServiceId_GetEvent [TaskId, p] e s of (rv, s) \<Rightarrow> (rv, None, s)) in
      case Ref of
        None \<Rightarrow> err 0 E_OS_PARAM_POINTER
      | Some p \<Rightarrow>
          if Os_SysIntAnyDisabled s then err p E_OS_DISABLEDINT
          else if \<not> TaskId < OS_TASK_CNT s then err p E_OS_ID
          else if proc_type (taskConst s ! TaskId) \<noteq> PROC_EXTENDED then err p E_OS_ACCESS
          else if state (task s TaskId) = ST_SUSPENDED then err p E_OS_STATE
          else (STATUS_OK, Some (ev_set (task s TaskId)), s))"

definition ClearEvent :: "EventMaskType \<Rightarrow> 'a Os_Sys_scheme \<Rightarrow> StatusType \<times> 'a Os_Sys_scheme" where
  "ClearEvent Mask s =
     (let cur = currTaskPtr s in
      if Os_SysIntAnyDisabled s then OS_STD_ERR OSServiceId_ClearEvent [unat Mask] E_OS_DISABLEDINT s
      else if intNestCnt s \<noteq> 0 then OS_STD_ERR OSServiceId_ClearEvent [unat Mask] E_OS_CALLEVEL s
      else if proc_type (taskConst s ! cur) \<noteq> PROC_EXTENDED
      then OS_STD_ERR OSServiceId_ClearEvent [unat Mask] E_OS_ACCESS s
      else (let (flags, s) = Irq_Save s
            in (STATUS_OK, Irq_Restore flags (upd_task cur (\<lambda>v. v\<lparr>ev_set := ev_set v AND NOT Mask\<rparr>) s))))"

subsection \<open>Resource services\<close>

definition GetResource :: "nat \<Rightarrow> 'a Os_Sys_scheme \<Rightarrow> StatusType \<times> 'a Os_Sys_scheme" where
  "GetResource ResID s =
     (if Os_SysIntAnyDisabled s then OS_STD_ERR OSServiceId_GetResource [ResID] E_OS_DISABLEDINT s
      else if \<not> ResID \<le> RES_SCHEDULER s then OS_STD_ERR OSServiceId_GetResource [ResID] E_OS_ID s
      else
        (let (flags, s) = Irq_Save s; t = currTaskPtr s; r = resource_list s ! ResID
         in if intNestCnt s \<noteq> 0
            then OS_STD_ERR OSServiceId_GetResource [ResID] E_OS_ISR_RESOURCE (Irq_Restore flags s)
            else if ResID \<noteq> RES_SCHEDULER s
              \<and> (resourceAccess (taskConst s ! t) AND push_bit ResID 1 = 0
                 \<or> owner r \<noteq> None \<or> activePriority (task s t) > ceiling_priority r)
            then OS_STD_ERR OSServiceId_GetResource [ResID] E_OS_ACCESS (Irq_Restore flags s)
            else (STATUS_OK, Irq_Restore flags (Os_TaskResourceAdd ResID t s))))"

text \<open>The return for a resource the task has no access to is taken without \<open>Irq_Restore\<close>.\<close>

definition ReleaseResource :: "nat \<Rightarrow> 'a Os_Sys_scheme \<Rightarrow> (StatusType \<times> 'a Os_Sys_scheme) option" where
  "ReleaseResource ResID s =
     (if Os_SysIntAnyDisabled s then Some (OS_STD_ERR OSServiceId_ReleaseResource [ResID] E_OS_DISABLEDINT s)
      else if \<not> ResID \<le> RES_SCHEDULER s then Some (OS_STD_ERR OSServiceId_ReleaseResource [ResID] E_OS_ID s)
      else
        (let (flags, s) = Irq_Save s; t = currTaskPtr s; r = resource_list s ! ResID
         in if intNestCnt s \<noteq> 0
            then Some (OS_STD_ERR OSServiceId_ReleaseResource [ResID] E_OS_ISR_RESOURCE (Irq_Restore flags s))
            else if ResID \<noteq> RES_SCHEDULER s \<and> resourceAccess (taskConst s ! t) AND push_bit ResID 1 = 0
            then Some (OS_STD_ERR OSServiceId_ReleaseResource [ResID] E_OS_ID s)
            else if owner r = None
            then Some (OS_STD_ERR OSServiceId_ReleaseResource [ResID] E_OS_NOFUNC (Irq_Restore flags s))
            else
              do { ASSERT (activePriority (task s t) \<ge> ceiling_priority r);
                   s \<leftarrow> Os_TaskResourceRemove ResID t s;
                   s \<leftarrow> (if scheduling (taskConst s ! t) = FULL
                         then do { top \<leftarrow> Os_TaskGetTop s;
                                   if activePriority (task s top) > activePriority (task s (currTaskPtr s))
                                   then Os_Dispatch OP_RELEASE_RESOURCE s else Some s }
                         else Some s);
                   Some (STATUS_OK, Irq_Restore flags s) }))"

text \<open>\<open>Os_ResourceInit\<close>: the ceiling is the highest priority of the tasks with access.\<close>

primrec ceiling_scan :: "nat \<Rightarrow> OsTaskConst list \<Rightarrow> uint32 \<Rightarrow> uint32" where
  "ceiling_scan i [] topPrio = topPrio"
| "ceiling_scan i (c # cs) topPrio =
     ceiling_scan i cs (if resourceAccess c AND push_bit i 1 \<noteq> 0 then max topPrio (prio c) else topPrio)"

definition OS_RES_SCHEDULER_PRIO :: uint32 where
  "OS_RES_SCHEDULER_PRIO = 0xFFFFFFFF"

definition Os_ResourceInit :: "'a Os_Sys_scheme \<Rightarrow> 'a Os_Sys_scheme" where
  "Os_ResourceInit s =
     (let s = upd_res (RES_SCHEDULER s) (\<lambda>r. r\<lparr>ceiling_priority := OS_RES_SCHEDULER_PRIO, owner := None\<rparr>) s
      in s\<lparr>resource_list :=
           map (\<lambda>i. (resource_list s ! i)\<lparr>ceiling_priority := ceiling_scan i (taskConst s) 0\<rparr>)
             [0..<RES_SCHEDULER s] @ [resource_list s ! RES_SCHEDULER s]\<rparr>)"

end
