(* ===== verification/Os_Timing.thy ===== *)
theory Os_Timing
  imports Os_Kernel
begin

text \<open>
  Counters, alarms and schedule tables of system/Os/rtos/src: os\_counter.c, os\_counter\_i.h,
  os\_alarm.c, os\_alarm\_i.h, os\_sched\_table.c and os\_sched\_table\_i.h, for scalability
  class 1 on one core, extended status, without \<open>CFG_KERNEL_EXTRA\<close>.

  Counters, alarms and tables are referred to by their numbers; \<open>alarm_head\<close> and
  \<open>sched_head\<close> of a counter list the alarms and tables connected to it. An alarm may
  increment another counter, so \<open>IncrementCounter\<close> and \<open>Os_AlarmCheck\<close> call each other:
  \<open>IncrementCounter\<close> takes the allowed depth of this recursion, and \<open>None\<close> is a failed
  \<open>ASSERT\<close> or an exceeded depth. The loops that call \<open>ActivateTask\<close> and \<open>SetEvent\<close>
  follow the code for calls from interrupts, where these services do not switch tasks.
\<close>

subsection \<open>Data\<close>

type_synonym TickType = uint32

datatype counter_type_t = COUNTER_TYPE_HARD | COUNTER_TYPE_SOFT

record AlarmBaseType =
  maxallowedvalue :: TickType
  tickperbase :: TickType
  mincycle :: TickType

record OsCounter =
  counter_type :: counter_type_t
  val :: TickType
  alarm_base :: AlarmBaseType
  alarm_head :: "nat list"
  sched_head :: "nat list"

datatype alarm_action_type_t = ALARM_ACTION_ACTIVATETASK | ALARM_ACTION_SETEVENT
  | ALARM_ACTION_ALARMCALLBACK | ALARM_ACTION_INCREMENTCOUNTER

record OsAlarmAction =
  action_type :: alarm_action_type_t
  action_task_id :: nat
  action_event_id :: EventMaskType
  action_counter_id :: nat

datatype OsAlarmAutostartTypeType = ALARM_AUTOSTART_ABSOLUTE | ALARM_AUTOSTART_RELATIVE

record OsAlarmAutostart =
  alarmTime :: uint32
  autostartType :: OsAlarmAutostartTypeType
  cycleTime :: uint32
  appModeRef :: uint32

record OsAlarm =
  counter :: nat
  cycletime :: uint32
  expire_val :: uint32
  active :: bool
  action :: OsAlarmAction
  autostartPtr :: "OsAlarmAutostart option"

datatype ScheduleTableStatusType = SCHEDULETABLE_STOPPED | SCHEDULETABLE_NEXT | SCHEDULETABLE_WAITING
  | SCHEDULETABLE_RUNNING | SCHEDULETABLE_RUNNING_AND_SYNCHRONOUS

datatype OsScheduleTableAutostartType = SCHTBL_AUTOSTART_ABSOLUTE | SCHTBL_AUTOSTART_RELATIVE
  | SCHTBL_AUTOSTART_SYNCHRONE

record OsScheduleTableExpiryPoint =
  offset :: TickType
  taskList :: "nat list"
  eventList :: "(nat \<times> EventMaskType) list"

record OsSchTblAutostart =
  sch_autostart_type :: OsScheduleTableAutostartType
  sch_autostart_offset :: TickType
  sch_autostart_appMode :: uint32

record OsSchTbl =
  duration :: TickType
  repeating :: bool
  sch_counter :: nat
  sch_autostartPtr :: "OsSchTblAutostart option"
  expire_curr_index :: nat
  sch_expire_val :: TickType
  sch_state :: ScheduleTableStatusType
  next_tbl :: "nat option"
  expirePointList :: "OsScheduleTableExpiryPoint list"

record Os_State = Os_Sys +
  counter_list :: "OsCounter list"
  alarm_list :: "OsAlarm list"
  sched_list :: "OsSchTbl list"
  tick :: TickType
  appMode :: uint32

definition upd_counter :: "nat \<Rightarrow> (OsCounter \<Rightarrow> OsCounter) \<Rightarrow> Os_State \<Rightarrow> Os_State" where
  "upd_counter c f s = s\<lparr>counter_list := (counter_list s)[c := f (counter_list s ! c)]\<rparr>"

definition upd_alarm :: "nat \<Rightarrow> (OsAlarm \<Rightarrow> OsAlarm) \<Rightarrow> Os_State \<Rightarrow> Os_State" where
  "upd_alarm a f s = s\<lparr>alarm_list := (alarm_list s)[a := f (alarm_list s ! a)]\<rparr>"

definition upd_sched :: "nat \<Rightarrow> (OsSchTbl \<Rightarrow> OsSchTbl) \<Rightarrow> Os_State \<Rightarrow> Os_State" where
  "upd_sched t f s = s\<lparr>sched_list := (sched_list s)[t := f (sched_list s ! t)]\<rparr>"

subsection \<open>Counter arithmetic\<close>

definition IsCounterValid :: "nat \<Rightarrow> Os_State \<Rightarrow> bool" where
  "IsCounterValid counterId s \<longleftrightarrow> counterId < length (counter_list s)"

definition Os_CounterGetMaxValue :: "nat \<Rightarrow> Os_State \<Rightarrow> TickType" where
  "Os_CounterGetMaxValue c s = maxallowedvalue (alarm_base (counter_list s ! c))"

definition Os_CounterGetMinCycle :: "nat \<Rightarrow> Os_State \<Rightarrow> TickType" where
  "Os_CounterGetMinCycle c s = mincycle (alarm_base (counter_list s ! c))"

definition Os_CounterGetValue :: "nat \<Rightarrow> Os_State \<Rightarrow> TickType" where
  "Os_CounterGetValue c s = val (counter_list s ! c)"

definition Os_CounterDiff :: "TickType \<Rightarrow> TickType \<Rightarrow> TickType \<Rightarrow> TickType" where
  "Os_CounterDiff cur old mx = (if cur \<ge> old then cur - old else cur + (mx - old) + 1)"

definition Os_CounterAdd :: "TickType \<Rightarrow> TickType \<Rightarrow> TickType \<Rightarrow> TickType" where
  "Os_CounterAdd cur mx add =
     (let diff = mx - cur in if add \<le> diff then cur + add else add - (mx - cur) - 1)"

subsection \<open>Alarms\<close>

definition Os_AlarmCheckCycle :: "TickType \<Rightarrow> nat \<Rightarrow> Os_State \<Rightarrow> StatusType" where
  "Os_AlarmCheckCycle cycle a s =
     (let c = counter (alarm_list s ! a) in
      if cycle \<noteq> 0 \<and> (cycle < Os_CounterGetMinCycle c s \<or> cycle > Os_CounterGetMaxValue c s)
      then E_OS_VALUE else STATUS_OK)"

definition AlarmProcess :: "nat \<Rightarrow> Os_State \<Rightarrow> Os_State" where
  "AlarmProcess a s =
     (let al = alarm_list s ! a; c = counter al in
      if cycletime al = 0 then upd_alarm a (\<lambda>x. x\<lparr>active := False\<rparr>) s
      else upd_alarm a (\<lambda>x. x\<lparr>expire_val :=
             Os_CounterAdd (Os_CounterGetValue c s) (Os_CounterGetMaxValue c s) (cycletime al)\<rparr>) s)"

definition Os_internalSetRelAlarm ::
  "nat \<Rightarrow> TickType \<Rightarrow> TickType \<Rightarrow> bool \<Rightarrow> Os_State \<Rightarrow> StatusType \<times> Os_State" where
  "Os_internalSetRelAlarm AlarmId Increment Cycle isStartup s =
     (let err = OS_STD_ERR OSServiceId_SetRelAlarm [AlarmId, unat Increment, unat Cycle] in
      if \<not> isStartup \<and> Os_SysIntAnyDisabled s then err E_OS_DISABLEDINT s
      else if \<not> AlarmId < length (alarm_list s) then err E_OS_ID s
      else
        (let c = counter (alarm_list s ! AlarmId); mx = Os_CounterGetMaxValue c s in
         if Increment = 0 \<or> Increment > mx then err E_OS_VALUE s
         else if Os_AlarmCheckCycle Cycle AlarmId s = E_OS_VALUE then err E_OS_VALUE s
         else
           (let (flags, s) = Irq_Save s in
            if active (alarm_list s ! AlarmId) then err E_OS_STATE (Irq_Restore flags s)
            else (STATUS_OK, Irq_Restore flags
              (upd_alarm AlarmId (\<lambda>x. x\<lparr>active := True,
                 expire_val := Os_CounterAdd (Os_CounterGetValue c s) mx Increment, cycletime := Cycle\<rparr>) s)))))"

definition Os_internalSetAbsAlarm ::
  "nat \<Rightarrow> TickType \<Rightarrow> TickType \<Rightarrow> bool \<Rightarrow> Os_State \<Rightarrow> StatusType \<times> Os_State" where
  "Os_internalSetAbsAlarm AlarmId Start Cycle isStartup s =
     (let err = OS_STD_ERR OSServiceId_SetAbsAlarm [AlarmId, unat Start, unat Cycle] in
      if \<not> isStartup \<and> Os_SysIntAnyDisabled s then err E_OS_DISABLEDINT s
      else if \<not> AlarmId < length (alarm_list s) then err E_OS_ID s
      else if Start > Os_CounterGetMaxValue (counter (alarm_list s ! AlarmId)) s then err E_OS_VALUE s
      else if Os_AlarmCheckCycle Cycle AlarmId s = E_OS_VALUE then err E_OS_VALUE s
      else
        (let (flags, s) = Irq_Save s in
         if active (alarm_list s ! AlarmId) then err E_OS_STATE (Irq_Restore flags s)
         else (STATUS_OK, Irq_Restore flags
           (upd_alarm AlarmId (\<lambda>x. x\<lparr>active := True, expire_val := Start, cycletime := Cycle\<rparr>) s))))"

text \<open>The structure read is returned; \<open>None\<close> for the address is NULL.\<close>

definition GetAlarmBase :: "nat \<Rightarrow> nat option \<Rightarrow> Os_State \<Rightarrow> StatusType \<times> AlarmBaseType option \<times> Os_State" where
  "GetAlarmBase AlarmId Info s =
     (let err = (\<lambda>p e. case OS_STD_ERR OSServiceId_GetAlarmBase [AlarmId, p] e s of (rv, s) \<Rightarrow> (rv, None, s)) in
      case Info of
        None \<Rightarrow> err 0 E_OS_PARAM_POINTER
      | Some p \<Rightarrow>
          if Os_SysIntAnyDisabled s then err p E_OS_DISABLEDINT
          else if \<not> AlarmId < length (alarm_list s) then err p E_OS_ID
          else (STATUS_OK, Some (alarm_base (counter_list s ! counter (alarm_list s ! AlarmId))), s))"

definition GetAlarm :: "nat \<Rightarrow> nat option \<Rightarrow> Os_State \<Rightarrow> StatusType \<times> TickType option \<times> Os_State" where
  "GetAlarm AlarmId Tick s =
     (let err = (\<lambda>p e s. case OS_STD_ERR OSServiceId_GetAlarm [AlarmId, p] e s of (rv, s) \<Rightarrow> (rv, None, s)) in
      case Tick of
        None \<Rightarrow> err 0 E_OS_PARAM_POINTER s
      | Some p \<Rightarrow>
          if Os_SysIntAnyDisabled s then err p E_OS_DISABLEDINT s
          else if \<not> AlarmId < length (alarm_list s) then err p E_OS_ID s
          else
            (let (flags, s) = Irq_Save s; al = alarm_list s ! AlarmId; c = counter al in
             if \<not> active al then err p E_OS_NOFUNC (Irq_Restore flags s)
             else (STATUS_OK,
               Some (Os_CounterDiff (expire_val al) (Os_CounterGetValue c s) (Os_CounterGetMaxValue c s)),
               Irq_Restore flags s)))"

definition SetRelAlarm :: "nat \<Rightarrow> TickType \<Rightarrow> TickType \<Rightarrow> Os_State \<Rightarrow> StatusType \<times> Os_State" where
  "SetRelAlarm AlarmId Increment Cycle s = Os_internalSetRelAlarm AlarmId Increment Cycle False s"

definition SetAbsAlarm :: "nat \<Rightarrow> TickType \<Rightarrow> TickType \<Rightarrow> Os_State \<Rightarrow> StatusType \<times> Os_State" where
  "SetAbsAlarm AlarmId Start Cycle s = Os_internalSetAbsAlarm AlarmId Start Cycle False s"

definition CancelAlarm :: "nat \<Rightarrow> Os_State \<Rightarrow> StatusType \<times> Os_State" where
  "CancelAlarm AlarmId s =
     (let err = OS_STD_ERR OSServiceId_CancelAlarm [AlarmId] in
      if Os_SysIntAnyDisabled s then err E_OS_DISABLEDINT s
      else if \<not> AlarmId < length (alarm_list s) then err E_OS_ID s
      else
        (let (flags, s) = Irq_Save s in
         if \<not> active (alarm_list s ! AlarmId) then err E_OS_NOFUNC (Irq_Restore flags s)
         else (STATUS_OK, Irq_Restore flags (upd_alarm AlarmId (\<lambda>x. x\<lparr>active := False\<rparr>) s))))"

text \<open>
  The action of an expired alarm. \<open>inc\<close> is \<open>IncrementCounter\<close>. A failed \<open>SetEvent\<close> has called
  the error hook itself and it is called a second time, with the recorded service data.
\<close>

definition Os_AlarmAction :: "(nat \<Rightarrow> Os_State \<Rightarrow> (StatusType \<times> Os_State) option) \<Rightarrow> nat \<Rightarrow> Os_State
    \<Rightarrow> Os_State option" where
  "Os_AlarmAction inc a s =
     (let act = action (alarm_list s ! a) in
      case action_type act of
        ALARM_ACTION_ACTIVATETASK \<Rightarrow>
          do { (rv, s) \<leftarrow> ActivateTask (action_task_id act) s; Some (AlarmProcess a s) }
      | ALARM_ACTION_SETEVENT \<Rightarrow>
          do { (rv, s) \<leftarrow> SetEvent (action_task_id act) (action_event_id act) s;
               let s = (if rv \<noteq> STATUS_OK
                        then log_ev (ErrorHook rv OSServiceId_SetEvent
                               [action_task_id act, unat (action_event_id act)]) s
                        else s);
               Some (AlarmProcess a s) }
      | ALARM_ACTION_ALARMCALLBACK \<Rightarrow> Some s
      | ALARM_ACTION_INCREMENTCOUNTER \<Rightarrow>
          do { (rv, s) \<leftarrow> inc (action_counter_id act) s; Some (AlarmProcess a s) })"

primrec Os_AlarmCheck_loop :: "(nat \<Rightarrow> Os_State \<Rightarrow> (StatusType \<times> Os_State) option) \<Rightarrow> nat \<Rightarrow> nat list
    \<Rightarrow> Os_State \<Rightarrow> Os_State option" where
  "Os_AlarmCheck_loop inc c [] s = Some s"
| "Os_AlarmCheck_loop inc c (a # as) s =
     do { s \<leftarrow> (if active (alarm_list s ! a) \<and> Os_CounterGetValue c s = expire_val (alarm_list s ! a)
                then Os_AlarmAction inc a s else Some s);
          Os_AlarmCheck_loop inc c as s }"

definition Os_AlarmCheck :: "(nat \<Rightarrow> Os_State \<Rightarrow> (StatusType \<times> Os_State) option) \<Rightarrow> nat
    \<Rightarrow> Os_State \<Rightarrow> Os_State option" where
  "Os_AlarmCheck inc c s = Os_AlarmCheck_loop inc c (alarm_head (counter_list s ! c)) s"

primrec Os_AlarmAutostart_loop :: "nat list \<Rightarrow> Os_State \<Rightarrow> Os_State" where
  "Os_AlarmAutostart_loop [] s = s"
| "Os_AlarmAutostart_loop (j # js) s =
     Os_AlarmAutostart_loop js
       (case autostartPtr (alarm_list s ! j) of
          None \<Rightarrow> s
        | Some au \<Rightarrow>
            if appMode s AND appModeRef au \<noteq> 0
            then snd (if autostartType au = ALARM_AUTOSTART_ABSOLUTE
                      then Os_internalSetAbsAlarm j (alarmTime au) (cycleTime au) True s
                      else Os_internalSetRelAlarm j (alarmTime au) (cycleTime au) True s)
            else s)"

definition Os_AlarmAutostart :: "Os_State \<Rightarrow> Os_State" where
  "Os_AlarmAutostart s = Os_AlarmAutostart_loop [0..<length (alarm_list s)] s"

subsection \<open>Schedule tables\<close>

definition Os_SchTblGetInitialOffset :: "nat \<Rightarrow> Os_State \<Rightarrow> TickType" where
  "Os_SchTblGetInitialOffset t s = offset (expirePointList (sched_list s ! t) ! 0)"

definition Os_SchTblGetFinalOffset :: "nat \<Rightarrow> Os_State \<Rightarrow> TickType" where
  "Os_SchTblGetFinalOffset t s =
     (let st = sched_list s ! t; n = length (expirePointList st)
      in duration st - offset (expirePointList st ! (n - 1)))"

text \<open>The value of the table's counter \<open>d\<close> ticks ahead.\<close>

definition sch_ahead :: "nat \<Rightarrow> TickType \<Rightarrow> Os_State \<Rightarrow> TickType" where
  "sch_ahead t d s =
     (let c = sch_counter (sched_list s ! t) in Os_CounterAdd (Os_CounterGetValue c s) (Os_CounterGetMaxValue c s) d)"

definition Os_SchTblUpdateState :: "nat \<Rightarrow> Os_State \<Rightarrow> Os_State option" where
  "Os_SchTblUpdateState t s =
     (let st = sched_list s ! t; n = length (expirePointList st); i = expire_curr_index st;
          final = Os_SchTblGetFinalOffset t s
      in if Suc i = n \<and> final \<noteq> 0
         then Some (upd_sched t (\<lambda>x. x\<lparr>sch_expire_val := sch_ahead t final s, expire_curr_index := i + 1\<rparr>) s)
         else
           do { ASSERT (Suc i = n \<longrightarrow> \<not> repeating st);
                if Suc i = n \<or> i = n
                then
                  do { s \<leftarrow> (if repeating st \<or> next_tbl st \<noteq> None
                             then (case next_tbl st of
                                     Some nx \<Rightarrow>
                                       do { ASSERT (sch_state (sched_list s ! nx) = SCHEDULETABLE_NEXT);
                                            let initalOffset = Os_SchTblGetInitialOffset nx s;
                                            let s = upd_sched t (\<lambda>x. x\<lparr>sch_state := SCHEDULETABLE_STOPPED\<rparr>) s;
                                            let s = upd_sched nx (\<lambda>x. x\<lparr>sch_state := SCHEDULETABLE_RUNNING\<rparr>) s;
                                            Some (upd_sched nx (\<lambda>x. x\<lparr>sch_expire_val := sch_ahead nx initalOffset s\<rparr>) s) }
                                   | None \<Rightarrow>
                                       do { ASSERT (repeating st);
                                            Some (upd_sched t (\<lambda>x. x\<lparr>sch_expire_val :=
                                              sch_ahead t (Os_SchTblGetInitialOffset t s) s\<rparr>) s) })
                             else
                               do { ASSERT (\<not> repeating st);
                                    Some (upd_sched t (\<lambda>x. x\<lparr>sch_state := SCHEDULETABLE_STOPPED\<rparr>) s) });
                       Some (upd_sched t (\<lambda>x. x\<lparr>expire_curr_index := 0\<rparr>) s) }
                else
                  (let delta = offset (expirePointList st ! (i + 1)) - offset (expirePointList st ! i)
                   in Some (upd_sched t (\<lambda>x. x\<lparr>sch_expire_val := sch_ahead t delta s,
                        expire_curr_index := i + 1\<rparr>) s)) })"

text \<open>The loop of the consistency check; \<open>delta\<close> is carried from point to point.\<close>

primrec SchTblCheck_points :: "TickType \<Rightarrow> TickType \<Rightarrow> bool \<Rightarrow> TickType \<Rightarrow> OsScheduleTableExpiryPoint list
    \<Rightarrow> unit option" where
  "SchTblCheck_points minCycle maxValue first delta [] = Some ()"
| "SchTblCheck_points minCycle maxValue first delta (p # ps) =
     do { let delta = offset p - delta;
          ASSERT (\<not> first \<longrightarrow> delta \<ge> minCycle);
          ASSERT (delta \<le> maxValue);
          SchTblCheck_points minCycle maxValue False delta ps }"

definition ScheduleTableConsistenyCheck :: "nat \<Rightarrow> Os_State \<Rightarrow> unit option" where
  "ScheduleTableConsistenyCheck t s =
     (let st = sched_list s ! t; c = sch_counter st;
          minCycle = Os_CounterGetMinCycle c s; maxValue = Os_CounterGetMaxValue c s
      in do { ASSERT (length (expirePointList st) \<ge> 1);
              SchTblCheck_points minCycle maxValue True 0 (expirePointList st);
              let delta = Os_SchTblGetFinalOffset t s;
              ASSERT (delta \<ge> minCycle);
              ASSERT (delta \<le> maxValue) })"

definition StartScheduleTableRel :: "nat \<Rightarrow> TickType \<Rightarrow> Os_State \<Rightarrow> StatusType \<times> Os_State" where
  "StartScheduleTableRel sid off s =
     (let err = OS_STD_ERR OSServiceId_StartScheduleTableRel [sid, unat off] in
      if Os_SysIntAnyDisabled s then err E_OS_DISABLEDINT s
      else if \<not> sid < length (sched_list s) then err E_OS_ID s
      else if off = 0 \<or> off + Os_SchTblGetInitialOffset sid s
                > Os_CounterGetMaxValue (sch_counter (sched_list s ! sid)) s
      then err E_OS_VALUE s
      else if sch_state (sched_list s ! sid) \<noteq> SCHEDULETABLE_STOPPED then err E_OS_STATE s
      else
        (let (flags, s) = Irq_Save s in
         (STATUS_OK, Irq_Restore flags
           (upd_sched sid (\<lambda>x. x\<lparr>sch_expire_val := sch_ahead sid (off + Os_SchTblGetInitialOffset sid s) s,
              sch_state := SCHEDULETABLE_RUNNING\<rparr>) s))))"

definition StartScheduleTableAbs :: "nat \<Rightarrow> TickType \<Rightarrow> Os_State \<Rightarrow> StatusType \<times> Os_State" where
  "StartScheduleTableAbs sid start s =
     (let err = OS_STD_ERR OSServiceId_StartScheduleTableAbs [sid, unat start] in
      if Os_SysIntAnyDisabled s then err E_OS_DISABLEDINT s
      else if \<not> sid < length (sched_list s) then err E_OS_ID s
      else if \<not> start \<le> Os_CounterGetMaxValue (sch_counter (sched_list s ! sid)) s then err E_OS_VALUE s
      else if sch_state (sched_list s ! sid) \<noteq> SCHEDULETABLE_STOPPED then err E_OS_STATE s
      else
        (let (flags, s) = Irq_Save s in
         (STATUS_OK, Irq_Restore flags
           (upd_sched sid (\<lambda>x. x\<lparr>sch_expire_val := start + Os_SchTblGetInitialOffset sid s,
              sch_state := SCHEDULETABLE_RUNNING\<rparr>) s))))"

definition StopScheduleTable :: "nat \<Rightarrow> Os_State \<Rightarrow> StatusType \<times> Os_State" where
  "StopScheduleTable sid s =
     (let err = OS_STD_ERR OSServiceId_StopScheduleTable [sid] in
      if Os_SysIntAnyDisabled s then err E_OS_DISABLEDINT s
      else if \<not> sid < length (sched_list s) then err E_OS_ID s
      else if sch_state (sched_list s ! sid) = SCHEDULETABLE_STOPPED then err E_OS_NOFUNC s
      else (STATUS_OK, upd_sched sid (\<lambda>x. x\<lparr>sch_state := SCHEDULETABLE_STOPPED\<rparr>) s))"

text \<open>The branch for a stopped current table is dead: that case has returned \<open>E_OS_NOFUNC\<close>.\<close>

definition NextScheduleTable :: "nat \<Rightarrow> nat \<Rightarrow> Os_State \<Rightarrow> StatusType \<times> Os_State" where
  "NextScheduleTable sid_curr sid_next s =
     (let err = OS_STD_ERR OSServiceId_NextScheduleTable [sid_curr, sid_next] in
      if Os_SysIntAnyDisabled s then err E_OS_DISABLEDINT s
      else if \<not> sid_curr < length (sched_list s) then err E_OS_ID s
      else if \<not> sid_next < length (sched_list s) then err E_OS_ID s
      else if sch_counter (sched_list s ! sid_curr) \<noteq> sch_counter (sched_list s ! sid_next) then err E_OS_ID s
      else if sch_state (sched_list s ! sid_curr) = SCHEDULETABLE_STOPPED
            \<or> sch_state (sched_list s ! sid_curr) = SCHEDULETABLE_NEXT then err E_OS_NOFUNC s
      else if sch_state (sched_list s ! sid_next) \<noteq> SCHEDULETABLE_STOPPED then err E_OS_STATE s
      else
        (let (flags, s) = Irq_Save s;
             s = (case next_tbl (sched_list s ! sid_curr) of
                    None \<Rightarrow> s
                  | Some nx \<Rightarrow> upd_sched nx (\<lambda>x. x\<lparr>sch_state := SCHEDULETABLE_STOPPED\<rparr>) s);
             s = upd_sched sid_curr (\<lambda>x. x\<lparr>next_tbl := Some sid_next\<rparr>) s;
             s = upd_sched sid_next (\<lambda>x. x\<lparr>sch_state := SCHEDULETABLE_NEXT, expire_curr_index := 0\<rparr>) s
         in (STATUS_OK, Irq_Restore flags s)))"

definition GetScheduleTableStatus :: "nat \<Rightarrow> nat \<Rightarrow> Os_State
    \<Rightarrow> StatusType \<times> ScheduleTableStatusType option \<times> Os_State" where
  "GetScheduleTableStatus sid status s =
     (let err = (\<lambda>e. case OS_STD_ERR OSServiceId_GetScheduleTableStatus [sid, status] e s of (rv, s) \<Rightarrow> (rv, None, s)) in
      if Os_SysIntAnyDisabled s then err E_OS_DISABLEDINT
      else if \<not> sid < length (sched_list s) then err E_OS_ID
      else (STATUS_OK, Some (sch_state (sched_list s ! sid)), s))"

primrec activate_all :: "nat list \<Rightarrow> Os_State \<Rightarrow> Os_State option" where
  "activate_all [] s = Some s"
| "activate_all (t # ts) s = do { (rv, s) \<leftarrow> ActivateTask t s; activate_all ts s }"

primrec set_events :: "(nat \<times> EventMaskType) list \<Rightarrow> Os_State \<Rightarrow> Os_State option" where
  "set_events [] s = Some s"
| "set_events (e # es) s = do { (rv, s) \<leftarrow> SetEvent (fst e) (snd e) s; set_events es s }"

text \<open>One table of the loop of \<open>Os_SchTblCheck\<close> for counter \<open>c\<close>.\<close>

definition Os_SchTblCheck_one :: "nat \<Rightarrow> nat \<Rightarrow> Os_State \<Rightarrow> Os_State option" where
  "Os_SchTblCheck_one c t s =
     (let st = sched_list s ! t in
      if sch_state st = SCHEDULETABLE_STOPPED then Some s
      else if (sch_state st = SCHEDULETABLE_RUNNING \<or> sch_state st = SCHEDULETABLE_RUNNING_AND_SYNCHRONOUS)
            \<and> Os_CounterGetValue c s = sch_expire_val st
      then do { s \<leftarrow> (if expire_curr_index st < length (expirePointList st)
                      then do { let act = expirePointList st ! expire_curr_index st;
                                s \<leftarrow> activate_all (taskList act) s;
                                set_events (eventList act) s }
                      else Some s);
                Os_SchTblUpdateState t s }
      else Some s)"

primrec Os_SchTblCheck_loop :: "nat \<Rightarrow> nat list \<Rightarrow> Os_State \<Rightarrow> Os_State option" where
  "Os_SchTblCheck_loop c [] s = Some s"
| "Os_SchTblCheck_loop c (t # ts) s = do { s \<leftarrow> Os_SchTblCheck_one c t s; Os_SchTblCheck_loop c ts s }"

definition Os_SchTblCheck :: "nat \<Rightarrow> Os_State \<Rightarrow> Os_State option" where
  "Os_SchTblCheck c s = Os_SchTblCheck_loop c (sched_head (counter_list s ! c)) s"

primrec Os_SchTblInit_loop :: "nat list \<Rightarrow> Os_State \<Rightarrow> unit option" where
  "Os_SchTblInit_loop [] s = Some ()"
| "Os_SchTblInit_loop (i # is) s = do { ScheduleTableConsistenyCheck i s; Os_SchTblInit_loop is s }"

definition Os_SchTblInit :: "Os_State \<Rightarrow> unit option" where
  "Os_SchTblInit s = Os_SchTblInit_loop [0..<length (sched_list s)] s"

definition Os_StartScheduleTableRelStartup :: "nat \<Rightarrow> TickType \<Rightarrow> Os_State \<Rightarrow> StatusType \<times> Os_State" where
  "Os_StartScheduleTableRelStartup sid off s =
     (let err = OS_STD_ERR OSServiceId_StartScheduleTableRel [sid, unat off] in
      if \<not> sid < length (sched_list s) then err E_OS_ID s
      else if off = 0 \<or> off + Os_SchTblGetInitialOffset sid s
                > Os_CounterGetMaxValue (sch_counter (sched_list s ! sid)) s
      then err E_OS_VALUE s
      else if sch_state (sched_list s ! sid) \<noteq> SCHEDULETABLE_STOPPED then err E_OS_STATE s
      else
        (let (flags, s) = Irq_Save s in
         (STATUS_OK, Irq_Restore flags
           (upd_sched sid (\<lambda>x. x\<lparr>sch_expire_val := sch_ahead sid (off + Os_SchTblGetInitialOffset sid s) s,
              sch_state := SCHEDULETABLE_RUNNING\<rparr>) s))))"

definition Os_StartScheduleTableAbsStartup :: "nat \<Rightarrow> TickType \<Rightarrow> Os_State \<Rightarrow> StatusType \<times> Os_State" where
  "Os_StartScheduleTableAbsStartup sid start s =
     (let err = OS_STD_ERR OSServiceId_StartScheduleTableAbs [sid, unat start] in
      if \<not> sid < length (sched_list s) then err E_OS_ID s
      else if start > Os_CounterGetMaxValue (sch_counter (sched_list s ! sid)) s then err E_OS_VALUE s
      else if sch_state (sched_list s ! sid) \<noteq> SCHEDULETABLE_STOPPED then err E_OS_STATE s
      else
        (let (flags, s) = Irq_Save s in
         (STATUS_OK, Irq_Restore flags
           (upd_sched sid (\<lambda>x. x\<lparr>sch_expire_val := start + Os_SchTblGetInitialOffset sid s,
              sch_state := SCHEDULETABLE_RUNNING\<rparr>) s))))"

text \<open>A synchronous autostart is an illegal value in scalability class 1.\<close>

primrec Os_SchTblAutostart_loop :: "nat list \<Rightarrow> Os_State \<Rightarrow> Os_State option" where
  "Os_SchTblAutostart_loop [] s = Some s"
| "Os_SchTblAutostart_loop (j # js) s =
     do { s \<leftarrow> (case sch_autostartPtr (sched_list s ! j) of
                  None \<Rightarrow> Some s
                | Some au \<Rightarrow>
                    if appMode s AND sch_autostart_appMode au \<noteq> 0
                    then (case sch_autostart_type au of
                            SCHTBL_AUTOSTART_ABSOLUTE \<Rightarrow>
                              Some (snd (Os_StartScheduleTableAbsStartup j (sch_autostart_offset au) s))
                          | SCHTBL_AUTOSTART_RELATIVE \<Rightarrow>
                              Some (snd (Os_StartScheduleTableRelStartup j (sch_autostart_offset au) s))
                          | SCHTBL_AUTOSTART_SYNCHRONE \<Rightarrow> None)
                    else Some s);
          Os_SchTblAutostart_loop js s }"

definition Os_SchTblAutostart :: "Os_State \<Rightarrow> Os_State option" where
  "Os_SchTblAutostart s = Os_SchTblAutostart_loop [0..<length (sched_list s)] s"

subsection \<open>Counters\<close>

text \<open>One tick of a counter: the common part of \<open>IncrementCounter\<close> and \<open>OsTick\<close>.\<close>

definition counter_tick :: "(nat \<Rightarrow> Os_State \<Rightarrow> (StatusType \<times> Os_State) option) \<Rightarrow> nat \<Rightarrow> Os_State
    \<Rightarrow> Os_State option" where
  "counter_tick inc c s =
     (let s = upd_counter c (\<lambda>x. x\<lparr>val := Os_CounterAdd (val x) (Os_CounterGetMaxValue c s) 1\<rparr>) s
      in do { s \<leftarrow> Os_AlarmCheck inc c s; Os_SchTblCheck c s })"

primrec IncrementCounter :: "nat \<Rightarrow> nat \<Rightarrow> Os_State \<Rightarrow> (StatusType \<times> Os_State) option" where
  "IncrementCounter 0 counter_id s = None"
| "IncrementCounter (Suc depth) counter_id s =
     (let err = (\<lambda>e. Some (OS_STD_ERR OSServiceId_IncrementCounter [counter_id] e s)) in
      if Os_SysIntAnyDisabled s then err E_OS_DISABLEDINT
      else if \<not> IsCounterValid counter_id s then err E_OS_ID
      else if counter_type (counter_list s ! counter_id) \<noteq> COUNTER_TYPE_SOFT then err E_OS_ID
      else
        (let (flags, s) = Irq_Save s in
         do { s \<leftarrow> counter_tick (IncrementCounter depth) counter_id s;
              Some (STATUS_OK, Irq_Restore flags s) }))"

definition GetCounterValue :: "nat \<Rightarrow> nat option \<Rightarrow> Os_State \<Rightarrow> StatusType \<times> TickType option \<times> Os_State" where
  "GetCounterValue counter_id tick_ref s =
     (let err = (\<lambda>p e. case OS_STD_ERR OSServiceId_GetCounterValue [counter_id, p] e s of (rv, s) \<Rightarrow> (rv, None, s)) in
      case tick_ref of
        None \<Rightarrow> err 0 E_OS_PARAM_POINTER
      | Some p \<Rightarrow>
          if Os_SysIntAnyDisabled s then err p E_OS_DISABLEDINT
          else if \<not> IsCounterValid counter_id s then err p E_OS_ID
          else (STATUS_OK,
            Some (if counter_type (counter_list s ! counter_id) = COUNTER_TYPE_HARD then tick s
                  else val (counter_list s ! counter_id)), s))"

text \<open>
  \<open>v\<close> is the address and the value of the in/out argument, \<open>elapsed_val\<close> an address, \<open>tmp\<close>
  the address of the local variable; the new value and the elapsed ticks are returned.
\<close>

definition GetElapsedValue :: "nat \<Rightarrow> (nat \<times> TickType) option \<Rightarrow> nat option \<Rightarrow> nat \<Rightarrow> Os_State
    \<Rightarrow> StatusType \<times> (TickType \<times> TickType) option \<times> Os_State" where
  "GetElapsedValue counter_id v elapsed_val tmp s =
     (let err = (\<lambda>p q e. case OS_STD_ERR OSServiceId_GetElapsedValue [counter_id, p, q] e s of (rv, s) \<Rightarrow> (rv, None, s)) in
      case v of
        None \<Rightarrow> err 0 (case elapsed_val of None \<Rightarrow> 0 | Some q \<Rightarrow> q) E_OS_PARAM_POINTER
      | Some (p, old) \<Rightarrow>
          (case elapsed_val of
             None \<Rightarrow> err p 0 E_OS_PARAM_POINTER
           | Some q \<Rightarrow>
               if Os_SysIntAnyDisabled s then err p q E_OS_DISABLEDINT
               else if \<not> IsCounterValid counter_id s then err p q E_OS_ID
               else
                 (let mx = Os_CounterGetMaxValue counter_id s in
                  if \<not> old \<le> mx then err p q E_OS_VALUE
                  else
                    (case GetCounterValue counter_id (Some tmp) s of
                       (rv, cv, s) \<Rightarrow>
                         (let currTick = (case cv of None \<Rightarrow> 0 | Some x \<Rightarrow> x)
                          in (STATUS_OK, Some (currTick, Os_CounterDiff currTick old mx), s))))))"

text \<open>The system tick interrupt; \<open>c\<close> is \<open>Os_Arc_OsTickCounter\<close>.\<close>

definition OsTick :: "nat \<Rightarrow> nat \<Rightarrow> Os_State \<Rightarrow> Os_State option" where
  "OsTick depth c s = counter_tick (IncrementCounter depth) c (s\<lparr>tick := tick s + 1\<rparr>)"

definition GetOsTick :: "Os_State \<Rightarrow> TickType" where
  "GetOsTick s = tick s"

primrec add_alarms :: "nat list \<Rightarrow> Os_State \<Rightarrow> Os_State" where
  "add_alarms [] s = s"
| "add_alarms (i # is) s =
     add_alarms is (upd_counter (counter (alarm_list s ! i)) (\<lambda>x. x\<lparr>alarm_head := i # alarm_head x\<rparr>) s)"

primrec add_tables :: "nat list \<Rightarrow> Os_State \<Rightarrow> Os_State" where
  "add_tables [] s = s"
| "add_tables (i # is) s =
     add_tables is (upd_counter (sch_counter (sched_list s ! i)) (\<lambda>x. x\<lparr>sched_head := i # sched_head x\<rparr>) s)"

text \<open>In the second part the code initialises \<open>alarm_head\<close>, not \<open>sched_head\<close>.\<close>

definition Os_CounterInit :: "Os_State \<Rightarrow> Os_State" where
  "Os_CounterInit s =
     (let s = (if alarm_list s = [] then s
               else add_alarms [0..<length (alarm_list s)]
                 (upd_counter (counter (alarm_list s ! 0)) (\<lambda>x. x\<lparr>alarm_head := []\<rparr>) s))
      in if sched_list s = [] then s
         else add_tables [0..<length (sched_list s)]
           (upd_counter (sch_counter (sched_list s ! 0)) (\<lambda>x. x\<lparr>alarm_head := []\<rparr>) s))"

end
