(* ===== verification/WdgM.thy ===== *)
theory WdgM
  imports Os_Timing
begin

unbundle bit_operations_syntax

text \<open>
  The watchdog manager (safety\_security/WdgM/src/WdgM.c) on top of the watchdog interface
  (safety\_security/WdgIf/src/WdgIf.c): supervised entities report checkpoints; alive, deadline
  and logical supervision turn them into local states; the cyclic main function combines these
  into the global state, which decides whether the hardware watchdogs are triggered.

  The configuration is a value the services read through \<open>ConfigPtr\<close>; arrays with a length field
  are lists. Calls that leave the module (mode switches of the RTE, development and diagnostic
  errors, the watchdog drivers, the reset) are events of a log; the answers of the drivers are a
  function of \<open>WdgM_Env\<close> that may depend on the log. \<open>GetElapsedValue\<close> is the operating
  system's, on its state \<open>os\<close>. The module is compiled with DEM, RTE and development error
  detection.
\<close>

subsection \<open>Configuration and state\<close>

datatype WdgIf_ModeType = WDGIF_OFF_MODE | WDGIF_SLOW_MODE | WDGIF_FAST_MODE

datatype WdgM_LocalStatusType = WDGM_LOCAL_STATUS_OK | WDGM_LOCAL_STATUS_FAILED
  | WDGM_LOCAL_STATUS_EXPIRED | WDGM_LOCAL_STATUS_DEACTIVATED

datatype WdgM_GlobalStatusType = WDGM_GLOBAL_STATUS_OK | WDGM_GLOBAL_STATUS_FAILED
  | WDGM_GLOBAL_STATUS_EXPIRED | WDGM_GLOBAL_STATUS_STOPPED | WDGM_GLOBAL_STATUS_DEACTIVATED

type_synonym WdgM_Substate = uint8

definition WDGM_SUBSTATE_INCORRECT :: WdgM_Substate where "WDGM_SUBSTATE_INCORRECT = 0"

definition WDGM_SUBSTATE_CORRECT :: WdgM_Substate where "WDGM_SUBSTATE_CORRECT = 1"

record WdgM_Trigger =
  TriggerConditionValue :: uint16
  WatchdogMode :: WdgIf_ModeType
  Trigger_WatchdogId :: uint8

record WdgM_AliveSupervision =
  CheckpointId :: uint16
  ExpectedAliveIndications :: uint16
  MinMargin :: uint8
  MaxMargin :: uint8
  SupervisionReferenceCycle :: uint16

record WdgM_DeadlineSupervision =
  CheckpointIdStart :: uint16
  CheckpointIdFinish :: uint16
  DeadlineMin :: uint32
  DeadlineMax :: uint32

record WdgM_InternalTransition =
  CheckpointIdSource :: uint16
  CheckpointIdDestination :: uint16

record WdgM_SupervisedEntity =
  CheckpointIds :: "uint16 list"
  Transitions :: "WdgM_InternalTransition list"
  StartCheckpointIds :: "uint16 list"
  FinalCheckpointIds :: "uint16 list"

record WdgM_SupervisedEntityConfiguration =
  SupervisedEntityId :: uint16
  CheckInternalLogic :: bool
  AliveSupervisions :: "WdgM_AliveSupervision list"
  DeadlineSupervisions :: "WdgM_DeadlineSupervision list"
  FailedAliveSupervisionReferenceCycleTol :: uint8
  OSCounter :: uint8

record WdgM_Mode =
  Mode_Id :: uint8
  ExpiredSupervisionCycleTol :: uint16
  SEConfigurations :: "WdgM_SupervisedEntityConfiguration list"
  Triggers :: "WdgM_Trigger list"

record WdgM_Watchdog =
  WatchdogId :: uint8
  WatchdogDeviceId :: uint8

record WdgM_DEMEventIdRefs =
  Dem_Supervision :: uint16
  Dem_SetMode :: uint16

record WdgM_General =
  SupervisedEntities :: "WdgM_SupervisedEntity list"
  Watchdogs :: "WdgM_Watchdog list"

record WdgM_ConfigSet =
  DemEventIdRefs :: WdgM_DEMEventIdRefs
  initialModeId :: uint8
  Modes :: "WdgM_Mode list"

record WdgM_ConfigType =
  General :: WdgM_General
  ConfigSet :: WdgM_ConfigSet

record WdgM_runtime_AliveSupervision =
  AliveCounter :: uint32
  SupervisionCycleCounter :: uint16
  wasEvaluated :: bool

record WdgM_runtime_DeadlineSupervision =
  LastTickValue :: TickType

record WdgM_runtime_SupervisedEntity =
  LocalState :: WdgM_LocalStatusType
  SubstateAlive :: WdgM_Substate
  SubstateDeadline :: WdgM_Substate
  SubstateLogical :: WdgM_Substate
  IsInternalGraphActive :: bool
  PreviousCheckpointId_internalLogic :: uint16
  FailedAliveCyclesCounter :: uint8

record WdgM_runtime_SupervisedEntityConfig =
  rt_AliveSupervisions :: "WdgM_runtime_AliveSupervision list"
  rt_DeadlineSupervisions :: "WdgM_runtime_DeadlineSupervision list"

record WdgM_runtime_Mode =
  SE_Configs :: "WdgM_runtime_SupervisedEntityConfig list"
  ExpiredSupervisionCycleCounter :: uint16

datatype WdgM_ApiId = WDGM_SID_INIT | WDGM_SID_DEINIT | WDGM_SID_SETMODE | WDGM_SID_GETMODE
  | WDGM_SID_CHECKPOINTREACHED | WDGM_SID_GETLOCALSTATUS | WDGM_SID_GETGLOBALSTATUS | WDGM_SID_PERFORMRESET
  | WDGM_SID_GETFIRSTEXPIREDSEID | WDGM_SID_MAINFUNCTION | WDGIF_SETMODE_ID | WDGIF_SETTRIGGERCONDITION_ID

datatype WdgM_ErrorId = WDGM_E_NO_INIT | WDGM_E_NO_DEINIT | WDGM_E_PARAM_MODE | WDGM_E_PARAM_SEID
  | WDGM_E_INV_POINTER | WDGM_E_DISABLE_NOT_ALLOWED | WDGM_E_CPID | WDGM_E_SEDEACTIVATED | WDGIF_E_PARAM_DEVICE

text \<open>What the module does outside itself.\<close>

datatype WdgM_Event =
    Det_ReportError WdgM_ApiId WdgM_ErrorId
  | Dem_ReportErrorStatus uint16
  | Rte_Switch_SE nat WdgM_LocalStatusType
  | Rte_Switch_globalMode WdgM_GlobalStatusType
  | Wdg_SetMode uint8 WdgIf_ModeType
  | Wdg_SetTriggerCondition uint8 uint16
  | Mcu_PerformReset

text \<open>
  The compile-time switches, the number of watchdog devices, the answers of the drivers to
  \<open>Wdg_SetMode\<close> (given the log so far), the tick duration in nanoseconds and the addresses
  passed to \<open>GetElapsedValue\<close>.
\<close>

record WdgM_Env =
  WDGM_OFF_MODE_ENABLED :: bool
  WDGM_DEM_ALIVE_SUPERVISION_REPORT :: bool
  WDGM_IMMEDIATE_RESET :: bool
  WdgIf_NumberOfDevices :: uint8
  Wdg_SetModeLocationPtr :: "WdgM_Event list \<Rightarrow> uint8 \<Rightarrow> WdgIf_ModeType \<Rightarrow> Std_ReturnType"
  OSTICKDURATION :: uint32
  LastTickPointer :: nat
  elapsedTicksPointer :: nat
  currTickPointer :: nat

record WdgM_State =
  ConfigPtr :: "WdgM_ConfigType option"
  SEs :: "WdgM_runtime_SupervisedEntity list"
  rt_Modes :: "WdgM_runtime_Mode list"
  isInitiated :: bool
  GlobalState :: WdgM_GlobalStatusType
  CurrentMode :: "WdgM_Mode option"
  ResetInitiated :: bool
  isFirstExpiredSet :: bool
  firstExpiredSEID :: uint16
  firstExpiredSEIDInverse :: uint16
  wlog :: "WdgM_Event list"
  os :: Os_State

abbreviation cfg :: "WdgM_State \<Rightarrow> WdgM_ConfigType" where "cfg s \<equiv> the (ConfigPtr s)"

abbreviation cur_mode :: "WdgM_State \<Rightarrow> WdgM_Mode" where "cur_mode s \<equiv> the (CurrentMode s)"

abbreviation cur_rt :: "WdgM_State \<Rightarrow> WdgM_runtime_Mode" where
  "cur_rt s \<equiv> rt_Modes s ! unat (Mode_Id (cur_mode s))"

definition emit :: "WdgM_Event \<Rightarrow> WdgM_State \<Rightarrow> WdgM_State" where
  "emit e s = s\<lparr>wlog := wlog s @ [e]\<rparr>"

definition upd_SE :: "nat \<Rightarrow> (WdgM_runtime_SupervisedEntity \<Rightarrow> WdgM_runtime_SupervisedEntity) \<Rightarrow> WdgM_State
    \<Rightarrow> WdgM_State" where
  "upd_SE i f s = s\<lparr>SEs := (SEs s)[i := f (SEs s ! i)]\<rparr>"

definition upd_rtMode :: "nat \<Rightarrow> (WdgM_runtime_Mode \<Rightarrow> WdgM_runtime_Mode) \<Rightarrow> WdgM_State \<Rightarrow> WdgM_State" where
  "upd_rtMode m f s = s\<lparr>rt_Modes := (rt_Modes s)[m := f (rt_Modes s ! m)]\<rparr>"

definition upd_rtConf :: "nat \<Rightarrow> (WdgM_runtime_SupervisedEntityConfig \<Rightarrow> WdgM_runtime_SupervisedEntityConfig)
    \<Rightarrow> WdgM_State \<Rightarrow> WdgM_State" where
  "upd_rtConf i f s = upd_rtMode (unat (Mode_Id (cur_mode s)))
     (\<lambda>m. m\<lparr>SE_Configs := (SE_Configs m)[i := f (SE_Configs m ! i)]\<rparr>) s"

subsection \<open>Watchdog interface\<close>

definition WdgIf_SetMode :: "WdgM_Env \<Rightarrow> uint8 \<Rightarrow> WdgIf_ModeType \<Rightarrow> WdgM_State \<Rightarrow> Std_ReturnType \<times> WdgM_State" where
  "WdgIf_SetMode E DeviceIndex Mode s =
     (if \<not> WdgIf_NumberOfDevices E > DeviceIndex
      then (E_NOT_OK, emit (Det_ReportError WDGIF_SETMODE_ID WDGIF_E_PARAM_DEVICE) s)
      else (Wdg_SetModeLocationPtr E (wlog s) DeviceIndex Mode, emit (Wdg_SetMode DeviceIndex Mode) s))"

definition WdgIf_SetTriggerCondition :: "WdgM_Env \<Rightarrow> uint8 \<Rightarrow> uint16 \<Rightarrow> WdgM_State \<Rightarrow> WdgM_State" where
  "WdgIf_SetTriggerCondition E DeviceIndex Timeout s =
     (if \<not> DeviceIndex < WdgIf_NumberOfDevices E
      then emit (Det_ReportError WDGIF_SETTRIGGERCONDITION_ID WDGIF_E_PARAM_DEVICE) s
      else emit (Wdg_SetTriggerCondition DeviceIndex Timeout) s)"

subsection \<open>Reporting\<close>

definition WdgM_Internal_ReportLocalModeChange :: "nat \<Rightarrow> WdgM_State \<Rightarrow> WdgM_State" where
  "WdgM_Internal_ReportLocalModeChange SEIndex s = emit (Rte_Switch_SE SEIndex (LocalState (SEs s ! SEIndex))) s"

definition Wdgm_internal_ReportGlobalModeChange :: "WdgM_State \<Rightarrow> WdgM_State" where
  "Wdgm_internal_ReportGlobalModeChange s = emit (Rte_Switch_globalMode (GlobalState s)) s"

definition WDGM_REPORT_DEM_ERROR :: "uint16 \<Rightarrow> WdgM_State \<Rightarrow> WdgM_State" where
  "WDGM_REPORT_DEM_ERROR eventId s = (if eventId \<noteq> 0 then emit (Dem_ReportErrorStatus eventId) s else s)"

subsection \<open>Resetting entities and modes\<close>

definition WdgM_internal_DeactivateAndResetSE :: "nat \<Rightarrow> WdgM_State \<Rightarrow> WdgM_State" where
  "WdgM_internal_DeactivateAndResetSE SEIndex s =
     (let s = upd_SE SEIndex (\<lambda>x. x\<lparr>LocalState := WDGM_LOCAL_STATUS_DEACTIVATED\<rparr>) s;
          s = WdgM_Internal_ReportLocalModeChange SEIndex s
      in upd_SE SEIndex (\<lambda>x. x\<lparr>IsInternalGraphActive := False, PreviousCheckpointId_internalLogic := 0,
           FailedAliveCyclesCounter := 0, SubstateAlive := WDGM_SUBSTATE_CORRECT,
           SubstateDeadline := WDGM_SUBSTATE_CORRECT, SubstateLogical := WDGM_SUBSTATE_CORRECT\<rparr>) s)"

definition reset_SEConfig :: "WdgM_runtime_SupervisedEntityConfig \<Rightarrow> WdgM_runtime_SupervisedEntityConfig" where
  "reset_SEConfig c = c\<lparr>
     rt_AliveSupervisions := map (\<lambda>a. a\<lparr>AliveCounter := 0, SupervisionCycleCounter := 0\<rparr>) (rt_AliveSupervisions c),
     rt_DeadlineSupervisions := map (\<lambda>d. d\<lparr>LastTickValue := 0\<rparr>) (rt_DeadlineSupervisions c)\<rparr>"

definition WdgM_internal_ResetSEConfigsForMode :: "nat \<Rightarrow> WdgM_State \<Rightarrow> WdgM_State" where
  "WdgM_internal_ResetSEConfigsForMode m s =
     upd_rtMode m (\<lambda>x. x\<lparr>ExpiredSupervisionCycleCounter := 0, SE_Configs := map reset_SEConfig (SE_Configs x)\<rparr>) s"

subsection \<open>Watchdog triggers\<close>

definition WdgM_internal_isAtLeastOneWdogEnabled :: "uint8 \<Rightarrow> WdgM_ApiId \<Rightarrow> WdgM_ErrorId \<Rightarrow> WdgM_State
    \<Rightarrow> bool \<times> WdgM_State" where
  "WdgM_internal_isAtLeastOneWdogEnabled Mode SID errID s =
     (let WdgActive = list_ex (\<lambda>t. WatchdogMode t \<noteq> WDGIF_OFF_MODE) (Triggers (Modes (ConfigSet (cfg s)) ! unat Mode))
      in if \<not> WdgActive then (False, emit (Det_ReportError SID errID) s) else (True, s))"

definition DeviceIndex :: "WdgM_State \<Rightarrow> WdgM_Trigger \<Rightarrow> uint8" where
  "DeviceIndex s t = WatchdogDeviceId (Watchdogs (General (cfg s)) ! unat (Trigger_WatchdogId t))"

text \<open>The state is stopped and the error reported when a driver refuses a mode.\<close>

definition wdg_refused :: "uint16 \<Rightarrow> WdgM_State \<Rightarrow> WdgM_State" where
  "wdg_refused errID s =
     WDGM_REPORT_DEM_ERROR errID
       (Wdgm_internal_ReportGlobalModeChange (s\<lparr>GlobalState := WDGM_GLOBAL_STATUS_STOPPED\<rparr>))"

primrec deactivate_loop :: "WdgM_Env \<Rightarrow> uint16 \<Rightarrow> WdgM_Trigger list \<Rightarrow> WdgM_State \<Rightarrow> Std_ReturnType \<times> WdgM_State" where
  "deactivate_loop E errID [] s = (E_OK, s)"
| "deactivate_loop E errID (t # ts) s =
     (let (potError, s) = WdgIf_SetMode E (DeviceIndex s t) WDGIF_OFF_MODE s
      in if potError \<noteq> E_OK then (E_NOT_OK, wdg_refused errID s) else deactivate_loop E errID ts s)"

definition WdgM_internal_deactivateCurrentTriggers :: "WdgM_Env \<Rightarrow> uint16 \<Rightarrow> WdgM_State
    \<Rightarrow> Std_ReturnType \<times> WdgM_State" where
  "WdgM_internal_deactivateCurrentTriggers E errID s = deactivate_loop E errID (Triggers (cur_mode s)) s"

primrec activate_loop :: "WdgM_Env \<Rightarrow> uint16 \<Rightarrow> WdgM_Trigger list \<Rightarrow> WdgM_State \<Rightarrow> Std_ReturnType \<times> WdgM_State" where
  "activate_loop E errID [] s = (E_OK, s)"
| "activate_loop E errID (t # ts) s =
     (let d = DeviceIndex s t;
          (potError, s) = WdgIf_SetMode E d (WatchdogMode t) s;
          s = (if potError = E_OK \<and> WatchdogMode t \<noteq> WDGIF_OFF_MODE \<and> \<not> ResetInitiated s
               then WdgIf_SetTriggerCondition E d (TriggerConditionValue t) s else s)
      in if potError \<noteq> E_OK then (E_NOT_OK, wdg_refused errID s) else activate_loop E errID ts s)"

definition WdgM_internal_activateTriggers :: "WdgM_Env \<Rightarrow> WdgM_Mode \<Rightarrow> uint16 \<Rightarrow> WdgM_State
    \<Rightarrow> Std_ReturnType \<times> WdgM_State" where
  "WdgM_internal_activateTriggers E Mode errID s = activate_loop E errID (Triggers Mode) s"

subsection \<open>Alive supervision\<close>

text \<open>The counter is cut to a signed 16-bit value, and so is the difference.\<close>

definition WdgM_internal_SpecAliveAlgo :: "WdgM_AliveSupervision \<Rightarrow> WdgM_runtime_AliveSupervision
    \<Rightarrow> WdgM_Substate \<times> WdgM_runtime_AliveSupervision" where
  "WdgM_internal_SpecAliveAlgo aliveCP r =
     (let temp = sint (word_of_int (sint (ucast (AliveCounter r) :: uint16) - sint (ExpectedAliveIndications aliveCP)) :: uint16)
      in (if temp \<le> uint (MaxMargin aliveCP) \<and> temp \<ge> 0 - uint (MinMargin aliveCP)
          then WDGM_SUBSTATE_CORRECT else WDGM_SUBSTATE_INCORRECT,
          r\<lparr>AliveCounter := 0, SupervisionCycleCounter := 0\<rparr>))"

definition WdgM_internal_IsAliveHold :: "WdgM_AliveSupervision \<Rightarrow> WdgM_runtime_AliveSupervision
    \<Rightarrow> WdgM_Substate \<times> WdgM_runtime_AliveSupervision" where
  "WdgM_internal_IsAliveHold aliveCP r =
     (let r = r\<lparr>wasEvaluated := False\<rparr> in
      if SupervisionReferenceCycle aliveCP = 1
      then (let (retVal, r) = WdgM_internal_SpecAliveAlgo aliveCP r in (retVal, r\<lparr>wasEvaluated := True\<rparr>))
      else if SupervisionCycleCounter r = SupervisionReferenceCycle aliveCP
      then (let (retVal, r) = WdgM_internal_SpecAliveAlgo aliveCP r in (retVal, r\<lparr>wasEvaluated := True\<rparr>))
      else (WDGM_SUBSTATE_CORRECT, r))"

text \<open>The loop over the alive supervisions of one entity, with the result and the write flag.\<close>

primrec CheckAlives_entity :: "WdgM_AliveSupervision list \<Rightarrow> nat \<Rightarrow> WdgM_Substate \<Rightarrow> bool
    \<Rightarrow> WdgM_runtime_AliveSupervision list \<Rightarrow> WdgM_Substate \<times> bool \<times> WdgM_runtime_AliveSupervision list" where
  "CheckAlives_entity [] a result writeResult rs = (result, writeResult, rs)"
| "CheckAlives_entity (aliveCP # cs) a result writeResult rs =
     (let r = rs ! a;
          r = r\<lparr>SupervisionCycleCounter := SupervisionCycleCounter r + 1\<rparr>;
          (tempRes, r) = WdgM_internal_IsAliveHold aliveCP r
      in CheckAlives_entity cs (Suc a) (if tempRes = WDGM_SUBSTATE_INCORRECT then tempRes else result)
           (if wasEvaluated r then True else writeResult) (rs[a := r]))"

primrec CheckAlives_loop :: "WdgM_SupervisedEntityConfiguration list \<Rightarrow> nat \<Rightarrow> WdgM_State \<Rightarrow> WdgM_State" where
  "CheckAlives_loop [] i s = s"
| "CheckAlives_loop (seConf # cs) i s =
     (let (result, writeResult, rs) = CheckAlives_entity (AliveSupervisions seConf) 0 WDGM_SUBSTATE_CORRECT False
            (rt_AliveSupervisions (SE_Configs (cur_rt s) ! i));
          s = upd_rtConf i (\<lambda>x. x\<lparr>rt_AliveSupervisions := rs\<rparr>) s;
          s = (if writeResult then upd_SE (unat (SupervisedEntityId seConf)) (\<lambda>x. x\<lparr>SubstateAlive := result\<rparr>) s else s)
      in CheckAlives_loop cs (Suc i) s)"

definition WdgM_internal_CheckAlives :: "WdgM_State \<Rightarrow> WdgM_State" where
  "WdgM_internal_CheckAlives s = CheckAlives_loop (SEConfigurations (cur_mode s)) 0 s"

subsection \<open>Local states\<close>

text \<open>These functions return the new runtime data of the entity and the modes reported, in order.\<close>

definition WdgM_internal_CalculateLocalState_FromFailedNoError :: "WdgM_runtime_SupervisedEntity
    \<Rightarrow> WdgM_runtime_SupervisedEntity \<times> WdgM_LocalStatusType list" where
  "WdgM_internal_CalculateLocalState_FromFailedNoError se =
     (if FailedAliveCyclesCounter se > 1
      then (se\<lparr>FailedAliveCyclesCounter := FailedAliveCyclesCounter se - 1\<rparr>, [])
      else (se\<lparr>FailedAliveCyclesCounter := 0, LocalState := WDGM_LOCAL_STATUS_OK\<rparr>, [WDGM_LOCAL_STATUS_OK]))"

definition WdgM_internal_CalculateLocalState_FromOKOneError :: "WdgM_SupervisedEntityConfiguration
    \<Rightarrow> WdgM_runtime_SupervisedEntity \<Rightarrow> WdgM_runtime_SupervisedEntity \<times> WdgM_LocalStatusType list" where
  "WdgM_internal_CalculateLocalState_FromOKOneError seConf se =
     (let (se, r) =
            (if SubstateAlive se = WDGM_SUBSTATE_INCORRECT
             then (se\<lparr>LocalState := WDGM_LOCAL_STATUS_FAILED, FailedAliveCyclesCounter := FailedAliveCyclesCounter se + 1\<rparr>,
                   [WDGM_LOCAL_STATUS_FAILED])
             else (se, []))
      in if FailedAliveCyclesCounter se > FailedAliveSupervisionReferenceCycleTol seConf
            \<or> SubstateAlive se = WDGM_SUBSTATE_CORRECT
         then (se\<lparr>LocalState := WDGM_LOCAL_STATUS_EXPIRED\<rparr>, r @ [WDGM_LOCAL_STATUS_EXPIRED])
         else (se, r))"

definition WdgM_internal_CalculateLocalState_FromFailedOneError :: "WdgM_SupervisedEntityConfiguration
    \<Rightarrow> WdgM_runtime_SupervisedEntityConfig \<Rightarrow> WdgM_runtime_SupervisedEntity
    \<Rightarrow> WdgM_runtime_SupervisedEntity \<times> WdgM_LocalStatusType list" where
  "WdgM_internal_CalculateLocalState_FromFailedOneError seConf rt_seConf se =
     (let se = (if SubstateAlive se = WDGM_SUBSTATE_INCORRECT
                     \<and> list_ex wasEvaluated (rt_AliveSupervisions rt_seConf)
                then se\<lparr>FailedAliveCyclesCounter := FailedAliveCyclesCounter se + 1\<rparr> else se)
      in if FailedAliveCyclesCounter se > FailedAliveSupervisionReferenceCycleTol seConf
         then (se\<lparr>LocalState := WDGM_LOCAL_STATUS_EXPIRED\<rparr>, [WDGM_LOCAL_STATUS_EXPIRED])
         else (se, []))"

definition WdgM_internal_CalculateLocalState :: "WdgM_SupervisedEntityConfiguration
    \<Rightarrow> WdgM_runtime_SupervisedEntityConfig \<Rightarrow> WdgM_runtime_SupervisedEntity
    \<Rightarrow> WdgM_runtime_SupervisedEntity \<times> WdgM_LocalStatusType list" where
  "WdgM_internal_CalculateLocalState seConf rt_seConf se =
     (let nrOfCorrectSubstates = SubstateAlive se + SubstateDeadline se + SubstateLogical se in
      if nrOfCorrectSubstates = 3
      then (if LocalState se = WDGM_LOCAL_STATUS_FAILED
            then WdgM_internal_CalculateLocalState_FromFailedNoError se else (se, []))
      else if nrOfCorrectSubstates = 2
      then (if LocalState se = WDGM_LOCAL_STATUS_OK
            then WdgM_internal_CalculateLocalState_FromOKOneError seConf se
            else if LocalState se = WDGM_LOCAL_STATUS_FAILED
            then WdgM_internal_CalculateLocalState_FromFailedOneError seConf rt_seConf se
            else (se, []))
      else (se\<lparr>LocalState := WDGM_LOCAL_STATUS_EXPIRED\<rparr>, [WDGM_LOCAL_STATUS_EXPIRED]))"

subsection \<open>Global state\<close>

definition expired_tolerated :: "WdgM_State \<Rightarrow> bool" where
  "expired_tolerated s \<longleftrightarrow> ExpiredSupervisionCycleCounter (cur_rt s) < ExpiredSupervisionCycleTol (cur_mode s)"

definition WdgM_internal_updateFromGlobalOK :: "nat \<Rightarrow> nat \<Rightarrow> WdgM_State \<Rightarrow> WdgM_State" where
  "WdgM_internal_updateFromGlobalOK expired failed s =
     (let s = (if failed > 0 then s\<lparr>GlobalState := WDGM_GLOBAL_STATUS_FAILED\<rparr> else s)
      in if expired > 0
         then (if expired_tolerated s then s\<lparr>GlobalState := WDGM_GLOBAL_STATUS_EXPIRED\<rparr>
               else s\<lparr>GlobalState := WDGM_GLOBAL_STATUS_STOPPED\<rparr>)
         else s)"

definition WdgM_internal_updateFromGlobalFAILED :: "nat \<Rightarrow> nat \<Rightarrow> WdgM_State \<Rightarrow> WdgM_State" where
  "WdgM_internal_updateFromGlobalFAILED expired failed s =
     (if failed = 0 \<and> expired = 0 then s\<lparr>GlobalState := WDGM_GLOBAL_STATUS_OK\<rparr>
      else if expired > 0
      then (if expired_tolerated s then s\<lparr>GlobalState := WDGM_GLOBAL_STATUS_EXPIRED\<rparr>
            else s\<lparr>GlobalState := WDGM_GLOBAL_STATUS_STOPPED\<rparr>)
      else s)"

definition WdgM_internal_updateFromGlobalEXPIRED :: "nat \<Rightarrow> WdgM_State \<Rightarrow> WdgM_State" where
  "WdgM_internal_updateFromGlobalEXPIRED expired s =
     (if expired > 0
      then (if expired_tolerated s
            then upd_rtMode (unat (Mode_Id (cur_mode s)))
                   (\<lambda>m. m\<lparr>ExpiredSupervisionCycleCounter := ExpiredSupervisionCycleCounter m + 1\<rparr>) s
            else s\<lparr>GlobalState := WDGM_GLOBAL_STATUS_STOPPED\<rparr>)
      else s)"

text \<open>
  The loop over the entities of the current mode, \<open>i\<close> the index in the mode, with the numbers
  of expired and failed entities; at most 65535 entities exist, so the 16-bit counters do not wrap.
\<close>

primrec CalculateGlobalState_loop :: "WdgM_SupervisedEntityConfiguration list \<Rightarrow> nat \<Rightarrow> nat \<Rightarrow> nat \<Rightarrow> WdgM_State
    \<Rightarrow> nat \<times> nat \<times> WdgM_State" where
  "CalculateGlobalState_loop [] i expiredCounter failedCounter s = (expiredCounter, failedCounter, s)"
| "CalculateGlobalState_loop (seConf # cs) i expiredCounter failedCounter s =
     (let n = unat (SupervisedEntityId seConf);
          (se, reports) = WdgM_internal_CalculateLocalState seConf (SE_Configs (cur_rt s) ! i) (SEs s ! n);
          s = fold (\<lambda>l. emit (Rte_Switch_SE n l)) reports (upd_SE n (\<lambda>_. se) s);
          s = (if LocalState se = WDGM_LOCAL_STATUS_EXPIRED \<and> \<not> isFirstExpiredSet s
               then s\<lparr>firstExpiredSEID := of_nat i, firstExpiredSEIDInverse := NOT (of_nat i), isFirstExpiredSet := True\<rparr>
               else s)
      in CalculateGlobalState_loop cs (Suc i)
           (if LocalState se = WDGM_LOCAL_STATUS_EXPIRED then expiredCounter + 1 else expiredCounter)
           (if LocalState se = WDGM_LOCAL_STATUS_FAILED then failedCounter + 1 else failedCounter) s)"

definition WdgM_internal_CalculateGlobalState :: "WdgM_State \<Rightarrow> WdgM_State" where
  "WdgM_internal_CalculateGlobalState s =
     (let initalState = GlobalState s;
          (expiredCounter, failedCounter, s) = CalculateGlobalState_loop (SEConfigurations (cur_mode s)) 0 0 0 s;
          s = (case GlobalState s of
                 WDGM_GLOBAL_STATUS_OK \<Rightarrow> WdgM_internal_updateFromGlobalOK expiredCounter failedCounter s
               | WDGM_GLOBAL_STATUS_FAILED \<Rightarrow> WdgM_internal_updateFromGlobalFAILED expiredCounter failedCounter s
               | WDGM_GLOBAL_STATUS_EXPIRED \<Rightarrow> WdgM_internal_updateFromGlobalEXPIRED expiredCounter s
               | _ \<Rightarrow> s)
      in if initalState \<noteq> GlobalState s then Wdgm_internal_ReportGlobalModeChange s else s)"

subsection \<open>Checkpoints\<close>

primrec find_alive :: "uint16 \<Rightarrow> WdgM_AliveSupervision list \<Rightarrow> nat \<Rightarrow> nat option" where
  "find_alive CPId [] i = None"
| "find_alive CPId (a # as) i = (if CheckpointId a = CPId then Some i else find_alive CPId as (Suc i))"

definition WdgM_internal_AliveMonitoring :: "WdgM_SupervisedEntityConfiguration \<Rightarrow> uint16
    \<Rightarrow> WdgM_runtime_SupervisedEntityConfig \<Rightarrow> WdgM_runtime_SupervisedEntityConfig" where
  "WdgM_internal_AliveMonitoring seConf CPId rt_seConf =
     (case find_alive CPId (AliveSupervisions seConf) 0 of
        None \<Rightarrow> rt_seConf
      | Some i \<Rightarrow> rt_seConf\<lparr>rt_AliveSupervisions := (rt_AliveSupervisions rt_seConf)
          [i := (rt_AliveSupervisions rt_seConf ! i)\<lparr>AliveCounter := AliveCounter (rt_AliveSupervisions rt_seConf ! i) + 1\<rparr>]\<rparr>)"

text \<open>
  A call of \<open>GetElapsedValue\<close> whose result is ignored: the new value of the variable passed by
  reference, the elapsed ticks (zero when the call fails) and the state of the operating system.
\<close>

definition elapsed_since :: "WdgM_Env \<Rightarrow> uint8 \<Rightarrow> TickType \<Rightarrow> Os_State \<Rightarrow> TickType \<times> TickType \<times> Os_State" where
  "elapsed_since E counter_id old o1 =
     (case GetElapsedValue (unat counter_id) (Some (LastTickPointer E, old)) (Some (elapsedTicksPointer E))
             (currTickPointer E) o1 of
        (rv, None, o2) \<Rightarrow> (old, 0, o2)
      | (rv, Some (now, elapsed), o2) \<Rightarrow> (now, elapsed, o2))"

definition WDGM_OSTICKSPERSECOND :: "WdgM_Env \<Rightarrow> uint32" where
  "WDGM_OSTICKSPERSECOND E = 1000000000 div OSTICKDURATION E"

definition WdgM_internalIsDeadlineHold :: "WdgM_Env \<Rightarrow> uint8 \<Rightarrow> WdgM_DeadlineSupervision
    \<Rightarrow> WdgM_runtime_DeadlineSupervision \<Rightarrow> Os_State
    \<Rightarrow> WdgM_Substate \<times> WdgM_runtime_DeadlineSupervision \<times> Os_State" where
  "WdgM_internalIsDeadlineHold E counter_id deadlineCP r o1 =
     (let (now, elapsedTicks, o2) = elapsed_since E counter_id (LastTickValue r) o1
      in (if elapsedTicks \<ge> DeadlineMin deadlineCP * WDGM_OSTICKSPERSECOND E
             \<and> elapsedTicks \<le> DeadlineMax deadlineCP * WDGM_OSTICKSPERSECOND E
          then WDGM_SUBSTATE_CORRECT else WDGM_SUBSTATE_INCORRECT, r\<lparr>LastTickValue := now\<rparr>, o2))"

text \<open>The loop over the deadline supervisions, left at the first violated deadline.\<close>

primrec DeadlineMonitoring_loop :: "WdgM_Env \<Rightarrow> uint8 \<Rightarrow> uint16 \<Rightarrow> WdgM_DeadlineSupervision list \<Rightarrow> nat
    \<Rightarrow> WdgM_runtime_DeadlineSupervision list \<Rightarrow> Os_State
    \<Rightarrow> WdgM_Substate \<times> WdgM_runtime_DeadlineSupervision list \<times> Os_State" where
  "DeadlineMonitoring_loop E counter_id CPId [] i rs o1 = (WDGM_SUBSTATE_CORRECT, rs, o1)"
| "DeadlineMonitoring_loop E counter_id CPId (d # ds) i rs o1 =
     (let (rs, o1) =
            (if CheckpointIdStart d = CPId
             then (let (now, elapsedTicks, o2) = elapsed_since E counter_id (LastTickValue (rs ! i)) o1
                   in (rs[i := (rs ! i)\<lparr>LastTickValue := now\<rparr>], o2))
             else (rs, o1))
      in if CheckpointIdFinish d = CPId \<and> LastTickValue (rs ! i) \<noteq> 0
         then (let (hold, r, o1) = WdgM_internalIsDeadlineHold E counter_id d (rs ! i) o1
               in if hold = WDGM_SUBSTATE_INCORRECT then (WDGM_SUBSTATE_INCORRECT, rs[i := r], o1)
                  else DeadlineMonitoring_loop E counter_id CPId ds (Suc i) (rs[i := r\<lparr>LastTickValue := 0\<rparr>]) o1)
         else DeadlineMonitoring_loop E counter_id CPId ds (Suc i) rs o1)"

definition WdgM_internal_DeadlineMonitoring :: "WdgM_Env \<Rightarrow> WdgM_SupervisedEntityConfiguration \<Rightarrow> uint16
    \<Rightarrow> WdgM_runtime_SupervisedEntityConfig \<Rightarrow> Os_State
    \<Rightarrow> WdgM_Substate \<times> WdgM_runtime_SupervisedEntityConfig \<times> Os_State" where
  "WdgM_internal_DeadlineMonitoring E seConf CPId rt_seConf o1 =
     (let (result, rs, o2) = DeadlineMonitoring_loop E (OSCounter seConf) CPId (DeadlineSupervisions seConf) 0
            (rt_DeadlineSupervisions rt_seConf) o1
      in (result, rt_seConf\<lparr>rt_DeadlineSupervisions := rs\<rparr>, o2))"

definition WdgM_internal_LogicalMonitoring_GraphActive :: "WdgM_SupervisedEntity \<Rightarrow> uint16
    \<Rightarrow> WdgM_runtime_SupervisedEntity \<Rightarrow> WdgM_Substate \<times> WdgM_runtime_SupervisedEntity" where
  "WdgM_internal_LogicalMonitoring_GraphActive se CPId rt =
     (if list_ex (\<lambda>t. CheckpointIdSource t = PreviousCheckpointId_internalLogic rt \<and> CheckpointIdDestination t = CPId)
           (Transitions se)
      then (let rt = rt\<lparr>PreviousCheckpointId_internalLogic := CPId\<rparr>
            in (WDGM_SUBSTATE_CORRECT,
                if list_ex (\<lambda>c. c = CPId) (FinalCheckpointIds se) then rt\<lparr>IsInternalGraphActive := False\<rparr> else rt))
      else (WDGM_SUBSTATE_INCORRECT, rt))"

definition WdgM_internal_LogicalMonitoring_GraphInactive :: "WdgM_SupervisedEntity \<Rightarrow> uint16
    \<Rightarrow> WdgM_runtime_SupervisedEntity \<Rightarrow> WdgM_Substate \<times> WdgM_runtime_SupervisedEntity" where
  "WdgM_internal_LogicalMonitoring_GraphInactive se CPId rt =
     (if list_ex (\<lambda>c. c = CPId) (StartCheckpointIds se)
      then (WDGM_SUBSTATE_CORRECT, rt\<lparr>IsInternalGraphActive := True, PreviousCheckpointId_internalLogic := CPId\<rparr>)
      else (WDGM_SUBSTATE_INCORRECT, rt))"

definition WdgM_internal_LogicalMonitoring :: "WdgM_SupervisedEntity \<Rightarrow> uint16
    \<Rightarrow> WdgM_runtime_SupervisedEntity \<Rightarrow> WdgM_Substate \<times> WdgM_runtime_SupervisedEntity" where
  "WdgM_internal_LogicalMonitoring se CPId rt =
     (if IsInternalGraphActive rt then WdgM_internal_LogicalMonitoring_GraphActive se CPId rt
      else WdgM_internal_LogicalMonitoring_GraphInactive se CPId rt)"

subsection \<open>Services\<close>

definition det :: "WdgM_ApiId \<Rightarrow> WdgM_ErrorId \<Rightarrow> WdgM_State \<Rightarrow> WdgM_State" where
  "det SID e s = emit (Det_ReportError SID e) s"

primrec DeactivateAll :: "nat list \<Rightarrow> WdgM_State \<Rightarrow> WdgM_State" where
  "DeactivateAll [] s = s"
| "DeactivateAll (i # is) s = DeactivateAll is (WdgM_internal_DeactivateAndResetSE i s)"

primrec ActivateAll :: "WdgM_SupervisedEntityConfiguration list \<Rightarrow> WdgM_State \<Rightarrow> WdgM_State" where
  "ActivateAll [] s = s"
| "ActivateAll (seConf # cs) s =
     (let SEId = unat (SupervisedEntityId seConf);
          s = upd_SE SEId (\<lambda>x. x\<lparr>LocalState := WDGM_LOCAL_STATUS_OK\<rparr>) s
      in ActivateAll cs (WdgM_Internal_ReportLocalModeChange SEId s))"

definition WdgM_Init :: "WdgM_Env \<Rightarrow> WdgM_ConfigType option \<Rightarrow> WdgM_State \<Rightarrow> WdgM_State" where
  "WdgM_Init E Config s =
     (case Config of
        None \<Rightarrow> det WDGM_SID_INIT WDGM_E_INV_POINTER s
      | Some c \<Rightarrow>
          if isInitiated s then det WDGM_SID_INIT WDGM_E_NO_DEINIT s
          else
            (let s = s\<lparr>ConfigPtr := Some c\<rparr>;
                 initialMode = Modes (ConfigSet c) ! unat (initialModeId (ConfigSet c));
                 (status, s) = (if WDGM_OFF_MODE_ENABLED E then (True, s)
                    else WdgM_internal_isAtLeastOneWdogEnabled (Mode_Id initialMode) WDGM_SID_INIT WDGM_E_DISABLE_NOT_ALLOWED s)
             in if status
                then
                  (let s = DeactivateAll [0..<length (SupervisedEntities (General c))] s;
                       s = ActivateAll (SEConfigurations initialMode) s;
                       s = WdgM_internal_ResetSEConfigsForMode (unat (Mode_Id initialMode)) s;
                       s = Wdgm_internal_ReportGlobalModeChange (s\<lparr>GlobalState := WDGM_GLOBAL_STATUS_OK\<rparr>);
                       s = s\<lparr>isFirstExpiredSet := False, firstExpiredSEIDInverse := 0, firstExpiredSEID := 0,
                             CurrentMode := Some initialMode, ResetInitiated := False\<rparr>;
                       (ret, s) = WdgM_internal_activateTriggers E initialMode (Dem_SetMode (DemEventIdRefs (ConfigSet c))) s
                   in if ret = E_OK then s\<lparr>isInitiated := True\<rparr> else s)
                else s))"

primrec trigger_zero :: "WdgM_Env \<Rightarrow> WdgM_Watchdog list \<Rightarrow> WdgM_State \<Rightarrow> WdgM_State" where
  "trigger_zero E [] s = s"
| "trigger_zero E (w # ws) s = trigger_zero E ws (WdgIf_SetTriggerCondition E (WatchdogDeviceId w) 0 s)"

definition WdgM_DeInit :: "WdgM_Env \<Rightarrow> WdgM_State \<Rightarrow> WdgM_State" where
  "WdgM_DeInit E s =
     (if \<not> isInitiated s then det WDGM_SID_DEINIT WDGM_E_NO_INIT s
      else if GlobalState s = WDGM_GLOBAL_STATUS_OK
      then
        (let s = Wdgm_internal_ReportGlobalModeChange (s\<lparr>GlobalState := WDGM_GLOBAL_STATUS_DEACTIVATED\<rparr>);
             (ret, s) = WdgM_internal_deactivateCurrentTriggers E 0 s
         in if ret = E_OK
            then (if \<not> ResetInitiated s then trigger_zero E (Watchdogs (General (cfg s))) s else s)\<lparr>isInitiated := False\<rparr>
            else s)
      else s)"

text \<open>The while loop of \<open>WdgM_SetMode\<close> over the entities of the new mode (fewer than 65535).\<close>

primrec SetMode_loop :: "WdgM_SupervisedEntityConfiguration list \<Rightarrow> nat \<Rightarrow> WdgM_State \<Rightarrow> WdgM_State" where
  "SetMode_loop [] SEIndex s = DeactivateAll [SEIndex..<length (SupervisedEntities (General (cfg s)))] s"
| "SetMode_loop (seConf # cs) SEIndex s =
     (let untilID = unat (SupervisedEntityId seConf);
          s = DeactivateAll [SEIndex..<untilID] s;
          SEIndex = max SEIndex untilID;
          s = (if LocalState (SEs s ! SEIndex) = WDGM_LOCAL_STATUS_DEACTIVATED
               then WdgM_Internal_ReportLocalModeChange SEIndex
                      (upd_SE SEIndex (\<lambda>x. x\<lparr>LocalState := WDGM_LOCAL_STATUS_OK\<rparr>) s)
               else s)
      in SetMode_loop cs (SEIndex + 1) s)"

definition WdgM_SetMode :: "WdgM_Env \<Rightarrow> uint8 \<Rightarrow> WdgM_State \<Rightarrow> Std_ReturnType \<times> WdgM_State" where
  "WdgM_SetMode E Mode s =
     (if \<not> isInitiated s then (E_NOT_OK, det WDGM_SID_SETMODE WDGM_E_NO_INIT s)
      else if unat Mode \<ge> length (Modes (ConfigSet (cfg s))) then (E_NOT_OK, det WDGM_SID_SETMODE WDGM_E_PARAM_MODE s)
      else
        (let (status, s) = (if WDGM_OFF_MODE_ENABLED E then (True, s)
               else WdgM_internal_isAtLeastOneWdogEnabled Mode WDGM_SID_SETMODE WDGM_E_DISABLE_NOT_ALLOWED s)
         in if status
            then
              (if GlobalState s = WDGM_GLOBAL_STATUS_OK \<or> GlobalState s = WDGM_GLOBAL_STATUS_FAILED
               then
                 (let newMode = Modes (ConfigSet (cfg s)) ! unat Mode;
                      s = SetMode_loop (SEConfigurations newMode) 0 s;
                      s = WdgM_internal_ResetSEConfigsForMode (unat (Mode_Id (cur_mode s))) s;
                      SetModeEventId = Dem_SetMode (DemEventIdRefs (ConfigSet (cfg s)));
                      (retVal, s) = WdgM_internal_deactivateCurrentTriggers E SetModeEventId s;
                      (retVal, s) = (if retVal = E_OK then WdgM_internal_activateTriggers E newMode SetModeEventId s
                                     else (retVal, s))
                  in (retVal, s\<lparr>CurrentMode := Some newMode\<rparr>))
               else (E_OK, s))
            else (E_NOT_OK, s)))"

definition WdgM_GetMode :: "nat option \<Rightarrow> WdgM_State \<Rightarrow> Std_ReturnType \<times> uint8 option \<times> WdgM_State" where
  "WdgM_GetMode Mode s =
     (if \<not> isInitiated s then (E_NOT_OK, None, det WDGM_SID_GETMODE WDGM_E_NO_INIT s)
      else if Mode = None then (E_NOT_OK, None, det WDGM_SID_GETMODE WDGM_E_INV_POINTER s)
      else (E_OK, Some (Mode_Id (cur_mode s)), s))"

primrec find_SEConf :: "uint16 \<Rightarrow> WdgM_SupervisedEntityConfiguration list \<Rightarrow> nat \<Rightarrow> nat option" where
  "find_SEConf SEID [] i = None"
| "find_SEConf SEID (c # cs) i = (if SupervisedEntityId c = SEID then Some i else find_SEConf SEID cs (Suc i))"

definition WdgM_CheckpointReached :: "WdgM_Env \<Rightarrow> uint16 \<Rightarrow> uint16 \<Rightarrow> WdgM_State \<Rightarrow> Std_ReturnType \<times> WdgM_State" where
  "WdgM_CheckpointReached E SEID CheckpointID s =
     (if \<not> isInitiated s then (E_NOT_OK, det WDGM_SID_CHECKPOINTREACHED WDGM_E_NO_INIT s)
      else if unat SEID \<ge> length (SupervisedEntities (General (cfg s)))
      then (E_NOT_OK, det WDGM_SID_CHECKPOINTREACHED WDGM_E_PARAM_SEID s)
      else
        (let se = SupervisedEntities (General (cfg s)) ! unat SEID in
         if unat CheckpointID \<ge> length (CheckpointIds se)
         then (E_NOT_OK, det WDGM_SID_CHECKPOINTREACHED WDGM_E_CPID s)
         else if LocalState (SEs s ! unat SEID) \<noteq> WDGM_LOCAL_STATUS_DEACTIVATED
         then
           (case find_SEConf SEID (SEConfigurations (cur_mode s)) 0 of
              None \<Rightarrow> (E_NOT_OK, det WDGM_SID_CHECKPOINTREACHED WDGM_E_PARAM_SEID s)
            | Some i \<Rightarrow>
                (let seConf = SEConfigurations (cur_mode s) ! i;
                     s = upd_rtConf i (WdgM_internal_AliveMonitoring seConf CheckpointID) s;
                     (result, rt_seConf, o2) = WdgM_internal_DeadlineMonitoring E seConf CheckpointID
                                                 (SE_Configs (cur_rt s) ! i) (os s);
                     s = (upd_rtConf i (\<lambda>_. rt_seConf) s)\<lparr>os := o2\<rparr>;
                     s = upd_SE (unat SEID) (\<lambda>x. x\<lparr>SubstateDeadline := result\<rparr>) s;
                     s = (if CheckInternalLogic seConf
                          then (let (logical, rt) = WdgM_internal_LogicalMonitoring se CheckpointID (SEs s ! unat SEID)
                                in upd_SE (unat SEID) (\<lambda>_. rt\<lparr>SubstateLogical := logical\<rparr>) s)
                          else s)
                 in (E_OK, s)))
         else (E_NOT_OK, det WDGM_SID_CHECKPOINTREACHED WDGM_E_SEDEACTIVATED s)))"

definition WdgM_GetLocalStatus :: "uint16 \<Rightarrow> nat option \<Rightarrow> WdgM_State
    \<Rightarrow> Std_ReturnType \<times> WdgM_LocalStatusType option \<times> WdgM_State" where
  "WdgM_GetLocalStatus SEID Status s =
     (if \<not> isInitiated s then (E_NOT_OK, None, det WDGM_SID_GETLOCALSTATUS WDGM_E_NO_INIT s)
      else if Status = None then (E_NOT_OK, None, det WDGM_SID_GETLOCALSTATUS WDGM_E_INV_POINTER s)
      else if unat SEID \<ge> length (SupervisedEntities (General (cfg s)))
      then (E_NOT_OK, None, det WDGM_SID_GETLOCALSTATUS WDGM_E_PARAM_SEID s)
      else (E_OK, Some (LocalState (SEs s ! unat SEID)), s))"

definition WdgM_GetGlobalStatus :: "nat option \<Rightarrow> WdgM_State
    \<Rightarrow> Std_ReturnType \<times> WdgM_GlobalStatusType option \<times> WdgM_State" where
  "WdgM_GetGlobalStatus Status s =
     (if \<not> isInitiated s then (E_NOT_OK, None, det WDGM_SID_GETGLOBALSTATUS WDGM_E_NO_INIT s)
      else if Status = None then (E_NOT_OK, None, det WDGM_SID_GETGLOBALSTATUS WDGM_E_INV_POINTER s)
      else (E_OK, Some (GlobalState s), s))"

definition WdgM_PerformReset :: "WdgM_Env \<Rightarrow> WdgM_State \<Rightarrow> WdgM_State" where
  "WdgM_PerformReset E s =
     (if \<not> isInitiated s then det WDGM_SID_PERFORMRESET WDGM_E_NO_INIT s
      else if \<not> ResetInitiated s
      then trigger_zero E (Watchdogs (General (cfg s))) (s\<lparr>ResetInitiated := True\<rparr>)
      else s)"

definition WdgM_GetFirstExpiredSEID :: "nat option \<Rightarrow> WdgM_State \<Rightarrow> Std_ReturnType \<times> uint16 option \<times> WdgM_State" where
  "WdgM_GetFirstExpiredSEID SEID s =
     (if SEID = None then (E_NOT_OK, None, det WDGM_SID_GETFIRSTEXPIREDSEID WDGM_E_INV_POINTER s)
      else
        (let invertedSEID = NOT (firstExpiredSEID s)
         in if invertedSEID = firstExpiredSEIDInverse s then (E_OK, Some (firstExpiredSEID s), s)
            else (E_NOT_OK, Some 0, s)))"

primrec trigger_loop :: "WdgM_Env \<Rightarrow> WdgM_Trigger list \<Rightarrow> WdgM_State \<Rightarrow> WdgM_State" where
  "trigger_loop E [] s = s"
| "trigger_loop E (t # ts) s =
     (let s = (if WatchdogMode t \<noteq> WDGIF_OFF_MODE
               then (let triggerValue = (if GlobalState s = WDGM_GLOBAL_STATUS_STOPPED then 0 else TriggerConditionValue t)
                     in if \<not> ResetInitiated s then WdgIf_SetTriggerCondition E (DeviceIndex s t) triggerValue s else s)
               else s)
      in trigger_loop E ts s)"

definition WdgM_MainFunction :: "WdgM_Env \<Rightarrow> WdgM_State \<Rightarrow> WdgM_State" where
  "WdgM_MainFunction E s =
     (if \<not> isInitiated s then det WDGM_SID_MAINFUNCTION WDGM_E_NO_INIT s
      else
        (let s = WdgM_internal_CheckAlives s;
             s = WdgM_internal_CalculateGlobalState s;
             s = (if GlobalState s = WDGM_GLOBAL_STATUS_STOPPED
                  then (let s = (if WDGM_DEM_ALIVE_SUPERVISION_REPORT E
                                 then WDGM_REPORT_DEM_ERROR (Dem_Supervision (DemEventIdRefs (ConfigSet (cfg s)))) s else s)
                        in if WDGM_IMMEDIATE_RESET E then emit Mcu_PerformReset s else s)
                  else s)
         in trigger_loop E (Triggers (cur_mode s)) s))"

end
