(* ===== verification/Steps.thy ===== *)
theory Steps
  imports Main
begin

text \<open>
  Step relations of components with an operation interface: the states a component can be
  brought to by operations called when they are legal, and the contracts under which an
  invariant holds in all of them and under which no operation fails.
\<close>

inductive reach :: "('c \<Rightarrow> 's \<Rightarrow> bool) \<Rightarrow> ('c \<Rightarrow> 's \<Rightarrow> 's option) \<Rightarrow> 's \<Rightarrow> 's \<Rightarrow> bool"
  for legal :: "'c \<Rightarrow> 's \<Rightarrow> bool" and exec :: "'c \<Rightarrow> 's \<Rightarrow> 's option" and s0 :: 's where
  start: "reach legal exec s0 s0"
| step: "reach legal exec s0 s \<Longrightarrow> legal c s \<Longrightarrow> exec c s = Some s' \<Longrightarrow> reach legal exec s0 s'"

locale kept_steps =
  fixes legal :: "'c \<Rightarrow> 's \<Rightarrow> bool" and exec :: "'c \<Rightarrow> 's \<Rightarrow> 's option" and inv :: "'s \<Rightarrow> bool"
  assumes kept: "inv s \<Longrightarrow> legal c s \<Longrightarrow> exec c s = Some s' \<Longrightarrow> inv s'"
begin

lemma reach_inv: "reach legal exec s0 s \<Longrightarrow> inv s0 \<Longrightarrow> inv s"
proof (induction rule: reach.induct)
  case (step s c s')
  then show ?case using kept by blast
qed simp

end

text \<open>An invariant under which no legal operation fails.\<close>

locale safe_steps =
  fixes legal :: "'c \<Rightarrow> 's \<Rightarrow> bool" and exec :: "'c \<Rightarrow> 's \<Rightarrow> 's option" and inv :: "'s \<Rightarrow> bool"
  assumes safe: "inv s \<Longrightarrow> legal c s \<Longrightarrow> \<exists>s'. exec c s = Some s' \<and> inv s'"

sublocale safe_steps \<subseteq> kept_steps
  by unfold_locales (use safe in fastforce)

context safe_steps
begin

lemma reach_progress:
  "reach legal exec s0 s \<Longrightarrow> inv s0 \<Longrightarrow> legal c s \<Longrightarrow> \<exists>s'. exec c s = Some s' \<and> reach legal exec s0 s'"
  using reach_inv safe [of s c] reach.step [of legal exec s0 s c] by blast

end

end
