(* ===== verification/Os_Sched.thy ===== *)
theory Os_Sched
  imports Os_Kernel Steps
begin

text \<open>
  Correctness of the scheduler of theory \<open>Os_Kernel\<close>: a well-formedness invariant of the
  task, ready-queue and resource data, its preservation by every service, the absence of
  failing assertions, also of those in the services a task is resumed in, and the scheduling
  guarantee (a preemptable task runs only while no ready task has a higher priority).

  The statements concern configurations without internal resources (\<open>cfg_ok\<close>): a task
  restarted by \<open>Os_TaskStartFromBeginning\<close> does not take its internal resource again.
\<close>

subsection \<open>Updates\<close>

lemma task_upd_task:
  "t < OS_TASK_CNT s \<Longrightarrow> task (upd_task t f s) u = (if u = t then f (task s t) else task s u)"
  by (simp add: upd_task_def)

lemma upd_task_sel [simp]:
  "length (Os_TaskVarList (upd_task t f s)) = length (Os_TaskVarList s)"
  "taskConst (upd_task t f s) = taskConst s"
  "ready_head (upd_task t f s) = ready_head s"
  "currTaskPtr (upd_task t f s) = currTaskPtr s"
  "chainedPcbPtr (upd_task t f s) = chainedPcbPtr s"
  "intNestCnt (upd_task t f s) = intNestCnt s"
  "resource_list (upd_task t f s) = resource_list s"
  "os_log (upd_task t f s) = os_log s"
  "irq_enabled (upd_task t f s) = irq_enabled s"
  "Os_IntDisableAllCnt (upd_task t f s) = Os_IntDisableAllCnt s"
  "Os_IntSuspendAllCnt (upd_task t f s) = Os_IntSuspendAllCnt s"
  by (simp_all add: upd_task_def)

lemma log_ev_sel [simp]:
  "Os_TaskVarList (log_ev e s) = Os_TaskVarList s" "taskConst (log_ev e s) = taskConst s"
  "ready_head (log_ev e s) = ready_head s" "currTaskPtr (log_ev e s) = currTaskPtr s"
  "chainedPcbPtr (log_ev e s) = chainedPcbPtr s" "intNestCnt (log_ev e s) = intNestCnt s"
  "resource_list (log_ev e s) = resource_list s" "irq_enabled (log_ev e s) = irq_enabled s"
  "Os_IntDisableAllCnt (log_ev e s) = Os_IntDisableAllCnt s"
  "Os_IntSuspendAllCnt (log_ev e s) = Os_IntSuspendAllCnt s"
  by (simp_all add: log_ev_def)

lemma ASSERT_simps [simp]: "c \<Longrightarrow> ASSERT c = Some ()" "\<not> c \<Longrightarrow> ASSERT c = None"
  by (simp_all add: ASSERT_def)

subsection \<open>The highest-priority ready task\<close>

text \<open>\<open>m\<close> is the first of the tasks with the highest priority in the list.\<close>

definition first_max :: "'a Os_Sys_scheme \<Rightarrow> nat list \<Rightarrow> nat \<Rightarrow> bool" where
  "first_max s q m \<longleftrightarrow>
     (\<exists>xs ys. q = xs @ m # ys \<and> (\<forall>u\<in>set xs. activePriority (task s u) < activePriority (task s m))
        \<and> (\<forall>u\<in>set ys. activePriority (task s u) \<le> activePriority (task s m)))"

lemma first_max_snoc:
  assumes "first_max s q m"
  shows "first_max s (q @ [i]) (if activePriority (task s i) > activePriority (task s m) then i else m)"
proof -
  obtain xs ys where q: "q = xs @ m # ys"
    "\<forall>u\<in>set xs. activePriority (task s u) < activePriority (task s m)"
    "\<forall>u\<in>set ys. activePriority (task s u) \<le> activePriority (task s m)"
    using assms by (auto simp: first_max_def)
  show ?thesis
  proof (cases "activePriority (task s i) > activePriority (task s m)")
    case True
    then have "\<forall>u\<in>set q. activePriority (task s u) < activePriority (task s i)"
      using q by auto
    then show ?thesis
      using True unfolding first_max_def by (intro exI [of _ q] exI [of _ "[]"]) simp
  next
    case False
    then have "\<forall>u\<in>set (ys @ [i]). activePriority (task s u) \<le> activePriority (task s m)"
      using q by auto
    then show ?thesis
      using False q unfolding first_max_def by (intro exI [of _ xs] exI [of _ "ys @ [i]"]) simp
  qed
qed

lemma scan_first_max:
  assumes "first_max s q m" and "\<forall>u\<in>set is. is_ready_or_running (state (task s u))"
  shows "\<exists>m'. Os_TaskGetTop_scan s is (Some m) = Some (Some m') \<and> first_max s (q @ is) m'"
  using assms
proof (induction "is" arbitrary: q m)
  case (Cons i "is")
  let ?m = "if activePriority (task s i) > activePriority (task s m) then i else m"
  have "first_max s (q @ [i]) ?m" using Cons.prems(1) by (rule first_max_snoc)
  then obtain m' where "Os_TaskGetTop_scan s is (Some ?m) = Some (Some m')"
      "first_max s ((q @ [i]) @ is) m'"
    using Cons.IH [of "q @ [i]" ?m] Cons.prems(2) by auto
  then show ?case using Cons.prems(2) by (auto simp: if_distrib)
qed simp

lemma GetTop_first_max:
  assumes "ready_head s \<noteq> []" and "\<forall>u\<in>set (ready_head s). is_ready_or_running (state (task s u))"
  shows "\<exists>m. Os_TaskGetTop s = Some m \<and> first_max s (ready_head s) m"
proof -
  obtain i "is" where q: "ready_head s = i # is" using assms(1) by (cases "ready_head s") auto
  have "first_max s [i] i" unfolding first_max_def by (intro exI [of _ "[]"]) simp
  then show ?thesis
    using scan_first_max [of s "[i]" i "is"] assms(2) by (auto simp: Os_TaskGetTop_def q)
qed

lemma first_max_in: "first_max s q m \<Longrightarrow> m \<in> set q"
  by (auto simp: first_max_def intro: less_imp_le)

lemma first_max_le: "first_max s q m \<Longrightarrow> u \<in> set q \<Longrightarrow> activePriority (task s u) \<le> activePriority (task s m)"
  by (force simp: first_max_def intro: order.strict_implies_order)

text \<open>
  \<open>Os_TaskGetTop\<close> selects, among the tasks of the ready queue, the one with the highest
  active priority, and among those the one that is in the queue longest; it fails its
  assertions only for an empty queue or a queued task that is neither ready nor running.
\<close>

theorem Os_TaskGetTop_spec:
  assumes "ready_head s \<noteq> []" and "\<forall>u\<in>set (ready_head s). is_ready_or_running (state (task s u))"
  shows "\<exists>m xs ys. Os_TaskGetTop s = Some m \<and> ready_head s = xs @ m # ys
    \<and> (\<forall>u\<in>set xs. activePriority (task s u) < activePriority (task s m))
    \<and> (\<forall>u\<in>set ys. activePriority (task s u) \<le> activePriority (task s m))"
  using GetTop_first_max [OF assms] by (auto simp: first_max_def)

subsection \<open>Invariant\<close>

definition cfg_ok :: "'a Os_Sys_scheme \<Rightarrow> bool" where
  "cfg_ok s \<longleftrightarrow> length (taskConst s) = OS_TASK_CNT s \<and> resource_list s \<noteq> []
     \<and> (\<forall>c\<in>set (taskConst s). resourceIntPtr c = None \<and> 0 < activationLimit c \<and> activationLimit c < 255
          \<and> (proc_type c = PROC_EXTENDED \<longrightarrow> activationLimit c = 1))
     \<and> (\<forall>r\<in>set (resource_list s). res_type r \<noteq> RESOURCE_TYPE_INTERNAL)
     \<and> ceiling_priority (resource_list s ! RES_SCHEDULER s) = OS_RES_SCHEDULER_PRIO"

text \<open>The priority of a task that holds the resources \<open>rs\<close>, taken in this order.\<close>

primrec held_prio :: "'a Os_Sys_scheme \<Rightarrow> uint32 \<Rightarrow> nat list \<Rightarrow> uint32" where
  "held_prio s p [] = p"
| "held_prio s p (r # rs) = held_prio s (ceiling_priority (resource_list s ! r)) rs"

primrec held_ok :: "'a Os_Sys_scheme \<Rightarrow> uint32 \<Rightarrow> nat list \<Rightarrow> bool" where
  "held_ok s p [] = True"
| "held_ok s p (r # rs) =
     (old_task_prio (resource_list s ! r) = p \<and> p \<le> ceiling_priority (resource_list s ! r)
      \<and> held_ok s (ceiling_priority (resource_list s ! r)) rs)"

definition task_ok :: "'a Os_Sys_scheme \<Rightarrow> nat \<Rightarrow> bool" where
  "task_ok s t \<longleftrightarrow>
     (state (task s t) = ST_SUSPENDED \<longleftrightarrow> activations (task s t) = 0)
     \<and> activations (task s t) \<le> activationLimit (taskConst s ! t)
     \<and> (state (task s t) = ST_WAIT_EVENT \<longrightarrow> proc_type (taskConst s ! t) = PROC_EXTENDED)
     \<and> (\<not> is_ready_or_running (state (task s t)) \<longrightarrow> resourceHead (task s t) = [])
     \<and> distinct (resourceHead (task s t))
     \<and> (\<forall>r\<in>set (resourceHead (task s t)). r < length (resource_list s) \<and> owner (resource_list s ! r) = Some t)
     \<and> held_ok s (prio (taskConst s ! t)) (resourceHead (task s t))
     \<and> activePriority (task s t) = held_prio s (prio (taskConst s ! t)) (resourceHead (task s t))"

text \<open>Everything except what concerns the current task; \<open>t0\<close> is the idle task.\<close>

definition PID_IDLE :: nat where
  "PID_IDLE = 0"

definition Os_core :: "'a Os_Sys_scheme \<Rightarrow> bool" where
  "Os_core s \<longleftrightarrow> cfg_ok s \<and> distinct (ready_head s)
     \<and> (\<forall>t. t \<in> set (ready_head s) \<longleftrightarrow> t < OS_TASK_CNT s \<and> is_ready_or_running (state (task s t)))
     \<and> (\<forall>t<OS_TASK_CNT s. task_ok s t)
     \<and> (\<forall>r<length (resource_list s). \<forall>t. owner (resource_list s ! r) = Some t \<longrightarrow>
          t < OS_TASK_CNT s \<and> r \<in> set (resourceHead (task s t)))
     \<and> PID_IDLE \<in> set (ready_head s)"

definition Os_inv :: "'a Os_Sys_scheme \<Rightarrow> bool" where
  "Os_inv s \<longleftrightarrow> Os_core s \<and> currTaskPtr s < OS_TASK_CNT s
     \<and> state (task s (currTaskPtr s)) = ST_RUNNING
     \<and> (owner (resource_list s ! RES_SCHEDULER s) \<in> {None, Some (currTaskPtr s)})"

definition sched_ok :: "'a Os_Sys_scheme \<Rightarrow> bool" where
  "sched_ok s \<longleftrightarrow>
     (intNestCnt s = 0 \<and> scheduling (taskConst s ! currTaskPtr s) = FULL \<longrightarrow>
      (\<forall>t\<in>set (ready_head s). activePriority (task s t) \<le> activePriority (task s (currTaskPtr s))))"

text \<open>
  No task that can be swapped in was swapped out in \<open>TerminateTask\<close> or \<open>ChainTask\<close>: it is
  suspended, will be restarted, or has another place to continue at.
\<close>

definition may_resume :: "OsTaskVar \<Rightarrow> bool" where
  "may_resume v \<longleftrightarrow> state v = ST_SUSPENDED \<or> reactivation v \<or> ctx v \<notin> {Some OP_TERMINATE_TASK, Some OP_CHAIN_TASK}"

definition can_resume :: "'a Os_Sys_scheme \<Rightarrow> bool" where
  "can_resume s \<longleftrightarrow> (\<forall>t<OS_TASK_CNT s. may_resume (task s t))"

subsection \<open>Preservation lemmas\<close>

lemma can_resume_sel [simp]:
  "can_resume (log_ev e s) = can_resume s" "can_resume (s\<lparr>irq_enabled := b\<rparr>) = can_resume s"
  "can_resume (s\<lparr>chainedPcbPtr := c\<rparr>) = can_resume s" "can_resume (s\<lparr>currTaskPtr := t\<rparr>) = can_resume s"
  by (simp_all add: can_resume_def)

lemma can_resume_one:
  assumes "can_resume s" "OS_TASK_CNT s' = OS_TASK_CNT s" "\<And>u. u \<noteq> t \<Longrightarrow> task s' u = task s u"
    and "may_resume (task s t) \<Longrightarrow> may_resume (task s' t)"
  shows "can_resume s'"
  unfolding can_resume_def
proof (intro allI impI)
  fix u
  assume "u < OS_TASK_CNT s'"
  then show "may_resume (task s' u)" using assms by (cases "u = t") (auto simp: can_resume_def)
qed

lemma can_resume_upd:
  assumes "can_resume s" "\<And>v. may_resume v \<Longrightarrow> may_resume (f v)"
  shows "can_resume (upd_task t f s)"
  using assms
  by (cases "t < OS_TASK_CNT s") (simp_all add: can_resume_def upd_task_def nth_list_update list_update_beyond)

lemma held_cong:
  "resource_list s' = resource_list s \<Longrightarrow> held_prio s' p rs = held_prio s p rs"
  "resource_list s' = resource_list s \<Longrightarrow> held_ok s' p rs = held_ok s p rs"
  by (induction rs arbitrary: p) auto

lemma task_ok_cong:
  assumes "resource_list s' = resource_list s" "taskConst s' = taskConst s" "task s' t = task s t"
  shows "task_ok s' t = task_ok s t"
  unfolding task_ok_def held_cong [OF assms(1)] assms ..

lemma cfg_ok_cong:
  assumes "resource_list s' = resource_list s" "taskConst s' = taskConst s" "OS_TASK_CNT s' = OS_TASK_CNT s"
  shows "cfg_ok s' = cfg_ok s"
  using assms by (simp add: cfg_ok_def RES_SCHEDULER_def)

lemma Os_core_task:
  assumes "Os_core s" "t < OS_TASK_CNT s" "OS_TASK_CNT s' = OS_TASK_CNT s"
    and same: "taskConst s' = taskConst s" "resource_list s' = resource_list s"
      "\<And>u. u \<noteq> t \<Longrightarrow> task s' u = task s u"
    and t: "resourceHead (task s' t) = resourceHead (task s t)" "task_ok s' t"
    and q: "distinct (ready_head s')" "PID_IDLE \<in> set (ready_head s')"
      "\<And>u. u \<in> set (ready_head s') \<longleftrightarrow> u < OS_TASK_CNT s \<and> is_ready_or_running (state (task s' u))"
  shows "Os_core s'"
proof -
  have "task_ok s' u" if "u < OS_TASK_CNT s" for u
    using that t(2) assms(1) task_ok_cong [OF same(2,1), of u] same(3) [of u]
    by (cases "u = t") (auto simp: Os_core_def)
  moreover have "cfg_ok s'"
    using assms(1) cfg_ok_cong [OF same(2,1) assms(3)] by (simp add: Os_core_def)
  moreover have "resourceHead (task s' u) = resourceHead (task s u)" for u
    using t(1) same(3) by (cases "u = t") simp_all
  ultimately show ?thesis
    using assms(1,3) q by (simp add: Os_core_def same)
qed

text \<open>A change of one task that leaves the ready queue as it is.\<close>

lemma Os_core_upd_task:
  assumes core: "Os_core s" and t: "t < OS_TASK_CNT s"
    and "resourceHead (f (task s t)) = resourceHead (task s t)"
    and "is_ready_or_running (state (f (task s t))) = is_ready_or_running (state (task s t))"
    and "task_ok (upd_task t f s) t"
  shows "Os_core (upd_task t f s)"
  using assms by (intro Os_core_task [OF core t]) (auto simp: task_upd_task Os_core_def)

lemma Os_core_log [simp]: "Os_core (log_ev e s) = Os_core s"
proof -
  have "task_ok (log_ev e s) t = task_ok s t" for t by (rule task_ok_cong) simp_all
  moreover have "cfg_ok (log_ev e s) = cfg_ok s" by (rule cfg_ok_cong) simp_all
  ultimately show ?thesis by (simp add: Os_core_def)
qed

lemma Os_core_curr [simp]: "Os_core (s\<lparr>currTaskPtr := t\<rparr>) = Os_core s"
proof -
  have "task_ok (s\<lparr>currTaskPtr := t\<rparr>) u = task_ok s u" for u by (rule task_ok_cong) simp_all
  moreover have "cfg_ok (s\<lparr>currTaskPtr := t\<rparr>) = cfg_ok s" by (rule cfg_ok_cong) simp_all
  ultimately show ?thesis by (simp add: Os_core_def)
qed

lemma Os_core_irq [simp]: "Os_core (s\<lparr>irq_enabled := b\<rparr>) = Os_core s"
proof -
  have "task_ok (s\<lparr>irq_enabled := b\<rparr>) u = task_ok s u" for u by (rule task_ok_cong) simp_all
  moreover have "cfg_ok (s\<lparr>irq_enabled := b\<rparr>) = cfg_ok s" by (rule cfg_ok_cong) simp_all
  ultimately show ?thesis by (simp add: Os_core_def)
qed

lemma Os_core_chained [simp]: "Os_core (s\<lparr>chainedPcbPtr := b\<rparr>) = Os_core s"
proof -
  have "task_ok (s\<lparr>chainedPcbPtr := b\<rparr>) u = task_ok s u" for u by (rule task_ok_cong) simp_all
  moreover have "cfg_ok (s\<lparr>chainedPcbPtr := b\<rparr>) = cfg_ok s" by (rule cfg_ok_cong) simp_all
  ultimately show ?thesis by (simp add: Os_core_def)
qed

lemma RES_SCHEDULER_sel [simp]:
  "RES_SCHEDULER (log_ev e s) = RES_SCHEDULER s" "RES_SCHEDULER (upd_task t f s) = RES_SCHEDULER s"
  "RES_SCHEDULER (s\<lparr>currTaskPtr := t\<rparr>) = RES_SCHEDULER s"
  "RES_SCHEDULER (s\<lparr>irq_enabled := b\<rparr>) = RES_SCHEDULER s"
  "RES_SCHEDULER (s\<lparr>chainedPcbPtr := c\<rparr>) = RES_SCHEDULER s"
  "RES_SCHEDULER (s\<lparr>ready_head := q\<rparr>) = RES_SCHEDULER s"
  by (simp_all add: RES_SCHEDULER_def)

lemma Os_inv_irq [simp]: "Os_inv (s\<lparr>irq_enabled := b\<rparr>) = Os_inv s"
  by (simp add: Os_inv_def)

lemma Os_inv_log [simp]: "Os_inv (log_ev e s) = Os_inv s"
  by (simp add: Os_inv_def)

lemma sched_ok_irq [simp]: "sched_ok (s\<lparr>irq_enabled := b\<rparr>) = sched_ok s"
  by (simp add: sched_ok_def)

lemma sched_ok_log [simp]: "sched_ok (log_ev e s) = sched_ok s"
  by (simp add: sched_ok_def)

subsection \<open>Dispatching\<close>

lemma core_no_internal: "Os_core s \<Longrightarrow> t < OS_TASK_CNT s \<Longrightarrow> resourceIntPtr (taskConst s ! t) = None"
  by (simp add: Os_core_def cfg_ok_def)

lemma core_ready: "Os_core s \<Longrightarrow> ready_head s \<noteq> [] \<and> (\<forall>u\<in>set (ready_head s). is_ready_or_running (state (task s u)))"
  by (auto simp: Os_core_def)

lemma task_ok_running:
  assumes "task_ok s t" "t < OS_TASK_CNT s" "is_ready_or_running (state (task s t))"
    and "is_ready_or_running st"
  shows "task_ok (upd_task t (\<lambda>v. v\<lparr>state := st\<rparr>) s) t"
    and "task_ok (upd_task t (\<lambda>v. v\<lparr>state := st, reactivation := b\<rparr>) s) t"
  using assms held_cong [of "upd_task t (\<lambda>v. v\<lparr>state := st\<rparr>) s" s]
    held_cong [of "upd_task t (\<lambda>v. v\<lparr>state := st, reactivation := b\<rparr>) s" s]
  by (auto simp: task_ok_def task_upd_task is_ready_or_running_def)

lemma Os_core_running:
  assumes "Os_core s" "t \<in> set (ready_head s)"
  shows "Os_core (upd_task t (\<lambda>v. v\<lparr>state := ST_RUNNING\<rparr>) s)"
    and "Os_core (upd_task t (\<lambda>v. v\<lparr>state := ST_READY\<rparr>) s)"
    and "Os_core (upd_task t (\<lambda>v. v\<lparr>state := ST_RUNNING, reactivation := b\<rparr>) s)"
proof -
  have t: "t < OS_TASK_CNT s" "is_ready_or_running (state (task s t))" "task_ok s t"
    using assms by (auto simp: Os_core_def)
  have st: "is_ready_or_running ST_RUNNING" "is_ready_or_running ST_READY"
    by (simp_all add: is_ready_or_running_def)
  show "Os_core (upd_task t (\<lambda>v. v\<lparr>state := ST_RUNNING\<rparr>) s)"
    using t st by (intro Os_core_upd_task [OF assms(1) t(1)] task_ok_running) simp_all
  show "Os_core (upd_task t (\<lambda>v. v\<lparr>state := ST_READY\<rparr>) s)"
    using t st by (intro Os_core_upd_task [OF assms(1) t(1)] task_ok_running) simp_all
  show "Os_core (upd_task t (\<lambda>v. v\<lparr>state := ST_RUNNING, reactivation := b\<rparr>) s)"
    using t st by (intro Os_core_upd_task [OF assms(1) t(1)] task_ok_running) simp_all
qed

text \<open>The part of a task's data that the invariant speaks of.\<close>

definition sched_view :: "OsTaskVar \<Rightarrow> state_t \<times> uint8 \<times> uint32 \<times> nat list" where
  "sched_view v = (state v, activations v, activePriority v, resourceHead v)"

lemma sched_view_upd:
  assumes "\<And>v. sched_view (f v) = sched_view v"
  shows "map sched_view (Os_TaskVarList (upd_task t f s)) = map sched_view (Os_TaskVarList s)"
  using assms by (cases "t < OS_TASK_CNT s") (simp_all add: upd_task_def map_update list_update_same_conv list_update_beyond)

lemma Os_core_view:
  assumes "Os_core s" "map sched_view (Os_TaskVarList s') = map sched_view (Os_TaskVarList s)"
    and same: "taskConst s' = taskConst s" "ready_head s' = ready_head s" "resource_list s' = resource_list s"
  shows "Os_core s'"
proof -
  have n: "OS_TASK_CNT s' = OS_TASK_CNT s" using assms(2) by (rule map_eq_imp_length_eq)
  have "sched_view (task s' t) = sched_view (task s t)" if "t < OS_TASK_CNT s" for t
    using arg_cong [OF assms(2), of "\<lambda>xs. xs ! t"] that n by simp
  then have v: "state (task s' t) = state (task s t)" "activations (task s' t) = activations (task s t)"
      "activePriority (task s' t) = activePriority (task s t)" "resourceHead (task s' t) = resourceHead (task s t)"
    if "t < OS_TASK_CNT s" for t using that by (simp_all add: sched_view_def)
  have t: "task_ok s' t" if "t < OS_TASK_CNT s" for t
  proof -
    have "task_ok s t" using assms(1) that by (simp add: Os_core_def)
    then show ?thesis unfolding task_ok_def v [OF that] held_cong [OF same(3)] same .
  qed
  have c: "cfg_ok s'" using assms(1) cfg_ok_cong [OF same(3,1) n] by (simp add: Os_core_def)
  have "is_ready_or_running (state (task s' t)) = is_ready_or_running (state (task s t))" if "t < OS_TASK_CNT s" for t
    using v(1) [OF that] by simp
  then show ?thesis
    using assms(1) t c v(4) unfolding Os_core_def same n by (simp cong: conj_cong)
qed

lemma Os_core_eq:
  assumes "Os_core s" "Os_TaskVarList s' = Os_TaskVarList s" "taskConst s' = taskConst s"
    "ready_head s' = ready_head s" "resource_list s' = resource_list s"
  shows "Os_core s'"
  using assms by (intro Os_core_view [OF assms(1)]) simp_all

text \<open>What a switch to the selected task does to the kernel data.\<close>

definition switched :: "nat \<Rightarrow> 'a Os_Sys_scheme \<Rightarrow> 'a Os_Sys_scheme \<Rightarrow> bool" where
  "switched new s s' \<longleftrightarrow> currTaskPtr s' = new
     \<and> map sched_view (Os_TaskVarList s') = map sched_view (Os_TaskVarList (upd_task new (\<lambda>v. v\<lparr>state := ST_RUNNING\<rparr>) s))
     \<and> taskConst s' = taskConst s \<and> ready_head s' = ready_head s \<and> resource_list s' = resource_list s
     \<and> intNestCnt s' = intNestCnt s
     \<and> Os_IntDisableAllCnt s' = Os_IntDisableAllCnt s \<and> Os_IntSuspendAllCnt s' = Os_IntSuspendAllCnt s"

lemma switched_inv:
  assumes core: "Os_core s" and sw: "switched new s s'" and new: "first_max s (ready_head s) new"
    and free: "owner (resource_list s ! RES_SCHEDULER s) = None"
  shows "Os_inv s' \<and> sched_ok s'"
proof -
  let ?s = "upd_task new (\<lambda>v. v\<lparr>state := ST_RUNNING\<rparr>) s"
  have in_q: "new \<in> set (ready_head s)" using new by (rule first_max_in)
  then have lt: "new < OS_TASK_CNT s" using core by (auto simp: Os_core_def)
  have view: "map sched_view (Os_TaskVarList s') = map sched_view (Os_TaskVarList ?s)"
    using sw by (simp add: switched_def)
  have n: "OS_TASK_CNT s' = OS_TASK_CNT s" using map_eq_imp_length_eq [OF view] by simp
  have v: "sched_view (task s' u) = sched_view (task ?s u)" if "u < OS_TASK_CNT s" for u
    using arg_cong [OF view, of "\<lambda>xs. xs ! u"] that n by simp
  have core': "Os_core s'"
    using sw by (intro Os_core_view [OF Os_core_running(1) [OF core in_q]]) (simp_all add: switched_def)
  have prio: "activePriority (task s' u) = activePriority (task s u)" if "u < OS_TASK_CNT s" for u
    using v [OF that] lt by (simp add: sched_view_def task_upd_task split: if_splits)
  have "state (task s' new) = ST_RUNNING"
    using v [OF lt] lt by (simp add: sched_view_def task_upd_task)
  then have "Os_inv s'"
    using core' sw free lt n by (simp add: Os_inv_def switched_def RES_SCHEDULER_def)
  moreover have "u < OS_TASK_CNT s" if "u \<in> set (ready_head s)" for u
    using core that by (simp add: Os_core_def)
  then have "sched_ok s'"
    using sw first_max_le [OF new] lt by (auto simp: sched_ok_def switched_def prio)
  ultimately show ?thesis ..
qed

lemma upd_task_upd_task: "t < OS_TASK_CNT s \<Longrightarrow> upd_task t f (upd_task t g s) = upd_task t (\<lambda>v. f (g v)) s"
  by (simp add: upd_task_def)

text \<open>The three ways in which the dispatcher gives the processor to \<open>new\<close>.\<close>

lemmas start_defs = Os_TaskStartFromBeginning_def Os_TaskMakeRunning_def Os_ArchSetupContext_def Let_def

lemma StartFromBeginning_switched:
  assumes "t < OS_TASK_CNT s"
  shows "switched t s (Os_TaskStartFromBeginning t (upd_task t (\<lambda>v. v\<lparr>reactivation := b\<rparr>) s))"
    and "switched t s (Os_TaskStartFromBeginning t s)"
  using assms unfolding switched_def
  by (simp_all add: start_defs upd_task_def log_ev_def map_update sched_view_def)

lemma StartFromBeginning_task:
  "t < OS_TASK_CNT s \<Longrightarrow> task (Os_TaskStartFromBeginning t s) u =
     (if u = t then (task s t)\<lparr>state := ST_RUNNING, ctx := None\<rparr> else task s u)"
  "OS_TASK_CNT (Os_TaskStartFromBeginning t s) = OS_TASK_CNT s"
  by (simp_all add: start_defs task_upd_task)

definition swapped :: "OpType \<Rightarrow> nat \<Rightarrow> nat \<Rightarrow> 'a Os_Sys_scheme \<Rightarrow> 'a Os_Sys_scheme" where
  "swapped op old new s = log_ev (SwapContext old new) (upd_task old (\<lambda>v. v\<lparr>ctx := Some op\<rparr>)
     (log_ev (PreTaskHook new) (upd_task new (\<lambda>v. v\<lparr>state := ST_RUNNING\<rparr>) (s\<lparr>currTaskPtr := new\<rparr>))))"

lemma SwapContext_eq:
  assumes "t < OS_TASK_CNT s" "u < OS_TASK_CNT s" "resourceIntPtr (taskConst s ! t) = None" "t \<noteq> u"
  shows "Os_TaskSwapContext op u t s =
    (if ctx (task s t) \<in> {Some OP_TERMINATE_TASK, Some OP_CHAIN_TASK} then None else Some (swapped op u t s))"
  using assms
  by (simp add: Os_TaskSwapContext_def Os_ArchSwapContext_def Os_Resume_def TerminateTask_rest_def ChainTask_rest_def
      WaitEvent_rest_def Os_ResourceGetInternal_def Os_TaskMakeRunning_def Let_def task_upd_task swapped_def
      split: option.split OpType.split)

lemma swapped_switched: "t < OS_TASK_CNT s \<Longrightarrow> switched t s (swapped op u t s)"
  unfolding switched_def swapped_def
  by (simp add: sched_view_upd sched_view_def) (simp add: upd_task_def map_update)

lemma swapped_task:
  assumes "t < OS_TASK_CNT s" "u < OS_TASK_CNT s" "t \<noteq> u"
  shows "task (swapped op u t s) x = (if x = u then (task s u)\<lparr>ctx := Some op\<rparr>
      else if x = t then (task s t)\<lparr>state := ST_RUNNING\<rparr> else task s x)"
    and "OS_TASK_CNT (swapped op u t s) = OS_TASK_CNT s"
  using assms by (simp_all add: swapped_def task_upd_task)

text \<open>
  The dispatcher, once the running task has left the processor in a consistent state
  \<open>s1\<close>: it makes the first of the highest-priority ready tasks the running task. It fails an
  assertion if that task was left in a service that must not come back.
\<close>

lemma Os_Dispatch_switch:
  assumes inv: "Os_inv s" and pre: "intNestCnt s = 0" "owner (resource_list s ! RES_SCHEDULER s) = None"
    and leave: "Os_Dispatch_leave op (currTaskPtr s) (log_ev (PostTaskHook (currTaskPtr s)) s) = Some s1"
    and s1: "Os_core s1" "currTaskPtr s1 = currTaskPtr s" "OS_TASK_CNT s1 = OS_TASK_CNT s"
  obtains new where "Os_TaskGetTop s1 = Some new" "first_max s1 (ready_head s1) new" "new < OS_TASK_CNT s1"
    "Os_Dispatch op s =
       (if new = currTaskPtr s then Some (Os_TaskStartFromBeginning new s1)
        else if reactivation (task s1 new)
        then Some (Os_TaskStartFromBeginning new (upd_task new (\<lambda>v. v\<lparr>reactivation := False\<rparr>) s1))
        else if ctx (task s1 new) \<in> {Some OP_TERMINATE_TASK, Some OP_CHAIN_TASK} then None
        else Some (swapped op (currTaskPtr s) new s1))"
proof -
  obtain new where new: "Os_TaskGetTop s1 = Some new" "first_max s1 (ready_head s1) new"
    using GetTop_first_max core_ready [OF s1(1)] by blast
  have cur: "currTaskPtr s < OS_TASK_CNT s" "state (task s (currTaskPtr s)) = ST_RUNNING"
    using inv by (simp_all add: Os_inv_def)
  have lt: "new < OS_TASK_CNT s1" using first_max_in [OF new(2)] s1(1) by (auto simp: Os_core_def)
  have int: "resourceIntPtr (taskConst s1 ! currTaskPtr s1) = None" "resourceIntPtr (taskConst s1 ! new) = None"
    using core_no_internal [OF s1(1)] lt cur s1 by simp_all
  have rel: "Os_ResourceReleaseInternal s1 = Some s1"
    using int by (simp add: Os_ResourceReleaseInternal_def)
  show thesis
    by (rule that [OF new lt])
      (use pre cur leave new rel s1(2,3) SwapContext_eq [OF lt _ int(2), of "currTaskPtr s" op] in
        \<open>simp add: Os_Dispatch_def Let_def Os_SchedulerResourceIsFree_def\<close>)
qed

text \<open>The holder of the scheduler resource runs at the highest priority there is.\<close>

lemma held_prio_ge: "held_ok s p rs \<Longrightarrow> p \<le> held_prio s p rs"
  by (induction rs arbitrary: p) (auto intro: order_trans)

lemma held_prio_ceiling:
  "held_ok s p rs \<Longrightarrow> r \<in> set rs \<Longrightarrow> ceiling_priority (resource_list s ! r) \<le> held_prio s p rs"
  by (induction rs arbitrary: p) (auto intro: held_prio_ge)

lemma scheduler_free:
  assumes inv: "Os_inv s" and u: "activePriority v > activePriority (task s (currTaskPtr s))"
  shows "owner (resource_list s ! RES_SCHEDULER s) = None"
proof (rule ccontr)
  let ?c = "currTaskPtr s"
  assume "owner (resource_list s ! RES_SCHEDULER s) \<noteq> None"
  then have own: "owner (resource_list s ! RES_SCHEDULER s) = Some ?c"
    using inv by (auto simp: Os_inv_def)
  have lt: "RES_SCHEDULER s < length (resource_list s)" and c: "ceiling_priority (resource_list s ! RES_SCHEDULER s) = - 1"
    using inv by (auto simp: Os_inv_def Os_core_def cfg_ok_def RES_SCHEDULER_def OS_RES_SCHEDULER_PRIO_def)
  then have r: "RES_SCHEDULER s \<in> set (resourceHead (task s ?c))" and ok: "task_ok s ?c"
    using inv own by (auto simp: Os_inv_def Os_core_def)
  then have "- 1 \<le> activePriority (task s ?c)"
    using held_prio_ceiling [of s "prio (taskConst s ! ?c)" "resourceHead (task s ?c)", OF _ r] c
    by (simp add: task_ok_def)
  then have "activePriority (task s ?c) = - 1"
    using word_order.extremum_uniqueI by blast
  then show False using u word_order.not_eq_extremum [of "activePriority v"] by simp
qed

text \<open>
  What is shown of a service: it keeps the invariants, and an assertion fails only where a task
  is swapped in that must not be; \<open>fin\<close> is the condition under which the caller itself does not
  become such a task.
\<close>

definition dispatch_ok :: "bool \<Rightarrow> 'a Os_Sys_scheme \<Rightarrow> 'a Os_Sys_scheme option \<Rightarrow> bool" where
  "dispatch_ok fin s r \<longleftrightarrow>
     (case r of None \<Rightarrow> \<not> can_resume s
      | Some s' \<Rightarrow> Os_inv s' \<and> sched_ok s' \<and> (fin \<and> can_resume s \<longrightarrow> can_resume s'))"

definition service_ok :: "bool \<Rightarrow> 'a Os_Sys_scheme \<Rightarrow> (StatusType \<times> 'a Os_Sys_scheme) option \<Rightarrow> bool" where
  "service_ok fin s r \<longleftrightarrow>
     (case r of None \<Rightarrow> intNestCnt s = 0 \<and> \<not> can_resume s
      | Some (rv, s') \<Rightarrow> Os_inv s' \<and> (sched_ok s \<longrightarrow> sched_ok s') \<and> (fin \<and> can_resume s \<longrightarrow> can_resume s'))"

lemma service_ok_err: "Os_inv s \<Longrightarrow> service_ok fin s (Some (OS_STD_ERR sid ps e s))"
  by (simp add: service_ok_def OS_STD_ERR_def)

lemma service_ok_errI:
  "Os_inv s' \<Longrightarrow> (sched_ok s \<longrightarrow> sched_ok s') \<Longrightarrow> (can_resume s \<longrightarrow> can_resume s') \<Longrightarrow>
     service_ok fin s (Some (OS_STD_ERR sid ps e s'))"
  by (simp add: service_ok_def OS_STD_ERR_def)

lemma service_okI:
  "Os_inv s' \<Longrightarrow> (sched_ok s \<longrightarrow> sched_ok s') \<Longrightarrow> (can_resume s \<longrightarrow> can_resume s') \<Longrightarrow>
     service_ok fin s (Some (rv, Irq_Restore f s'))"
  by (simp add: service_ok_def Irq_Restore_def)

lemma service_ok_dispatch:
  "dispatch_ok fin s' r \<Longrightarrow> (can_resume s \<longrightarrow> can_resume s') \<Longrightarrow> intNestCnt s = 0 \<Longrightarrow>
     service_ok fin s (do { s2 \<leftarrow> r; Some (rv, Irq_Restore f s2) })"
  by (cases r) (auto simp: service_ok_def dispatch_ok_def Irq_Restore_def)

lemma service_ok_isr:
  assumes "service_ok fin s r" "intNestCnt s \<noteq> 0"
  shows "\<exists>rv s'. r = Some (rv, s') \<and> Os_inv s'"
  using assms by (auto simp: service_ok_def split: option.splits)

lemma ready_not_suspended: "Os_core s \<Longrightarrow> t \<in> set (ready_head s) \<Longrightarrow> state (task s t) \<noteq> ST_SUSPENDED"
  by (auto simp: Os_core_def is_ready_or_running_def)

text \<open>
  \<open>other\<close> and \<open>keep\<close>: leaving the processor concerns the running task only. \<open>ends\<close>: a task that
  ends is suspended or restarted.
\<close>

lemma Os_Dispatch_service:
  assumes inv: "Os_inv s" and pre: "intNestCnt s = 0" "owner (resource_list s ! RES_SCHEDULER s) = None"
    and leave: "Os_Dispatch_leave op (currTaskPtr s) (log_ev (PostTaskHook (currTaskPtr s)) s) = Some s1"
    and s1: "Os_core s1" "currTaskPtr s1 = currTaskPtr s" "OS_TASK_CNT s1 = OS_TASK_CNT s"
      "resource_list s1 = resource_list s"
    and other: "\<And>u. u \<noteq> currTaskPtr s \<Longrightarrow> task s1 u = task s u"
    and keep: "may_resume (task s (currTaskPtr s)) \<Longrightarrow> may_resume (task s1 (currTaskPtr s))"
    and ends: "fin \<Longrightarrow> op \<in> {OP_TERMINATE_TASK, OP_CHAIN_TASK} \<Longrightarrow> Os_TaskGetTop s1 \<noteq> Some (currTaskPtr s) \<Longrightarrow>
      state (task s1 (currTaskPtr s)) = ST_SUSPENDED \<or> reactivation (task s1 (currTaskPtr s))"
  shows "dispatch_ok fin s (Os_Dispatch op s)"
proof (rule Os_Dispatch_switch [OF inv pre leave s1(1-3)])
  fix new
  let ?c = "currTaskPtr s"
  assume top: "Os_TaskGetTop s1 = Some new" and new: "first_max s1 (ready_head s1) new" "new < OS_TASK_CNT s1"
    and d: "Os_Dispatch op s =
       (if new = ?c then Some (Os_TaskStartFromBeginning new s1)
        else if reactivation (task s1 new)
        then Some (Os_TaskStartFromBeginning new (upd_task new (\<lambda>v. v\<lparr>reactivation := False\<rparr>) s1))
        else if ctx (task s1 new) \<in> {Some OP_TERMINATE_TASK, Some OP_CHAIN_TASK} then None
        else Some (swapped op ?c new s1))"
  have c: "?c < OS_TASK_CNT s1" using inv s1(3) by (simp add: Os_inv_def)
  have res1: "can_resume s \<Longrightarrow> can_resume s1" using can_resume_one [OF _ s1(3) other] keep by blast
  have free: "owner (resource_list s1 ! RES_SCHEDULER s1) = None" using pre(2) s1(4) by (simp add: RES_SCHEDULER_def)
  note ok = switched_inv [OF s1(1) _ new(1) free]
  have ns: "state (task s1 new) \<noteq> ST_SUSPENDED" using ready_not_suspended [OF s1(1) first_max_in [OF new(1)]] .
  consider (self) "new = ?c" | (restart) "new \<noteq> ?c" "reactivation (task s1 new)"
    | (bad) "new \<noteq> ?c" "\<not> reactivation (task s1 new)" "ctx (task s1 new) \<in> {Some OP_TERMINATE_TASK, Some OP_CHAIN_TASK}"
    | (swap) "new \<noteq> ?c" "\<not> reactivation (task s1 new)" "ctx (task s1 new) \<notin> {Some OP_TERMINATE_TASK, Some OP_CHAIN_TASK}"
    by blast
  then show "dispatch_ok fin s (Os_Dispatch op s)"
  proof cases
    case self
    have "can_resume (Os_TaskStartFromBeginning new s1)" if "can_resume s1"
      by (rule can_resume_one [OF that, of _ new]) (use new(2) in \<open>simp_all add: StartFromBeginning_task may_resume_def\<close>)
    then show ?thesis
      using self d ok [OF StartFromBeginning_switched(2) [OF new(2)]] res1 by (simp add: dispatch_ok_def)
  next
    case restart
    let ?s = "upd_task new (\<lambda>v. v\<lparr>reactivation := False\<rparr>) s1"
    have "can_resume (Os_TaskStartFromBeginning new ?s)" if "can_resume s1"
      by (rule can_resume_one [OF that, of _ new])
        (use new(2) in \<open>simp_all add: StartFromBeginning_task task_upd_task may_resume_def\<close>)
    then show ?thesis
      using restart d ok [OF StartFromBeginning_switched(1) [OF new(2), of False]] res1 by (simp add: dispatch_ok_def)
  next
    case bad
    then have "\<not> may_resume (task s new)" using other [of new] ns by (auto simp: may_resume_def)
    then have "\<not> can_resume s" using new(2) s1(3) by (auto simp: can_resume_def)
    then show ?thesis using bad d by (simp add: dispatch_ok_def)
  next
    case swap
    note t = swapped_task [OF new(2) c swap(1)]
    have "may_resume (task (swapped op ?c new s1) u)" if "fin" "can_resume s1" "u < OS_TASK_CNT s1" for u
      using that ends top swap by (auto simp: t may_resume_def can_resume_def)
    then have "can_resume (swapped op ?c new s1)" if "fin" "can_resume s1"
      using that t(2) by (simp add: can_resume_def [of "swapped op ?c new s1"])
    then show ?thesis
      using swap d ok [OF swapped_switched [OF new(2)]] res1 by (simp add: dispatch_ok_def)
  qed
qed

text \<open>Preemption of the running task by a ready task of higher priority.\<close>

lemma preempt_leave:
  assumes inv: "Os_inv s" and op: "op \<in> {OP_ACTIVATE_TASK, OP_SET_EVENT, OP_SCHEDULE, OP_RELEASE_RESOURCE}"
  obtains s1 where "Os_Dispatch_leave op (currTaskPtr s) (log_ev (PostTaskHook (currTaskPtr s)) s) = Some s1"
    "Os_core s1" "currTaskPtr s1 = currTaskPtr s" "OS_TASK_CNT s1 = OS_TASK_CNT s" "resource_list s1 = resource_list s"
    "ready_head s1 = ready_head s" "os_log s1 = os_log s @ [PostTaskHook (currTaskPtr s)]"
    "\<And>u. u \<noteq> currTaskPtr s \<Longrightarrow> task s1 u = task s u"
    "\<And>u. activePriority (task s1 u) = activePriority (task s u)"
    "may_resume (task s (currTaskPtr s)) \<Longrightarrow> may_resume (task s1 (currTaskPtr s))"
proof -
  let ?c = "currTaskPtr s"
  let ?s = "log_ev (PostTaskHook ?c) s"
  define s1 where "s1 = (if op = OP_ACTIVATE_TASK then ?s else upd_task ?c (\<lambda>v. v\<lparr>state := ST_READY\<rparr>) ?s)"
  have core: "Os_core s" and c: "?c < OS_TASK_CNT s" "state (task s ?c) = ST_RUNNING"
    using inv by (simp_all add: Os_inv_def)
  have cq: "?c \<in> set (ready_head s)" using core c by (simp add: Os_core_def is_ready_or_running_def)
  show thesis
  proof (rule that [of s1])
    show "Os_Dispatch_leave op ?c ?s = Some s1"
      using op c by (auto simp: Os_Dispatch_leave_def s1_def Os_TaskMakeReady_def is_ready_or_running_def
          Os_TaskRunningToReady_def)
    show "Os_core s1" using core Os_core_running(2) [of ?s ?c] cq by (simp add: s1_def)
    show "os_log s1 = os_log s @ [PostTaskHook ?c]" by (simp add: s1_def log_ev_def)
    show "may_resume (task s1 ?c)" if "may_resume (task s ?c)"
      using that c by (auto simp: s1_def task_upd_task may_resume_def)
  qed (use c in \<open>simp_all add: s1_def task_upd_task\<close>)
qed

lemma Os_Dispatch_preempt:
  assumes inv: "Os_inv s" and nest: "intNestCnt s = 0"
    and u: "activePriority (task s u) > activePriority (task s (currTaskPtr s))"
    and op: "op \<in> {OP_ACTIVATE_TASK, OP_SET_EVENT, OP_SCHEDULE, OP_RELEASE_RESOURCE}"
  shows "dispatch_ok fin s (Os_Dispatch op s)"
proof (rule preempt_leave [OF inv op])
  fix s1
  assume "Os_Dispatch_leave op (currTaskPtr s) (log_ev (PostTaskHook (currTaskPtr s)) s) = Some s1"
    "Os_core s1" "currTaskPtr s1 = currTaskPtr s" "OS_TASK_CNT s1 = OS_TASK_CNT s" "resource_list s1 = resource_list s"
    and "\<And>u. u \<noteq> currTaskPtr s \<Longrightarrow> task s1 u = task s u"
    "may_resume (task s (currTaskPtr s)) \<Longrightarrow> may_resume (task s1 (currTaskPtr s))"
  then show ?thesis
    using op by (intro Os_Dispatch_service [OF inv nest scheduler_free [OF inv u]]) auto
qed

text \<open>The task the processor goes to then, and the hooks called.\<close>

lemma Os_Dispatch_preempted:
  assumes inv: "Os_inv s" and nest: "intNestCnt s = 0"
    and u: "u \<in> set (ready_head s)" "activePriority (task s u) > activePriority (task s (currTaskPtr s))"
    and op: "op \<in> {OP_ACTIVATE_TASK, OP_SET_EVENT, OP_SCHEDULE, OP_RELEASE_RESOURCE}"
  shows "\<exists>new\<in>set (ready_head s). activePriority (task s u) \<le> activePriority (task s new)
    \<and> (may_resume (task s new) \<longrightarrow>
        (\<exists>s2 m. Os_Dispatch op s = Some s2 \<and> currTaskPtr s2 = new
           \<and> os_log s2 = os_log s @ [PostTaskHook (currTaskPtr s), PreTaskHook new, m]
           \<and> m \<in> {SwapContext (currTaskPtr s) new, StartFromBeginning new}))"
proof (rule preempt_leave [OF inv op])
  fix s1
  let ?c = "currTaskPtr s"
  assume leave: "Os_Dispatch_leave op ?c (log_ev (PostTaskHook ?c) s) = Some s1"
    and s1: "Os_core s1" "currTaskPtr s1 = ?c" "OS_TASK_CNT s1 = OS_TASK_CNT s" "ready_head s1 = ready_head s"
      "os_log s1 = os_log s @ [PostTaskHook ?c]"
    and other: "\<And>u. u \<noteq> ?c \<Longrightarrow> task s1 u = task s u" and pr: "\<And>u. activePriority (task s1 u) = activePriority (task s u)"
  show ?thesis
  proof (rule Os_Dispatch_switch [OF inv nest scheduler_free [OF inv u(2)] leave s1(1-3)])
    fix new
    assume new: "first_max s1 (ready_head s1) new" and d: "Os_Dispatch op s =
       (if new = ?c then Some (Os_TaskStartFromBeginning new s1)
        else if reactivation (task s1 new)
        then Some (Os_TaskStartFromBeginning new (upd_task new (\<lambda>v. v\<lparr>reactivation := False\<rparr>) s1))
        else if ctx (task s1 new) \<in> {Some OP_TERMINATE_TASK, Some OP_CHAIN_TASK} then None
        else Some (swapped op ?c new s1))"
    have ge: "activePriority (task s u) \<le> activePriority (task s new)"
      using first_max_le [OF new, of u] u(1) by (simp add: s1 pr)
    then have ne: "new \<noteq> ?c" using u(2) by auto
    have q: "new \<in> set (ready_head s)" using first_max_in [OF new] by (simp add: s1)
    have ns: "state (task s1 new) \<noteq> ST_SUSPENDED" using ready_not_suspended [OF s1(1)] q s1(4) by simp
    have "\<exists>s2 m. Os_Dispatch op s = Some s2 \<and> currTaskPtr s2 = new
        \<and> os_log s2 = os_log s1 @ [PreTaskHook new, m] \<and> m \<in> {SwapContext ?c new, StartFromBeginning new}"
      if "may_resume (task s new)"
      using that d ne ns other [OF ne]
      by (auto simp: may_resume_def swapped_def start_defs log_ev_def)
    then show ?thesis using q ge s1(5) by force
  qed
qed

lemma Os_inv_cur: "Os_inv s \<Longrightarrow> currTaskPtr s \<in> set (ready_head s)"
  by (auto simp: Os_inv_def Os_core_def is_ready_or_running_def)

subsection \<open>Task services\<close>

lemma task_okI:
  assumes "task_ok s t" and "resource_list s' = resource_list s" "taskConst s' = taskConst s"
    and "resourceHead (task s' t) = resourceHead (task s t)"
      "activePriority (task s' t) = activePriority (task s t)"
    and "state (task s' t) = ST_SUSPENDED \<longleftrightarrow> activations (task s' t) = 0"
      "activations (task s' t) \<le> activationLimit (taskConst s ! t)"
      "state (task s' t) = ST_WAIT_EVENT \<longrightarrow> proc_type (taskConst s ! t) = PROC_EXTENDED"
      "\<not> is_ready_or_running (state (task s' t)) \<longrightarrow> resourceHead (task s t) = []"
  shows "task_ok s' t"
  using assms held_cong [OF assms(2)] by (simp add: task_ok_def)

lemma Os_core_wake:
  assumes core: "Os_core s" and t: "t < OS_TASK_CNT s" "\<not> is_ready_or_running (state (task s t))"
    and same: "OS_TASK_CNT s' = OS_TASK_CNT s" "taskConst s' = taskConst s" "resource_list s' = resource_list s"
      "\<And>u. u \<noteq> t \<Longrightarrow> task s' u = task s u" "ready_head s' = ready_head s @ [t]"
    and new: "state (task s' t) = ST_READY" "resourceHead (task s' t) = resourceHead (task s t)"
      "activePriority (task s' t) = activePriority (task s t)" "activations (task s' t) \<noteq> 0"
      "activations (task s' t) \<le> activationLimit (taskConst s ! t)"
  shows "Os_core s'"
proof -
  have ok: "task_ok s t" and q: "t \<notin> set (ready_head s)" "distinct (ready_head s)"
      "\<And>u. u \<in> set (ready_head s) \<longleftrightarrow> u < OS_TASK_CNT s \<and> is_ready_or_running (state (task s u))"
      "PID_IDLE \<in> set (ready_head s)"
    using core t by (auto simp: Os_core_def)
  have "u \<in> set (ready_head s') \<longleftrightarrow> u < OS_TASK_CNT s \<and> is_ready_or_running (state (task s' u))" for u
    using t q(3) [of u] same(4) [of u] new(1)
    by (cases "u = t") (simp_all add: same(5) is_ready_or_running_def)
  moreover have "task_ok s' t"
    by (rule task_okI [OF ok]) (use same new in \<open>simp_all add: is_ready_or_running_def\<close>)
  ultimately show ?thesis
    using q same new by (intro Os_core_task [OF core t(1)]) simp_all
qed

lemma Os_inv_same:
  assumes "Os_inv s" "Os_core s'" "currTaskPtr s' = currTaskPtr s" "OS_TASK_CNT s' = OS_TASK_CNT s"
    "state (task s' (currTaskPtr s)) = ST_RUNNING" "resource_list s' = resource_list s"
  shows "Os_inv s'"
  using assms by (simp add: Os_inv_def RES_SCHEDULER_def)

text \<open>A service that has made \<open>dest\<close> ready ends with a preemption test.\<close>

lemma preempt_test:
  assumes inv: "Os_inv s'" and op: "op \<in> {OP_ACTIVATE_TASK, OP_SET_EVENT}"
    and cond: "b \<longleftrightarrow> intNestCnt s' = 0 \<and> scheduling (taskConst s' ! currTaskPtr s') = FULL
        \<and> activePriority (task s' dest) > activePriority (task s' (currTaskPtr s'))"
    and rest: "sched_ok s \<Longrightarrow> \<not> b \<Longrightarrow> sched_ok s'" and res: "can_resume s \<longrightarrow> can_resume s'"
    and nest: "intNestCnt s' = intNestCnt s"
  shows "service_ok fin s (do { s2 \<leftarrow> (if b then Os_Dispatch op s' else Some s'); Some (rv, Irq_Restore fl s2) })"
proof (cases b)
  case True
  then have "dispatch_ok fin s' (Os_Dispatch op s')"
    using op cond by (intro Os_Dispatch_preempt [OF inv, of dest]) auto
  then show ?thesis using True cond nest res by (simp add: service_ok_dispatch)
next
  case False
  then show ?thesis using inv rest res by (simp add: service_okI)
qed

lemma sched_ok_ready:
  assumes "sched_ok s" "currTaskPtr s' = currTaskPtr s" "intNestCnt s' = intNestCnt s"
    "taskConst s' = taskConst s" "set (ready_head s') \<subseteq> insert dest (set (ready_head s))"
    "\<And>u. activePriority (task s' u) = activePriority (task s u)"
    "\<not> (intNestCnt s' = 0 \<and> scheduling (taskConst s' ! currTaskPtr s') = FULL
        \<and> activePriority (task s' dest) > activePriority (task s' (currTaskPtr s')))"
  shows "sched_ok s'"
  using assms unfolding sched_ok_def by (auto simp: not_less)

lemma word_le_1: "x \<noteq> 0 \<Longrightarrow> x \<le> 1 \<Longrightarrow> x = 1" for x :: "'a::len word"
proof -
  assume "x \<noteq> 0" "x \<le> 1"
  then have "unat x \<noteq> 0" "unat x \<le> 1" by (simp_all add: unat_eq_0 word_le_nat_alt)
  then have "unat x = unat (1 :: 'a word)" by simp
  then show "x = 1" by (simp only: word_unat_eq_iff)
qed

lemma activations_inc:
  assumes "task_ok s t" "cfg_ok s" "t < OS_TASK_CNT s"
  shows "activations (task s t) + 1 \<noteq> 0"
proof
  assume "activations (task s t) + 1 = 0"
  then have "activations (task s t) = - 1" by (simp only: eq_neg_iff_add_eq_0)
  moreover have "activations (task s t) < 255"
    using assms by (auto simp: task_ok_def cfg_ok_def intro: le_less_trans)
  ultimately show False by simp
qed

lemma upd_task_id: "(\<And>v. f v = v) \<Longrightarrow> upd_task t f s = s"
  by (simp add: upd_task_def)

text \<open>Activation of a task that is not suspended is only counted.\<close>

lemma ActivateTask_active:
  assumes inv: "Os_inv s" and t: "t < OS_TASK_CNT s" and en: "\<not> Os_SysIntAnyDisabled s"
    and act: "state (task s t) \<noteq> ST_SUSPENDED"
  shows "service_ok fin s (ActivateTask t s)"
proof -
  let ?c = "currTaskPtr s" and ?a = "activations (task s t)" and ?s = "s\<lparr>irq_enabled := False\<rparr>"
  define s1 where "s1 = upd_task t (\<lambda>v. v\<lparr>activations := activations v + 1\<rparr>) ?s"
  have core: "Os_core s" and c: "?c < OS_TASK_CNT s" "state (task s ?c) = ST_RUNNING"
    using inv by (simp_all add: Os_inv_def)
  have ok: "task_ok s t" and cfg: "cfg_ok s" using core t by (simp_all add: Os_core_def)
  have s1: "task s1 u = (if u = t then (task s t)\<lparr>activations := ?a + 1\<rparr> else task s u)" for u
    using t by (simp add: s1_def task_upd_task)
  have eq: "OS_TASK_CNT s1 = OS_TASK_CNT s" "taskConst s1 = taskConst s" "resource_list s1 = resource_list s"
      "ready_head s1 = ready_head s" "currTaskPtr s1 = ?c" "intNestCnt s1 = intNestCnt s"
    by (simp_all add: s1_def)
  show ?thesis
  proof (cases "?a + 1 > activationLimit (taskConst s ! t)")
    case True
    have undo: "upd_task t (\<lambda>v. v\<lparr>activations := activations v - 1\<rparr>) (Irq_Restore f s1) = Irq_Restore f ?s" for f
      using t by (simp add: s1_def upd_task_def Irq_Restore_def)
    have "ActivateTask t s = Some (OS_STD_ERR OSServiceId_ActivateTask [t] E_OS_LIMIT (Irq_Restore (irq_enabled s) ?s))"
      using True act t en s1 [of t] undo eq
      by (simp add: ActivateTask_def Irq_Save_def Let_def s1_def [symmetric])
    then show ?thesis using inv by (simp add: service_ok_errI Irq_Restore_def)
  next
    case no: False
    let ?b = "intNestCnt s1 = 0 \<and> scheduling (taskConst s1 ! ?c) = FULL
      \<and> activePriority (task s1 t) > activePriority (task s1 (currTaskPtr s1))"
    have nz: "?a + 1 \<noteq> 0" by (rule activations_inc [OF ok cfg t])
    have "task_ok s1 t"
      by (rule task_okI [OF ok]) (use act no nz ok eq in \<open>auto simp: s1 task_ok_def\<close>)
    then have "Os_core s1"
      using core t unfolding s1_def by (intro Os_core_upd_task) simp_all
    then have inv1: "Os_inv s1"
      using c eq by (intro Os_inv_same [OF inv]) (auto simp: s1)
    have res: "ActivateTask t s = do { s2 \<leftarrow> (if ?b then Os_Dispatch OP_ACTIVATE_TASK s1 else Some s1);
        Some (STATUS_OK, Irq_Restore (irq_enabled s) s2) }"
      using t en act no s1 [of t] eq
      by (simp add: ActivateTask_def Irq_Save_def Let_def s1_def [symmetric])
    have rest: "sched_ok s \<Longrightarrow> sched_ok s1"
      by (auto simp: sched_ok_def eq s1)
    have resume: "can_resume s \<longrightarrow> can_resume s1"
      unfolding s1_def by (intro impI can_resume_upd) (simp_all add: may_resume_def)
    show ?thesis
      unfolding res using preempt_test [OF inv1, of OP_ACTIVATE_TASK ?b t s] rest resume by (simp add: eq)
  qed
qed

text \<open>Activation of a suspended task makes it ready.\<close>

lemma activate_ready:
  assumes inv: "Os_inv s" and t: "t < OS_TASK_CNT s" and en: "\<not> Os_SysIntAnyDisabled s"
    and susp: "state (task s t) = ST_SUSPENDED"
  obtains s2 where "Os_inv s2" "taskConst s2 = taskConst s" "ready_head s2 = ready_head s @ [t]"
    "currTaskPtr s2 = currTaskPtr s" "intNestCnt s2 = intNestCnt s" "os_log s2 = os_log s"
    "\<And>u. activePriority (task s2 u) = activePriority (task s u)"
    "\<And>u. u \<noteq> t \<Longrightarrow> task s2 u = task s u" "may_resume (task s2 t)" "OS_TASK_CNT s2 = OS_TASK_CNT s"
    "ActivateTask t s =
       do { s3 \<leftarrow> (if intNestCnt s2 = 0 \<and> scheduling (taskConst s2 ! currTaskPtr s) = FULL
                     \<and> activePriority (task s2 t) > activePriority (task s2 (currTaskPtr s2))
                   then Os_Dispatch OP_ACTIVATE_TASK s2 else Some s2);
            Some (STATUS_OK, Irq_Restore (irq_enabled s) s3) }"
proof -
  let ?c = "currTaskPtr s" and ?a = "activations (task s t)" and ?s = "s\<lparr>irq_enabled := False\<rparr>"
  define s1 where "s1 = upd_task t (\<lambda>v. v\<lparr>activations := activations v + 1\<rparr>) ?s"
  define s2 where "s2 = Os_TaskMakeReady t (Os_Arc_SetCleanContext t s1)"
  have core: "Os_core s" and c: "?c < OS_TASK_CNT s" "state (task s ?c) = ST_RUNNING"
    using inv by (simp_all add: Os_inv_def)
  have ok: "task_ok s t" and cfg: "cfg_ok s" using core t by (simp_all add: Os_core_def)
  have s1: "task s1 u = (if u = t then (task s t)\<lparr>activations := ?a + 1\<rparr> else task s u)" for u
    using t by (simp add: s1_def task_upd_task)
  have a: "?a = 0" and np: "\<not> is_ready_or_running (state (task s t))"
    using ok susp by (simp_all add: task_ok_def is_ready_or_running_def)
  have cnt: "t < OS_TASK_CNT s1" using t by (simp add: s1_def)
  note defs = s2_def Os_TaskMakeReady_def Os_Arc_SetCleanContext_def Os_ReadyQEnqueue_def
      is_ready_or_running_def Os_ArchSetupContext_def
  have may: "may_resume (task s2 t)" using cnt susp a by (simp add: defs task_upd_task s1 may_resume_def)
  have v: "state (task s2 t) = ST_READY" "resourceHead (task s2 t) = resourceHead (task s t)"
      "activations (task s2 t) = 1"
    using cnt susp a by (simp_all add: defs task_upd_task s1)
  have pr: "activePriority (task s2 u) = activePriority (task s u)" for u
    using cnt susp by (simp add: defs task_upd_task s1)
  have ot: "u \<noteq> t \<Longrightarrow> task s2 u = task s u" for u
    using cnt susp by (simp add: defs task_upd_task s1)
  have eq: "OS_TASK_CNT s2 = OS_TASK_CNT s" "taskConst s2 = taskConst s" "resource_list s2 = resource_list s"
      "ready_head s2 = ready_head s @ [t]" "currTaskPtr s2 = ?c" "intNestCnt s2 = intNestCnt s"
      "os_log s2 = os_log s"
    using cnt susp by (simp_all add: defs task_upd_task s1) (simp_all add: s1_def)
  have lim: "1 \<le> activationLimit (taskConst s ! t)"
    using cfg t by (simp add: cfg_ok_def word_le_nat_alt word_less_nat_alt Suc_le_eq)
  have "Os_core s2"
    by (rule Os_core_wake [OF core t np]) (use eq v pr ot lim in simp_all)
  moreover have "?c \<noteq> t" using c susp by auto
  ultimately have inv2: "Os_inv s2"
    using c ot eq by (intro Os_inv_same [OF inv]) simp_all
  let ?b = "intNestCnt s2 = 0 \<and> scheduling (taskConst s2 ! ?c) = FULL
      \<and> activePriority (task s2 t) > activePriority (task s2 (currTaskPtr s2))"
  have res: "ActivateTask t s = do { s2 \<leftarrow> (if ?b then Os_Dispatch OP_ACTIVATE_TASK s2 else Some s2);
        Some (STATUS_OK, Irq_Restore (irq_enabled s) s2) }"
    using t en susp a s1 [of t] eq
    by (simp add: ActivateTask_def Irq_Save_def Let_def s1_def [symmetric] s2_def [symmetric])
  show thesis by (rule that [OF inv2 eq(2,4-7) pr ot may eq(1) res])
qed

lemma ActivateTask_suspended:
  fixes s :: "'a Os_Sys_scheme"
  assumes inv: "Os_inv s" and t: "t < OS_TASK_CNT s" and en: "\<not> Os_SysIntAnyDisabled s"
    and susp: "state (task s t) = ST_SUSPENDED"
  shows "service_ok fin s (ActivateTask t s)"
proof (rule activate_ready [OF assms])
  fix s2 :: "'a Os_Sys_scheme"
  assume inv2: "Os_inv s2" and eq: "taskConst s2 = taskConst s" "ready_head s2 = ready_head s @ [t]"
    "currTaskPtr s2 = currTaskPtr s" "intNestCnt s2 = intNestCnt s"
    and resume: "\<And>u. u \<noteq> t \<Longrightarrow> task s2 u = task s u" "may_resume (task s2 t)" "OS_TASK_CNT s2 = OS_TASK_CNT s"
    and pr: "\<And>u. activePriority (task s2 u) = activePriority (task s u)"
  let ?b = "intNestCnt s2 = 0 \<and> scheduling (taskConst s2 ! currTaskPtr s) = FULL
      \<and> activePriority (task s2 t) > activePriority (task s2 (currTaskPtr s2))"
  assume res: "ActivateTask t s = do { s2 \<leftarrow> (if ?b then Os_Dispatch OP_ACTIVATE_TASK s2 else Some s2);
        Some (STATUS_OK, Irq_Restore (irq_enabled s) s2) }"
  have rest: "sched_ok s \<Longrightarrow> \<not> ?b \<Longrightarrow> sched_ok s2"
    using eq pr by (intro sched_ok_ready [of s s2 t]) auto
  have "can_resume s \<longrightarrow> can_resume s2" using can_resume_one [of s s2 t] resume by blast
  then show ?thesis
    unfolding res using preempt_test [OF inv2, of OP_ACTIVATE_TASK ?b t s] rest eq(4) by (simp add: eq(3))
qed

lemma ActivateTask_ok: "Os_inv s \<Longrightarrow> service_ok fin s (ActivateTask t s)"
  using ActivateTask_active [of s t fin] ActivateTask_suspended [of s t fin]
  by (cases "t < OS_TASK_CNT s \<and> \<not> Os_SysIntAnyDisabled s")
    (auto simp: ActivateTask_def service_ok_err)

text \<open>Leaving the processor for good or to wait.\<close>

lemma Os_core_leave:
  assumes core: "Os_core s" and t: "t < OS_TASK_CNT s" "t \<noteq> PID_IDLE"
    and same: "OS_TASK_CNT s' = OS_TASK_CNT s" "taskConst s' = taskConst s" "resource_list s' = resource_list s"
      "\<And>u. u \<noteq> t \<Longrightarrow> task s' u = task s u" "ready_head s' = remove1 t (ready_head s)"
    and new: "\<not> is_ready_or_running (state (task s' t))" "task_ok s' t"
      "resourceHead (task s' t) = resourceHead (task s t)"
  shows "Os_core s'"
proof -
  have q: "distinct (ready_head s)" "PID_IDLE \<in> set (ready_head s)"
      "\<And>u. u \<in> set (ready_head s) \<longleftrightarrow> u < OS_TASK_CNT s \<and> is_ready_or_running (state (task s u))"
    using core by (auto simp: Os_core_def)
  have "u \<in> set (ready_head s') \<longleftrightarrow> u < OS_TASK_CNT s \<and> is_ready_or_running (state (task s' u))" for u
    using q(1) q(3) [of u] same(4) [of u] new(1) by (cases "u = t") (simp_all add: same(5))
  then show ?thesis
    using q t same new by (intro Os_core_task [OF core t(1)]) simp_all
qed

lemma no_resources_free:
  assumes "Os_inv s" "\<not> Os_TaskOccupiesResources (currTaskPtr s) s"
  shows "owner (resource_list s ! RES_SCHEDULER s) = None"
proof (rule ccontr)
  assume "owner (resource_list s ! RES_SCHEDULER s) \<noteq> None"
  then have "owner (resource_list s ! RES_SCHEDULER s) = Some (currTaskPtr s)"
    using assms(1) by (auto simp: Os_inv_def)
  moreover have "RES_SCHEDULER s < length (resource_list s)"
    using assms(1) by (simp add: Os_inv_def Os_core_def cfg_ok_def RES_SCHEDULER_def)
  ultimately show False
    using assms by (auto simp: Os_inv_def Os_core_def Os_TaskOccupiesResources_def)
qed

lemma word_dec_le: "a \<noteq> 0 \<Longrightarrow> a - 1 \<le> a" for a :: "'a::len word"
  by (simp add: word_le_nat_alt unat_minus_one)

text \<open>The termination of one activation of the running task.\<close>

lemma terminate_leave:
  assumes inv: "Os_inv s" and c: "currTaskPtr s = c" "c \<noteq> PID_IDLE" and res: "resourceHead (task s c) = []"
    and s1: "s1 = upd_task c (\<lambda>v. v\<lparr>activations := activations v - 1\<rparr>) s"
  shows "activations (task s c) \<noteq> 0"
    and "activations (task s1 c) = 0 \<Longrightarrow> \<exists>s2. Os_TaskMakeSuspended c s1 = Some s2 \<and> Os_core s2
        \<and> currTaskPtr s2 = c \<and> OS_TASK_CNT s2 = OS_TASK_CNT s \<and> resource_list s2 = resource_list s
        \<and> (\<forall>u. u \<noteq> c \<longrightarrow> task s2 u = task s u) \<and> state (task s2 c) = ST_SUSPENDED"
    and "activations (task s1 c) \<noteq> 0 \<Longrightarrow> Os_core s1"
proof -
  have core: "Os_core s" and lt: "c < OS_TASK_CNT s" and run: "state (task s c) = ST_RUNNING"
    using inv c by (simp_all add: Os_inv_def)
  have ok: "task_ok s c" using core lt by (simp add: Os_core_def)
  show nz: "activations (task s c) \<noteq> 0" using ok run by (simp add: task_ok_def)
  have t1: "task s1 u = (if u = c then (task s c)\<lparr>activations := activations (task s c) - 1\<rparr> else task s u)" for u
    using lt by (simp add: s1 task_upd_task)
  have lim: "activations (task s c) - 1 \<le> activationLimit (taskConst s ! c)"
    using ok word_dec_le [OF nz] by (auto simp: task_ok_def)
  {
    assume z: "activations (task s1 c) = 0"
    define s2 where "s2 = Os_ReadyQRemove c (upd_task c (\<lambda>v. v\<lparr>state := ST_SUSPENDED\<rparr>) s1)"
    have t2: "task s2 u = (if u = c then (task s c)\<lparr>activations := 0, state := ST_SUSPENDED\<rparr> else task s u)" for u
      using lt z t1 [of u] t1 [of c] by (simp add: s2_def Os_ReadyQRemove_def s1 task_upd_task)
    have eq: "OS_TASK_CNT s2 = OS_TASK_CNT s" "taskConst s2 = taskConst s" "resource_list s2 = resource_list s"
        "ready_head s2 = remove1 c (ready_head s)" "currTaskPtr s2 = c"
      using c by (simp_all add: s2_def Os_ReadyQRemove_def s1)
    have "task_ok s2 c"
      by (rule task_okI [OF ok]) (use res t2 [of c] eq in simp_all)
    then have "Os_core s2"
      using t2 eq by (intro Os_core_leave [OF core lt c(2)]) (simp_all add: is_ready_or_running_def)
    moreover have "Os_TaskMakeSuspended c s1 = Some s2"
      using run t1 [of c] by (simp add: s2_def Os_TaskMakeSuspended_def is_ready_or_running_def)
    ultimately show "\<exists>s2. Os_TaskMakeSuspended c s1 = Some s2 \<and> Os_core s2
        \<and> currTaskPtr s2 = c \<and> OS_TASK_CNT s2 = OS_TASK_CNT s \<and> resource_list s2 = resource_list s
        \<and> (\<forall>u. u \<noteq> c \<longrightarrow> task s2 u = task s u) \<and> state (task s2 c) = ST_SUSPENDED"
      using eq t2 by simp
  }
  assume z: "activations (task s1 c) \<noteq> 0"
  have "task_ok s1 c"
    by (rule task_okI [OF ok]) (use z lim run t1 [of c] in \<open>simp_all add: s1 is_ready_or_running_def\<close>)
  then show "Os_core s1"
    unfolding s1 using core lt by (intro Os_core_upd_task) (simp_all add: s1)
qed

lemma GetTop_cong:
  assumes "ready_head s' = ready_head s" "\<And>u. activePriority (task s' u) = activePriority (task s u)"
    "\<And>u. state (task s' u) = state (task s u)"
  shows "Os_TaskGetTop s' = Os_TaskGetTop s"
proof -
  have "Os_TaskGetTop_scan s' q b = Os_TaskGetTop_scan s q b" for q b
    by (induction q arbitrary: b) (simp_all add: assms(2,3) split: option.split)
  then show ?thesis by (simp add: Os_TaskGetTop_def assms(1))
qed

lemma one_activation: "0 < a \<Longrightarrow> \<not> 1 < a \<Longrightarrow> a = 1" for a :: uint8
  by (rule word_le_1) (simp_all add: word_gt_0 not_less)

lemma TerminateTask_ok:
  assumes inv: "Os_inv s" and c: "currTaskPtr s \<noteq> PID_IDLE"
    and fin: "fin \<longrightarrow> 1 < activations (task s (currTaskPtr s)) \<longrightarrow> Os_TaskGetTop s = Some (currTaskPtr s)"
  shows "service_ok fin s (TerminateTask s)"
proof (cases "Os_SysIntAnyDisabled s \<or> intNestCnt s \<noteq> 0 \<or> Os_TaskOccupiesResources (currTaskPtr s) s")
  case True
  then show ?thesis using inv by (auto simp: TerminateTask_def service_ok_err)
next
  case False
  let ?s = "s\<lparr>irq_enabled := False\<rparr>" and ?c = "currTaskPtr s"
  let ?l = "log_ev (PostTaskHook ?c) ?s"
  define s1 where "s1 = upd_task ?c (\<lambda>v. v\<lparr>activations := activations v - 1\<rparr>) ?l"
  have inv': "Os_inv ?s" "Os_inv ?l" and lt: "?c < OS_TASK_CNT s" using inv by (simp_all add: Os_inv_def)
  have res: "resourceHead (task ?l ?c) = []"
    using False by (simp add: Os_TaskOccupiesResources_def)
  have free: "owner (resource_list ?s ! RES_SCHEDULER ?s) = None"
    using no_resources_free [OF inv] False by simp
  note tl = terminate_leave [OF inv'(2) _ c res s1_def, simplified]
  have t1: "task s1 u = (if u = ?c then (task s ?c)\<lparr>activations := activations (task s ?c) - 1\<rparr> else task s u)" for u
    using lt by (simp add: s1_def task_upd_task)
  have "dispatch_ok fin ?s (Os_Dispatch OP_TERMINATE_TASK ?s)"
  proof (cases "activations (task s1 ?c) = 0")
    case True
    then obtain s2 where "Os_Dispatch_leave OP_TERMINATE_TASK ?c ?l = Some s2" "Os_core s2" "currTaskPtr s2 = ?c"
        "OS_TASK_CNT s2 = OS_TASK_CNT s" "resource_list s2 = resource_list s"
        "\<And>u. u \<noteq> ?c \<Longrightarrow> task s2 u = task s u" "state (task s2 ?c) = ST_SUSPENDED"
      using tl(1,2) by (auto simp: Os_Dispatch_leave_def s1_def [symmetric] Let_def word_gt_0)
    then show ?thesis
      using False by (intro Os_Dispatch_service [OF inv'(1) _ free, where ?s1.0 = s2]) (simp_all add: may_resume_def)
  next
    case nz: False
    have leave: "Os_Dispatch_leave OP_TERMINATE_TASK ?c ?l = Some s1"
      using tl(1) nz by (simp add: Os_Dispatch_leave_def s1_def [symmetric] Let_def word_gt_0)
    have "1 < activations (task s ?c)"
      using nz one_activation [of "activations (task s ?c)"] tl(1) by (auto simp: t1 word_gt_0)
    moreover have "Os_TaskGetTop s1 = Os_TaskGetTop s" by (rule GetTop_cong) (simp_all add: t1, simp add: s1_def)
    ultimately have "Os_TaskGetTop s1 = Some ?c" if fin using that fin by simp
    then show ?thesis
      using False tl(3) nz leave
      by (intro Os_Dispatch_service [OF inv'(1) _ free, where ?s1.0 = s1]) (auto simp: t1 may_resume_def, simp_all add: s1_def)
  qed
  then show ?thesis
    using False service_ok_dispatch [of fin ?s _ s] by (simp add: TerminateTask_def)
qed

text \<open>The activation part of \<open>ChainTask\<close> for a task other than the caller.\<close>

lemma chain_dest:
  assumes inv: "Os_inv s" and t: "t < OS_TASK_CNT s" "t \<noteq> currTaskPtr s"
    and lim: "unat (activations (task s t)) + 1 \<le> unat (activationLimit (taskConst s ! t))"
  shows "\<exists>s1. (do { s \<leftarrow> (if state (task s t) = ST_SUSPENDED
                           then do { ASSERT (activations (task s t) = 0);
                                     Some (Os_TaskMakeReady t (Os_Arc_SetCleanContext t s)) }
                           else Some s);
                     Some (upd_task t (\<lambda>v. v\<lparr>activations := activations v + 1\<rparr>) s) }) = Some s1
     \<and> Os_inv s1 \<and> OS_TASK_CNT s1 = OS_TASK_CNT s \<and> resource_list s1 = resource_list s
     \<and> currTaskPtr s1 = currTaskPtr s \<and> intNestCnt s1 = intNestCnt s
     \<and> task s1 (currTaskPtr s) = task s (currTaskPtr s) \<and> (can_resume s \<longrightarrow> can_resume s1)"
proof -
  let ?c = "currTaskPtr s" and ?a = "activations (task s t)"
  let ?inc = "upd_task t (\<lambda>v. v\<lparr>activations := activations v + 1\<rparr>)"
  have core: "Os_core s" and c: "?c < OS_TASK_CNT s" "state (task s ?c) = ST_RUNNING"
    using inv by (simp_all add: Os_inv_def)
  have ok: "task_ok s t" and cfg: "cfg_ok s" using core t by (simp_all add: Os_core_def)
  have nz: "?a + 1 \<noteq> 0" by (rule activations_inc [OF ok cfg t(1)])
  then have "unat (?a + 1) = unat ?a + 1" using unatSuc [of ?a] by (simp add: add.commute)
  then have le: "?a + 1 \<le> activationLimit (taskConst s ! t)" using lim by (simp add: word_le_nat_alt)
  show ?thesis
  proof (cases "state (task s t) = ST_SUSPENDED")
    case True
    define s1 where "s1 = ?inc (Os_TaskMakeReady t (Os_Arc_SetCleanContext t s))"
    note defs = s1_def Os_TaskMakeReady_def Os_Arc_SetCleanContext_def Os_ReadyQEnqueue_def
      is_ready_or_running_def Os_ArchSetupContext_def
    have may: "may_resume (task s1 t)" using t True by (simp add: defs task_upd_task may_resume_def)
    have a: "?a = 0" and np: "\<not> is_ready_or_running (state (task s t))"
      using ok True by (simp_all add: task_ok_def is_ready_or_running_def)
    have v: "state (task s1 t) = ST_READY" "resourceHead (task s1 t) = resourceHead (task s t)"
        "activations (task s1 t) = ?a + 1" "activePriority (task s1 t) = activePriority (task s t)"
      using t True by (simp_all add: defs task_upd_task)
    have ot: "u \<noteq> t \<Longrightarrow> task s1 u = task s u" for u
      using t True by (simp add: defs task_upd_task)
    have eq: "OS_TASK_CNT s1 = OS_TASK_CNT s" "taskConst s1 = taskConst s" "resource_list s1 = resource_list s"
        "ready_head s1 = ready_head s @ [t]" "currTaskPtr s1 = ?c" "intNestCnt s1 = intNestCnt s"
      using t True by (simp_all add: defs task_upd_task)
    have "Os_core s1"
      by (rule Os_core_wake [OF core t(1) np]) (use eq v ot le nz in simp_all)
    then have "Os_inv s1" using eq ot c t by (intro Os_inv_same [OF inv]) simp_all
    moreover have "can_resume s \<longrightarrow> can_resume s1" using can_resume_one [of s s1 t] ot may eq(1) by blast
    ultimately show ?thesis using eq ot t a True by (simp add: s1_def)
  next
    case False
    let ?s1 = "?inc s"
    have "is_ready_or_running (state (task s t))"
    proof (rule ccontr)
      assume "\<not> is_ready_or_running (state (task s t))"
      then have "state (task s t) = ST_WAIT_EVENT"
        using False by (cases "state (task s t)") (simp_all add: is_ready_or_running_def)
      then have "activationLimit (taskConst s ! t) = 1"
        using ok cfg t by (simp add: task_ok_def cfg_ok_def)
      then have "unat ?a = 0" using lim by simp
      then show False using ok False by (simp add: task_ok_def unat_eq_0)
    qed
    moreover have "task_ok ?s1 t"
      by (rule task_okI [OF ok]) (use t False nz le ok in \<open>auto simp: task_upd_task task_ok_def\<close>)
    ultimately have "Os_core ?s1" using t by (intro Os_core_upd_task [OF core]) simp_all
    then have "Os_inv ?s1" using c t by (intro Os_inv_same [OF inv]) (simp_all add: task_upd_task)
    moreover have "can_resume s \<longrightarrow> can_resume ?s1" by (intro impI can_resume_upd) (simp_all add: may_resume_def)
    ultimately show ?thesis using False t by (simp add: task_upd_task)
  qed
qed

lemma Os_core_reactivation:
  assumes "Os_core s" "t < OS_TASK_CNT s"
  shows "Os_core (upd_task t (\<lambda>v. v\<lparr>reactivation := b\<rparr>) s)"
proof (rule Os_core_upd_task [OF assms])
  have ok: "task_ok s t" using assms by (simp add: Os_core_def)
  show "task_ok (upd_task t (\<lambda>v. v\<lparr>reactivation := b\<rparr>) s) t"
    by (rule task_okI [OF ok]) (use assms(2) ok in \<open>simp_all add: task_upd_task task_ok_def\<close>)
qed simp_all

lemma chain_dispatch:
  assumes inv: "Os_inv s" and c: "currTaskPtr s \<noteq> PID_IDLE" "intNestCnt s = 0"
    and free: "owner (resource_list s ! RES_SCHEDULER s) = None"
    and res: "resourceHead (task s (currTaskPtr s)) = []" and ch: "chainedPcbPtr s = Some t"
    and fin: "fin \<longrightarrow> t = currTaskPtr s \<longrightarrow> Os_TaskGetTop s = Some t"
  shows "dispatch_ok fin s (Os_Dispatch OP_CHAIN_TASK s)"
proof (cases "t = currTaskPtr s")
  case True
  let ?l = "log_ev (PostTaskHook t) s"
  have "Os_Dispatch_leave OP_CHAIN_TASK t ?l = Some ?l"
    using ch True by (simp add: Os_Dispatch_leave_def)
  moreover have "Os_core ?l" using inv by (simp add: Os_inv_def)
  moreover have "Os_TaskGetTop ?l = Os_TaskGetTop s" by (rule GetTop_cong) simp_all
  ultimately show ?thesis
    using True fin by (intro Os_Dispatch_service [OF inv c(2) free, where ?s1.0 = ?l]) auto
next
  case False
  let ?c = "currTaskPtr s"
  let ?l = "log_ev (PostTaskHook ?c) s"
  define s1 where "s1 = upd_task ?c (\<lambda>v. v\<lparr>activations := activations v - 1\<rparr>) ?l"
  define s2 where "s2 = upd_task ?c (\<lambda>v. v\<lparr>reactivation := True\<rparr>) (upd_task ?c (\<lambda>v. v\<lparr>state := ST_READY\<rparr>) s1)"
  have cur: "?c < OS_TASK_CNT s" "state (task s1 ?c) = ST_RUNNING" and lt: "?c < OS_TASK_CNT s1"
    using inv by (simp_all add: Os_inv_def s1_def task_upd_task)
  have invl: "Os_inv ?l" "resourceHead (task ?l ?c) = []" using inv res by simp_all
  note tl = terminate_leave [OF invl(1) _ c(1) invl(2) s1_def, simplified]
  have "Os_core s2" if "activations (task s1 ?c) \<noteq> 0"
  proof -
    have "Os_core s1" using tl(3) that by simp
    then have "Os_core (upd_task ?c (\<lambda>v. v\<lparr>state := ST_READY\<rparr>) s1)"
      using cur lt by (intro Os_core_running(2)) (auto simp: Os_core_def is_ready_or_running_def)
    then show ?thesis using lt unfolding s2_def by (intro Os_core_reactivation) simp_all
  qed
  moreover have "currTaskPtr s2 = ?c" "OS_TASK_CNT s2 = OS_TASK_CNT s" "resource_list s2 = resource_list s"
      "\<forall>u. u \<noteq> ?c \<longrightarrow> task s2 u = task s u" "reactivation (task s2 ?c)"
    using cur(1) by (simp_all add: s2_def s1_def task_upd_task)
  ultimately have "\<exists>s3. Os_Dispatch_leave OP_CHAIN_TASK ?c ?l = Some s3 \<and> Os_core s3
      \<and> currTaskPtr s3 = ?c \<and> OS_TASK_CNT s3 = OS_TASK_CNT s \<and> resource_list s3 = resource_list s
      \<and> (\<forall>u. u \<noteq> ?c \<longrightarrow> task s3 u = task s u) \<and> (state (task s3 ?c) = ST_SUSPENDED \<or> reactivation (task s3 ?c))"
    using tl(1,2) False ch cur(2)
    by (auto simp: Os_Dispatch_leave_def Os_TaskRunningToReady_def s1_def [symmetric] s2_def [symmetric] Let_def word_gt_0)
  then obtain s3 where "Os_Dispatch_leave OP_CHAIN_TASK ?c ?l = Some s3" "Os_core s3"
      "currTaskPtr s3 = ?c" "OS_TASK_CNT s3 = OS_TASK_CNT s" "resource_list s3 = resource_list s"
      "\<And>u. u \<noteq> ?c \<Longrightarrow> task s3 u = task s u" "state (task s3 ?c) = ST_SUSPENDED \<or> reactivation (task s3 ?c)"
    by blast
  then show ?thesis
    by (intro Os_Dispatch_service [OF inv c(2) free, where ?s1.0 = s3]) (auto simp: may_resume_def)
qed

lemma Os_inv_chained [simp]: "Os_inv (s\<lparr>chainedPcbPtr := b\<rparr>) = Os_inv s"
  by (simp add: Os_inv_def)

lemma ChainTask_ok:
  assumes inv: "Os_inv s" and c: "currTaskPtr s \<noteq> PID_IDLE"
    and fin: "fin \<longrightarrow> t = currTaskPtr s \<longrightarrow> Os_TaskGetTop s = Some t"
  shows "service_ok fin s (ChainTask t s)"
proof (cases "Os_SysIntAnyDisabled s \<or> \<not> t < OS_TASK_CNT s \<or> intNestCnt s \<noteq> 0
    \<or> Os_TaskOccupiesResources (currTaskPtr s) s")
  case True
  then show ?thesis using inv by (auto simp: ChainTask_def service_ok_err)
next
  case ok: False
  let ?s = "s\<lparr>irq_enabled := False\<rparr>" and ?c = "currTaskPtr s"
  have inv': "Os_inv ?s" using inv by simp
  have res: "resourceHead (task ?s ?c) = []" using ok by (simp add: Os_TaskOccupiesResources_def)
  have free: "owner (resource_list s ! RES_SCHEDULER s) = None"
    using no_resources_free [OF inv] ok by simp
  show ?thesis
  proof (cases "t \<noteq> ?c \<and> unat (activations (task s t)) + 1 > unat (activationLimit (taskConst s ! t))")
    case True
    then show ?thesis using ok inv
      by (auto simp: ChainTask_def Irq_Save_def Irq_Restore_def intro!: service_ok_errI)
  next
    case False
    have "\<exists>s1. (if ?c \<noteq> t
         then do { s \<leftarrow> (if state (task ?s t) = ST_SUSPENDED
                           then do { ASSERT (activations (task ?s t) = 0);
                                     Some (Os_TaskMakeReady t (Os_Arc_SetCleanContext t ?s)) }
                           else Some ?s);
                   Some (upd_task t (\<lambda>v. v\<lparr>activations := activations v + 1\<rparr>) s) }
         else Some ?s) = Some s1
       \<and> Os_inv s1 \<and> resource_list s1 = resource_list s
       \<and> currTaskPtr s1 = ?c \<and> intNestCnt s1 = intNestCnt s \<and> task s1 ?c = task s ?c
       \<and> (can_resume s \<longrightarrow> can_resume s1) \<and> (t = ?c \<longrightarrow> s1 = ?s)"
      using chain_dest [OF inv', of t] ok False inv by (cases "t = ?c") auto
    then obtain s1 where s1: "(if ?c \<noteq> t
         then do { s \<leftarrow> (if state (task ?s t) = ST_SUSPENDED
                           then do { ASSERT (activations (task ?s t) = 0);
                                     Some (Os_TaskMakeReady t (Os_Arc_SetCleanContext t ?s)) }
                           else Some ?s);
                   Some (upd_task t (\<lambda>v. v\<lparr>activations := activations v + 1\<rparr>) s) }
         else Some ?s) = Some s1"
       "Os_inv s1" "resource_list s1 = resource_list s" "currTaskPtr s1 = ?c" "intNestCnt s1 = intNestCnt s"
       "task s1 ?c = task s ?c" "can_resume s \<longrightarrow> can_resume s1" "t = ?c \<longrightarrow> s1 = ?s"
      by blast
    have "RES_SCHEDULER s1 = RES_SCHEDULER s" using s1(3) by (simp add: RES_SCHEDULER_def)
    moreover have "Os_TaskGetTop (s1\<lparr>chainedPcbPtr := Some t\<rparr>) = Os_TaskGetTop s" if "t = ?c"
      using that s1(8) by (intro GetTop_cong) simp_all
    ultimately have "dispatch_ok fin (s1\<lparr>chainedPcbPtr := Some t\<rparr>) (Os_Dispatch OP_CHAIN_TASK (s1\<lparr>chainedPcbPtr := Some t\<rparr>))"
      using s1 c ok free res fin by (intro chain_dispatch) auto
    moreover have "ChainTask t s = do { s2 \<leftarrow> Os_Dispatch OP_CHAIN_TASK (s1\<lparr>chainedPcbPtr := Some t\<rparr>);
        Some (STATUS_OK, Irq_Restore (irq_enabled s) s2) }"
      using ok False s1(1) by (auto simp: ChainTask_def Irq_Save_def ASSERT_def split: if_splits)
    ultimately show ?thesis using s1(7) ok by (simp add: service_ok_dispatch)
  qed
qed

lemma top_preempt:
  assumes inv: "Os_inv s" and nest: "intNestCnt s = 0"
    and op: "op \<in> {OP_SCHEDULE, OP_RELEASE_RESOURCE}"
  shows "dispatch_ok fin s (do { top \<leftarrow> Os_TaskGetTop s;
                     if activePriority (task s top) > activePriority (task s (currTaskPtr s))
                     then Os_Dispatch op s else Some s })"
proof -
  obtain m where m: "Os_TaskGetTop s = Some m" "first_max s (ready_head s) m"
    using GetTop_first_max core_ready inv unfolding Os_inv_def by blast
  show ?thesis
  proof (cases "activePriority (task s m) > activePriority (task s (currTaskPtr s))")
    case True
    then show ?thesis using Os_Dispatch_preempt [OF inv nest True, of op] op m(1) by auto
  next
    case False
    then have "sched_ok s"
      using first_max_le [OF m(2)] by (auto simp: sched_ok_def not_less intro: order_trans)
    then show ?thesis using False m(1) inv by (simp add: dispatch_ok_def)
  qed
qed

lemma Schedule_ok:
  assumes inv: "Os_inv s"
  shows "service_ok fin s (Schedule s)"
proof (cases "Os_SysIntAnyDisabled s \<or> intNestCnt s \<noteq> 0 \<or> Os_TaskOccupiesResources (currTaskPtr s) s")
  case True
  then show ?thesis using inv by (auto simp: Schedule_def service_ok_err)
next
  case ok: False
  let ?s = "s\<lparr>irq_enabled := False\<rparr>"
  have run: "state (task s (currTaskPtr s)) = ST_RUNNING" using inv by (simp add: Os_inv_def)
  have "dispatch_ok fin ?s (do { top \<leftarrow> Os_TaskGetTop ?s;
                     if activePriority (task ?s top) > activePriority (task ?s (currTaskPtr ?s))
                     then Os_Dispatch OP_SCHEDULE ?s else Some ?s })" (is "dispatch_ok _ _ ?r")
    using inv ok by (intro top_preempt) auto
  then have "service_ok fin s (do { s2 \<leftarrow> ?r; Some (STATUS_OK, Irq_Restore (irq_enabled s) s2) })"
    using ok by (intro service_ok_dispatch [of fin ?s]) auto
  moreover have "service_ok fin s (Some (STATUS_OK, s))" using inv by (simp add: service_ok_def)
  ultimately show ?thesis
    using ok run by (simp add: Schedule_def Irq_Save_def)
qed

subsection \<open>Events\<close>

text \<open>A change of a task that concerns neither its state nor its priority.\<close>

lemma Os_inv_neutral:
  assumes inv: "Os_inv s" and t: "t < OS_TASK_CNT s"
    and f: "\<And>v. resourceHead (f v) = resourceHead v" "\<And>v. activePriority (f v) = activePriority v"
      "\<And>v. state (f v) = state v" "\<And>v. activations (f v) = activations v"
  shows "Os_inv (upd_task t f s)" and "sched_ok (upd_task t f s) = sched_ok s"
proof -
  have core: "Os_core s" and c: "state (task s (currTaskPtr s)) = ST_RUNNING"
    using inv by (simp_all add: Os_inv_def)
  have ok: "task_ok s t" using core t by (simp add: Os_core_def)
  have "task_ok (upd_task t f s) t"
    by (rule task_okI [OF ok]) (use t ok f in \<open>simp_all add: task_upd_task task_ok_def\<close>)
  then have "Os_core (upd_task t f s)" using t f by (intro Os_core_upd_task [OF core]) simp_all
  then show "Os_inv (upd_task t f s)"
    using c t f by (intro Os_inv_same [OF inv]) (auto simp: task_upd_task)
  show "sched_ok (upd_task t f s) = sched_ok s"
    using t f by (auto simp: sched_ok_def task_upd_task)
qed

lemma ClearEvent_ok:
  assumes "Os_inv s"
  shows "service_ok fin s (Some (ClearEvent m s))"
proof -
  let ?s = "s\<lparr>irq_enabled := False\<rparr>"
  let ?f = "\<lambda>v :: OsTaskVar. v\<lparr>ev_set := ev_set v AND NOT m\<rparr>"
  have lt: "currTaskPtr s < OS_TASK_CNT ?s" and inv': "Os_inv ?s" using assms by (simp_all add: Os_inv_def)
  have "Os_inv (upd_task (currTaskPtr s) ?f ?s)" "sched_ok (upd_task (currTaskPtr s) ?f ?s) = sched_ok s"
    using Os_inv_neutral [OF inv' lt, of ?f] by simp_all
  moreover have "can_resume s \<longrightarrow> can_resume (upd_task (currTaskPtr s) ?f ?s)"
    by (intro impI can_resume_upd) (simp_all add: may_resume_def)
  ultimately show ?thesis
    using assms by (auto simp: ClearEvent_def Irq_Save_def Let_def service_ok_err intro!: service_okI)
qed

lemma WaitEvent_ok:
  assumes inv: "Os_inv s" and c: "currTaskPtr s \<noteq> PID_IDLE"
  shows "service_ok fin s (WaitEvent m s)"
proof (cases "Os_SysIntAnyDisabled s \<or> intNestCnt s \<noteq> 0
    \<or> proc_type (taskConst s ! currTaskPtr s) \<noteq> PROC_EXTENDED \<or> Os_TaskOccupiesResources (currTaskPtr s) s")
  case True
  then show ?thesis using inv by (auto simp: WaitEvent_def Let_def service_ok_err)
next
  case ok: False
  let ?c = "currTaskPtr s" and ?f = "\<lambda>v :: OsTaskVar. v\<lparr>ev_wait := m\<rparr>"
  define s1 where "s1 = upd_task ?c ?f (s\<lparr>irq_enabled := False\<rparr>)"
  let ?l = "log_ev (PostTaskHook ?c) s1"
  define s2 where "s2 = Os_ReadyQRemove ?c (upd_task ?c (\<lambda>v. v\<lparr>state := ST_WAIT_EVENT\<rparr>) ?l)"
  have lt: "?c < OS_TASK_CNT s" and run: "state (task s ?c) = ST_RUNNING" using inv by (simp_all add: Os_inv_def)
  have inv1: "Os_inv s1" using Os_inv_neutral [of "s\<lparr>irq_enabled := False\<rparr>" ?c ?f] inv lt by (simp add: s1_def)
  have core: "Os_core ?l" using inv1 by (simp add: Os_inv_def)
  moreover have "?c < OS_TASK_CNT ?l" using lt by (simp add: s1_def)
  ultimately have ok1: "task_ok ?l ?c" unfolding Os_core_def by blast
  have t1: "task s1 u = (if u = ?c then (task s ?c)\<lparr>ev_wait := m\<rparr> else task s u)" for u
    using lt by (simp add: s1_def task_upd_task)
  have t2: "task s2 u = (if u = ?c then (task s1 ?c)\<lparr>state := ST_WAIT_EVENT\<rparr> else task s1 u)" for u
    using lt by (simp add: s2_def Os_ReadyQRemove_def s1_def task_upd_task)
  have eq: "OS_TASK_CNT s2 = OS_TASK_CNT s" "taskConst s2 = taskConst s" "resource_list s2 = resource_list s"
      "ready_head s2 = remove1 ?c (ready_head s)" "currTaskPtr s2 = ?c"
    by (simp_all add: s2_def Os_ReadyQRemove_def s1_def)
  have eq1: "OS_TASK_CNT s1 = OS_TASK_CNT s" "taskConst s1 = taskConst s" "resource_list s1 = resource_list s"
      "ready_head s1 = ready_head s" "currTaskPtr s1 = ?c" "intNestCnt s1 = intNestCnt s"
    by (simp_all add: s1_def)
  have ok2: "task_ok s2 ?c"
    by (rule task_okI [OF ok1]) (use ok ok1 run t1 [of ?c] t2 [of ?c] eq eq1 in
        \<open>simp_all add: task_ok_def Os_TaskOccupiesResources_def\<close>)
  have "Os_core s2"
    by (rule Os_core_leave [of ?l ?c]) (use core c lt ok2 eq eq1 t2 in \<open>simp_all add: is_ready_or_running_def\<close>)
  moreover have "Os_Dispatch_leave OP_WAIT_EVENT ?c ?l = Some s2"
    using run t1 [of ?c] by (simp add: Os_Dispatch_leave_def Os_TaskMakeWaiting_def s2_def is_ready_or_running_def)
  moreover have "owner (resource_list s1 ! RES_SCHEDULER s1) = None"
    using no_resources_free [OF inv] ok eq1 by (simp add: RES_SCHEDULER_def)
  ultimately have "dispatch_ok fin s1 (Os_Dispatch OP_WAIT_EVENT s1)"
    using ok eq eq1 t2 run t1 [of ?c]
    by (intro Os_Dispatch_service [OF inv1, where ?s1.0 = s2]) (auto simp: may_resume_def)
  moreover have "can_resume s \<longrightarrow> can_resume s1"
    unfolding s1_def by (intro impI can_resume_upd) (simp_all add: may_resume_def)
  ultimately have "service_ok fin s (do { s2 \<leftarrow> Os_Dispatch OP_WAIT_EVENT s1; Some (STATUS_OK, Irq_Restore (irq_enabled s) s2) })"
    using ok by (intro service_ok_dispatch) simp_all
  moreover have "service_ok fin s (Some (STATUS_OK, Irq_Restore (irq_enabled s) (s\<lparr>irq_enabled := False\<rparr>)))"
    using inv by (intro service_okI) simp_all
  ultimately show ?thesis
    using ok by (simp add: WaitEvent_def Irq_Save_def Let_def s1_def [symmetric])
qed

lemma SetEvent_ok:
  assumes inv: "Os_inv s" and en: "\<not> Os_SysIntAnyDisabled s"
  shows "service_ok fin s (SetEvent t m s)"
proof (cases "\<not> t < OS_TASK_CNT s \<or> proc_type (taskConst s ! t) \<noteq> PROC_EXTENDED
    \<or> state (task s t) = ST_SUSPENDED")
  case True
  then show ?thesis using inv by (auto simp: SetEvent_def service_ok_err)
next
  case ok: False
  let ?c = "currTaskPtr s" and ?f = "\<lambda>v :: OsTaskVar. v\<lparr>ev_set := ev_set v OR m\<rparr>"
  define s1 where "s1 = upd_task t ?f (s\<lparr>irq_enabled := False\<rparr>)"
  have t: "t < OS_TASK_CNT s" using ok by simp
  have inv1: "Os_inv s1" and sch: "sched_ok s1 = sched_ok s"
    using Os_inv_neutral [of "s\<lparr>irq_enabled := False\<rparr>" t ?f] inv t by (simp_all add: s1_def)
  have resume: "can_resume s \<longrightarrow> can_resume s1"
    unfolding s1_def by (intro impI can_resume_upd) (simp_all add: may_resume_def)
  have t1: "task s1 u = (if u = t then ?f (task s t) else task s u)" for u
    using t by (simp add: s1_def task_upd_task)
  have eq1: "OS_TASK_CNT s1 = OS_TASK_CNT s" "taskConst s1 = taskConst s" "resource_list s1 = resource_list s"
      "ready_head s1 = ready_head s" "currTaskPtr s1 = ?c" "intNestCnt s1 = intNestCnt s"
      "Os_SysIntAnyDisabled s1 = Os_SysIntAnyDisabled s"
    by (simp_all add: s1_def Os_SysIntAnyDisabled_def)
  show ?thesis
  proof (cases "m AND ev_wait (task s1 t) \<noteq> 0 \<and> state (task s1 t) = ST_WAIT_EVENT")
    case False
    then have "SetEvent t m s = Some (STATUS_OK, Irq_Restore (irq_enabled s) s1)"
      using ok unfolding SetEvent_def Irq_Save_def Let_def s1_def by auto
    then show ?thesis using inv1 sch resume by (simp add: service_okI)
  next
    case True
    define s2 where "s2 = Os_TaskMakeReady t s1"
    note defs = s2_def Os_TaskMakeReady_def Os_ReadyQEnqueue_def is_ready_or_running_def
    have lt: "t < OS_TASK_CNT s1" and core: "Os_core s1" and np: "\<not> is_ready_or_running (state (task s1 t))"
      using t inv1 True by (simp_all add: eq1 Os_inv_def is_ready_or_running_def)
    have ok1: "task_ok s1 t" using core lt by (simp add: Os_core_def)
    have t2: "task s2 u = (if u = t then (task s1 t)\<lparr>state := ST_READY\<rparr> else task s1 u)" for u
      using lt True by (simp add: defs task_upd_task)
    have eq: "OS_TASK_CNT s2 = OS_TASK_CNT s" "taskConst s2 = taskConst s" "resource_list s2 = resource_list s"
        "ready_head s2 = ready_head s @ [t]" "currTaskPtr s2 = ?c" "intNestCnt s2 = intNestCnt s"
        "Os_SysIntAnyDisabled s2 = Os_SysIntAnyDisabled s"
      using True eq1 by (simp_all add: defs Os_SysIntAnyDisabled_def)
    have "Os_core s2"
      by (rule Os_core_wake [OF core lt np]) (use eq eq1 t2 ok1 True in \<open>simp_all add: task_ok_def\<close>)
    moreover have "?c \<noteq> t" "state (task s1 ?c) = ST_RUNNING" using True inv1 by (auto simp: Os_inv_def eq1)
    ultimately have inv2: "Os_inv s2"
      using t2 eq eq1 by (intro Os_inv_same [OF inv1]) simp_all
    let ?b = "intNestCnt s2 = 0 \<and> scheduling (taskConst s2 ! ?c) = FULL
      \<and> activePriority (task s2 t) > activePriority (task s2 ?c)"
    have res: "SetEvent t m s = do { s2 \<leftarrow> (if ?b then Os_Dispatch OP_SET_EVENT s2 else Some s2);
        Some (STATUS_OK, Irq_Restore (irq_enabled s) s2) }"
      using ok True en eq(5,7)
      by (simp add: SetEvent_def Irq_Save_def Let_def s1_def [symmetric] s2_def [symmetric])
    have pr: "activePriority (task s2 u) = activePriority (task s u)" for u by (simp add: t1 t2)
    have rest: "sched_ok s \<Longrightarrow> \<not> ?b \<Longrightarrow> sched_ok s2"
      using eq pr by (intro sched_ok_ready [of s s2 t]) auto
    have "can_resume s1 \<Longrightarrow> can_resume s2"
      by (rule can_resume_one [of s1 s2 t]) (use eq eq1 t2 True in \<open>auto simp: may_resume_def\<close>)
    then show ?thesis
      unfolding res using preempt_test [OF inv2, of OP_SET_EVENT ?b t s] rest resume eq(6) by (simp add: eq(5))
  qed
qed

subsection \<open>Resources\<close>

lemma upd_res_sel [simp]:
  "Os_TaskVarList (upd_res r f s) = Os_TaskVarList s" "taskConst (upd_res r f s) = taskConst s"
  "ready_head (upd_res r f s) = ready_head s" "currTaskPtr (upd_res r f s) = currTaskPtr s"
  "intNestCnt (upd_res r f s) = intNestCnt s" "length (resource_list (upd_res r f s)) = length (resource_list s)"
  "RES_SCHEDULER (upd_res r f s) = RES_SCHEDULER s"
  by (simp_all add: upd_res_def RES_SCHEDULER_def)

lemma res_upd_res:
  "r < length (resource_list s) \<Longrightarrow>
     resource_list (upd_res r f s) ! q = (if q = r then f (resource_list s ! r) else resource_list s ! q)"
  by (simp add: upd_res_def)

lemma held_append:
  "held_prio s p (rs @ [r]) = ceiling_priority (resource_list s ! r)"
  "held_ok s p (rs @ [r]) \<longleftrightarrow> held_ok s p rs \<and> old_task_prio (resource_list s ! r) = held_prio s p rs
     \<and> held_prio s p rs \<le> ceiling_priority (resource_list s ! r)"
  by (induction rs arbitrary: p) auto

lemma held_other:
  assumes "\<And>q. q \<in> set rs \<Longrightarrow> resource_list s' ! q = resource_list s ! q"
  shows "held_prio s' p rs = held_prio s p rs" and "held_ok s' p rs = held_ok s p rs"
  using assms by (induction rs arbitrary: p) auto

text \<open>A change of one resource and of the list of the task that takes or releases it.\<close>

lemma Os_core_res:
  assumes core: "Os_core s" and t: "t < OS_TASK_CNT s" and r: "r < length (resource_list s)"
    and own: "owner (resource_list s ! r) \<in> {None, Some t}"
    and same: "taskConst s' = taskConst s" "ready_head s' = ready_head s" "OS_TASK_CNT s' = OS_TASK_CNT s"
      "length (resource_list s') = length (resource_list s)"
      "\<And>q. q \<noteq> r \<Longrightarrow> resource_list s' ! q = resource_list s ! q" "\<And>u. u \<noteq> t \<Longrightarrow> task s' u = task s u"
    and res: "ceiling_priority (resource_list s' ! r) = ceiling_priority (resource_list s ! r)"
      "res_type (resource_list s' ! r) = res_type (resource_list s ! r)"
      "\<And>u. owner (resource_list s' ! r) = Some u \<Longrightarrow> u = t \<and> r \<in> set (resourceHead (task s' t))"
    and new: "state (task s' t) = state (task s t)" "task_ok s' t"
      "\<And>q. q \<noteq> r \<Longrightarrow> q \<in> set (resourceHead (task s t)) \<Longrightarrow> q \<in> set (resourceHead (task s' t))"
  shows "Os_core s'"
proof -
  have cfg: "cfg_ok s" and ok: "\<And>u. u < OS_TASK_CNT s \<Longrightarrow> task_ok s u"
    using core by (simp_all add: Os_core_def)
  have st: "state (task s' u) = state (task s u)" for u using new(1) same(6) by (cases "u = t") simp_all
  have ty: "res_type (resource_list s' ! q) = res_type (resource_list s ! q)"
    and ce: "ceiling_priority (resource_list s' ! q) = ceiling_priority (resource_list s ! q)" for q
    using res(1,2) same(5) by (cases "q = r"; simp)+
  have "res_type x \<noteq> RESOURCE_TYPE_INTERNAL" if "x \<in> set (resource_list s')" for x
    using that cfg ty same(4) by (auto simp: cfg_ok_def in_set_conv_nth [of x])
  moreover have "resource_list s' \<noteq> []" using r same(4) by auto
  ultimately have c: "cfg_ok s'" using cfg same ce by (simp add: cfg_ok_def RES_SCHEDULER_def)
  have o: "task_ok s' u" if "u < OS_TASK_CNT s" for u
  proof (cases "u = t")
    case False
    have old: "task_ok s u" using ok that .
    have ne: "q \<noteq> r" if "q \<in> set (resourceHead (task s u))" for q
      using old own that False by (auto simp: task_ok_def)
    then have "resource_list s' ! q = resource_list s ! q" if "q \<in> set (resourceHead (task s u))" for q
      using that same(5) by blast
    then show ?thesis
      using held_other [of "resourceHead (task s u)" s' s] old False same by (simp add: task_ok_def)
  qed (simp add: new(2))
  have w: "u < OS_TASK_CNT s \<and> q \<in> set (resourceHead (task s' u))"
    if "q < length (resource_list s)" "owner (resource_list s' ! q) = Some u" for q u
  proof (cases "q = r")
    case False
    then have "u < OS_TASK_CNT s \<and> q \<in> set (resourceHead (task s u))"
      using that core same(5) by (simp add: Os_core_def)
    then show ?thesis using new(3) False same(6) by (cases "u = t") simp_all
  qed (use that res(3) t in blast)
  show ?thesis
    unfolding Os_core_def same(2-4) st using core [unfolded Os_core_def] c o w by blast
qed

lemma ResourceAdd_sel:
  assumes "res_type (resource_list s ! r) \<noteq> RESOURCE_TYPE_INTERNAL" "r < length (resource_list s)" "t < OS_TASK_CNT s"
  shows "task (Os_TaskResourceAdd r t s) u =
      (if u = t then (task s t)\<lparr>activePriority := ceiling_priority (resource_list s ! r),
         resourceHead := resourceHead (task s t) @ [r]\<rparr> else task s u)"
    and "resource_list (Os_TaskResourceAdd r t s) ! q = (if q = r then (resource_list s ! r)\<lparr>owner := Some t,
      old_task_prio := activePriority (task s t)\<rparr> else resource_list s ! q)"
    and "taskConst (Os_TaskResourceAdd r t s) = taskConst s" "ready_head (Os_TaskResourceAdd r t s) = ready_head s"
      "OS_TASK_CNT (Os_TaskResourceAdd r t s) = OS_TASK_CNT s"
      "length (resource_list (Os_TaskResourceAdd r t s)) = length (resource_list s)"
      "currTaskPtr (Os_TaskResourceAdd r t s) = currTaskPtr s" "intNestCnt (Os_TaskResourceAdd r t s) = intNestCnt s"
      "RES_SCHEDULER (Os_TaskResourceAdd r t s) = RES_SCHEDULER s"
      "Os_SysIntAnyDisabled (Os_TaskResourceAdd r t s) = Os_SysIntAnyDisabled s"
  using assms
  by (simp_all add: Os_TaskResourceAdd_def Let_def res_upd_res task_upd_task Os_SysIntAnyDisabled_def)
    (simp_all add: upd_res_def)

lemma ResourceAdd_inv:
  assumes inv: "Os_inv s" and r: "r < length (resource_list s)" "owner (resource_list s ! r) = None"
    and pr: "activePriority (task s (currTaskPtr s)) \<le> ceiling_priority (resource_list s ! r)"
  shows "Os_inv (Os_TaskResourceAdd r (currTaskPtr s) s)"
    and "sched_ok s \<Longrightarrow> sched_ok (Os_TaskResourceAdd r (currTaskPtr s) s)"
    and "can_resume s \<Longrightarrow> can_resume (Os_TaskResourceAdd r (currTaskPtr s) s)"
proof -
  let ?t = "currTaskPtr s" and ?c = "ceiling_priority (resource_list s ! r)"
  define s' where "s' = Os_TaskResourceAdd r ?t s"
  have core: "Os_core s" and t: "?t < OS_TASK_CNT s" "state (task s ?t) = ST_RUNNING"
    and sch: "owner (resource_list s ! RES_SCHEDULER s) \<in> {None, Some ?t}"
    using inv by (simp_all add: Os_inv_def)
  have ok: "task_ok s ?t" using core t by (simp add: Os_core_def)
  have ni: "res_type (resource_list s ! r) \<noteq> RESOURCE_TYPE_INTERNAL"
    using core r by (simp add: Os_core_def cfg_ok_def)
  have nin: "r \<notin> set (resourceHead (task s ?t))" using ok r by (auto simp: task_ok_def)
  note sel = ResourceAdd_sel [OF ni r(1) t(1), folded s'_def]
  note t' = sel(1) and r' = sel(2) and eq = sel(3-9)
  have h: "held_prio s' p (resourceHead (task s ?t)) = held_prio s p (resourceHead (task s ?t))"
      "held_ok s' p (resourceHead (task s ?t)) = held_ok s p (resourceHead (task s ?t))" for p
    by (rule held_other; use nin r' in force)+
  have "task_ok s' ?t"
    using ok nin r pr t(2) eq
    by (auto simp: task_ok_def t' r' held_append h is_ready_or_running_def)
  then have "Os_core s'"
    by (intro Os_core_res [OF core t(1) r(1)]) (use r eq t' r' in auto)
  then show "Os_inv (Os_TaskResourceAdd r ?t s)"
    using eq t t' r' sch r unfolding s'_def [symmetric] by (auto simp: Os_inv_def)
  show "can_resume (Os_TaskResourceAdd r ?t s)" if "can_resume s"
    using that unfolding s'_def [symmetric] by (rule can_resume_one [of s s' ?t]) (use eq t' in \<open>auto simp: may_resume_def\<close>)
  show "sched_ok (Os_TaskResourceAdd r ?t s)" if "sched_ok s"
    using that pr unfolding s'_def [symmetric] by (auto simp: sched_ok_def eq t' intro: order_trans)
qed

lemma core_res_ne: "Os_core s \<Longrightarrow> resource_list s \<noteq> []"
  by (simp add: Os_core_def cfg_ok_def)

lemma GetResource_ok:
  assumes inv: "Os_inv s" and free: "r = RES_SCHEDULER s \<longrightarrow> owner (resource_list s ! r) = None"
  shows "service_ok fin s (Some (GetResource r s))"
proof -
  let ?s = "s\<lparr>irq_enabled := False\<rparr>" and ?t = "currTaskPtr s"
  let ?bad = "r \<noteq> RES_SCHEDULER s \<and> (resourceAccess (taskConst s ! ?t) AND push_bit r 1 = 0
      \<or> owner (resource_list s ! r) \<noteq> None \<or> activePriority (task s ?t) > ceiling_priority (resource_list s ! r))"
  show ?thesis
  proof (cases "Os_SysIntAnyDisabled s \<or> \<not> r \<le> RES_SCHEDULER s \<or> intNestCnt s \<noteq> 0 \<or> ?bad")
    case True
    then show ?thesis
      using inv by (auto simp: GetResource_def Irq_Save_def Irq_Restore_def Let_def intro!: service_ok_errI)
  next
    case False
    have inv': "Os_inv ?s" using inv by simp
    have lt: "r < length (resource_list ?s)"
      using False core_res_ne [of s] inv by (cases "resource_list s") (auto simp: Os_inv_def RES_SCHEDULER_def)
    have top: "r = RES_SCHEDULER s \<longrightarrow> ceiling_priority (resource_list s ! r) = - 1"
      using inv by (simp add: Os_inv_def Os_core_def cfg_ok_def OS_RES_SCHEDULER_PRIO_def)
    have own: "owner (resource_list ?s ! r) = None" using False free by auto
    have pr: "activePriority (task ?s (currTaskPtr ?s)) \<le> ceiling_priority (resource_list ?s ! r)"
      using False top by (cases "r = RES_SCHEDULER s") (auto simp: not_less)
    note add = ResourceAdd_inv [OF inv' lt own pr]
    have "GetResource r s = (STATUS_OK, Irq_Restore (irq_enabled s) (Os_TaskResourceAdd r ?t ?s))"
      using False by (auto simp: GetResource_def Irq_Save_def Let_def)
    then show ?thesis using add by (simp add: service_okI)
  qed
qed

text \<open>Releasing the resource taken last.\<close>

lemma ResourceRemove_inv:
  assumes inv: "Os_inv s" and h: "resourceHead (task s (currTaskPtr s)) = rs @ [r]"
  shows "activePriority (task s (currTaskPtr s)) = ceiling_priority (resource_list s ! r)"
    and "\<exists>s'. Os_TaskResourceRemove r (currTaskPtr s) s = Some s' \<and> Os_inv s'
      \<and> currTaskPtr s' = currTaskPtr s \<and> intNestCnt s' = intNestCnt s \<and> taskConst s' = taskConst s
      \<and> resource_list s' = (resource_list s)[r := (resource_list s ! r)\<lparr>owner := None\<rparr>]
      \<and> task s' (currTaskPtr s) = (task s (currTaskPtr s))
          \<lparr>activePriority := old_task_prio (resource_list s ! r), resourceHead := rs\<rparr>
      \<and> (can_resume s \<longrightarrow> can_resume s')"
proof -
  let ?t = "currTaskPtr s" and ?o = "old_task_prio (resource_list s ! r)"
  have core: "Os_core s" and t: "?t < OS_TASK_CNT s" "state (task s ?t) = ST_RUNNING"
    and sch: "owner (resource_list s ! RES_SCHEDULER s) \<in> {None, Some ?t}"
    using inv by (simp_all add: Os_inv_def)
  have ok: "task_ok s ?t" using core t by (simp add: Os_core_def)
  have r: "r < length (resource_list s)" "owner (resource_list s ! r) = Some ?t"
    and nin: "r \<notin> set rs" and old: "?o = held_prio s (prio (taskConst s ! ?t)) rs"
    using ok h by (simp_all add: task_ok_def held_append)
  show "activePriority (task s ?t) = ceiling_priority (resource_list s ! r)"
    using ok h by (simp add: task_ok_def held_append)
  have ni: "res_type (resource_list s ! r) \<noteq> RESOURCE_TYPE_INTERNAL"
    using core r by (simp add: Os_core_def cfg_ok_def)
  define s' where "s' = upd_task ?t (\<lambda>v. v\<lparr>resourceHead := remove1 r (resourceHead v)\<rparr>)
      (upd_task ?t (\<lambda>v. v\<lparr>activePriority := ?o\<rparr>) (upd_res r (\<lambda>x. x\<lparr>owner := None\<rparr>) s))"
  have res: "Os_TaskResourceRemove r ?t s = Some s'"
    using r ni t h by (simp add: Os_TaskResourceRemove_def s'_def res_upd_res task_upd_task)
  have t': "task s' u = (if u = ?t then (task s ?t)\<lparr>activePriority := ?o, resourceHead := rs\<rparr> else task s u)" for u
    using t h nin by (simp add: s'_def task_upd_task remove1_append)
  have r': "resource_list s' ! q = (if q = r then (resource_list s ! r)\<lparr>owner := None\<rparr> else resource_list s ! q)" for q
    using r by (simp add: s'_def res_upd_res)
  have eq: "taskConst s' = taskConst s" "ready_head s' = ready_head s" "OS_TASK_CNT s' = OS_TASK_CNT s"
      "length (resource_list s') = length (resource_list s)" "currTaskPtr s' = ?t" "intNestCnt s' = intNestCnt s"
      "RES_SCHEDULER s' = RES_SCHEDULER s"
    by (simp_all add: s'_def)
  have hd: "held_prio s' p rs = held_prio s p rs" "held_ok s' p rs = held_ok s p rs" for p
    by (rule held_other; use nin r' in force)+
  have "task_ok s' ?t"
    using ok h nin t(2) eq old
    by (auto simp: task_ok_def t' r' held_append hd is_ready_or_running_def)
  then have "Os_core s'"
    by (intro Os_core_res [OF core t(1) r(1)]) (use r h eq t' r' in auto)
  then have "Os_inv s'"
    using eq t t' r' sch r by (auto simp: Os_inv_def)
  moreover have "resource_list s' = (resource_list s)[r := (resource_list s ! r)\<lparr>owner := None\<rparr>]"
    by (simp add: s'_def upd_res_def)
  moreover have "can_resume s \<Longrightarrow> can_resume s'"
    by (rule can_resume_one [of s s' ?t]) (use eq t' in \<open>auto simp: may_resume_def\<close>)
  ultimately show "\<exists>s'. Os_TaskResourceRemove r ?t s = Some s' \<and> Os_inv s'
      \<and> currTaskPtr s' = ?t \<and> intNestCnt s' = intNestCnt s \<and> taskConst s' = taskConst s
      \<and> resource_list s' = (resource_list s)[r := (resource_list s ! r)\<lparr>owner := None\<rparr>]
      \<and> task s' ?t = (task s ?t)\<lparr>activePriority := ?o, resourceHead := rs\<rparr> \<and> (can_resume s \<longrightarrow> can_resume s')"
    using res eq t' by simp
qed

lemma ReleaseResource_ok:
  assumes inv: "Os_inv s" and lifo: "owner (resource_list s ! r) = None \<or>
      (\<exists>rs. resourceHead (task s (currTaskPtr s)) = rs @ [r])"
  shows "service_ok fin s (ReleaseResource r s)"
proof -
  let ?s = "s\<lparr>irq_enabled := False\<rparr>" and ?t = "currTaskPtr s"
  let ?bad = "r \<noteq> RES_SCHEDULER s \<and> resourceAccess (taskConst s ! ?t) AND push_bit r 1 = 0"
  show ?thesis
  proof (cases "Os_SysIntAnyDisabled s \<or> \<not> r \<le> RES_SCHEDULER s \<or> intNestCnt s \<noteq> 0 \<or> ?bad
      \<or> owner (resource_list s ! r) = None")
    case True
    then show ?thesis
      using inv by (auto simp: ReleaseResource_def Irq_Save_def Irq_Restore_def Let_def intro!: service_ok_errI)
  next
    case False
    then obtain rs where h: "resourceHead (task ?s (currTaskPtr ?s)) = rs @ [r]" using lifo by auto
    have inv': "Os_inv ?s" using inv by simp
    obtain s' where s': "Os_TaskResourceRemove r ?t ?s = Some s'" "Os_inv s'" "currTaskPtr s' = ?t"
        "intNestCnt s' = intNestCnt s" "taskConst s' = taskConst s" "can_resume s \<longrightarrow> can_resume s'"
      using ResourceRemove_inv(2) [OF inv' h] by auto
    let ?x = "if scheduling (taskConst s ! ?t) = FULL
       then do { top \<leftarrow> Os_TaskGetTop s';
                 if activePriority (task s' top) > activePriority (task s' (currTaskPtr s'))
                 then Os_Dispatch OP_RELEASE_RESOURCE s' else Some s' }
       else Some s'"
    have "sched_ok s'" if "scheduling (taskConst s ! ?t) \<noteq> FULL"
      using that s' by (simp add: sched_ok_def)
    then have "dispatch_ok fin s' ?x"
      using top_preempt [of s' OP_RELEASE_RESOURCE] s' False
      by (cases "scheduling (taskConst s ! ?t) = FULL") (simp_all add: dispatch_ok_def [of _ _ "Some s'"])
    then have "service_ok fin s (do { s3 \<leftarrow> ?x; Some (STATUS_OK, Irq_Restore (irq_enabled s) s3) })"
      using s'(6) False by (intro service_ok_dispatch) auto
    moreover have pr: "ceiling_priority (resource_list s ! r) \<le> activePriority (task s ?t)"
      using ResourceRemove_inv(1) [OF inv' h] by simp
    moreover have "ReleaseResource r s = (do { s3 \<leftarrow> ?x; Some (STATUS_OK, Irq_Restore (irq_enabled s) s3) })"
      using False pr s' by (auto simp: ReleaseResource_def Irq_Save_def Let_def)
    ultimately show ?thesis by simp
  qed
qed

subsection \<open>Reachable states\<close>

text \<open>The services that can change the schedule, called at any time by the running task or an interrupt.\<close>

datatype os_call = Call_ActivateTask nat | Call_TerminateTask | Call_ChainTask nat | Call_Schedule
  | Call_WaitEvent EventMaskType | Call_SetEvent nat EventMaskType | Call_ClearEvent EventMaskType
  | Call_GetResource nat | Call_ReleaseResource nat

primrec os_service :: "os_call \<Rightarrow> 'a Os_Sys_scheme \<Rightarrow> (StatusType \<times> 'a Os_Sys_scheme) option" where
  "os_service (Call_ActivateTask t) s = ActivateTask t s"
| "os_service Call_TerminateTask s = TerminateTask s"
| "os_service (Call_ChainTask t) s = ChainTask t s"
| "os_service Call_Schedule s = Schedule s"
| "os_service (Call_WaitEvent m) s = WaitEvent m s"
| "os_service (Call_SetEvent t m) s = SetEvent t m s"
| "os_service (Call_ClearEvent m) s = Some (ClearEvent m s)"
| "os_service (Call_GetResource r) s = Some (GetResource r s)"
| "os_service (Call_ReleaseResource r) s = ReleaseResource r s"

definition os_exec :: "os_call \<Rightarrow> 'a Os_Sys_scheme \<Rightarrow> 'a Os_Sys_scheme option" where
  "os_exec c s = map_option snd (os_service c s)"

text \<open>
  What the services take for granted: the idle task neither ends nor waits; the scheduler
  resource is not taken twice; an occupied resource is released by its owner, last taken
  first; events are set with interrupts enabled.
\<close>

primrec os_legal :: "os_call \<Rightarrow> 'a Os_Sys_scheme \<Rightarrow> bool" where
  "os_legal (Call_ActivateTask t) s = True"
| "os_legal Call_TerminateTask s = (currTaskPtr s \<noteq> PID_IDLE)"
| "os_legal (Call_ChainTask t) s = (currTaskPtr s \<noteq> PID_IDLE)"
| "os_legal Call_Schedule s = True"
| "os_legal (Call_WaitEvent m) s = (currTaskPtr s \<noteq> PID_IDLE)"
| "os_legal (Call_SetEvent t m) s = (\<not> Os_SysIntAnyDisabled s)"
| "os_legal (Call_ClearEvent m) s = True"
| "os_legal (Call_GetResource r) s = (r = RES_SCHEDULER s \<longrightarrow> owner (resource_list s ! r) = None)"
| "os_legal (Call_ReleaseResource r) s =
     (owner (resource_list s ! r) = None
      \<or> (resourceHead (task s (currTaskPtr s)) \<noteq> [] \<and> last (resourceHead (task s (currTaskPtr s))) = r))"

text \<open>
  A task ends its current activation for good when it is suspended or starts again at once. The
  code does not provide for the rest: a task that has activations left, or that chains itself,
  while another task is first in line.
\<close>

primrec os_ends :: "os_call \<Rightarrow> 'a Os_Sys_scheme \<Rightarrow> bool" where
  "os_ends (Call_ActivateTask t) s = True"
| "os_ends Call_TerminateTask s =
     (1 < activations (task s (currTaskPtr s)) \<longrightarrow> Os_TaskGetTop s = Some (currTaskPtr s))"
| "os_ends (Call_ChainTask t) s = (t = currTaskPtr s \<longrightarrow> Os_TaskGetTop s = Some t)"
| "os_ends Call_Schedule s = True"
| "os_ends (Call_WaitEvent m) s = True"
| "os_ends (Call_SetEvent t m) s = True"
| "os_ends (Call_ClearEvent m) s = True"
| "os_ends (Call_GetResource r) s = True"
| "os_ends (Call_ReleaseResource r) s = True"

definition os_proper :: "os_call \<Rightarrow> 'a Os_Sys_scheme \<Rightarrow> bool" where
  "os_proper c s \<longleftrightarrow> os_legal c s \<and> os_ends c s"

lemma os_service_ok: "Os_inv s \<Longrightarrow> os_legal c s \<Longrightarrow> service_ok (os_ends c s) s (os_service c s)"
proof (induction c)
  case (Call_ReleaseResource r)
  have "\<exists>rs. resourceHead (task s (currTaskPtr s)) = rs @ [r]"
    if "resourceHead (task s (currTaskPtr s)) \<noteq> []" "last (resourceHead (task s (currTaskPtr s))) = r"
    using that append_butlast_last_id by metis
  then show ?case using Call_ReleaseResource by (auto intro: ReleaseResource_ok)
qed (simp_all add: ActivateTask_ok TerminateTask_ok ChainTask_ok Schedule_ok WaitEvent_ok SetEvent_ok
    ClearEvent_ok GetResource_ok)

interpretation kernel: kept_steps os_legal os_exec "\<lambda>s. Os_inv s \<and> sched_ok s"
proof
  fix s s' :: "'a Os_Sys_scheme" and c
  assume "Os_inv s \<and> sched_ok s" "os_legal c s" "os_exec c s = Some s'"
  then show "Os_inv s' \<and> sched_ok s'"
    using os_service_ok [of s c] by (auto simp: service_ok_def os_exec_def split: option.splits)
qed

lemma os_proper_ok:
  assumes "Os_inv s" "can_resume s" "os_proper c s"
  shows "\<exists>rv s'. os_service c s = Some (rv, s') \<and> Os_inv s' \<and> can_resume s'"
  using os_service_ok [OF assms(1), of c] assms(2,3)
  by (auto simp: service_ok_def os_proper_def split: option.splits)

interpretation proper: safe_steps os_proper os_exec "\<lambda>s. Os_inv s \<and> can_resume s"
proof
  fix s :: "'a Os_Sys_scheme" and c
  assume "Os_inv s \<and> can_resume s" "os_proper c s"
  then show "\<exists>s'. os_exec c s = Some s' \<and> Os_inv s' \<and> can_resume s'"
    using os_proper_ok [of s c] by (auto simp: os_exec_def)
qed

abbreviation os_reach :: "'a Os_Sys_scheme \<Rightarrow> 'a Os_Sys_scheme \<Rightarrow> bool" where
  "os_reach \<equiv> reach os_legal os_exec"

subsection \<open>A small configuration\<close>

text \<open>
  An idle task, a preemptable extended task of priority 5 that is running, a suspended basic
  task of priority 7 and a suspended basic task of priority 3; the first two of these may
  take resource 0; resource 1 is the scheduler.
\<close>

definition tcfg :: "uint32 \<Rightarrow> proc_type_t \<Rightarrow> uint32 \<Rightarrow> OsTaskConst" where
  "tcfg p ty acc = \<lparr>prio = p, proc_type = ty, autostart = True, scheduling = FULL, resourceAccess = acc,
     resourceIntPtr = None, activationLimit = 1\<rparr>"

definition tvar :: "state_t \<Rightarrow> uint32 \<Rightarrow> uint8 \<Rightarrow> OsTaskVar" where
  "tvar st p a = \<lparr>state = st, ev_wait = 0, ev_set = 0, activePriority = p, activations = a,
     reactivation = False, resourceHead = [], ctx = None\<rparr>"

definition demo_ext :: "'a \<Rightarrow> 'a Os_Sys_scheme" where
  "demo_ext m = \<lparr>mem = (\<lambda>_. 0), Os_IntDisableAllCnt = 0, Os_IntSuspendAllCnt = 0, irq_enabled = True,
     taskConst = [tcfg 0 PROC_BASIC 0, tcfg 5 PROC_EXTENDED 1, tcfg 7 PROC_BASIC 1, tcfg 3 PROC_BASIC 0],
     Os_TaskVarList = [tvar ST_READY 0 1, tvar ST_RUNNING 5 1, tvar ST_SUSPENDED 7 0, tvar ST_SUSPENDED 3 0],
     ready_head = [0, 1], currTaskPtr = 1, chainedPcbPtr = None, intNestCnt = 0,
     resource_list = [\<lparr>ceiling_priority = 7, old_task_prio = 0, owner = None, res_type = RESOURCE_TYPE_STANDARD\<rparr>,
       \<lparr>ceiling_priority = OS_RES_SCHEDULER_PRIO, old_task_prio = 0, owner = None,
         res_type = RESOURCE_TYPE_STANDARD\<rparr>],
     os_log = [], \<dots> = m\<rparr>"

abbreviation demo :: Os_Sys where
  "demo \<equiv> demo_ext ()"

lemmas demo_simps = demo_ext_def tcfg_def tvar_def RES_SCHEDULER_def Os_SysIntAnyDisabled_def

lemma demo_ext_inv: "Os_inv (demo_ext m)"
proof -
  have "t \<in> set (ready_head (demo_ext m)) \<longleftrightarrow> t < OS_TASK_CNT (demo_ext m) \<and> is_ready_or_running (state (task (demo_ext m) t))" for t
    by (auto simp: demo_simps less_Suc_eq is_ready_or_running_def)
  moreover have "task_ok (demo_ext m) t" if "t < OS_TASK_CNT (demo_ext m)" for t
    using that by (auto simp: demo_simps task_ok_def less_Suc_eq is_ready_or_running_def)
  moreover have "cfg_ok (demo_ext m)" by (simp add: cfg_ok_def demo_simps)
  moreover have "owner (resource_list (demo_ext m) ! r) = None" if "r < length (resource_list (demo_ext m))" for r
    using that by (auto simp: demo_simps less_Suc_eq)
  ultimately have "Os_core (demo_ext m)"
    unfolding Os_core_def by (simp add: demo_simps PID_IDLE_def)
  then show ?thesis by (simp add: Os_inv_def demo_simps)
qed

lemmas demo_inv = demo_ext_inv [of "()"]

lemma demo_sched: "sched_ok demo"
  by (simp add: sched_ok_def demo_simps)

lemma demo_resume: "can_resume demo"
  by (auto simp: can_resume_def may_resume_def demo_simps less_Suc_eq)

subsection \<open>Properties\<close>

theorem Os_TaskGetTop_spec_witness:
  "\<exists>m xs ys. Os_TaskGetTop demo = Some m \<and> ready_head demo = xs @ m # ys
    \<and> (\<forall>u\<in>set xs. activePriority (task demo u) < activePriority (task demo m))
    \<and> (\<forall>u\<in>set ys. activePriority (task demo u) \<le> activePriority (task demo m))"
  by (rule Os_TaskGetTop_spec) (simp_all add: demo_simps is_ready_or_running_def)

text \<open>Task 2 has preempted task 1, which was swapped out in \<open>ActivateTask\<close>.\<close>

definition demo1 :: Os_Sys where
  "demo1 = the (os_exec (Call_ActivateTask 2) demo)"

lemma demo1_exec: "os_exec (Call_ActivateTask 2) demo = Some demo1"
proof -
  have "os_exec (Call_ActivateTask 2) demo \<noteq> None"
    using os_proper_ok [OF demo_inv demo_resume, of "Call_ActivateTask 2"] by (auto simp: os_exec_def os_proper_def)
  then show ?thesis by (auto simp: demo1_def)
qed

lemma demo1_reach: "os_reach demo demo1" "reach os_proper os_exec demo demo1"
  by (rule reach.step [OF reach.start, where c = "Call_ActivateTask 2"], simp_all add: demo1_exec os_proper_def)+



text \<open>
  C2. In every reachable state, outside interrupts, a preemptable running task has a priority
  not lower than that of any ready task, and it is in the running state.
\<close>

theorem kernel_runs_highest_priority:
  assumes "Os_inv s0" "sched_ok s0" "os_reach s0 s"
    and "intNestCnt s = 0" "scheduling (taskConst s ! currTaskPtr s) = FULL"
    and "t < OS_TASK_CNT s" "is_ready_or_running (state (task s t))"
  shows "activePriority (task s t) \<le> activePriority (task s (currTaskPtr s))
    \<and> state (task s (currTaskPtr s)) = ST_RUNNING"
proof -
  have "Os_inv s" "sched_ok s" using kernel.reach_inv [OF assms(3)] assms(1,2) by blast+
  then show ?thesis using assms(4-) by (simp add: Os_inv_def Os_core_def sched_ok_def)
qed

lemma demo1_eval:
  "currTaskPtr demo1 = 2" "intNestCnt demo1 = 0" "scheduling (taskConst demo1 ! 2) = FULL"
  "OS_TASK_CNT demo1 = 4" "state (task demo1 1) = ST_RUNNING" "state (task demo1 2) = ST_RUNNING"
  by code_simp+

theorem kernel_runs_highest_priority_witness:
  "activePriority (task demo1 1) \<le> activePriority (task demo1 (currTaskPtr demo1))
    \<and> state (task demo1 (currTaskPtr demo1)) = ST_RUNNING"
  by (rule kernel_runs_highest_priority [OF demo_inv demo_sched demo1_reach(1)])
    (use demo1_eval in \<open>simp_all add: is_ready_or_running_def\<close>)

text \<open>
  C30. In every reachable state, outside interrupts, while any task owns a resource the
  preemptable running task has at least the ceiling priority of that resource.
\<close>

theorem resource_ceiling_respected:
  assumes "Os_inv s0" "sched_ok s0" "os_reach s0 s"
    and "intNestCnt s = 0" "scheduling (taskConst s ! currTaskPtr s) = FULL"
    and "r < length (resource_list s)" "owner (resource_list s ! r) = Some t"
  shows "ceiling_priority (resource_list s ! r) \<le> activePriority (task s (currTaskPtr s))"
proof -
  have inv: "Os_inv s" "sched_ok s" using kernel.reach_inv [OF assms(3)] assms(1,2) by blast+
  have t: "t < OS_TASK_CNT s" "r \<in> set (resourceHead (task s t))"
    using inv(1) assms(6,7) by (simp_all add: Os_inv_def Os_core_def)
  then have ok: "task_ok s t" using inv(1) by (simp add: Os_inv_def Os_core_def)
  then have "is_ready_or_running (state (task s t))" using t by (auto simp: task_ok_def)
  then have "t \<in> set (ready_head s)" using inv(1) t by (simp add: Os_inv_def Os_core_def)
  then have "activePriority (task s t) \<le> activePriority (task s (currTaskPtr s))"
    using inv(2) assms(4,5) by (simp add: sched_ok_def)
  moreover have "ceiling_priority (resource_list s ! r) \<le> activePriority (task s t)"
    using held_prio_ceiling [of s "prio (taskConst s ! t)", OF _ t(2)] ok by (simp add: task_ok_def)
  ultimately show ?thesis by simp
qed

definition demo2 :: Os_Sys where
  "demo2 = the (os_exec (Call_GetResource 0) demo)"

lemma demo2_reach: "os_reach demo demo2"
  unfolding demo2_def
  by (rule reach.step [OF reach.start, of _ "Call_GetResource 0"])
    (simp_all add: os_exec_def demo_simps)

lemma demo2_eval:
  "currTaskPtr demo2 = 1" "intNestCnt demo2 = 0" "scheduling (taskConst demo2 ! 1) = FULL"
  "length (resource_list demo2) = 2" "owner (resource_list demo2 ! 0) = Some 1"
  by code_simp+

theorem resource_ceiling_respected_witness:
  "ceiling_priority (resource_list demo2 ! 0) \<le> activePriority (task demo2 (currTaskPtr demo2))"
  by (rule resource_ceiling_respected [OF demo_inv demo_sched demo2_reach, of 0 1])
    (use demo2_eval in simp_all)

text \<open>
  C35. Activating a suspended task of a priority above that of the preemptable running task
  (interrupts enabled, outside interrupts) preempts the running task: the activated task is
  running at once, and the hooks of the old and the new task were called around the switch.
\<close>

theorem ActivateTask_preempts:
  assumes "Os_inv s" "sched_ok s" "intNestCnt s = 0" "\<not> Os_SysIntAnyDisabled s"
    and "scheduling (taskConst s ! currTaskPtr s) = FULL"
    and "t < OS_TASK_CNT s" "state (task s t) = ST_SUSPENDED"
    and "activePriority (task s t) > activePriority (task s (currTaskPtr s))"
  shows "\<exists>s' m. ActivateTask t s = Some (STATUS_OK, s') \<and> currTaskPtr s' = t
    \<and> state (task s' t) = ST_RUNNING
    \<and> os_log s' = os_log s @ [PostTaskHook (currTaskPtr s), PreTaskHook t, m]
    \<and> m \<in> {SwapContext (currTaskPtr s) t, StartFromBeginning t}"
proof -
  obtain s2 where s2: "Os_inv s2" "taskConst s2 = taskConst s" "ready_head s2 = ready_head s @ [t]"
      "currTaskPtr s2 = currTaskPtr s" "intNestCnt s2 = intNestCnt s" "os_log s2 = os_log s"
      "\<And>u. activePriority (task s2 u) = activePriority (task s u)" "may_resume (task s2 t)"
      "ActivateTask t s =
         do { s3 \<leftarrow> (if intNestCnt s2 = 0 \<and> scheduling (taskConst s2 ! currTaskPtr s) = FULL
                       \<and> activePriority (task s2 t) > activePriority (task s2 (currTaskPtr s2))
                     then Os_Dispatch OP_ACTIVATE_TASK s2 else Some s2);
              Some (STATUS_OK, Irq_Restore (irq_enabled s) s3) }"
    using activate_ready [OF assms(1,6,4,7)] by metis
  obtain new where new: "new \<in> set (ready_head s2)" "activePriority (task s2 t) \<le> activePriority (task s2 new)"
      "may_resume (task s2 new) \<longrightarrow>
        (\<exists>s3 m. Os_Dispatch OP_ACTIVATE_TASK s2 = Some s3 \<and> currTaskPtr s3 = new
           \<and> os_log s3 = os_log s2 @ [PostTaskHook (currTaskPtr s2), PreTaskHook new, m]
           \<and> m \<in> {SwapContext (currTaskPtr s2) new, StartFromBeginning new})"
    using Os_Dispatch_preempted [OF s2(1), of t OP_ACTIVATE_TASK] s2 assms(3,8) by auto
  have "new = t"
  proof (rule ccontr)
    assume "new \<noteq> t"
    then have "activePriority (task s new) \<le> activePriority (task s (currTaskPtr s))"
      using new(1) s2(3) assms(2,3,5) by (simp add: sched_ok_def)
    then show False using new(2) assms(8) by (simp add: s2(7))
  qed
  then obtain s3 m where d: "Os_Dispatch OP_ACTIVATE_TASK s2 = Some s3" "currTaskPtr s3 = t"
      "os_log s3 = os_log s @ [PostTaskHook (currTaskPtr s), PreTaskHook t, m]"
      "m \<in> {SwapContext (currTaskPtr s) t, StartFromBeginning t}"
    using new(3) s2(4,6,8) by auto
  have "dispatch_ok True s2 (Os_Dispatch OP_ACTIVATE_TASK s2)"
    using s2 assms(3,8) by (intro Os_Dispatch_preempt [OF s2(1), of t]) auto
  then have "state (task s3 t) = ST_RUNNING" using d(1,2) by (auto simp: dispatch_ok_def Os_inv_def)
  moreover have "ActivateTask t s = Some (STATUS_OK, Irq_Restore (irq_enabled s) s3)"
    using s2 assms(3,5,8) d(1) by simp
  ultimately show ?thesis using d by (auto simp: Irq_Restore_def)
qed

theorem ActivateTask_preempts_witness:
  "\<exists>s' m. ActivateTask 2 demo = Some (STATUS_OK, s') \<and> currTaskPtr s' = 2
    \<and> state (task s' 2) = ST_RUNNING
    \<and> os_log s' = os_log demo @ [PostTaskHook (currTaskPtr demo), PreTaskHook 2, m]
    \<and> m \<in> {SwapContext (currTaskPtr demo) 2, StartFromBeginning 2}"
  by (rule ActivateTask_preempts [OF demo_inv demo_sched]) (simp_all add: demo_simps)

lemma Os_SysIntAnyDisabled_irq [simp]:
  "Os_SysIntAnyDisabled (s\<lparr>irq_enabled := b\<rparr>) = Os_SysIntAnyDisabled s"
  by (simp add: Os_SysIntAnyDisabled_def)

lemma RES_SCHEDULER_irq [simp]: "RES_SCHEDULER (Irq_Restore b s) = RES_SCHEDULER s"
  by (simp add: Irq_Restore_def)

text \<open>What a successful \<open>GetResource\<close> has found and done.\<close>

lemma GetResource_success:
  assumes inv: "Os_inv s" and get: "GetResource r s = (STATUS_OK, s1)"
  shows "\<not> Os_SysIntAnyDisabled s1" "r \<le> RES_SCHEDULER s1" "intNestCnt s1 = 0" "intNestCnt s = 0"
    and "r \<noteq> RES_SCHEDULER s1 \<longrightarrow> resourceAccess (taskConst s ! currTaskPtr s) AND push_bit r 1 \<noteq> 0"
    and "task s1 u = (if u = currTaskPtr s
        then (task s (currTaskPtr s))\<lparr>activePriority := ceiling_priority (resource_list s ! r),
           resourceHead := resourceHead (task s (currTaskPtr s)) @ [r]\<rparr> else task s u)"
    and "resource_list s1 ! q = (if q = r then (resource_list s ! r)\<lparr>owner := Some (currTaskPtr s),
      old_task_prio := activePriority (task s (currTaskPtr s))\<rparr> else resource_list s ! q)"
    and "currTaskPtr s1 = currTaskPtr s" "taskConst s1 = taskConst s" "ready_head s1 = ready_head s"
      "length (resource_list s1) = length (resource_list s)" "r < length (resource_list s)"
proof -
  let ?t = "currTaskPtr s" and ?s = "s\<lparr>irq_enabled := False\<rparr>"
  have c: "\<not> Os_SysIntAnyDisabled s" "r \<le> RES_SCHEDULER s" "intNestCnt s = 0"
      "r \<noteq> RES_SCHEDULER s \<longrightarrow> resourceAccess (taskConst s ! ?t) AND push_bit r 1 \<noteq> 0"
      "s1 = Irq_Restore (irq_enabled s) (Os_TaskResourceAdd r ?t ?s)"
    using get by (auto simp: GetResource_def OS_STD_ERR_def Irq_Save_def Let_def split: if_splits)
  have t: "?t < OS_TASK_CNT ?s" using inv by (simp add: Os_inv_def)
  have r: "r < length (resource_list ?s)"
    using core_res_ne [of s] inv c(2) by (cases "resource_list s") (auto simp: RES_SCHEDULER_def Os_inv_def)
  have ni: "res_type (resource_list ?s ! r) \<noteq> RESOURCE_TYPE_INTERNAL"
    using inv r by (simp add: Os_inv_def Os_core_def cfg_ok_def)
  note add = ResourceAdd_sel [OF ni r t, simplified]
  show "\<not> Os_SysIntAnyDisabled s1" "r \<le> RES_SCHEDULER s1" "intNestCnt s1 = 0" "intNestCnt s = 0"
    "r \<noteq> RES_SCHEDULER s1 \<longrightarrow> resourceAccess (taskConst s ! ?t) AND push_bit r 1 \<noteq> 0"
    "task s1 u = (if u = ?t then (task s ?t)\<lparr>activePriority := ceiling_priority (resource_list s ! r),
         resourceHead := resourceHead (task s ?t) @ [r]\<rparr> else task s u)"
    "resource_list s1 ! q = (if q = r then (resource_list s ! r)\<lparr>owner := Some ?t,
      old_task_prio := activePriority (task s ?t)\<rparr> else resource_list s ! q)"
    "currTaskPtr s1 = ?t" "taskConst s1 = taskConst s" "ready_head s1 = ready_head s"
    "length (resource_list s1) = length (resource_list s)" "r < length (resource_list s)"
    using add c(1-4) r by (simp_all add: c(5) Irq_Restore_def)
qed

text \<open>\<open>ReleaseResource\<close> of the resource taken last, when no ready task has a higher priority then.\<close>

lemma ReleaseResource_last:
  assumes inv: "Os_inv s" and h: "resourceHead (task s (currTaskPtr s)) = rs @ [r]"
    and c: "\<not> Os_SysIntAnyDisabled s" "r \<le> RES_SCHEDULER s" "intNestCnt s = 0"
      "r \<noteq> RES_SCHEDULER s \<longrightarrow> resourceAccess (taskConst s ! currTaskPtr s) AND push_bit r 1 \<noteq> 0"
    and low: "scheduling (taskConst s ! currTaskPtr s) = FULL \<longrightarrow>
      (\<forall>u\<in>set (ready_head s) - {currTaskPtr s}.
         activePriority (task s u) \<le> old_task_prio (resource_list s ! r))"
  shows "\<exists>s2. ReleaseResource r s = Some (STATUS_OK, s2) \<and> currTaskPtr s2 = currTaskPtr s
     \<and> task s2 (currTaskPtr s) = (task s (currTaskPtr s))
          \<lparr>activePriority := old_task_prio (resource_list s ! r), resourceHead := rs\<rparr>
     \<and> owner (resource_list s2 ! r) = None"
proof -
  let ?t = "currTaskPtr s" and ?s = "s\<lparr>irq_enabled := False\<rparr>"
  have inv': "Os_inv ?s" and h': "resourceHead (task ?s (currTaskPtr ?s)) = rs @ [r]" using inv h by simp_all
  obtain s' where s': "Os_TaskResourceRemove r ?t ?s = Some s'" "Os_inv s'" "currTaskPtr s' = ?t"
      "resource_list s' = (resource_list s)[r := (resource_list s ! r)\<lparr>owner := None\<rparr>]"
      "task s' ?t = (task s ?t)\<lparr>activePriority := old_task_prio (resource_list s ! r), resourceHead := rs\<rparr>"
      "taskConst s' = taskConst s"
    using ResourceRemove_inv(2) [OF inv' h'] by auto
  have ok: "task_ok s ?t" using inv by (simp add: Os_inv_def Os_core_def)
  have r: "r < length (resource_list s)" "owner (resource_list s ! r) = Some ?t"
    using ok h by (simp_all add: task_ok_def)
  have other: "ready_head s' = ready_head s" "u \<noteq> ?t \<Longrightarrow> task s' u = task s u" for u
    using s'(1) by (auto simp: Os_TaskResourceRemove_def ASSERT_def upd_task_def Let_def split: if_splits)
  obtain m where m: "Os_TaskGetTop s' = Some m" "first_max s' (ready_head s') m"
    using GetTop_first_max core_ready s'(2) unfolding Os_inv_def by blast
  have no: "\<not> activePriority (task s' ?t) < activePriority (task s' m)"
    if "scheduling (taskConst s ! ?t) = FULL"
    using that low first_max_in [OF m(2)] other s'(5) by (cases "m = ?t") (auto simp: not_less)
  have "activePriority (task s ?t) = ceiling_priority (resource_list s ! r)"
    using ResourceRemove_inv(1) [OF inv h] .
  then have "ReleaseResource r s = Some (STATUS_OK, Irq_Restore (irq_enabled s) s')"
    using c r s' m(1) no by (auto simp: ReleaseResource_def Irq_Save_def Let_def)
  then show ?thesis using s' r by (simp add: Irq_Restore_def)
qed

text \<open>
  C34. Immediate ceiling protocol: a successful \<open>GetResource\<close> raises the running task to the
  ceiling priority and makes it the owner; the matching \<open>ReleaseResource\<close> succeeds, gives the
  task back its former priority and list of resources, frees the resource, and, when the
  schedule was right before, the task keeps running.
\<close>

theorem resource_round_trip:
  assumes inv: "Os_inv s" and sch: "sched_ok s" and get: "GetResource r s = (STATUS_OK, s1)"
    and free: "r = RES_SCHEDULER s \<longrightarrow> owner (resource_list s ! r) = None"
  shows "activePriority (task s1 (currTaskPtr s)) = ceiling_priority (resource_list s ! r)
    \<and> owner (resource_list s1 ! r) = Some (currTaskPtr s)
    \<and> (\<exists>s2. ReleaseResource r s1 = Some (STATUS_OK, s2) \<and> currTaskPtr s2 = currTaskPtr s
         \<and> task s2 (currTaskPtr s) = task s (currTaskPtr s) \<and> owner (resource_list s2 ! r) = None)"
proof -
  let ?t = "currTaskPtr s"
  note g = GetResource_success [OF inv get]
  have inv1: "Os_inv s1" using GetResource_ok [OF inv free, of True] get by (auto simp: service_ok_def)
  have h: "resourceHead (task s1 (currTaskPtr s1)) = resourceHead (task s ?t) @ [r]" by (simp add: g)
  have "scheduling (taskConst s1 ! currTaskPtr s1) = FULL \<longrightarrow>
      (\<forall>u\<in>set (ready_head s1) - {currTaskPtr s1}. activePriority (task s1 u) \<le> old_task_prio (resource_list s1 ! r))"
    using sch g(4) by (simp add: g(6-10) sched_ok_def)
  then show ?thesis
    using ReleaseResource_last [OF inv1 h g(1-3)] g(5) by (simp add: g(6-9))
qed

theorem resource_round_trip_witness:
  "activePriority (task demo2 (currTaskPtr demo)) = ceiling_priority (resource_list demo ! 0)
    \<and> owner (resource_list demo2 ! 0) = Some (currTaskPtr demo)
    \<and> (\<exists>s2. ReleaseResource 0 demo2 = Some (STATUS_OK, s2) \<and> currTaskPtr s2 = currTaskPtr demo
         \<and> task s2 (currTaskPtr demo) = task demo (currTaskPtr demo) \<and> owner (resource_list s2 ! 0) = None)"
  by (rule resource_round_trip [OF demo_inv demo_sched])
    (simp_all add: demo2_def os_exec_def demo_simps GetResource_def Irq_Save_def)

text \<open>
  A preemption by \<open>ActivateTask\<close> leaves the preempted task in the running state:
  afterwards \<open>GetTaskState\<close> reports both the old and the new task as running.
\<close>

theorem ActivateTask_two_running:
  "(case ActivateTask 2 demo of
      Some (rv, s) \<Rightarrow> (currTaskPtr s, fst (snd (GetTaskState 1 (Some 0) s)), fst (snd (GetTaskState 2 (Some 0) s)))
    | None \<Rightarrow> (0, None, None)) = (2, Some ST_RUNNING, Some ST_RUNNING)"
  by code_simp

text \<open>
  \<open>ReleaseResource\<close> for a resource the running task may not access returns \<open>E_OS_ID\<close> with
  the processor's interrupts left disabled.
\<close>

theorem ReleaseResource_no_access_irq:
  assumes "\<not> Os_SysIntAnyDisabled s" "r < RES_SCHEDULER s" "intNestCnt s = 0"
    and "resourceAccess (taskConst s ! currTaskPtr s) AND push_bit r 1 = 0"
  shows "\<exists>s'. ReleaseResource r s = Some (E_OS_ID, s') \<and> \<not> irq_enabled s'"
  using assms by (auto simp: ReleaseResource_def Irq_Save_def OS_STD_ERR_def Let_def)

definition demo3 :: Os_Sys where
  "demo3 = demo\<lparr>currTaskPtr := 3\<rparr>"

theorem ReleaseResource_no_access_irq_witness:
  "irq_enabled demo3 \<and> (\<exists>s'. ReleaseResource 0 demo3 = Some (E_OS_ID, s') \<and> \<not> irq_enabled s')"
  using ReleaseResource_no_access_irq [of demo3 0] by (simp add: demo3_def demo_simps)

text \<open>
  A task that returns from its entry function while it holds two or more resources makes an
  assertion fail: \<open>Os_TaskResourceFreeAll\<close> releases the resources in the order they were
  taken, \<open>Os_TaskResourceRemove\<close> demands the opposite order.
\<close>

theorem Os_TaskPost_two_resources:
  assumes "Os_inv s" and "resourceHead (task s (currTaskPtr s)) = r # q # rs"
  shows "Os_TaskPost s = None"
proof -
  let ?t = "currTaskPtr s"
  have t: "?t < OS_TASK_CNT s" "task_ok s ?t" using assms(1) by (simp_all add: Os_inv_def Os_core_def)
  then have r: "r < length (resource_list s)" "r \<notin> set (q # rs)" using assms(2) by (simp_all add: task_ok_def)
  then have ni: "res_type (resource_list s ! r) \<noteq> RESOURCE_TYPE_INTERNAL"
    using assms(1) by (simp add: Os_inv_def Os_core_def cfg_ok_def)
  have "last (r # q # rs) \<noteq> r" using r(2) by (cases rs rule: rev_cases) auto
  then have remove: "Os_TaskResourceRemove r ?t s' = None"
    if "Os_TaskVarList s' = Os_TaskVarList s" "resource_list s' = resource_list s" for s' :: "'a Os_Sys_scheme"
    using that t r ni assms(2)
    by (cases "owner (resource_list s' ! r) = Some ?t")
      (simp_all add: Os_TaskResourceRemove_def task_upd_task res_upd_res)
  show ?thesis
    using assms(2) by (auto simp: Os_TaskPost_def Os_TaskResourceFreeAll_def Os_TaskOccupiesResources_def remove Let_def)
qed

definition demo4 :: Os_Sys where
  "demo4 = the (os_exec (Call_GetResource 1) demo2)"

lemma demo4_inv: "Os_inv demo4"
proof -
  have "Os_inv demo2" using kernel.reach_inv [OF demo2_reach] demo_inv demo_sched by blast
  moreover have "owner (resource_list demo2 ! 1) = None" by code_simp
  ultimately have "service_ok True demo2 (Some (GetResource 1 demo2))" by (intro GetResource_ok) auto
  then show ?thesis by (auto simp: demo4_def os_exec_def service_ok_def)
qed

theorem Os_TaskPost_two_resources_witness: "Os_TaskPost demo4 = None"
proof -
  have "resourceHead (task demo4 (currTaskPtr demo4)) = [0, 1]" by code_simp
  then show ?thesis by (rule Os_TaskPost_two_resources [OF demo4_inv])
qed

text \<open>
  Task 1 is not preemptable, basic, and running with two activations, while task 2 of higher
  priority is ready.
\<close>

definition demo_non :: Os_Sys where
  "demo_non = demo\<lparr>taskConst := (taskConst demo)[1 := (tcfg 5 PROC_BASIC 1)\<lparr>scheduling := NON, activationLimit := 2\<rparr>],
     Os_TaskVarList := [tvar ST_READY 0 1, tvar ST_RUNNING 5 2, tvar ST_READY 7 1, tvar ST_SUSPENDED 3 0],
     ready_head := [0, 1, 2]\<rparr>"

lemma demo_non_inv: "Os_inv demo_non \<and> can_resume demo_non"
proof -
  have "t \<in> set (ready_head demo_non) \<longleftrightarrow> t < OS_TASK_CNT demo_non \<and> is_ready_or_running (state (task demo_non t))" for t
    by (auto simp: demo_non_def demo_simps less_Suc_eq is_ready_or_running_def)
  moreover have "task_ok demo_non t" if "t < OS_TASK_CNT demo_non" for t
    using that by (auto simp: demo_non_def demo_simps task_ok_def less_Suc_eq is_ready_or_running_def)
  moreover have "cfg_ok demo_non" by (simp add: cfg_ok_def demo_non_def demo_simps)
  moreover have "owner (resource_list demo_non ! r) = None" if "r < length (resource_list demo_non)" for r
    using that by (auto simp: demo_non_def demo_simps less_Suc_eq)
  ultimately have "Os_core demo_non"
    unfolding Os_core_def by (simp add: demo_non_def demo_simps PID_IDLE_def)
  then show ?thesis
    by (auto simp: Os_inv_def demo_non_def demo_simps can_resume_def may_resume_def less_Suc_eq)
qed

text \<open>
  A task that terminates with activations left, or that chains itself, while a task of higher
  priority is ready, is swapped out inside \<open>TerminateTask\<close> or \<open>ChainTask\<close> and stays ready without being
  marked for a restart. It is resumed when the other task ends, behind \<open>Os_Dispatch\<close>, where
  \<open>ASSERT(0)\<close> fails.
\<close>

theorem TerminateTask_activations_left:
  "Os_inv demo_non \<and> can_resume demo_non
    \<and> os_legal Call_TerminateTask demo_non \<and> os_legal (Call_ChainTask 1) demo_non
    \<and> (do { s \<leftarrow> os_exec Call_TerminateTask demo_non; os_exec Call_TerminateTask s }) = None
    \<and> (do { s \<leftarrow> os_exec (Call_ChainTask 1) demo_non; os_exec Call_TerminateTask s }) = None"
proof -
  have "os_legal Call_TerminateTask demo_non \<and> os_legal (Call_ChainTask 1) demo_non" by code_simp
  moreover have "(do { s \<leftarrow> os_exec Call_TerminateTask demo_non; os_exec Call_TerminateTask s }) = None" by code_simp
  moreover have "(do { s \<leftarrow> os_exec (Call_ChainTask 1) demo_non; os_exec Call_TerminateTask s }) = None" by code_simp
  ultimately show ?thesis using demo_non_inv by blast
qed

text \<open>
  A task that waits for an event loses its context when the processor goes to a task that starts
  again after \<open>ChainTask\<close>: \<open>Os_TaskStartFromBeginning\<close> does not save it. Task 1 has two activations
  and chains the extended task 2, which waits; task 1 starts again and sets the event. Task 2
  then runs from its entry function instead of returning from \<open>WaitEvent\<close>. With one activation
  of task 1 (it is activated again by the idle task) task 2 continues in \<open>WaitEvent\<close>.
\<close>

definition demo_wait :: "uint8 \<Rightarrow> Os_Sys" where
  "demo_wait a = demo\<lparr>taskConst := [tcfg 0 PROC_BASIC 0, (tcfg 5 PROC_BASIC 1)\<lparr>activationLimit := 2\<rparr>,
       tcfg 7 PROC_EXTENDED 1, tcfg 3 PROC_BASIC 0],
     Os_TaskVarList := [tvar ST_READY 0 1, tvar ST_RUNNING 5 a, tvar ST_SUSPENDED 7 0, tvar ST_SUSPENDED 3 0]\<rparr>"

primrec os_run :: "os_call list \<Rightarrow> 'a Os_Sys_scheme \<Rightarrow> 'a Os_Sys_scheme option" where
  "os_run [] s = Some s"
| "os_run (c # cs) s = do { s \<leftarrow> os_exec c s; os_run cs s }"

theorem WaitEvent_context_lost:
  "map_option (\<lambda>s. (currTaskPtr s, ctx (task s 2)))
      (os_run [Call_ChainTask 2, Call_WaitEvent 1, Call_SetEvent 2 1] (demo_wait 2)) = Some (2, None)
    \<and> map_option (\<lambda>s. (currTaskPtr s, ctx (task s 2)))
      (os_run [Call_ChainTask 2, Call_WaitEvent 1, Call_ActivateTask 1, Call_SetEvent 2 1] (demo_wait 1))
      = Some (2, Some OP_WAIT_EVENT)"
proof -
  have "map_option (\<lambda>s. (currTaskPtr s, ctx (task s 2)))
      (os_run [Call_ChainTask 2, Call_WaitEvent 1, Call_SetEvent 2 1] (demo_wait 2)) = Some (2, None)" by code_simp
  moreover have "map_option (\<lambda>s. (currTaskPtr s, ctx (task s 2)))
      (os_run [Call_ChainTask 2, Call_WaitEvent 1, Call_ActivateTask 1, Call_SetEvent 2 1] (demo_wait 1))
      = Some (2, Some OP_WAIT_EVENT)" by code_simp
  ultimately show ?thesis by blast
qed

end
