(* ===== verification/Os_Timing_Props.thy ===== *)
theory Os_Timing_Props
  imports Os_Timing Os_Sched
begin

text \<open>
  Properties of counters, alarms and schedule tables (theory \<open>Os_Timing\<close>): modular counter
  arithmetic, the exact time at which an alarm expires, the period of a schedule table,
  preservation of the well-formedness of the timing data, and termination of chains of
  alarms that increment further counters.
\<close>

subsection \<open>Counter arithmetic\<close>

lemma unat_add_no_wrap: "unat x + unat y \<le> unat z \<Longrightarrow> unat (x + y) = unat x + unat y"
  for x y z :: "'a::len word"
  using unsigned_less [of z, where ?'a = nat] by (subst unat_add_lem [symmetric]) linarith

lemma CounterAdd_unat:
  assumes "cur \<le> mx" and "add \<le> mx"
  shows "unat (Os_CounterAdd cur mx add) = (unat cur + unat add) mod (unat mx + 1)"
proof -
  have c: "unat cur \<le> unat mx" "unat add \<le> unat mx" using assms by (simp_all add: word_le_nat_alt)
  have d: "unat (mx - cur) = unat mx - unat cur" using assms(1) by (rule unat_sub)
  show ?thesis
  proof (cases "add \<le> mx - cur")
    case True
    then have "unat cur + unat add \<le> unat mx" using c d by (simp add: word_le_nat_alt)
    then show ?thesis using True unat_add_no_wrap [of cur add mx] by (simp add: Os_CounterAdd_def)
  next
    case False
    then have lt: "unat mx - unat cur < unat add" using d by (simp add: word_le_nat_alt)
    then have le: "mx - cur \<le> add" and ne: "add - (mx - cur) \<noteq> 0"
      using d by (auto simp: word_le_nat_alt)
    have "unat (add - (mx - cur) - 1) = unat add - (unat mx - unat cur) - 1"
      using ne by (simp add: unat_minus_one unat_sub [OF le] d)
    moreover have "(unat cur + unat add) mod (unat mx + 1) = unat cur + unat add - (unat mx + 1)"
      using c lt by (subst le_mod_geq) auto
    ultimately show ?thesis using False c lt by (simp add: Os_CounterAdd_def)
  qed
qed

lemma CounterAdd_le: "cur \<le> mx \<Longrightarrow> add \<le> mx \<Longrightarrow> Os_CounterAdd cur mx add \<le> mx"
  using mod_less_divisor [of "unat mx + 1" "unat cur + unat add"]
  by (simp add: word_le_nat_alt CounterAdd_unat)

lemma CounterDiff_unat:
  assumes "cur \<le> mx" and "old \<le> mx"
  shows "unat (Os_CounterDiff cur old mx) =
    (if old \<le> cur then unat cur - unat old else unat cur + unat mx + 1 - unat old)"
proof (cases "old \<le> cur")
  case True
  then show ?thesis by (simp add: Os_CounterDiff_def unat_sub)
next
  case False
  have c: "unat cur < unat old" "unat old \<le> unat mx" using False assms by (simp_all add: word_le_nat_alt)
  have d: "unat (mx - old) = unat mx - unat old" using assms(2) by (rule unat_sub)
  have 1: "unat (cur + (mx - old)) = unat cur + (unat mx - unat old)"
    using c d unat_add_no_wrap [of cur "mx - old" mx] by simp
  have "unat (cur + (mx - old)) + unat (1 :: uint32) \<le> unat mx" using 1 c by simp
  then have "unat (cur + (mx - old) + 1) = unat (cur + (mx - old)) + 1"
    using unat_add_no_wrap [of "cur + (mx - old)" 1 mx] by simp
  then show ?thesis using False 1 c by (simp add: Os_CounterDiff_def)
qed

lemma mod_Suc_max_inverse:
  assumes "(c::nat) \<le> m" "a \<le> m" "r = (c + a) mod (m + 1)"
  shows "(if c \<le> r then r - c else r + m + 1 - c) = a"
proof (cases "c + a \<le> m")
  case True
  then show ?thesis using assms by simp
next
  case False
  then have "r = c + a - (m + 1)" using assms by (subst assms(3), subst le_mod_geq) auto
  then show ?thesis using False assms by auto
qed

lemma CounterDiff_Add:
  assumes "cur \<le> mx" and "add \<le> mx"
  shows "Os_CounterDiff (Os_CounterAdd cur mx add) cur mx = add"
proof -
  let ?r = "Os_CounterAdd cur mx add"
  have r: "?r \<le> mx" "unat ?r = (unat cur + unat add) mod (unat mx + 1)"
    using assms by (simp_all add: CounterAdd_le CounterAdd_unat)
  have "unat (Os_CounterDiff ?r cur mx) = unat add"
    using mod_Suc_max_inverse [OF _ _ r(2)] assms r(1)
    by (simp add: CounterDiff_unat word_le_nat_alt)
  then show ?thesis by (simp add: word_unat_eq_iff)
qed

text \<open>
  Counter arithmetic is arithmetic modulo one more than the largest value: adding stays in
  range and is addition modulo \<open>max + 1\<close>, and \<open>Os_CounterDiff\<close> gives back the number of
  ticks that was added, also across the wrap-around.
\<close>

theorem counter_arithmetic:
  assumes "cur \<le> mx" and "add \<le> mx"
  shows "Os_CounterAdd cur mx add \<le> mx
    \<and> unat (Os_CounterAdd cur mx add) = (unat cur + unat add) mod (unat mx + 1)
    \<and> Os_CounterDiff (Os_CounterAdd cur mx add) cur mx = add"
  using assms by (simp add: CounterAdd_le CounterAdd_unat CounterDiff_Add)

theorem counter_arithmetic_witness:
  "Os_CounterAdd 8 9 5 \<le> 9 \<and> unat (Os_CounterAdd 8 9 5) = (unat (8::uint32) + unat (5::uint32)) mod (unat (9::uint32) + 1)
    \<and> Os_CounterDiff (Os_CounterAdd 8 9 5) 8 9 = 5"
  by (rule counter_arithmetic) simp_all

subsection \<open>What the task services leave alone\<close>

definition os_frame :: "'a Os_Sys_scheme \<Rightarrow> 'a Os_Sys_scheme \<Rightarrow> bool" where
  "os_frame s s' \<longleftrightarrow> Os_Sys.more s' = Os_Sys.more s \<and> intNestCnt s' = intNestCnt s
     \<and> Os_SysIntAnyDisabled s' = Os_SysIntAnyDisabled s \<and> taskConst s' = taskConst s
     \<and> OS_TASK_CNT s' = OS_TASK_CNT s"

lemma os_frame_refl: "os_frame s s"
  by (simp add: os_frame_def)

lemma os_frame_trans: "os_frame s s1 \<Longrightarrow> os_frame s1 s2 \<Longrightarrow> os_frame s s2"
  by (simp add: os_frame_def)

lemma os_frame_upd [simp]:
  "os_frame s (upd_task t f s') = os_frame s s'"
  "os_frame s (upd_res r g s') = os_frame s s'"
  "os_frame s (log_ev e s') = os_frame s s'"
  "os_frame s (s'\<lparr>irq_enabled := b\<rparr>) = os_frame s s'"
  "os_frame s (s'\<lparr>currTaskPtr := t\<rparr>) = os_frame s s'"
  "os_frame s (s'\<lparr>ready_head := q\<rparr>) = os_frame s s'"
  by (auto simp: os_frame_def upd_task_def upd_res_def log_ev_def Os_SysIntAnyDisabled_def)

lemmas os_frame_defs = Os_TaskMakeReady_def Os_ReadyQEnqueue_def Os_Arc_SetCleanContext_def Os_ArchSetupContext_def
  Irq_Save_def Irq_Restore_def OS_STD_ERR_def os_frame_refl

text \<open>Called from an interrupt, the services only make the task ready.\<close>

lemma ActivateTask_isr:
  assumes "intNestCnt s \<noteq> 0" and "ActivateTask t s = Some (rv, s')"
  shows "os_frame s s'" and "currTaskPtr s' = currTaskPtr s"
  using assms
  by (auto simp: ActivateTask_def Let_def os_frame_defs split: bind_splits if_splits)

lemma SetEvent_isr:
  assumes "intNestCnt s \<noteq> 0" and "SetEvent t m s = Some (rv, s')"
  shows "os_frame s s'" and "currTaskPtr s' = currTaskPtr s"
  using assms
  by (auto simp: SetEvent_def Let_def os_frame_defs split: bind_splits if_splits)

lemma os_frame_timing:
  fixes s :: Os_State
  assumes "os_frame s s'"
  shows "counter_list s' = counter_list s" "alarm_list s' = alarm_list s" "sched_list s' = sched_list s"
    "tick s' = tick s" "intNestCnt s' = intNestCnt s" "Os_SysIntAnyDisabled s' = Os_SysIntAnyDisabled s"
proof -
  have "Os_Sys.more s' = Os_Sys.more s" using assms by (simp add: os_frame_def)
  then show "counter_list s' = counter_list s" "alarm_list s' = alarm_list s" "sched_list s' = sched_list s"
    "tick s' = tick s"
    by (cases s; cases s'; simp)+
qed (use assms in \<open>simp_all add: os_frame_def\<close>)

subsection \<open>Updates\<close>

lemma upd_counter_sel [simp]:
  "alarm_list (upd_counter c f s) = alarm_list s" "sched_list (upd_counter c f s) = sched_list s"
  "tick (upd_counter c f s) = tick s" "length (counter_list (upd_counter c f s)) = length (counter_list s)"
  "irq_enabled (upd_counter c f s) = irq_enabled s" "Os_TaskVarList (upd_counter c f s) = Os_TaskVarList s"
  "intNestCnt (upd_counter c f s) = intNestCnt s"
  "Os_SysIntAnyDisabled (upd_counter c f s) = Os_SysIntAnyDisabled s"
  by (simp_all add: upd_counter_def Os_SysIntAnyDisabled_def)

lemma upd_alarm_sel [simp]:
  "counter_list (upd_alarm a g s) = counter_list s" "sched_list (upd_alarm a g s) = sched_list s"
  "tick (upd_alarm a g s) = tick s" "length (alarm_list (upd_alarm a g s)) = length (alarm_list s)"
  "irq_enabled (upd_alarm a g s) = irq_enabled s" "Os_TaskVarList (upd_alarm a g s) = Os_TaskVarList s"
  "intNestCnt (upd_alarm a g s) = intNestCnt s"
  "Os_SysIntAnyDisabled (upd_alarm a g s) = Os_SysIntAnyDisabled s"
  by (simp_all add: upd_alarm_def Os_SysIntAnyDisabled_def)

lemma upd_sched_sel [simp]:
  "counter_list (upd_sched t h s) = counter_list s" "alarm_list (upd_sched t h s) = alarm_list s"
  "length (sched_list (upd_sched t h s)) = length (sched_list s)"
  "intNestCnt (upd_sched t h s) = intNestCnt s"
  "Os_SysIntAnyDisabled (upd_sched t h s) = Os_SysIntAnyDisabled s"
  by (simp_all add: upd_sched_def Os_SysIntAnyDisabled_def)

lemma upd_timing_nth:
  "c < length (counter_list s) \<Longrightarrow>
     counter_list (upd_counter c f s) ! i = (if i = c then f (counter_list s ! c) else counter_list s ! i)"
  "a < length (alarm_list s) \<Longrightarrow>
     alarm_list (upd_alarm a g s) ! i = (if i = a then g (alarm_list s ! a) else alarm_list s ! i)"
  "t < length (sched_list s) \<Longrightarrow>
     sched_list (upd_sched t h s) ! i = (if i = t then h (sched_list s ! t) else sched_list s ! i)"
  by (simp_all add: upd_counter_def upd_alarm_def upd_sched_def)

lemma upd_irq_commute:
  "upd_counter c f (s\<lparr>irq_enabled := b\<rparr>) = (upd_counter c f s)\<lparr>irq_enabled := b\<rparr>"
  by (simp add: upd_counter_def)

lemma get_counter_irq [simp]:
  "Os_CounterGetValue c (s\<lparr>irq_enabled := b\<rparr>) = Os_CounterGetValue c s"
  "Os_CounterGetMaxValue c (s\<lparr>irq_enabled := b\<rparr>) = Os_CounterGetMaxValue c s"
  "Os_CounterGetMinCycle c (s\<lparr>irq_enabled := b\<rparr>) = Os_CounterGetMinCycle c s"
  by (simp_all add: Os_CounterGetValue_def Os_CounterGetMaxValue_def Os_CounterGetMinCycle_def)

subsection \<open>Expiry of an alarm\<close>

text \<open>The counter's next value, and the state with the counter moved one tick on.\<close>

definition bump :: "nat \<Rightarrow> Os_State \<Rightarrow> Os_State" where
  "bump c s = upd_counter c (\<lambda>x. x\<lparr>val := Os_CounterAdd (val x) (Os_CounterGetMaxValue c s) 1\<rparr>) s"

text \<open>Counter \<open>c\<close> drives alarm \<open>a\<close> only, and the alarm is set.\<close>

definition armed :: "nat \<Rightarrow> nat \<Rightarrow> Os_State \<Rightarrow> bool" where
  "armed c a s \<longleftrightarrow> \<not> Os_SysIntAnyDisabled s \<and> c < length (counter_list s)
     \<and> counter_type (counter_list s ! c) = COUNTER_TYPE_SOFT
     \<and> alarm_head (counter_list s ! c) = [a] \<and> sched_head (counter_list s ! c) = []
     \<and> val (counter_list s ! c) \<le> Os_CounterGetMaxValue c s \<and> 0 < Os_CounterGetMaxValue c s
     \<and> active (alarm_list s ! a)"

text \<open>The ticks left until expiry.\<close>

definition ticks_left :: "nat \<Rightarrow> nat \<Rightarrow> Os_State \<Rightarrow> nat \<Rightarrow> bool" where
  "ticks_left c a s n \<longleftrightarrow> 0 < n \<and> n \<le> unat (Os_CounterGetMaxValue c s) + 1
     \<and> unat (expire_val (alarm_list s ! a)) =
         (unat (Os_CounterGetValue c s) + n) mod (unat (Os_CounterGetMaxValue c s) + 1)"

lemma bump_val:
  assumes "armed c a s"
  shows "unat (Os_CounterGetValue c (bump c s)) =
      (unat (Os_CounterGetValue c s) + 1) mod (unat (Os_CounterGetMaxValue c s) + 1)"
    and "Os_CounterGetMaxValue c (bump c s) = Os_CounterGetMaxValue c s"
    and "armed c a (bump c s)"
proof -
  have c: "c < length (counter_list s)" "val (counter_list s ! c) \<le> Os_CounterGetMaxValue c s"
      "1 \<le> Os_CounterGetMaxValue c s"
    using assms by (auto simp: armed_def word_le_nat_alt word_less_nat_alt)
  show m: "Os_CounterGetMaxValue c (bump c s) = Os_CounterGetMaxValue c s"
    using c(1) by (simp add: bump_def Os_CounterGetMaxValue_def upd_timing_nth)
  show "unat (Os_CounterGetValue c (bump c s)) =
      (unat (Os_CounterGetValue c s) + 1) mod (unat (Os_CounterGetMaxValue c s) + 1)"
    using CounterAdd_unat [OF c(2,3)] c(1) by (simp add: bump_def Os_CounterGetValue_def upd_timing_nth)
  show "armed c a (bump c s)"
    using assms CounterAdd_le [OF c(2,3)] c(1) m unfolding armed_def
    by (simp add: bump_def upd_timing_nth)
qed

lemma mod_eq_shift_iff:
  assumes "0 < n" "n \<le> m + 1"
  shows "(v + 1) mod (m + 1) = (v + n) mod (m + 1) \<longleftrightarrow> n = (1::nat)"
proof
  assume eq: "(v + 1) mod (m + 1) = (v + n) mod (m + 1)"
  have "v + n = (v + 1) + (n - 1)" using assms(1) by simp
  then have "m + 1 dvd n - 1" using eq mod_eq_dvd_iff_nat [of "v + 1" "v + n" "m + 1"] by simp
  then have "n - 1 = 0 \<or> m + 1 \<le> n - 1" using dvd_imp_le by blast
  then show "n = 1" using assms by linarith
qed simp

lemma tick_expired_iff:
  assumes "armed c a s" "ticks_left c a s n"
  shows "Os_CounterGetValue c (bump c s) = expire_val (alarm_list (bump c s) ! a) \<longleftrightarrow> n = 1"
  using assms(2) bump_val(1) [OF assms(1)] mod_eq_shift_iff [of n "unat (Os_CounterGetMaxValue c s)"]
  by (simp add: ticks_left_def word_unat_eq_iff bump_def)

lemma ticks_left_bump:
  assumes "armed c a s" "ticks_left c a s (Suc n)" "0 < n"
  shows "ticks_left c a (bump c s) n"
  using assms(2,3) bump_val(1,2) [OF assms(1)]
  by (simp add: ticks_left_def mod_simps) (simp add: bump_def add.commute)

lemma IncrementCounter_armed:
  assumes "armed c a s" "ticks_left c a s n"
  shows "1 < n \<Longrightarrow> IncrementCounter (Suc depth) c s = Some (STATUS_OK, bump c s)"
    and "n = 1 \<Longrightarrow> IncrementCounter (Suc depth) c s =
      do { s1 \<leftarrow> Os_AlarmAction (IncrementCounter depth) a ((bump c s)\<lparr>irq_enabled := False\<rparr>);
           s2 \<leftarrow> Os_SchTblCheck c s1;
           Some (STATUS_OK, Irq_Restore (irq_enabled s) s2) }"
proof -
  have b: "upd_counter c (\<lambda>x. x\<lparr>val := Os_CounterAdd (val x) (Os_CounterGetMaxValue c s) 1\<rparr>)
      (s\<lparr>irq_enabled := False\<rparr>) = (bump c s)\<lparr>irq_enabled := False\<rparr>"
    by (simp add: bump_def upd_irq_commute)
  have h: "armed c a (bump c s)" using bump_val(3) [OF assms(1)] .
  note exp = tick_expired_iff [OF assms]
  have irq: "(bump c s)\<lparr>irq_enabled := irq_enabled s\<rparr> = bump c s" by (simp add: bump_def upd_counter_def)
  show "1 < n \<Longrightarrow> IncrementCounter (Suc depth) c s = Some (STATUS_OK, bump c s)"
    using assms(1) h exp irq
    by (simp add: armed_def IsCounterValid_def Irq_Save_def counter_tick_def b Os_AlarmCheck_def
        Os_SchTblCheck_def Irq_Restore_def)
  show "n = 1 \<Longrightarrow> IncrementCounter (Suc depth) c s =
      do { s1 \<leftarrow> Os_AlarmAction (IncrementCounter depth) a ((bump c s)\<lparr>irq_enabled := False\<rparr>);
           s2 \<leftarrow> Os_SchTblCheck c s1;
           Some (STATUS_OK, Irq_Restore (irq_enabled s) s2) }"
    using assms(1) h exp
    by (simp add: armed_def IsCounterValid_def Irq_Save_def counter_tick_def b Os_AlarmCheck_def)
qed

lemma get_counter_upd [simp]:
  "Os_CounterGetValue c (upd_alarm a g s) = Os_CounterGetValue c s"
  "Os_CounterGetMaxValue c (upd_alarm a g s) = Os_CounterGetMaxValue c s"
  "Os_CounterGetValue c (upd_sched t h s) = Os_CounterGetValue c s"
  "Os_CounterGetMaxValue c (upd_sched t h s) = Os_CounterGetMaxValue c s"
  by (simp_all add: Os_CounterGetValue_def Os_CounterGetMaxValue_def)

lemma Os_inv_eq:
  assumes "Os_inv s" "Os_TaskVarList s' = Os_TaskVarList s" "taskConst s' = taskConst s"
    "ready_head s' = ready_head s" "resource_list s' = resource_list s" "currTaskPtr s' = currTaskPtr s"
  shows "Os_inv s'"
  using assms Os_core_eq [of s s'] by (simp add: Os_inv_def RES_SCHEDULER_def)

lemma Os_inv_timing [simp]:
  "Os_inv (upd_counter c f s) = Os_inv s" "Os_inv (upd_alarm a g s) = Os_inv s"
  "Os_inv (upd_sched t h s) = Os_inv s" "Os_inv (s\<lparr>tick := k\<rparr>) = Os_inv s"
  by (auto simp: upd_counter_def upd_alarm_def upd_sched_def intro: Os_inv_eq)

lemma ActivateTask_isr_suspended:
  assumes inv: "Os_inv s" and t: "t < OS_TASK_CNT s" "state (task s t) = ST_SUSPENDED"
    and isr: "intNestCnt s \<noteq> 0" "\<not> Os_SysIntAnyDisabled s"
  shows "\<exists>s'. ActivateTask t s = Some (STATUS_OK, s') \<and> state (task s' t) = ST_READY \<and> Os_inv s'"
proof -
  obtain rv s' where r: "ActivateTask t s = Some (rv, s')" "Os_inv s'"
    using service_ok_isr [OF ActivateTask_ok [OF inv, of True t] isr(1)] by blast
  have a: "activations (task s t) = 0" using inv t by (simp add: Os_inv_def Os_core_def task_ok_def)
  have "rv = STATUS_OK \<and> state (task s' t) = ST_READY"
    using r(1) t isr a
    by (auto simp: ActivateTask_def Let_def Irq_Save_def Irq_Restore_def task_upd_task
        Os_TaskMakeReady_def Os_ReadyQEnqueue_def Os_Arc_SetCleanContext_def Os_ArchSetupContext_def
        is_ready_or_running_def
        split: if_splits)
  then show ?thesis using r by blast
qed

primrec inc_times :: "nat \<Rightarrow> nat \<Rightarrow> nat \<Rightarrow> Os_State \<Rightarrow> Os_State option" where
  "inc_times depth c 0 s = Some s"
| "inc_times depth c (Suc n) s = do { (rv, s) \<leftarrow> IncrementCounter depth c s; inc_times depth c n s }"

lemma inc_times_armed:
  "armed c a s \<Longrightarrow> ticks_left c a s n \<Longrightarrow> k < n \<Longrightarrow>
     inc_times (Suc depth) c k s = Some ((bump c ^^ k) s) \<and> armed c a ((bump c ^^ k) s)
     \<and> ticks_left c a ((bump c ^^ k) s) (n - k)"
proof (induction k arbitrary: s n)
  case (Suc k)
  then obtain m where n: "n = Suc m" "0 < m" "k < m" by (cases n) auto
  have "IncrementCounter (Suc depth) c s = Some (STATUS_OK, bump c s)"
    using IncrementCounter_armed(1) [OF Suc.prems(1,2)] n by simp
  moreover have "ticks_left c a (bump c s) m" using ticks_left_bump Suc.prems(1,2) n by blast
  ultimately show ?case
    using Suc.IH [OF bump_val(3) [OF Suc.prems(1)] _ n(3)] n(1)
    by (simp add: funpow_swap1 del: IncrementCounter.simps)
qed simp

lemma inc_times_add:
  "inc_times depth c (m + n) s = do { s \<leftarrow> inc_times depth c m s; inc_times depth c n s }"
proof (induction m arbitrary: s)
  case (Suc m)
  then show ?case by (cases "IncrementCounter depth c s") auto
qed simp

lemma bump_pow_sel [simp]:
  "Os_TaskVarList ((bump c ^^ k) s) = Os_TaskVarList s" "alarm_list ((bump c ^^ k) s) = alarm_list s"
  "intNestCnt ((bump c ^^ k) s) = intNestCnt s" "Os_inv ((bump c ^^ k) s) = Os_inv s"
  by (induction k) (simp_all add: bump_def)

text \<open>Expiry of an alarm that activates a task, in an interrupt.\<close>

lemma alarm_fires:
  assumes ar: "armed c a s" "ticks_left c a s 1" and a: "a < length (alarm_list s)" "counter (alarm_list s ! a) = c"
    and act: "action_type (action (alarm_list s ! a)) = ALARM_ACTION_ACTIVATETASK"
      "action_task_id (action (alarm_list s ! a)) = t"
    and inv: "Os_inv s" "intNestCnt s \<noteq> 0" "t < OS_TASK_CNT s" "state (task s t) = ST_SUSPENDED"
    and cyc: "cycletime (alarm_list s ! a) \<le> Os_CounterGetMaxValue c s"
  shows "\<exists>s'. IncrementCounter (Suc depth) c s = Some (STATUS_OK, s') \<and> state (task s' t) = ST_READY
      \<and> Os_inv s' \<and> \<not> Os_SysIntAnyDisabled s' \<and> length (alarm_list s') = length (alarm_list s)
      \<and> counter (alarm_list s' ! a) = c \<and> Os_CounterGetValue c s' \<le> Os_CounterGetMaxValue c s'
      \<and> Os_CounterGetMaxValue c s' = Os_CounterGetMaxValue c s
      \<and> (if cycletime (alarm_list s ! a) = 0 then \<not> active (alarm_list s' ! a)
         else active (alarm_list s' ! a) \<and> ticks_left c a s' (unat (cycletime (alarm_list s ! a))))"
proof -
  let ?b = "(bump c s)\<lparr>irq_enabled := False\<rparr>" and ?cy = "cycletime (alarm_list s ! a)"
  have b: "Os_inv ?b" "t < OS_TASK_CNT ?b" "state (task ?b t) = ST_SUSPENDED" "intNestCnt ?b \<noteq> 0"
      "\<not> Os_SysIntAnyDisabled ?b" "alarm_list ?b = alarm_list s"
    using inv ar(1) by (simp_all add: bump_def armed_def)
  obtain s1 where s1: "ActivateTask t ?b = Some (STATUS_OK, s1)" "state (task s1 t) = ST_READY" "Os_inv s1"
    using ActivateTask_isr_suspended [OF b(1-5)] by blast
  note fr = os_frame_timing [OF ActivateTask_isr(1) [OF b(4) s1(1)]]
  let ?s2 = "AlarmProcess a s1"
  have cnt: "counter_list ?s2 = counter_list (bump c s)" using fr(1) by (simp add: AlarmProcess_def Let_def)
  have armed_b: "armed c a (bump c s)" using bump_val(3) [OF ar(1)] .
  have none: "Os_SchTblCheck c ?s2 = Some ?s2"
    using armed_b by (simp add: Os_SchTblCheck_def cnt armed_def)
  have mx: "Os_CounterGetMaxValue c s1 = Os_CounterGetMaxValue c s"
    using fr(1) bump_val(2) [OF ar(1)] by (simp add: Os_CounterGetMaxValue_def)
  have v: "Os_CounterGetValue c s1 \<le> Os_CounterGetMaxValue c s"
    using armed_b bump_val(2) [OF ar(1)] fr(1) by (simp add: armed_def Os_CounterGetValue_def)
  have "IncrementCounter (Suc depth) c s = Some (STATUS_OK, Irq_Restore (irq_enabled s) ?s2)"
    using IncrementCounter_armed(2) [OF ar] act b(6) s1(1) none by (simp add: Os_AlarmAction_def Let_def)
  moreover have "state (task ?s2 t) = ST_READY" "Os_inv ?s2" using s1 by (simp_all add: AlarmProcess_def Let_def)
  moreover have inactive: "\<not> active (alarm_list ?s2 ! a)" if "?cy = 0"
    using that a fr(2) b(6) by (simp add: AlarmProcess_def Let_def upd_timing_nth)
  moreover have "active (alarm_list ?s2 ! a) \<and> ticks_left c a ?s2 (unat ?cy)" if "?cy \<noteq> 0"
  proof -
    have "0 < unat ?cy" "unat ?cy \<le> unat (Os_CounterGetMaxValue c s)"
      using that cyc by (simp_all add: word_le_nat_alt unat_gt_0)
    then show ?thesis
      using that a fr(2) b(6) ar(1) CounterAdd_unat [OF v cyc]
      by (simp add: AlarmProcess_def Let_def upd_timing_nth ticks_left_def mx armed_def)
  qed
  moreover have "\<not> Os_SysIntAnyDisabled ?s2" "length (alarm_list ?s2) = length (alarm_list s)"
      "counter (alarm_list ?s2 ! a) = c" "Os_CounterGetValue c ?s2 \<le> Os_CounterGetMaxValue c s"
      "Os_CounterGetMaxValue c ?s2 = Os_CounterGetMaxValue c s"
    using fr(2,6) b(5,6) a mx v by (simp_all add: AlarmProcess_def Let_def upd_timing_nth)
  ultimately show ?thesis
    by (simp add: Irq_Restore_def ticks_left_def)
qed


lemma SetRelAlarm_success:
  assumes set: "SetRelAlarm a inc cyc s = (STATUS_OK, s0)" and c: "counter (alarm_list s ! a) = c"
  shows "\<not> Os_SysIntAnyDisabled s" "a < length (alarm_list s)" "inc \<noteq> 0" "inc \<le> Os_CounterGetMaxValue c s"
    "cyc \<le> Os_CounterGetMaxValue c s"
    "s0 = upd_alarm a (\<lambda>x. x\<lparr>active := True, expire_val :=
         Os_CounterAdd (Os_CounterGetValue c s) (Os_CounterGetMaxValue c s) inc, cycletime := cyc\<rparr>) s"
  using assms
  by (auto simp: SetRelAlarm_def Os_internalSetRelAlarm_def Let_def OS_STD_ERR_def Irq_Save_def Irq_Restore_def
      Os_AlarmCheckCycle_def upd_alarm_def split: if_splits)

lemma SetRelAlarm_armed:
  assumes set: "SetRelAlarm a inc cyc s = (STATUS_OK, s0)" and "counter (alarm_list s ! a) = c"
    and c: "c < length (counter_list s)" "counter_type (counter_list s ! c) = COUNTER_TYPE_SOFT"
      "alarm_head (counter_list s ! c) = [a]" "sched_head (counter_list s ! c) = []"
      "val (counter_list s ! c) \<le> Os_CounterGetMaxValue c s"
  shows "armed c a s0" "ticks_left c a s0 (unat inc)"
proof -
  note ok = SetRelAlarm_success [OF assms(1,2)]
  have v: "Os_CounterGetValue c s \<le> Os_CounterGetMaxValue c s" using c(5) by (simp add: Os_CounterGetValue_def)
  have "0 < Os_CounterGetMaxValue c s" using ok(3,4) by (auto simp: word_gt_0)
  then show "armed c a s0" using ok c by (simp add: armed_def upd_timing_nth)
  have "0 < unat inc" "unat inc \<le> unat (Os_CounterGetMaxValue c s)"
    using ok(3,4) by (simp_all add: unat_gt_0 word_le_nat_alt)
  then show "ticks_left c a s0 (unat inc)"
    using ok CounterAdd_unat [OF v ok(4)] by (simp add: ticks_left_def upd_timing_nth)
qed

lemma bump_pow_max:
  assumes "armed c a s" "ticks_left c a s n" "k < n"
  shows "Os_CounterGetMaxValue c ((bump c ^^ k) s) = Os_CounterGetMaxValue c s"
  using assms(3)
proof (induction k)
  case (Suc k)
  then show ?case using bump_val(2) [of c a "(bump c ^^ k) s"] inc_times_armed [OF assms(1,2), of k] by simp
qed simp

lemma GetAlarm_ticks_left:
  assumes "ticks_left c a s (unat d)" "d \<noteq> 0" "d \<le> Os_CounterGetMaxValue c s" "active (alarm_list s ! a)"
    and "\<not> Os_SysIntAnyDisabled s" "a < length (alarm_list s)" "counter (alarm_list s ! a) = c"
    and "Os_CounterGetValue c s \<le> Os_CounterGetMaxValue c s"
  shows "fst (snd (GetAlarm a (Some p) s)) = Some d"
proof -
  have "expire_val (alarm_list s ! a) = Os_CounterAdd (Os_CounterGetValue c s) (Os_CounterGetMaxValue c s) d"
    using assms(1,3,8) CounterAdd_unat [of "Os_CounterGetValue c s" "Os_CounterGetMaxValue c s" d]
    by (simp add: ticks_left_def word_unat_eq_iff)
  then show ?thesis
    using assms CounterDiff_Add [of "Os_CounterGetValue c s" "Os_CounterGetMaxValue c s" d]
    by (simp add: GetAlarm_def Irq_Save_def)
qed

text \<open>While the alarm is armed, \<open>GetAlarm\<close> reports the increments that are left.\<close>

lemma GetAlarm_armed:
  assumes set: "SetRelAlarm a inc cyc s = (STATUS_OK, s0)"
    and c: "counter (alarm_list s ! a) = c" "c < length (counter_list s)"
      "counter_type (counter_list s ! c) = COUNTER_TYPE_SOFT" "alarm_head (counter_list s ! c) = [a]"
      "sched_head (counter_list s ! c) = []" "val (counter_list s ! c) \<le> Os_CounterGetMaxValue c s"
    and k: "k < unat inc"
  shows "fst (snd (GetAlarm a (Some p) ((bump c ^^ k) s0))) = Some (inc - of_nat k)"
proof -
  note ok = SetRelAlarm_success [OF set c(1)] and ar = SetRelAlarm_armed [OF set c]
  let ?s = "(bump c ^^ k) s0" and ?d = "inc - of_nat k"
  have s: "armed c a ?s" "ticks_left c a ?s (unat inc - k)" using inc_times_armed [OF ar k] by simp_all
  have "unat inc < 2 ^ LENGTH(32)" by (rule unsigned_less)
  then have lt: "k < 2 ^ 32" using k by simp
  then have ku: "unat (of_nat k :: uint32) = k" by (simp add: unsigned_of_nat take_bit_nat_eq_self)
  then have "of_nat k \<le> inc" using k by (simp add: word_le_nat_alt)
  then have d: "unat ?d = unat inc - k" using ku by (simp add: unat_sub)
  have m: "Os_CounterGetMaxValue c ?s = Os_CounterGetMaxValue c s"
    using bump_pow_max [OF ar k] by (simp add: ok(6))
  show ?thesis
  proof (rule GetAlarm_ticks_left [of c])
    show "ticks_left c a ?s (unat ?d)" using s(2) d by simp
    show "?d \<noteq> 0" using d k by (metis unat_0 zero_less_diff less_irrefl)
    show "?d \<le> Os_CounterGetMaxValue c ?s" using d ok(4) m by (simp add: word_le_nat_alt)
    show "a < length (alarm_list ?s)" "counter (alarm_list ?s ! a) = c"
      using ok(2) c(1) by (simp_all add: ok(6) upd_timing_nth)
  qed (use s(1) in \<open>simp_all add: armed_def Os_CounterGetValue_def\<close>)
qed


subsection \<open>A counter with an alarm\<close>

text \<open>
  Counter 0 counts to 9 and drives alarm 0, which activates task 2; counter 1 drives schedule
  table 0, which has expiry points at 2 and 5 and lasts 8 ticks. The state is inside an
  interrupt.
\<close>

definition demo_act :: OsAlarmAction where
  "demo_act = \<lparr>action_type = ALARM_ACTION_ACTIVATETASK, action_task_id = 2, action_event_id = 0, action_counter_id = 0\<rparr>"

definition demo_tbl :: OsSchTbl where
  "demo_tbl = \<lparr>duration = 8, repeating = True, sch_counter = 1, sch_autostartPtr = None, expire_curr_index = 0,
     sch_expire_val = 0, sch_state = SCHEDULETABLE_STOPPED, next_tbl = None,
     expirePointList = [\<lparr>offset = 2, taskList = [3], eventList = []\<rparr>, \<lparr>offset = 5, taskList = [], eventList = [(1, 1)]\<rparr>]\<rparr>"

definition demo_t :: Os_State where
  "demo_t = (demo_ext (Os_State.fields
     [\<lparr>counter_type = COUNTER_TYPE_SOFT, val = 7, alarm_base = \<lparr>maxallowedvalue = 9, tickperbase = 1, mincycle = 1\<rparr>,
        alarm_head = [0], sched_head = []\<rparr>,
      \<lparr>counter_type = COUNTER_TYPE_SOFT, val = 6, alarm_base = \<lparr>maxallowedvalue = 9, tickperbase = 1, mincycle = 1\<rparr>,
        alarm_head = [], sched_head = [0]\<rparr>]
     [\<lparr>counter = 0, cycletime = 0, expire_val = 0, active = False, action = demo_act, autostartPtr = None\<rparr>]
     [demo_tbl] 0 1))\<lparr>intNestCnt := 1\<rparr>"

lemmas demo_t_simps = demo_t_def demo_act_def demo_tbl_def Os_State.fields_def demo_simps

lemma demo_t_inv: "Os_inv demo_t"
  unfolding demo_t_def by (rule Os_inv_eq [OF demo_ext_inv]) simp_all


subsection \<open>Well-formed timing data\<close>

definition alarm_ok :: "Os_State \<Rightarrow> OsAlarm \<Rightarrow> bool" where
  "alarm_ok s x \<longleftrightarrow> counter x < length (counter_list s) \<and> cycletime x \<le> Os_CounterGetMaxValue (counter x) s
     \<and> expire_val x \<le> Os_CounterGetMaxValue (counter x) s"

definition table_ok :: "Os_State \<Rightarrow> OsSchTbl \<Rightarrow> bool" where
  "table_ok s x \<longleftrightarrow> sch_counter x < length (counter_list s) \<and> expirePointList x \<noteq> [] \<and> next_tbl x = None
     \<and> expire_curr_index x \<le> length (expirePointList x)
     \<and> duration x \<noteq> offset (expirePointList x ! (length (expirePointList x) - 1))"

definition counter_ok :: "Os_State \<Rightarrow> nat \<Rightarrow> bool" where
  "counter_ok s c \<longleftrightarrow> val (counter_list s ! c) \<le> Os_CounterGetMaxValue c s \<and> 0 < Os_CounterGetMaxValue c s
     \<and> (\<forall>a\<in>set (alarm_head (counter_list s ! c)). a < length (alarm_list s) \<and> counter (alarm_list s ! a) = c)
     \<and> (\<forall>t\<in>set (sched_head (counter_list s ! c)). t < length (sched_list s))"

definition timing_ok :: "Os_State \<Rightarrow> bool" where
  "timing_ok s \<longleftrightarrow> (\<forall>c<length (counter_list s). counter_ok s c)
     \<and> (\<forall>x\<in>set (alarm_list s). alarm_ok s x) \<and> (\<forall>x\<in>set (sched_list s). table_ok s x)"

text \<open>The part of the timing data that no service changes.\<close>

definition alarm_links :: "Os_State \<Rightarrow> (nat \<times> OsAlarmAction) list" where
  "alarm_links s = map (\<lambda>x. (counter x, action x)) (alarm_list s)"

definition in_isr :: "Os_State \<Rightarrow> bool" where
  "in_isr s \<longleftrightarrow> Os_inv s \<and> timing_ok s \<and> intNestCnt s \<noteq> 0 \<and> \<not> Os_SysIntAnyDisabled s"

text \<open>Steps inside an interrupt keep \<open>in_isr\<close> and the links between counters and alarms.\<close>

definition isr_step :: "Os_State \<Rightarrow> Os_State \<Rightarrow> bool" where
  "isr_step s s' \<longleftrightarrow> in_isr s' \<and> alarm_links s' = alarm_links s
     \<and> map alarm_head (counter_list s') = map alarm_head (counter_list s)
     \<and> map sched_head (counter_list s') = map sched_head (counter_list s)
     \<and> map expirePointList (sched_list s') = map expirePointList (sched_list s)"

lemma isr_step_refl: "in_isr s \<Longrightarrow> isr_step s s"
  by (simp add: isr_step_def)

lemma isr_step_trans: "isr_step s s1 \<Longrightarrow> isr_step s1 s2 \<Longrightarrow> isr_step s s2"
  by (simp add: isr_step_def)

lemma isr_step_in_isr: "isr_step s s' \<Longrightarrow> in_isr s'"
  by (simp add: isr_step_def)

lemma timing_ok_cong:
  assumes "counter_list s' = counter_list s" "alarm_list s' = alarm_list s" "sched_list s' = sched_list s"
  shows "timing_ok s' = timing_ok s"
  using assms
  by (simp add: timing_ok_def counter_ok_def alarm_ok_def table_ok_def Os_CounterGetMaxValue_def)

lemma isr_step_frame:
  assumes "in_isr s" "os_frame s s'" "Os_inv s'"
  shows "isr_step s s'"
  using assms os_frame_timing [OF assms(2)] timing_ok_cong [of s' s]
  by (simp add: isr_step_def in_isr_def alarm_links_def)

lemma isr_step_irq [simp]: "isr_step s (s'\<lparr>irq_enabled := b\<rparr>) = isr_step s s'"
  using timing_ok_cong [of "s'\<lparr>irq_enabled := b\<rparr>" s']
  by (simp add: isr_step_def in_isr_def alarm_links_def)

lemma isr_step_log [simp]: "isr_step s (log_ev e s') = isr_step s s'"
proof -
  have "timing_ok (log_ev e s') = timing_ok s'" by (rule timing_ok_cong) (simp_all add: log_ev_def)
  then show ?thesis
    by (simp add: isr_step_def in_isr_def alarm_links_def) (simp add: log_ev_def Os_SysIntAnyDisabled_def)
qed

lemma map_upd_same: "i < length xs \<Longrightarrow> f y = f (xs ! i) \<Longrightarrow> map f (xs[i := y]) = map f xs"
  by (simp add: map_update list_update_same_conv)

lemma isr_step_alarm:
  assumes s: "in_isr s" and a: "a < length (alarm_list s)"
    and g: "counter (g (alarm_list s ! a)) = counter (alarm_list s ! a)"
      "action (g (alarm_list s ! a)) = action (alarm_list s ! a)" "alarm_ok s (g (alarm_list s ! a))"
  shows "isr_step s (upd_alarm a g s)"
proof -
  have t: "timing_ok s" using s by (simp add: in_isr_def)
  have c: "counter_ok (upd_alarm a g s) c" if "c < length (counter_list s)" for c
    using t that a g(1) by (auto simp: timing_ok_def counter_ok_def upd_timing_nth)
  have "alarm_ok (upd_alarm a g s) x = alarm_ok s x" for x by (simp add: alarm_ok_def)
  moreover have "set (alarm_list (upd_alarm a g s)) \<subseteq> insert (g (alarm_list s ! a)) (set (alarm_list s))"
    by (simp add: upd_alarm_def set_update_subset_insert)
  moreover have "table_ok (upd_alarm a g s) x = table_ok s x" for x by (simp add: table_ok_def)
  ultimately have "timing_ok (upd_alarm a g s)" using t c g(3) by (auto simp: timing_ok_def)
  then show ?thesis
    using s a g by (simp add: isr_step_def in_isr_def alarm_links_def)
      (simp add: upd_alarm_def map_upd_same)
qed

lemma isr_step_sched:
  assumes s: "in_isr s" and t: "t < length (sched_list s)"
    and h: "expirePointList (h (sched_list s ! t)) = expirePointList (sched_list s ! t)"
      "table_ok s (h (sched_list s ! t))"
  shows "isr_step s (upd_sched t h s)"
proof -
  have ok: "timing_ok s" using s by (simp add: in_isr_def)
  have c: "counter_ok (upd_sched t h s) c = counter_ok s c" for c by (simp add: counter_ok_def)
  have a: "alarm_ok (upd_sched t h s) x = alarm_ok s x" for x by (simp add: alarm_ok_def)
  have "table_ok (upd_sched t h s) x = table_ok s x" for x by (simp add: table_ok_def)
  moreover have "set (sched_list (upd_sched t h s)) \<subseteq> insert (h (sched_list s ! t)) (set (sched_list s))"
    by (simp add: upd_sched_def set_update_subset_insert)
  ultimately have "timing_ok (upd_sched t h s)" using ok c a h(2) by (auto simp: timing_ok_def)
  then show ?thesis
    using s t h by (simp add: isr_step_def in_isr_def alarm_links_def)
      (simp add: upd_sched_def map_upd_same)
qed

lemma isr_step_bump:
  assumes s: "in_isr s" and c: "c < length (counter_list s)"
  shows "isr_step s (bump c s)"
proof -
  have ok: "timing_ok s" using s by (simp add: in_isr_def)
  let ?v = "Os_CounterAdd (val (counter_list s ! c)) (Os_CounterGetMaxValue c s) 1"
  have m: "Os_CounterGetMaxValue d (bump c s) = Os_CounterGetMaxValue d s" for d
    using c by (simp add: bump_def Os_CounterGetMaxValue_def upd_timing_nth)
  have le: "?v \<le> Os_CounterGetMaxValue c s"
    using ok c by (intro CounterAdd_le) (auto simp: timing_ok_def counter_ok_def word_le_nat_alt word_less_nat_alt)
  have "counter_ok (bump c s) d" if "d < length (counter_list s)" for d
  proof -
    have "counter_ok s d" using ok that by (simp add: timing_ok_def)
    then show ?thesis using c le by (auto simp: counter_ok_def m) (simp_all add: bump_def upd_timing_nth split: if_splits)
  qed
  moreover have "alarm_ok (bump c s) x = alarm_ok s x" "table_ok (bump c s) y = table_ok s y" for x y
    by (simp_all add: alarm_ok_def table_ok_def m) (simp_all add: bump_def)
  ultimately have "timing_ok (bump c s)" using ok by (simp add: timing_ok_def) (simp add: bump_def)
  then show ?thesis
    using s c by (simp add: isr_step_def in_isr_def alarm_links_def)
      (simp add: bump_def upd_counter_def map_upd_same Os_SysIntAnyDisabled_def, auto intro: Os_inv_eq)
qed

subsection \<open>Ticks keep the timing data well-formed\<close>

lemma in_isr_alarm: "in_isr s \<Longrightarrow> a < length (alarm_list s) \<Longrightarrow> alarm_ok s (alarm_list s ! a)"
  by (simp add: in_isr_def timing_ok_def)

lemma in_isr_table: "in_isr s \<Longrightarrow> t < length (sched_list s) \<Longrightarrow> table_ok s (sched_list s ! t)"
  by (simp add: in_isr_def timing_ok_def)

lemma in_isr_value: "in_isr s \<Longrightarrow> c < length (counter_list s) \<Longrightarrow> Os_CounterGetValue c s \<le> Os_CounterGetMaxValue c s"
  by (simp add: in_isr_def timing_ok_def counter_ok_def Os_CounterGetValue_def)

lemma AlarmProcess_step:
  assumes s: "in_isr s" and a: "a < length (alarm_list s)"
  shows "isr_step s (AlarmProcess a s)"
proof -
  let ?x = "alarm_list s ! a"
  have ok: "alarm_ok s ?x" using in_isr_alarm [OF s a] .
  have "Os_CounterAdd (Os_CounterGetValue (counter ?x) s) (Os_CounterGetMaxValue (counter ?x) s) (cycletime ?x)
      \<le> Os_CounterGetMaxValue (counter ?x) s"
    using ok in_isr_value [OF s, of "counter ?x"] by (intro CounterAdd_le) (simp_all add: alarm_ok_def)
  then show ?thesis
    using isr_step_alarm [OF s a] ok by (simp add: AlarmProcess_def Let_def alarm_ok_def)
qed

text \<open>The services an expiry calls, in an interrupt.\<close>

lemma ActivateTask_frame:
  assumes "Os_inv s" "intNestCnt s \<noteq> 0"
  shows "\<exists>rv s'. ActivateTask t s = Some (rv, s') \<and> os_frame s s' \<and> Os_inv s'"
  using service_ok_isr [OF ActivateTask_ok [OF assms(1), of True t] assms(2)] ActivateTask_isr(1) [OF assms(2)] by blast

lemma SetEvent_frame:
  assumes "Os_inv s" "intNestCnt s \<noteq> 0" "\<not> Os_SysIntAnyDisabled s"
  shows "\<exists>rv s'. SetEvent t m s = Some (rv, s') \<and> os_frame s s' \<and> Os_inv s'"
  using service_ok_isr [OF SetEvent_ok [OF assms(1,3), of True t m] assms(2)] SetEvent_isr(1) [OF assms(2)] by blast

lemma ActivateTask_step: "in_isr s \<Longrightarrow> \<exists>rv s'. ActivateTask t s = Some (rv, s') \<and> isr_step s s'"
  using ActivateTask_frame [of s t] isr_step_frame by (fastforce simp: in_isr_def)

lemma SetEvent_step: "in_isr s \<Longrightarrow> \<exists>rv s'. SetEvent t m s = Some (rv, s') \<and> isr_step s s'"
  using SetEvent_frame [of s t m] isr_step_frame by (fastforce simp: in_isr_def)

lemma activate_all_frame:
  "Os_inv s \<Longrightarrow> intNestCnt s \<noteq> 0 \<Longrightarrow> \<exists>s'. activate_all ts s = Some s' \<and> os_frame s s' \<and> Os_inv s'"
proof (induction ts arbitrary: s)
  case (Cons t ts)
  obtain rv s1 where s1: "ActivateTask t s = Some (rv, s1)" "os_frame s s1" "Os_inv s1"
    using ActivateTask_frame Cons.prems by blast
  then obtain s2 where "activate_all ts s1 = Some s2" "os_frame s1 s2" "Os_inv s2"
    using Cons.IH [of s1] Cons.prems(2) by (auto simp: os_frame_def)
  then show ?case using s1 os_frame_trans by auto
qed (simp add: os_frame_refl)

lemma set_events_frame:
  "Os_inv s \<Longrightarrow> intNestCnt s \<noteq> 0 \<Longrightarrow> \<not> Os_SysIntAnyDisabled s \<Longrightarrow>
     \<exists>s'. set_events es s = Some s' \<and> os_frame s s' \<and> Os_inv s'"
proof (induction es arbitrary: s)
  case (Cons e es)
  obtain rv s1 where s1: "SetEvent (fst e) (snd e) s = Some (rv, s1)" "os_frame s s1" "Os_inv s1"
    using SetEvent_frame Cons.prems by blast
  then obtain s2 where "set_events es s1 = Some s2" "os_frame s1 s2" "Os_inv s2"
    using Cons.IH [of s1] Cons.prems(2,3) by (auto simp: os_frame_def)
  then show ?case using s1 os_frame_trans by auto
qed (simp add: os_frame_refl)

lemma isr_step_length: "isr_step s s' \<Longrightarrow> length (alarm_list s') = length (alarm_list s)"
  "isr_step s s' \<Longrightarrow> length (sched_list s') = length (sched_list s)"
  "isr_step s s' \<Longrightarrow> length (counter_list s') = length (counter_list s)"
  by (auto simp: isr_step_def alarm_links_def dest: map_eq_imp_length_eq)

lemma isr_step_alarm_links:
  assumes "isr_step s s'" "a < length (alarm_list s)"
  shows "counter (alarm_list s' ! a) = counter (alarm_list s ! a)" "action (alarm_list s' ! a) = action (alarm_list s ! a)"
proof -
  have "alarm_links s' ! a = alarm_links s ! a" using assms(1) by (simp add: isr_step_def)
  then show "counter (alarm_list s' ! a) = counter (alarm_list s ! a)" "action (alarm_list s' ! a) = action (alarm_list s ! a)"
    using assms isr_step_length(1) [OF assms(1)] by (simp_all add: alarm_links_def)
qed

text \<open>\<open>inc\<close> returns for the counters the alarms \<open>A\<close> increment.\<close>

definition inc_returns :: "(nat \<Rightarrow> Os_State \<Rightarrow> (StatusType \<times> Os_State) option) \<Rightarrow> Os_State \<Rightarrow> nat \<Rightarrow> bool" where
  "inc_returns inc s0 d \<longleftrightarrow> (\<forall>s. isr_step s0 s \<longrightarrow> (\<exists>rv s'. inc d s = Some (rv, s') \<and> isr_step s s'))"

lemma AlarmAction_step:
  assumes s: "isr_step s0 s" and a: "a < length (alarm_list s0)"
    and inc: "action_type (action (alarm_list s0 ! a)) = ALARM_ACTION_INCREMENTCOUNTER \<Longrightarrow>
      inc_returns inc s0 (action_counter_id (action (alarm_list s0 ! a)))"
  shows "\<exists>s'. Os_AlarmAction inc a s = Some s' \<and> isr_step s s'"
proof -
  have i: "in_isr s" using s by (rule isr_step_in_isr)
  have act: "action (alarm_list s ! a) = action (alarm_list s0 ! a)" using isr_step_alarm_links(2) [OF s a] .
  have proc: "isr_step s (AlarmProcess a s')" if "isr_step s s'" for s'
    using AlarmProcess_step [of s' a] isr_step_in_isr [OF that] isr_step_length(1) [OF that]
      isr_step_length(1) [OF s] a isr_step_trans [OF that] by simp
  show ?thesis
  proof (cases "action_type (action (alarm_list s ! a))")
    case ALARM_ACTION_ACTIVATETASK
    then show ?thesis
      using ActivateTask_step [OF i, of "action_task_id (action (alarm_list s ! a))"] proc
      by (auto simp: Os_AlarmAction_def Let_def)
  next
    case ALARM_ACTION_SETEVENT
    then show ?thesis
      using SetEvent_step [OF i, of "action_task_id (action (alarm_list s ! a))" "action_event_id (action (alarm_list s ! a))"] proc
      by (auto simp: Os_AlarmAction_def Let_def)
  next
    case ALARM_ACTION_ALARMCALLBACK
    then show ?thesis using isr_step_refl [OF i] by (simp add: Os_AlarmAction_def)
  next
    case ALARM_ACTION_INCREMENTCOUNTER
    then show ?thesis
      using inc s act proc by (auto simp: Os_AlarmAction_def Let_def inc_returns_def)
  qed
qed

lemma AlarmCheck_loop_step:
  assumes "isr_step s0 s" and "\<forall>a\<in>set as. a < length (alarm_list s0)"
    and "\<forall>a\<in>set as. action_type (action (alarm_list s0 ! a)) = ALARM_ACTION_INCREMENTCOUNTER \<longrightarrow>
      inc_returns inc s0 (action_counter_id (action (alarm_list s0 ! a)))"
  shows "\<exists>s'. Os_AlarmCheck_loop inc c as s = Some s' \<and> isr_step s s'"
  using assms
proof (induction as arbitrary: s)
  case Nil
  then show ?case using isr_step_refl isr_step_in_isr by auto
next
  case (Cons a as)
  let ?st = "if active (alarm_list s ! a) \<and> Os_CounterGetValue c s = expire_val (alarm_list s ! a)
             then Os_AlarmAction inc a s else Some s"
  have "in_isr s" using Cons.prems(1) by (rule isr_step_in_isr)
  moreover have "\<exists>s1. Os_AlarmAction inc a s = Some s1 \<and> isr_step s s1"
    using AlarmAction_step [of s0 s a inc] Cons.prems by simp
  ultimately have "\<exists>s1. ?st = Some s1 \<and> isr_step s s1" by (simp add: isr_step_refl)
  then obtain s1 where s1: "?st = Some s1" "isr_step s s1" by blast
  have "isr_step s0 s1" using isr_step_trans Cons.prems(1) s1(2) by blast
  then obtain s2 where "Os_AlarmCheck_loop inc c as s1 = Some s2" "isr_step s1 s2"
    using Cons.IH [of s1] Cons.prems by auto
  then show ?case using s1 isr_step_trans by (auto simp del: if_split)
qed

lemma activate_all_step: "in_isr s \<Longrightarrow> \<exists>s'. activate_all ts s = Some s' \<and> isr_step s s'"
  using activate_all_frame [of s ts] isr_step_frame by (fastforce simp: in_isr_def)

lemma set_events_step: "in_isr s \<Longrightarrow> \<exists>s'. set_events es s = Some s' \<and> isr_step s s'"
  using set_events_frame [of s es] isr_step_frame by (fastforce simp: in_isr_def)

lemma isr_step_sched':
  assumes "in_isr s" "t < length (sched_list s)"
    and "\<And>x. table_ok s x \<Longrightarrow> x = sched_list s ! t \<Longrightarrow> expirePointList (h x) = expirePointList x \<and> table_ok s (h x)"
  shows "isr_step s (upd_sched t h s)"
  using isr_step_sched [OF assms(1,2)] assms(3) in_isr_table [OF assms(1,2)] by blast

lemma UpdateState_step:
  assumes s: "in_isr s" and t: "t < length (sched_list s)"
  shows "\<exists>s'. Os_SchTblUpdateState t s = Some s' \<and> isr_step s s'"
proof -
  let ?x = "sched_list s ! t"
  have ok: "table_ok s ?x" using in_isr_table [OF s t] .
  then have fin: "Os_SchTblGetFinalOffset t s \<noteq> 0"
    by (simp add: table_ok_def Os_SchTblGetFinalOffset_def Let_def)
  have upd: "isr_step s (upd_sched t (\<lambda>x. x\<lparr>sch_expire_val := v, expire_curr_index := i\<rparr>) s)"
    if "i \<le> length (expirePointList ?x)" for v i
    using that ok by (intro isr_step_sched [OF s t]) (simp_all add: table_ok_def)
  have merge: "upd_sched t (\<lambda>x. x\<lparr>expire_curr_index := 0\<rparr>) (upd_sched t h s)
      = upd_sched t (\<lambda>x. (h x)\<lparr>expire_curr_index := 0\<rparr>) s" for h
    using t by (simp add: upd_sched_def)
  have last: "isr_step s (upd_sched t (\<lambda>x. x\<lparr>expire_curr_index := 0\<rparr>) (upd_sched t (\<lambda>x. x\<lparr>sch_expire_val := v\<rparr>) s))"
    "isr_step s (upd_sched t (\<lambda>x. x\<lparr>expire_curr_index := 0\<rparr>) (upd_sched t (\<lambda>x. x\<lparr>sch_state := st\<rparr>) s))" for v st
    unfolding merge using ok by (auto intro!: isr_step_sched [OF s t] simp: table_ok_def)
  show ?thesis
    using ok fin upd last
    by (cases "Suc (expire_curr_index ?x) = length (expirePointList ?x)";
        cases "expire_curr_index ?x = length (expirePointList ?x)"; cases "repeating ?x")
      (auto simp: Os_SchTblUpdateState_def Let_def table_ok_def)
qed

lemma SchTblCheck_one_step:
  assumes s: "in_isr s" and t: "t < length (sched_list s)"
  shows "\<exists>s'. Os_SchTblCheck_one c t s = Some s' \<and> isr_step s s'"
proof -
  let ?x = "sched_list s ! t"
  let ?act = "if expire_curr_index ?x < length (expirePointList ?x)
     then do { let act = expirePointList ?x ! expire_curr_index ?x;
               s \<leftarrow> activate_all (taskList act) s; set_events (eventList act) s }
     else Some s"
  have act: "\<exists>s'. ?act = Some s' \<and> isr_step s s'"
  proof (cases "expire_curr_index ?x < length (expirePointList ?x)")
    case True
    let ?p = "expirePointList ?x ! expire_curr_index ?x"
    obtain s1 where s1: "activate_all (taskList ?p) s = Some s1" "isr_step s s1" using activate_all_step [OF s] by blast
    obtain s2 where s2: "set_events (eventList ?p) s1 = Some s2" "isr_step s1 s2"
      using set_events_step [OF isr_step_in_isr [OF s1(2)]] by blast
    show ?thesis using True s1 s2 isr_step_trans by auto
  qed (simp add: isr_step_refl [OF s])
  then obtain s1 where s1: "?act = Some s1" "isr_step s s1" by blast
  obtain s2 where s2: "Os_SchTblUpdateState t s1 = Some s2" "isr_step s1 s2"
    using UpdateState_step [OF isr_step_in_isr [OF s1(2)]] isr_step_length(2) [OF s1(2)] t by auto
  have "isr_step s s2" using s1(2) s2(2) by (rule isr_step_trans)
  then show ?thesis
    using s1(1) s2(1) isr_step_refl [OF s] unfolding Os_SchTblCheck_one_def Let_def
    by (simp del: if_split_asm)
qed

lemma SchTblCheck_loop_step:
  "in_isr s \<Longrightarrow> \<forall>t\<in>set ts. t < length (sched_list s) \<Longrightarrow> \<exists>s'. Os_SchTblCheck_loop c ts s = Some s' \<and> isr_step s s'"
proof (induction ts arbitrary: s)
  case (Cons t ts)
  obtain s1 where s1: "Os_SchTblCheck_one c t s = Some s1" "isr_step s s1"
    using SchTblCheck_one_step Cons.prems by (metis list.set_intros(1))
  then obtain s2 where "Os_SchTblCheck_loop c ts s1 = Some s2" "isr_step s1 s2"
    using Cons.IH [of s1] Cons.prems isr_step_in_isr [OF s1(2)] isr_step_length(2) [OF s1(2)] by auto
  then show ?case using s1 isr_step_trans by auto
qed (simp add: isr_step_refl)

lemma counter_tick_bump:
  "counter_tick inc c s = do { s \<leftarrow> Os_AlarmCheck inc c (bump c s); Os_SchTblCheck c s }"
  by (simp add: counter_tick_def bump_def)

text \<open>A tick of counter \<open>c\<close>, when every counter its alarms increment returns.\<close>

lemma counter_tick_step:
  assumes s: "in_isr s" and c: "c < length (counter_list s)"
    and inc: "\<forall>a\<in>set (alarm_head (counter_list s ! c)).
      action_type (action (alarm_list s ! a)) = ALARM_ACTION_INCREMENTCOUNTER \<longrightarrow>
      inc_returns inc s (action_counter_id (action (alarm_list s ! a)))"
  shows "\<exists>s'. counter_tick inc c s = Some s' \<and> isr_step s s'"
proof -
  have heads: "\<forall>a\<in>set (alarm_head (counter_list s ! c)). a < length (alarm_list s)"
      "\<forall>t\<in>set (sched_head (counter_list s ! c)). t < length (sched_list s)"
    using s c by (auto simp: in_isr_def timing_ok_def counter_ok_def)
  have b: "isr_step s (bump c s)" using isr_step_bump [OF s c] .
  have h1: "alarm_head (counter_list (bump c s) ! c) = alarm_head (counter_list s ! c)"
    using c by (simp add: bump_def upd_timing_nth)
  obtain s1 where s1: "Os_AlarmCheck inc c (bump c s) = Some s1" "isr_step (bump c s) s1"
    using AlarmCheck_loop_step [OF b heads(1) inc, of c] by (auto simp: Os_AlarmCheck_def h1)
  have st: "isr_step s s1" using b s1(2) by (rule isr_step_trans)
  then have "map sched_head (counter_list s1) = map sched_head (counter_list s)" by (simp add: isr_step_def)
  then have "sched_head (counter_list s1 ! c) = sched_head (counter_list s ! c)"
    using c by (metis isr_step_length(3) [OF st] nth_map)
  then obtain s2 where "Os_SchTblCheck c s1 = Some s2" "isr_step s1 s2"
    using SchTblCheck_loop_step [OF isr_step_in_isr [OF st], of "sched_head (counter_list s ! c)" c] heads(2) isr_step_length(2) [OF st]
    by (auto simp: Os_SchTblCheck_def)
  then show ?thesis using s1 st isr_step_trans by (auto simp: counter_tick_bump)
qed

text \<open>No alarm increments a counter that leads back to its own: \<open>rank\<close> decreases along the chain.\<close>

definition chain_ok :: "(nat \<Rightarrow> nat) \<Rightarrow> Os_State \<Rightarrow> bool" where
  "chain_ok rank s \<longleftrightarrow> (\<forall>(c, act)\<in>set (alarm_links s).
     action_type act = ALARM_ACTION_INCREMENTCOUNTER \<longrightarrow> rank (action_counter_id act) < rank c)"

lemma chain_ok_step: "isr_step s s' \<Longrightarrow> chain_ok rank s' = chain_ok rank s"
  by (simp add: isr_step_def chain_ok_def)

lemma chain_okD:
  assumes "chain_ok rank s" "a < length (alarm_list s)"
    "action_type (action (alarm_list s ! a)) = ALARM_ACTION_INCREMENTCOUNTER"
  shows "rank (action_counter_id (action (alarm_list s ! a))) < rank (counter (alarm_list s ! a))"
proof -
  have "(counter (alarm_list s ! a), action (alarm_list s ! a)) \<in> set (alarm_links s)"
    using assms(2) by (auto simp: alarm_links_def)
  then show ?thesis using assms(1,3) by (auto simp: chain_ok_def)
qed

lemma IncrementCounter_step:
  "in_isr s \<Longrightarrow> chain_ok rank s \<Longrightarrow> rank c < depth \<Longrightarrow>
     \<exists>rv s'. IncrementCounter depth c s = Some (rv, s') \<and> isr_step s s'"
proof (induction depth arbitrary: c s)
  case (Suc depth)
  have en: "\<not> Os_SysIntAnyDisabled s" using Suc.prems(1) by (simp add: in_isr_def)
  show ?case
  proof (cases "IsCounterValid c s \<and> counter_type (counter_list s ! c) = COUNTER_TYPE_SOFT")
    case False
    then have "IncrementCounter (Suc depth) c s = Some (OS_STD_ERR OSServiceId_IncrementCounter [c] E_OS_ID s)"
      using en by auto
    then show ?thesis using isr_step_refl [OF Suc.prems(1)] by (simp add: OS_STD_ERR_def del: IncrementCounter.simps)
  next
    case True
    let ?s = "s\<lparr>irq_enabled := False\<rparr>"
    have irq: "isr_step s ?s" using isr_step_refl [OF Suc.prems(1)] by simp
    then have i: "in_isr ?s" by (rule isr_step_in_isr)
    have c: "c < length (counter_list ?s)" using True by (simp add: IsCounterValid_def)
    have "inc_returns (IncrementCounter depth) ?s (action_counter_id (action (alarm_list ?s ! a)))"
      if "a \<in> set (alarm_head (counter_list ?s ! c))"
        "action_type (action (alarm_list ?s ! a)) = ALARM_ACTION_INCREMENTCOUNTER" for a
    proof -
      have a: "a < length (alarm_list s)" "counter (alarm_list s ! a) = c"
        using Suc.prems(1) c that(1) by (auto simp: in_isr_def timing_ok_def counter_ok_def)
      then have lt: "rank (action_counter_id (action (alarm_list ?s ! a))) < depth"
        using chain_okD [OF Suc.prems(2) a(1)] that(2) Suc.prems(3) by simp
      have "\<exists>rv s'. IncrementCounter depth (action_counter_id (action (alarm_list ?s ! a))) s1 = Some (rv, s')
          \<and> isr_step s1 s'" if "isr_step ?s s1" for s1
        using Suc.IH [OF isr_step_in_isr [OF that] _ lt] Suc.prems(2)
          chain_ok_step [OF isr_step_trans [OF irq that]] by simp
      then show ?thesis by (simp add: inc_returns_def)
    qed
    then obtain s' where s': "counter_tick (IncrementCounter depth) c ?s = Some s'" "isr_step ?s s'"
      using counter_tick_step [OF i c, of "IncrementCounter depth"] by blast
    have "isr_step s s'" using irq s'(2) by (rule isr_step_trans)
    moreover have "IncrementCounter (Suc depth) c s = Some (STATUS_OK, Irq_Restore (irq_enabled s) s')"
      using True en s'(1) by (simp add: Irq_Save_def)
    ultimately show ?thesis by (simp add: Irq_Restore_def del: IncrementCounter.simps)
  qed
qed simp


lemma demo_t_ok: "timing_ok demo_t"
  by (simp add: demo_t_simps timing_ok_def counter_ok_def alarm_ok_def table_ok_def Os_CounterGetMaxValue_def
      less_Suc_eq)


subsection \<open>The period of a schedule table\<close>

text \<open>The position of expiry point \<open>i\<close>, and of the end, on the time line that starts at point 0.\<close>

definition sch_pos :: "OsSchTbl \<Rightarrow> nat \<Rightarrow> nat" where
  "sch_pos x i = (let n = length (expirePointList x); o0 = unat (offset (expirePointList x ! 0)) in
     if i < n then unat (offset (expirePointList x ! i)) - o0
     else if i = n then unat (duration x) - o0 else unat (duration x))"

text \<open>
  A repeating table with rising expiry points, the first of them behind the start of the table and
  the last before its end, and no distance longer than the counter can count (\<open>mx\<close>).
\<close>

definition periodic :: "OsSchTbl \<Rightarrow> TickType \<Rightarrow> bool" where
  "periodic x mx \<longleftrightarrow>
     (let n = length (expirePointList x) in
      repeating x \<and> next_tbl x = None \<and> expirePointList x \<noteq> []
      \<and> 0 < offset (expirePointList x ! 0) \<and> offset (expirePointList x ! 0) \<le> mx
      \<and> (\<forall>i. Suc i < n \<longrightarrow> offset (expirePointList x ! i) < offset (expirePointList x ! Suc i)
            \<and> offset (expirePointList x ! Suc i) - offset (expirePointList x ! i) \<le> mx)
      \<and> offset (expirePointList x ! (n - 1)) < duration x
      \<and> duration x - offset (expirePointList x ! (n - 1)) \<le> mx)"

lemma offsets_mono:
  assumes "\<forall>i. Suc i < n \<longrightarrow> (f i :: uint32) < f (Suc i)" "i \<le> j" "j < n"
  shows "f i \<le> f j"
  using assms(2,3)
proof (induction j)
  case (Suc j)
  then show ?case using assms(1) by (cases "i = Suc j") (auto intro: order.trans less_imp_le)
qed simp

text \<open>The delay \<open>Os_SchTblUpdateState\<close> adds at index \<open>k\<close>.\<close>

definition sch_delta :: "OsSchTbl \<Rightarrow> nat \<Rightarrow> TickType" where
  "sch_delta x k = (let n = length (expirePointList x); f = (\<lambda>i. offset (expirePointList x ! i)) in
     if Suc k < n then f (Suc k) - f k else if Suc k = n then duration x - f (n - 1) else f 0)"

lemma sch_pos_Suc:
  assumes "\<forall>i. Suc i < length (expirePointList x) \<longrightarrow>
      offset (expirePointList x ! i) < offset (expirePointList x ! Suc i)"
    and "expirePointList x \<noteq> []" "offset (expirePointList x ! (length (expirePointList x) - 1)) < duration x"
    and "k \<le> length (expirePointList x)"
  shows "sch_pos x (Suc k) = sch_pos x k + unat (sch_delta x k)"
proof -
  let ?n = "length (expirePointList x)" and ?f = "\<lambda>i. offset (expirePointList x ! i)"
  have m: "?f i \<le> ?f j" if "i \<le> j" "j < ?n" for i j
    using offsets_mono [OF assms(1) that] .
  have mu: "unat (?f i) \<le> unat (?f j)" if "i \<le> j" "j < ?n" for i j using m [OF that] by (simp add: word_le_nat_alt)
  have n: "0 < ?n" using assms(2) by simp
  have D: "unat (?f (?n - 1)) < unat (duration x)" using assms(3) by (simp add: word_less_nat_alt)
  consider "Suc k < ?n" | "Suc k = ?n" | "k = ?n" using assms(4) by linarith
  then show ?thesis
  proof cases
    case 1
    then show ?thesis
      using mu [of 0 k] mu [of k "Suc k"] m [of k "Suc k"] by (simp add: sch_pos_def sch_delta_def Let_def unat_sub)
  next
    case 2
    then have "?n - 1 = k" by simp
    moreover have "?f k \<le> duration x" using assms(3) \<open>?n - 1 = k\<close> by (simp add: less_imp_le)
    ultimately show ?thesis
      using 2 mu [of 0 k] D by (simp add: sch_pos_def sch_delta_def Let_def unat_sub)
  next
    case 3
    then show ?thesis
      using n mu [of 0 "?n - 1"] D by (simp add: sch_pos_def sch_delta_def Let_def)
  qed
qed

lemma sch_delta_bounds:
  assumes "periodic x mx" "k \<le> length (expirePointList x)"
  shows "sch_delta x k \<le> mx" and "0 < unat (sch_delta x k)"
proof -
  let ?n = "length (expirePointList x)"
  have p: "0 < offset (expirePointList x ! 0)" "offset (expirePointList x ! 0) \<le> mx"
      "offset (expirePointList x ! (?n - 1)) < duration x" "duration x - offset (expirePointList x ! (?n - 1)) \<le> mx"
      "\<And>i. Suc i < ?n \<Longrightarrow> offset (expirePointList x ! i) < offset (expirePointList x ! Suc i)
          \<and> offset (expirePointList x ! Suc i) - offset (expirePointList x ! i) \<le> mx"
    using assms(1) by (simp_all add: periodic_def Let_def)
  have pos: "0 < unat (b - a)" if "a < b" for a b :: uint32
    using that by (simp add: unat_sub less_imp_le word_less_nat_alt)
  show "sch_delta x k \<le> mx" using p(2,4) p(5) [of k] by (simp add: sch_delta_def Let_def)
  show "0 < unat (sch_delta x k)"
    using p(1,3) p(5) [of k] pos by (simp add: sch_delta_def Let_def) (simp add: unat_gt_0 word_gt_0)
qed

lemma UpdateState_periodic:
  assumes t: "t < length (sched_list s)" and p: "periodic (sched_list s ! t) mx"
    and k: "expire_curr_index (sched_list s ! t) = k" "k \<le> length (expirePointList (sched_list s ! t))"
  shows "Os_SchTblUpdateState t s = Some (upd_sched t (\<lambda>x. x
      \<lparr>expire_curr_index := (if k = length (expirePointList (sched_list s ! t)) then 0 else Suc k),
       sch_expire_val := sch_ahead t (sch_delta (sched_list s ! t) k) s\<rparr>) s)"
proof -
  let ?x = "sched_list s ! t" and ?n = "length (expirePointList (sched_list s ! t))"
  have pp: "repeating ?x" "next_tbl ?x = None" "expirePointList ?x \<noteq> []"
      "offset (expirePointList ?x ! (?n - 1)) < duration ?x"
    using p by (simp_all add: periodic_def Let_def)
  have fin: "Os_SchTblGetFinalOffset t s \<noteq> 0" and n: "0 < ?n"
    using pp by (auto simp: Os_SchTblGetFinalOffset_def Let_def)
  have comm: "x\<lparr>sch_expire_val := v, expire_curr_index := i\<rparr> = x\<lparr>expire_curr_index := i, sch_expire_val := v\<rparr>"
    for x :: OsSchTbl and v i by (cases x) simp
  consider "Suc k < ?n" | "Suc k = ?n" | "k = ?n" using k(2) by linarith
  then show ?thesis
  proof cases
    case 1
    then show ?thesis using k pp by (simp add: Os_SchTblUpdateState_def Let_def sch_delta_def comm)
  next
    case 2
    then show ?thesis
      using k pp fin by (simp add: Os_SchTblUpdateState_def Let_def sch_delta_def Os_SchTblGetFinalOffset_def comm)
  next
    case 3
    then show ?thesis
      using k pp n t
      by (simp add: Os_SchTblUpdateState_def Let_def sch_delta_def Os_SchTblGetInitialOffset_def upd_sched_def comm)
  qed
qed

text \<open>
  Counter \<open>c\<close>, ticked in an interrupt, drives table \<open>t\<close> only; the table is configured as \<open>x\<close>, waits
  for expiry \<open>k\<close> (the end of the round if \<open>k\<close> is the number of its points), and \<open>d\<close> ticks are left.
\<close>

definition waits :: "nat \<Rightarrow> nat \<Rightarrow> OsSchTbl \<Rightarrow> TickType \<Rightarrow> nat \<Rightarrow> nat \<Rightarrow> Os_State \<Rightarrow> bool" where
  "waits c t x mx k d s \<longleftrightarrow>
     Os_inv s \<and> intNestCnt s \<noteq> 0 \<and> \<not> Os_SysIntAnyDisabled s
     \<and> c < length (counter_list s) \<and> counter_type (counter_list s ! c) = COUNTER_TYPE_SOFT
     \<and> alarm_head (counter_list s ! c) = [] \<and> sched_head (counter_list s ! c) = [t]
     \<and> Os_CounterGetValue c s \<le> mx \<and> Os_CounterGetMaxValue c s = mx
     \<and> t < length (sched_list s) \<and> sch_counter x = c \<and> k \<le> length (expirePointList x)
     \<and> 0 < d \<and> d \<le> unat mx + 1
     \<and> (\<exists>v. unat v = (unat (Os_CounterGetValue c s) + d) mod (unat mx + 1)
          \<and> sched_list s ! t = x\<lparr>expire_curr_index := k, sch_expire_val := v, sch_state := SCHEDULETABLE_RUNNING\<rparr>)"

lemma waits_table:
  assumes "waits c t x mx k d s"
  shows "sch_state (sched_list s ! t) = SCHEDULETABLE_RUNNING" "expire_curr_index (sched_list s ! t) = k"
    "expirePointList (sched_list s ! t) = expirePointList x" "sch_counter (sched_list s ! t) = c"
    "periodic (sched_list s ! t) mx = periodic x mx" "sch_delta (sched_list s ! t) = sch_delta x"
    "unat (sch_expire_val (sched_list s ! t)) = (unat (Os_CounterGetValue c s) + d) mod (unat mx + 1)"
  using assms by (auto simp: waits_def periodic_def sch_delta_def Let_def)

text \<open>What the actions of an expiry point do.\<close>

definition expiry_actions :: "OsScheduleTableExpiryPoint \<Rightarrow> Os_State \<Rightarrow> Os_State option" where
  "expiry_actions p s = do { s \<leftarrow> activate_all (taskList p) s; set_events (eventList p) s }"

lemma expiry_actions_frame:
  assumes "Os_inv s" "intNestCnt s \<noteq> 0" "\<not> Os_SysIntAnyDisabled s"
  shows "\<exists>s'. expiry_actions p s = Some s' \<and> os_frame s s' \<and> Os_inv s'"
proof -
  obtain s1 where s1: "activate_all (taskList p) s = Some s1" "os_frame s s1" "Os_inv s1"
    using activate_all_frame assms by blast
  moreover have "intNestCnt s1 \<noteq> 0" "\<not> Os_SysIntAnyDisabled s1" using s1(2) assms by (simp_all add: os_frame_def)
  then obtain s2 where "set_events (eventList p) s1 = Some s2" "os_frame s1 s2" "Os_inv s2"
    using set_events_frame s1(3) by blast
  ultimately show ?thesis using os_frame_trans by (auto simp: expiry_actions_def)
qed

lemma periodic_max_pos: "periodic x mx \<Longrightarrow> 1 \<le> mx"
  by (auto simp: periodic_def Let_def word_le_nat_alt word_less_nat_alt)

lemma bump_waits:
  assumes w: "waits c t x mx k d s" and p: "periodic x mx"
  shows "unat (Os_CounterGetValue c (bump c s)) = (unat (Os_CounterGetValue c s) + 1) mod (unat mx + 1)"
    and "Os_CounterGetMaxValue c (bump c s) = mx" "Os_CounterGetValue c (bump c s) \<le> mx"
    and "Os_CounterGetValue c (bump c s) = sch_expire_val (sched_list s ! t) \<longleftrightarrow> d = 1"
    and "counter_type (counter_list (bump c s) ! c) = COUNTER_TYPE_SOFT"
      "alarm_head (counter_list (bump c s) ! c) = []" "sched_head (counter_list (bump c s) ! c) = [t]"
      "length (counter_list (bump c s)) = length (counter_list s)" "sched_list (bump c s) = sched_list s"
proof -
  have c: "c < length (counter_list s)" "Os_CounterGetValue c s \<le> mx" "Os_CounterGetMaxValue c s = mx"
    using w by (simp_all add: waits_def)
  have v: "Os_CounterGetValue c (bump c s) = Os_CounterAdd (Os_CounterGetValue c s) mx 1"
    using c by (simp add: bump_def Os_CounterGetValue_def upd_timing_nth)
  show u: "unat (Os_CounterGetValue c (bump c s)) = (unat (Os_CounterGetValue c s) + 1) mod (unat mx + 1)"
    using CounterAdd_unat [OF c(2) periodic_max_pos [OF p]] by (simp add: v)
  show "Os_CounterGetMaxValue c (bump c s) = mx"
    using c by (simp add: bump_def Os_CounterGetMaxValue_def upd_timing_nth)
  show "Os_CounterGetValue c (bump c s) \<le> mx" unfolding v by (rule CounterAdd_le [OF c(2) periodic_max_pos [OF p]])
  show "Os_CounterGetValue c (bump c s) = sch_expire_val (sched_list s ! t) \<longleftrightarrow> d = 1"
    using w u mod_eq_shift_iff [of d "unat mx" "unat (Os_CounterGetValue c s)"] waits_table(7) [OF w]
    by (simp add: word_unat_eq_iff waits_def)
  show "counter_type (counter_list (bump c s) ! c) = COUNTER_TYPE_SOFT"
      "alarm_head (counter_list (bump c s) ! c) = []" "sched_head (counter_list (bump c s) ! c) = [t]"
      "length (counter_list (bump c s)) = length (counter_list s)" "sched_list (bump c s) = sched_list s"
    using w c by (simp_all add: waits_def bump_def upd_timing_nth)
qed

text \<open>A tick is the check of the table, at the new value of the counter.\<close>

lemma IncrementCounter_table:
  assumes w: "waits c t x mx k d s" and p: "periodic x mx"
  shows "IncrementCounter (Suc depth) c s = do { s1 \<leftarrow> Os_SchTblCheck_one c t ((bump c s)\<lparr>irq_enabled := False\<rparr>);
      Some (STATUS_OK, Irq_Restore (irq_enabled s) s1) }"
proof -
  have "upd_counter c (\<lambda>x. x\<lparr>val := Os_CounterAdd (val x) (Os_CounterGetMaxValue c s) 1\<rparr>)
      (s\<lparr>irq_enabled := False\<rparr>) = (bump c s)\<lparr>irq_enabled := False\<rparr>"
    by (simp add: bump_def upd_irq_commute)
  then show ?thesis
    using w bump_waits [OF w p]
    by (simp add: waits_def IsCounterValid_def Irq_Save_def counter_tick_def Os_AlarmCheck_def Os_SchTblCheck_def
        bind_eq_Some_conv split: option.split)
qed

lemma tick_waits:
  assumes w: "waits c t x mx k d s" and p: "periodic x mx" and d: "1 < d"
  shows "IncrementCounter (Suc depth) c s = Some (STATUS_OK, bump c s)" and "waits c t x mx k (d - 1) (bump c s)"
proof -
  note b = bump_waits [OF w p]
  have "Os_SchTblCheck_one c t ((bump c s)\<lparr>irq_enabled := False\<rparr>) = Some ((bump c s)\<lparr>irq_enabled := False\<rparr>)"
    using b(4,9) d waits_table(1) [OF w] by (simp add: Os_SchTblCheck_one_def Let_def)
  moreover have "(bump c s)\<lparr>irq_enabled := irq_enabled s\<rparr> = bump c s" by (simp add: bump_def upd_counter_def)
  ultimately show "IncrementCounter (Suc depth) c s = Some (STATUS_OK, bump c s)"
    by (simp add: IncrementCounter_table [OF w p] Irq_Restore_def del: IncrementCounter.simps)
  have "(unat (Os_CounterGetValue c (bump c s)) + (d - 1)) mod (unat mx + 1)
      = (unat (Os_CounterGetValue c s) + d) mod (unat mx + 1)"
  proof -
    obtain e where "d = e + 1" using d by (cases d) auto
    then show ?thesis by (simp add: b(1) mod_simps)
  qed
  moreover have "Os_inv (bump c s)" "intNestCnt (bump c s) = intNestCnt s"
      "Os_SysIntAnyDisabled (bump c s) = Os_SysIntAnyDisabled s"
    using w by (simp_all add: bump_def waits_def)
  moreover have "d \<le> unat mx + 1" using w by (simp add: waits_def)
  then have "d - 1 \<le> unat mx + 1" by linarith
  ultimately show "waits c t x mx k (d - 1) (bump c s)"
    using w d b by (simp add: waits_def)
qed

lemma tick_expires:
  assumes w: "waits c t x mx k 1 s" and p: "periodic x mx"
  shows "\<exists>s'. IncrementCounter (Suc depth) c s = Some (STATUS_OK, s')
    \<and> waits c t x mx (if k = length (expirePointList x) then 0 else Suc k) (unat (sch_delta x k)) s'
    \<and> (if k < length (expirePointList x)
       then \<exists>s3. expiry_actions (expirePointList x ! k) ((bump c s)\<lparr>irq_enabled := False\<rparr>) = Some s3
              \<and> Os_TaskVarList s' = Os_TaskVarList s3
       else Os_TaskVarList s' = Os_TaskVarList s)"
proof -
  let ?b = "(bump c s)\<lparr>irq_enabled := False\<rparr>" and ?n = "length (expirePointList x)" and ?d = "sch_delta x k"
  note b = bump_waits [OF w p] and x = waits_table [OF w]
  have w': "Os_inv s" "intNestCnt s \<noteq> 0" "\<not> Os_SysIntAnyDisabled s" "k \<le> ?n" "t < length (sched_list s)"
      "c < length (counter_list s)"
    using w by (simp_all add: waits_def)
  have ib: "Os_inv ?b" "intNestCnt ?b \<noteq> 0" "\<not> Os_SysIntAnyDisabled ?b" "Os_TaskVarList ?b = Os_TaskVarList s"
    using w' by (simp_all add: bump_def)
  let ?act = "if k < ?n then expiry_actions (expirePointList x ! k) ?b else Some ?b"
  have "\<exists>s1. ?act = Some s1 \<and> os_frame ?b s1 \<and> Os_inv s1"
    using expiry_actions_frame [OF ib(1-3)] ib(1) os_frame_refl [of ?b] by (simp del: os_frame_upd)
  then obtain s1 where s1: "?act = Some s1" "os_frame ?b s1" "Os_inv s1" by blast
  note f = os_frame_timing [OF s1(2)]
  have tb: "sched_list s1 = sched_list s" "counter_list s1 = counter_list (bump c s)" using f b(9) by simp_all
  have cv: "Os_CounterGetValue c s1 = Os_CounterGetValue c (bump c s)" "Os_CounterGetMaxValue c s1 = mx"
    using tb(2) b(2) by (simp_all add: Os_CounterGetValue_def Os_CounterGetMaxValue_def)
  let ?up = "\<lambda>y. y\<lparr>expire_curr_index := (if k = ?n then 0 else Suc k), sch_expire_val := sch_ahead t ?d s1\<rparr>"
  have up: "Os_SchTblUpdateState t s1 = Some (upd_sched t ?up s1)"
    using UpdateState_periodic [of t s1 mx k] w'(4,5) x(2,3,5,6) p tb(1) by simp
  have chk: "Os_SchTblCheck_one c t ?b = do { s1 \<leftarrow> ?act; Os_SchTblUpdateState t s1 }"
    using x(1-3) b(4,9) by (simp add: Os_SchTblCheck_one_def Let_def expiry_actions_def)
  have "IncrementCounter (Suc depth) c s = Some (STATUS_OK, Irq_Restore (irq_enabled s) (upd_sched t ?up s1))"
    by (simp only: IncrementCounter_table [OF w p] chk s1(1) up bind.simps)
  moreover have "waits c t x mx (if k = ?n then 0 else Suc k) (unat ?d) (Irq_Restore (irq_enabled s) (upd_sched t ?up s1))"
  proof -
    note d = sch_delta_bounds [OF p w'(4)]
    have "unat (sch_ahead t ?d s1) = (unat (Os_CounterGetValue c s1) + unat ?d) mod (unat mx + 1)"
      using CounterAdd_unat [OF b(3) d(1)] cv x(4) tb(1) by (simp add: sch_ahead_def Let_def)
    moreover have "\<exists>v. sched_list s ! t = x\<lparr>expire_curr_index := k, sch_expire_val := v, sch_state := SCHEDULETABLE_RUNNING\<rparr>"
      using w by (auto simp: waits_def)
    then have "?up (sched_list s ! t) = x\<lparr>expire_curr_index := (if k = ?n then 0 else Suc k),
        sch_expire_val := sch_ahead t ?d s1, sch_state := SCHEDULETABLE_RUNNING\<rparr>" by (cases x) auto
    moreover have "unat ?d \<le> unat mx + 1" using d(1) by (simp add: word_le_nat_alt)
    ultimately show ?thesis
      using w' w b d(2) s1(3) f(5,6) ib(2,3) cv tb
      by (auto simp: waits_def Irq_Restore_def upd_timing_nth)
  qed
  moreover have "Os_TaskVarList (Irq_Restore (irq_enabled s) (upd_sched t ?up s1)) = Os_TaskVarList s1"
    by (simp add: Irq_Restore_def upd_sched_def)
  ultimately show ?thesis using s1(1) ib(4) by (cases "k < ?n") auto
qed

text \<open>
  The tick at which expiry \<open>k\<close> of round \<open>r\<close> is due, \<open>n\<close> being the ticks to the first one, and the
  same for the expiries counted through, the end of a round being one of them.
\<close>

definition sch_time :: "OsSchTbl \<Rightarrow> nat \<Rightarrow> nat \<Rightarrow> nat \<Rightarrow> nat" where
  "sch_time x n r k = n + r * unat (duration x) + sch_pos x k"

definition expiry_no :: "OsSchTbl \<Rightarrow> nat \<Rightarrow> nat \<Rightarrow> nat" where
  "expiry_no x n j = (let l = Suc (length (expirePointList x)) in sch_time x n (j div l) (j mod l))"

lemma expiry_no_Suc:
  assumes p: "periodic x mx"
  shows "expiry_no x n (Suc j) = expiry_no x n j + unat (sch_delta x (j mod Suc (length (expirePointList x))))"
proof -
  let ?l = "Suc (length (expirePointList x))"
  have "j mod ?l < ?l" by simp
  then have le: "j mod ?l \<le> length (expirePointList x)" by linarith
  have S: "sch_pos x (Suc (j mod ?l)) = sch_pos x (j mod ?l) + unat (sch_delta x (j mod ?l))"
    using p le by (intro sch_pos_Suc) (auto simp: periodic_def Let_def)
  show ?thesis
  proof (cases "Suc (j mod ?l) = ?l")
    case True
    then have "Suc j mod ?l = 0" "Suc j div ?l = Suc (j div ?l)" by (simp_all add: mod_Suc div_Suc)
    moreover have "sch_pos x ?l = unat (duration x)" "sch_pos x 0 = 0"
      using p by (simp_all add: sch_pos_def Let_def periodic_def)
    ultimately show ?thesis using S True by (simp add: expiry_no_def sch_time_def Let_def)
  next
    case False
    then have "Suc j mod ?l = Suc (j mod ?l)" "Suc j div ?l = j div ?l" by (simp_all add: mod_Suc div_Suc)
    then show ?thesis using S by (simp add: expiry_no_def sch_time_def Let_def)
  qed
qed

lemma expiry_no_mono: "periodic x mx \<Longrightarrow> i < j \<Longrightarrow> expiry_no x n i < expiry_no x n j"
proof (induction j)
  case (Suc j)
  have "expiry_no x n j < expiry_no x n (Suc j)"
    unfolding expiry_no_Suc [OF Suc.prems(1)]
    using sch_delta_bounds(2) [OF Suc.prems(1), of "j mod Suc (length (expirePointList x))"] mod_less_divisor less_Suc_eq_le
    by auto
  then show ?case using Suc by (cases "i = j") auto
qed simp

text \<open>After \<open>m\<close> ticks the table waits for the first expiry that is due later.\<close>

lemma table_ticks:
  assumes w: "waits c t x mx 0 n s" and p: "periodic x mx"
  shows "\<exists>s' j d. inc_times (Suc depth) c m s = Some s'
    \<and> waits c t x mx (j mod Suc (length (expirePointList x))) d s'
    \<and> expiry_no x n j = m + d \<and> (\<forall>i<j. expiry_no x n i \<le> m)"
proof (induction m)
  case 0
  have "expiry_no x n 0 = n" using p by (simp add: expiry_no_def sch_time_def sch_pos_def Let_def periodic_def)
  then show ?case using w by (intro exI [of _ s] exI [of _ 0] exI [of _ n]) simp
next
  case (Suc m)
  let ?l = "Suc (length (expirePointList x))"
  obtain s1 j d where s1: "inc_times (Suc depth) c m s = Some s1" "waits c t x mx (j mod ?l) d s1"
      "expiry_no x n j = m + d" "\<forall>i<j. expiry_no x n i \<le> m"
    using Suc.IH by blast
  have next_tick: "inc_times (Suc depth) c (Suc m) s = Some s2" if "IncrementCounter (Suc depth) c s1 = Some (STATUS_OK, s2)" for s2
    using inc_times_add [of "Suc depth" c m 1 s] s1(1) that by (simp del: IncrementCounter.simps)
  show ?case
  proof (cases "d = 1")
    case True
    then have w1: "waits c t x mx (j mod ?l) 1 s1" using s1(2) by simp
    have k: "Suc j mod ?l = (if j mod ?l = length (expirePointList x) then 0 else Suc (j mod ?l))" by (simp add: mod_Suc)
    obtain s2 where s2: "IncrementCounter (Suc depth) c s1 = Some (STATUS_OK, s2)"
        "waits c t x mx (Suc j mod ?l) (unat (sch_delta x (j mod ?l))) s2"
      using tick_expires [OF w1 p, of depth] by (elim exE conjE) (rule that, assumption, simp only: k)
    have "expiry_no x n (Suc j) = Suc m + unat (sch_delta x (j mod ?l))"
      using expiry_no_Suc [OF p, of n j] s1(3) True by simp
    moreover have "\<forall>i<Suc j. expiry_no x n i \<le> Suc m" using s1(3,4) True by (auto simp: less_Suc_eq)
    ultimately show ?thesis
      using next_tick [OF s2(1)] s2(2) by (intro exI [of _ s2] exI [of _ "Suc j"] exI conjI)
  next
    case False
    then have d: "1 < d" using s1(2) by (auto simp: waits_def)
    have "expiry_no x n j = Suc m + (d - 1)" "\<forall>i<j. expiry_no x n i \<le> Suc m" using s1(3,4) d by auto
    then show ?thesis
      using next_tick [OF tick_waits(1) [OF s1(2) p d]] tick_waits(2) [OF s1(2) p d]
      by (intro exI [of _ "bump c s1"] exI [of _ j] exI conjI)
  qed
qed

text \<open>What \<open>StartScheduleTableRel\<close> does when it succeeds.\<close>

lemma StartScheduleTableRel_waits:
  assumes inv: "Os_inv s" "intNestCnt s \<noteq> 0" and start: "StartScheduleTableRel t off s = (STATUS_OK, s0)"
    and x: "sched_list s ! t = x" "sch_counter x = c" "expire_curr_index x = 0" "periodic x (Os_CounterGetMaxValue c s)"
    and c: "c < length (counter_list s)" "counter_type (counter_list s ! c) = COUNTER_TYPE_SOFT"
      "alarm_head (counter_list s ! c) = []" "sched_head (counter_list s ! c) = [t]"
      "Os_CounterGetValue c s \<le> Os_CounterGetMaxValue c s"
    and n: "n = unat off + unat (offset (expirePointList x ! 0))" "n < 2 ^ 32"
  shows "waits c t x (Os_CounterGetMaxValue c s) 0 n s0"
proof -
  let ?mx = "Os_CounterGetMaxValue c s" and ?o = "off + offset (expirePointList x ! 0)"
  have ok: "\<not> Os_SysIntAnyDisabled s" "t < length (sched_list s)" "off \<noteq> 0" "?o \<le> ?mx"
      "s0 = upd_sched t (\<lambda>y. y\<lparr>sch_expire_val := sch_ahead t ?o s, sch_state := SCHEDULETABLE_RUNNING\<rparr>) s"
    using start x(1,2)
    by (auto simp: StartScheduleTableRel_def Let_def OS_STD_ERR_def Irq_Save_def Irq_Restore_def upd_sched_def
        Os_SchTblGetInitialOffset_def sch_ahead_def Os_CounterGetValue_def Os_CounterGetMaxValue_def
        split: if_splits prod.splits)
  have o: "unat ?o = n" using n by (simp add: unat_word_ariths)
  have "unat (sch_ahead t ?o s) = (unat (Os_CounterGetValue c s) + n) mod (unat ?mx + 1)"
    using CounterAdd_unat [OF c(5) ok(4)] x(1,2) o by (simp add: sch_ahead_def Let_def)
  moreover have "0 < n" using ok(3) by (simp add: n(1) unat_gt_0)
  moreover have "n \<le> unat ?mx + 1" using ok(4) o by (simp add: word_le_nat_alt)
  moreover have "y\<lparr>sch_expire_val := v, sch_state := st\<rparr> = y\<lparr>expire_curr_index := 0, sch_expire_val := v, sch_state := st\<rparr>"
    if "expire_curr_index y = 0" for y :: OsSchTbl and v st using that by (cases y) simp
  then have "x\<lparr>sch_expire_val := v, sch_state := st\<rparr> = x\<lparr>expire_curr_index := 0, sch_expire_val := v, sch_state := st\<rparr>" for v st
    using x(3) by blast
  ultimately show ?thesis
    using inv ok x(1,2) c by (simp add: waits_def upd_timing_nth) blast
qed



subsection \<open>Defects of the timing services\<close>

text \<open>
  A schedule table that is stopped in the middle of a round and started again continues with the
  expiry point at which it was stopped instead of the first one, at the delay of the first one.
\<close>

theorem ScheduleTable_restart_keeps_index:
  assumes "StopScheduleTable sid s = (STATUS_OK, s1)" "StartScheduleTableRel sid off s1 = (STATUS_OK, s2)"
  shows "sch_state (sched_list s2 ! sid) = SCHEDULETABLE_RUNNING
    \<and> expire_curr_index (sched_list s2 ! sid) = expire_curr_index (sched_list s ! sid)
    \<and> sch_expire_val (sched_list s2 ! sid) = sch_ahead sid (off + offset (expirePointList (sched_list s ! sid) ! 0)) s"
proof -
  have s1: "sid < length (sched_list s)" "s1 = upd_sched sid (\<lambda>x. x\<lparr>sch_state := SCHEDULETABLE_STOPPED\<rparr>) s"
    using assms(1) by (auto simp: StopScheduleTable_def Let_def OS_STD_ERR_def split: if_splits prod.splits)
  show ?thesis
    using assms(2) s1
    by (auto simp: StartScheduleTableRel_def Let_def OS_STD_ERR_def sch_ahead_def Os_SchTblGetInitialOffset_def
        Os_CounterGetValue_def Os_CounterGetMaxValue_def upd_sched_def Irq_Save_def Irq_Restore_def split: if_splits prod.splits)
qed

theorem ScheduleTable_restart_keeps_index_witness:
  "\<exists>s s1 s2. StopScheduleTable 0 s = (STATUS_OK, s1) \<and> StartScheduleTableRel 0 1 s1 = (STATUS_OK, s2)
    \<and> expire_curr_index (sched_list s2 ! 0) = 1 \<and> sch_expire_val (sched_list s2 ! 0) = 9"
proof -
  let ?s = "upd_sched 0 (\<lambda>x. x\<lparr>sch_state := SCHEDULETABLE_RUNNING, expire_curr_index := 1\<rparr>) demo_t"
  let ?s1 = "snd (StopScheduleTable 0 ?s)"
  have 1: "StopScheduleTable 0 ?s = (STATUS_OK, ?s1)"
    by (simp add: demo_t_simps StopScheduleTable_def Let_def Os_SysIntAnyDisabled_def upd_sched_def)
  have 2: "StartScheduleTableRel 0 1 ?s1 = (STATUS_OK, snd (StartScheduleTableRel 0 1 ?s1))"
    by (simp add: demo_t_simps StopScheduleTable_def StartScheduleTableRel_def Let_def Os_SysIntAnyDisabled_def
        upd_sched_def Os_SchTblGetInitialOffset_def Os_CounterGetMaxValue_def Irq_Save_def)
  have 3: "expire_curr_index (sched_list ?s ! 0) = 1" "sch_ahead 0 (1 + offset (expirePointList (sched_list ?s ! 0) ! 0)) ?s = 9"
    by (simp_all add: demo_t_simps upd_sched_def sch_ahead_def Os_CounterAdd_def Os_CounterGetValue_def Os_CounterGetMaxValue_def)
  show ?thesis using 1 2 ScheduleTable_restart_keeps_index [OF 1 2] 3 by metis
qed

text \<open>
  A schedule table started with \<open>StartScheduleTableAbs\<close> at a start value whose sum with the
  initial offset exceeds the counter's maximum is accepted and runs, but no value the counter can take
  makes it expire.
\<close>

theorem StartScheduleTableAbs_never_expires:
  assumes "StartScheduleTableAbs sid start s = (STATUS_OK, s')"
    and "c = sch_counter (sched_list s ! sid)" "c < length (counter_list s)"
    and "unat start + unat (Os_SchTblGetInitialOffset sid s) < 2 ^ 32"
    and "unat (Os_CounterGetMaxValue c s) < unat start + unat (Os_SchTblGetInitialOffset sid s)"
    and "v \<le> Os_CounterGetMaxValue c s"
  shows "sch_state (sched_list s' ! sid) = SCHEDULETABLE_RUNNING
    \<and> Os_SchTblCheck_one c sid (upd_counter c (\<lambda>x. x\<lparr>val := v\<rparr>) s') = Some (upd_counter c (\<lambda>x. x\<lparr>val := v\<rparr>) s')"
proof -
  have s': "sid < length (sched_list s)" "counter_list s' = counter_list s"
    "sched_list s' = sched_list (upd_sched sid (\<lambda>x. x\<lparr>sch_expire_val := start + Os_SchTblGetInitialOffset sid s,
        sch_state := SCHEDULETABLE_RUNNING\<rparr>) s)"
    using assms(1)
    by (auto simp: StartScheduleTableAbs_def Let_def OS_STD_ERR_def Os_SchTblGetInitialOffset_def upd_sched_def
        Irq_Save_def Irq_Restore_def split: if_splits prod.splits)
  have "unat (start + Os_SchTblGetInitialOffset sid s) = unat start + unat (Os_SchTblGetInitialOffset sid s)"
    using assms(4) by (simp add: unat_word_ariths)
  then have "v \<noteq> start + Os_SchTblGetInitialOffset sid s" using assms(5,6) by (auto simp: word_le_nat_alt)
  then show ?thesis
    using s' assms(3) by (simp add: Os_SchTblCheck_one_def Let_def upd_sched_def upd_counter_def Os_CounterGetValue_def)
qed

theorem StartScheduleTableAbs_never_expires_witness:
  "\<exists>s'. StartScheduleTableAbs 0 8 demo_t = (STATUS_OK, s') \<and> sch_state (sched_list s' ! 0) = SCHEDULETABLE_RUNNING
    \<and> Os_SchTblCheck_one 1 0 (upd_counter 1 (\<lambda>x. x\<lparr>val := 0\<rparr>) s') = Some (upd_counter 1 (\<lambda>x. x\<lparr>val := 0\<rparr>) s')"
proof -
  have "StartScheduleTableAbs 0 8 demo_t = (STATUS_OK, snd (StartScheduleTableAbs 0 8 demo_t))"
    by (simp add: demo_t_simps StartScheduleTableAbs_def Let_def Os_SysIntAnyDisabled_def
        upd_sched_def Os_SchTblGetInitialOffset_def Os_CounterGetMaxValue_def Irq_Save_def)
  moreover have "sch_counter (sched_list demo_t ! 0) = 1" "1 < length (counter_list demo_t)"
    "unat (Os_SchTblGetInitialOffset 0 demo_t) = 2" "Os_CounterGetMaxValue 1 demo_t = 9"
    by (simp_all add: demo_t_simps Os_CounterGetMaxValue_def Os_SchTblGetInitialOffset_def)
  ultimately show ?thesis
    using StartScheduleTableAbs_never_expires [of 0 8 demo_t "snd (StartScheduleTableAbs 0 8 demo_t)" 1 0] by auto
qed

lemma add_tables_frame:
  "length (counter_list (add_tables ts s)) = length (counter_list s)
   \<and> alarm_head (counter_list (add_tables ts s) ! c) = alarm_head (counter_list s ! c)"
proof (induction ts arbitrary: s)
  case (Cons i ts)
  have "alarm_head (xs[j := (xs ! j)\<lparr>sched_head := z\<rparr>] ! c) = alarm_head (xs ! c)" for xs :: "OsCounter list" and j z
    by (cases "j < length xs"; cases "c = j"; simp add: list_update_beyond)
  then show ?case using Cons.IH by (simp add: upd_counter_def)
qed simp

lemma add_alarms_frame:
  "length (counter_list (add_alarms as s)) = length (counter_list s) \<and> sched_list (add_alarms as s) = sched_list s"
  by (induction as arbitrary: s) (simp_all add: upd_counter_def)

text \<open>
  \<open>Os_CounterInit\<close> empties the alarm list of the counter of the first schedule table after the
  alarms were added: no alarm of this counter is ever checked.
\<close>

theorem Os_CounterInit_drops_alarms:
  assumes "sched_list s \<noteq> []" "c = sch_counter (sched_list s ! 0)" "c < length (counter_list s)"
  shows "alarm_head (counter_list (Os_CounterInit s) ! c) = []"
  using assms
  by (simp add: Os_CounterInit_def Let_def add_tables_frame add_alarms_frame) (simp add: upd_counter_def add_alarms_frame)

theorem Os_CounterInit_drops_alarms_witness:
  "counter (alarm_list (upd_alarm 0 (\<lambda>x. x\<lparr>counter := 1\<rparr>) demo_t) ! 0) = 1
   \<and> alarm_head (counter_list (Os_CounterInit (upd_alarm 0 (\<lambda>x. x\<lparr>counter := 1\<rparr>) demo_t)) ! 1) = []"
  using Os_CounterInit_drops_alarms [of "upd_alarm 0 (\<lambda>x. x\<lparr>counter := 1\<rparr>) demo_t" 1]
  by (simp add: demo_t_simps upd_alarm_def)

text \<open>
  For a hardware counter \<open>GetCounterValue\<close> hands out the system tick, which is not reduced to the
  counter's range: once the tick has passed the maximum, \<open>GetElapsedValue\<close> rejects the very value
  \<open>GetCounterValue\<close> returned.
\<close>

theorem hard_counter_value_rejected:
  assumes "\<not> Os_SysIntAnyDisabled s" "IsCounterValid c s" "counter_type (counter_list s ! c) = COUNTER_TYPE_HARD"
    and "Os_CounterGetMaxValue c s < tick s"
  shows "GetCounterValue c (Some p) s = (STATUS_OK, Some (tick s), s)
    \<and> (\<exists>s'. GetElapsedValue c (Some (p, tick s)) (Some q) r s = (E_OS_VALUE, None, s'))"
  using assms by (simp add: GetCounterValue_def GetElapsedValue_def OS_STD_ERR_def Let_def not_le split: prod.splits)

theorem hard_counter_value_rejected_witness:
  "\<exists>s s'. GetCounterValue 0 (Some 1) s = (STATUS_OK, Some 12, s)
    \<and> GetElapsedValue 0 (Some (1, 12)) (Some 2) 3 s = (E_OS_VALUE, None, s')"
proof -
  let ?s = "upd_counter 0 (\<lambda>x. x\<lparr>counter_type := COUNTER_TYPE_HARD\<rparr>) demo_t\<lparr>tick := 12\<rparr>"
  have "\<not> Os_SysIntAnyDisabled ?s" "IsCounterValid 0 ?s" "counter_type (counter_list ?s ! 0) = COUNTER_TYPE_HARD"
    "Os_CounterGetMaxValue 0 ?s < tick ?s" "tick ?s = 12"
    by (simp_all add: demo_t_simps upd_counter_def Os_SysIntAnyDisabled_def IsCounterValid_def Os_CounterGetMaxValue_def)
  then show ?thesis using hard_counter_value_rejected [of ?s 0 1 2 3] by metis
qed

end
