(* ===== verification/WdgM_Supervision.thy ===== *)
theory WdgM_Supervision
  imports WdgM Os_Timing_Props
begin

unbundle bit_operations_syntax

text \<open>
  What the supervisions of the watchdog manager accept: logical supervision against the paths of the
  configured graph, alive supervision against the margins over a reference cycle, deadline
  supervision against the ticks of the operating system's counter, and the state machine of an
  entity against its specification.
\<close>

lemmas substate_defs = WDGM_SUBSTATE_CORRECT_def WDGM_SUBSTATE_INCORRECT_def

subsection \<open>Logical supervision\<close>

text \<open>The results of logical supervision on a sequence of checkpoints.\<close>

primrec logical_results :: "WdgM_SupervisedEntity \<Rightarrow> uint16 list \<Rightarrow> WdgM_runtime_SupervisedEntity \<Rightarrow> WdgM_Substate list" where
  "logical_results se [] rt = []"
| "logical_results se (c # cs) rt =
     (let (r, rt') = WdgM_internal_LogicalMonitoring se c rt in r # logical_results se cs rt')"

definition edge :: "WdgM_SupervisedEntity \<Rightarrow> uint16 \<Rightarrow> uint16 \<Rightarrow> bool" where
  "edge se a b \<longleftrightarrow> (\<exists>t\<in>set (Transitions se). CheckpointIdSource t = a \<and> CheckpointIdDestination t = b)"

text \<open>
  The sequences of checkpoints the configured graph allows: runs that begin at a start checkpoint,
  follow transitions and end at the first final checkpoint, the last one possibly unfinished.
\<close>

inductive logical_trace :: "WdgM_SupervisedEntity \<Rightarrow> uint16 list \<Rightarrow> bool" for se where
  empty: "logical_trace se []"
| opened: "c \<in> set (StartCheckpointIds se) \<Longrightarrow> successively (edge se) (c # ds)
    \<Longrightarrow> set ds \<inter> set (FinalCheckpointIds se) = {} \<Longrightarrow> logical_trace se (c # ds)"
| finished: "c \<in> set (StartCheckpointIds se) \<Longrightarrow> successively (edge se) (c # ds @ [f])
    \<Longrightarrow> set ds \<inter> set (FinalCheckpointIds se) = {} \<Longrightarrow> f \<in> set (FinalCheckpointIds se)
    \<Longrightarrow> logical_trace se cs \<Longrightarrow> logical_trace se (c # ds @ f # cs)"

lemmas logical_defs = WdgM_internal_LogicalMonitoring_def WdgM_internal_LogicalMonitoring_GraphActive_def
  WdgM_internal_LogicalMonitoring_GraphInactive_def substate_defs

definition all_correct :: "WdgM_Substate list \<Rightarrow> bool" where
  "all_correct rs \<longleftrightarrow> (\<forall>r\<in>set rs. r = WDGM_SUBSTATE_CORRECT)"

lemma all_correct_simps [simp]:
  "all_correct []" "all_correct (r # rs) \<longleftrightarrow> r = WDGM_SUBSTATE_CORRECT \<and> all_correct rs"
  by (auto simp: all_correct_def)

lemma logical_results_cong:
  "IsInternalGraphActive rt = IsInternalGraphActive rt'
   \<Longrightarrow> (IsInternalGraphActive rt \<longrightarrow> PreviousCheckpointId_internalLogic rt = PreviousCheckpointId_internalLogic rt')
   \<Longrightarrow> logical_results se cs rt = logical_results se cs rt'"
proof (induction cs arbitrary: rt rt')
  case (Cons c cs)
  let ?m = "WdgM_internal_LogicalMonitoring se c rt" and ?m' = "WdgM_internal_LogicalMonitoring se c rt'"
  have "fst ?m = fst ?m'" "IsInternalGraphActive (snd ?m) = IsInternalGraphActive (snd ?m')"
    "IsInternalGraphActive (snd ?m) \<longrightarrow>
      PreviousCheckpointId_internalLogic (snd ?m) = PreviousCheckpointId_internalLogic (snd ?m')"
    using Cons.prems by (auto simp: logical_defs Let_def)
  then show ?case using Cons.IH [of "snd ?m" "snd ?m'"] by (simp add: case_prod_beta)
qed simp

text \<open>The entity with the graph entered at \<open>p\<close>, and with the graph left.\<close>

definition at_cp :: "uint16 \<Rightarrow> WdgM_runtime_SupervisedEntity \<Rightarrow> WdgM_runtime_SupervisedEntity" where
  "at_cp p rt = rt\<lparr>IsInternalGraphActive := True, PreviousCheckpointId_internalLogic := p\<rparr>"

definition left_graph :: "WdgM_runtime_SupervisedEntity \<Rightarrow> WdgM_runtime_SupervisedEntity" where
  "left_graph rt = rt\<lparr>IsInternalGraphActive := False\<rparr>"

lemma logical_active:
  "all_correct (logical_results se (c # cs) (at_cp p rt)) \<longleftrightarrow> edge se p c
    \<and> all_correct (logical_results se cs (if c \<in> set (FinalCheckpointIds se) then left_graph rt else at_cp c rt))"
proof -
  have "logical_results se cs (rt\<lparr>PreviousCheckpointId_internalLogic := c, IsInternalGraphActive := False\<rparr>)
      = logical_results se cs (left_graph rt)"
    by (rule logical_results_cong) (simp_all add: left_graph_def)
  then show ?thesis
    by (simp add: WdgM_internal_LogicalMonitoring_def WdgM_internal_LogicalMonitoring_GraphActive_def
        at_cp_def edge_def list_ex_iff substate_defs)
qed

lemma logical_inactive:
  "\<not> IsInternalGraphActive rt \<Longrightarrow> all_correct (logical_results se (c # cs) rt) \<longleftrightarrow> c \<in> set (StartCheckpointIds se)
    \<and> all_correct (logical_results se cs (at_cp c rt))"
  by (simp add: logical_defs list_ex_iff at_cp_def)

lemma Cons_split_ex:
  "(\<exists>ds f rest. c # cs = ds @ f # rest \<and> P ds f rest)
   \<longleftrightarrow> P [] c cs \<or> (\<exists>ds f rest. cs = ds @ f # rest \<and> P (c # ds) f rest)"
proof
  assume "\<exists>ds f rest. c # cs = ds @ f # rest \<and> P ds f rest"
  then obtain ds f rest where "c # cs = ds @ f # rest" "P ds f rest" by blast
  then show "P [] c cs \<or> (\<exists>ds f rest. cs = ds @ f # rest \<and> P (c # ds) f rest)" by (cases ds) auto
next
  assume "P [] c cs \<or> (\<exists>ds f rest. cs = ds @ f # rest \<and> P (c # ds) f rest)"
  then show "\<exists>ds f rest. c # cs = ds @ f # rest \<and> P ds f rest" by (metis append_Cons append_Nil)
qed

text \<open>From an active graph: a path without final checkpoints, or up to the first one.\<close>

lemma active_accepts:
  "all_correct (logical_results se cs (at_cp p rt)) \<longleftrightarrow>
    (successively (edge se) (p # cs) \<and> set cs \<inter> set (FinalCheckpointIds se) = {})
    \<or> (\<exists>ds f rest. cs = ds @ f # rest \<and> successively (edge se) (p # ds @ [f])
        \<and> set ds \<inter> set (FinalCheckpointIds se) = {} \<and> f \<in> set (FinalCheckpointIds se)
        \<and> all_correct (logical_results se rest (left_graph rt)))"
  (is "_ \<longleftrightarrow> ?A p cs \<or> ?B p cs")
proof (induction cs arbitrary: p)
  case (Cons c cs)
  show ?case
    unfolding Cons_split_ex logical_active
    using Cons.IH [of c] by (cases "c \<in> set (FinalCheckpointIds se)") (simp_all, blast)
qed simp

lemma logical_trace_Cons:
  "logical_trace se (c # cs) \<longleftrightarrow> c \<in> set (StartCheckpointIds se)
    \<and> ((successively (edge se) (c # cs) \<and> set cs \<inter> set (FinalCheckpointIds se) = {})
      \<or> (\<exists>ds f rest. cs = ds @ f # rest \<and> successively (edge se) (c # ds @ [f])
          \<and> set ds \<inter> set (FinalCheckpointIds se) = {} \<and> f \<in> set (FinalCheckpointIds se) \<and> logical_trace se rest))"
  by (subst logical_trace.simps) blast

text \<open>
  C15. Logical supervision of an entity whose graph is not active answers CORRECT to every
  checkpoint of a sequence exactly if the sequence is one the configured graph allows.
\<close>

theorem logical_supervision_exact:
  assumes "\<not> IsInternalGraphActive rt"
  shows "(\<forall>r\<in>set (logical_results se cs rt). r = WDGM_SUBSTATE_CORRECT) \<longleftrightarrow> logical_trace se cs"
proof -
  have "all_correct (logical_results se cs rt) \<longleftrightarrow> logical_trace se cs" if "\<not> IsInternalGraphActive rt" for rt
    using that
  proof (induction cs arbitrary: rt rule: length_induct)
    case (1 cs)
    show ?case
    proof (cases cs)
      case (Cons c ds)
      have "all_correct (logical_results se r (left_graph rt)) \<longleftrightarrow> logical_trace se r" if "ds = es @ f # r" for es f r
        using 1 that Cons by (simp add: left_graph_def)
      then show ?thesis
        unfolding Cons logical_inactive [OF 1(2)] active_accepts logical_trace_Cons by blast
    qed (simp add: logical_trace.empty)
  qed
  then show ?thesis using assms by (simp add: all_correct_def)
qed

definition demo_se :: WdgM_SupervisedEntity where
  "demo_se = \<lparr>CheckpointIds = [0, 1, 2], Transitions = [\<lparr>CheckpointIdSource = 0, CheckpointIdDestination = 1\<rparr>,
     \<lparr>CheckpointIdSource = 1, CheckpointIdDestination = 1\<rparr>, \<lparr>CheckpointIdSource = 1, CheckpointIdDestination = 2\<rparr>],
     StartCheckpointIds = [0], FinalCheckpointIds = [2]\<rparr>"

definition demo_rt :: WdgM_runtime_SupervisedEntity where
  "demo_rt = \<lparr>LocalState = WDGM_LOCAL_STATUS_OK, SubstateAlive = 1, SubstateDeadline = 1, SubstateLogical = 1,
     IsInternalGraphActive = False, PreviousCheckpointId_internalLogic = 0, FailedAliveCyclesCounter = 0\<rparr>"

theorem logical_supervision_exact_witness:
  "logical_trace demo_se [0, 1, 1, 2, 0, 1] \<and> \<not> logical_trace demo_se [0, 1, 2, 1]"
proof -
  have "logical_results demo_se [0, 1, 1, 2, 0, 1] demo_rt = [1, 1, 1, 1, 1, 1]"
    "logical_results demo_se [0, 1, 2, 1] demo_rt = [1, 1, 1, 0]" by code_simp+
  moreover have "\<not> IsInternalGraphActive demo_rt" by (simp add: demo_rt_def)
  ultimately show ?thesis
    using logical_supervision_exact [of demo_rt demo_se "[0, 1, 1, 2, 0, 1]"]
      logical_supervision_exact [of demo_rt demo_se "[0, 1, 2, 1]"] by (simp add: substate_defs)
qed

subsection \<open>Alive supervision\<close>

text \<open>One supervision cycle with \<open>n\<close> alive indications, as \<open>CheckAlives_entity\<close> ends it.\<close>

definition alive_cycle :: "WdgM_AliveSupervision \<Rightarrow> nat \<Rightarrow> WdgM_runtime_AliveSupervision
    \<Rightarrow> WdgM_Substate \<times> WdgM_runtime_AliveSupervision" where
  "alive_cycle c n r = WdgM_internal_IsAliveHold c (r\<lparr>AliveCounter := AliveCounter r + of_nat n,
     SupervisionCycleCounter := SupervisionCycleCounter r + 1\<rparr>)"

primrec alive_cycles :: "WdgM_AliveSupervision \<Rightarrow> nat list \<Rightarrow> WdgM_runtime_AliveSupervision
    \<Rightarrow> (WdgM_Substate \<times> bool) list \<times> WdgM_runtime_AliveSupervision" where
  "alive_cycles c [] r = ([], r)"
| "alive_cycles c (n # ns) r =
     (let (v, r') = alive_cycle c n r; (vs, r'') = alive_cycles c ns r' in ((v, wasEvaluated r') # vs, r''))"

lemma sint16_small: "- 32768 \<le> i \<Longrightarrow> i < 32768 \<Longrightarrow> sint (word_of_int i :: uint16) = i"
  by (simp add: sint_sbintrunc' signed_take_bit_int_eq_self)

lemma sint16_unat:
  assumes "unat (w :: uint16) < 32768"
  shows "sint w = int (unat w)"
proof -
  have "- 32768 \<le> int (unat w)" "int (unat w) < 32768" using assms by linarith+
  from sint16_small [OF this] show ?thesis by simp
qed

definition alive_ok :: "WdgM_AliveSupervision \<Rightarrow> nat \<Rightarrow> bool" where
  "alive_ok c n \<longleftrightarrow> unat (ExpectedAliveIndications c) \<le> n + unat (MinMargin c)
     \<and> n \<le> unat (ExpectedAliveIndications c) + unat (MaxMargin c)"

lemma SpecAliveAlgo_bounds:
  assumes "AliveCounter r = of_nat n" "n < 32768" "unat (ExpectedAliveIndications c) < 32768"
  shows "WdgM_internal_SpecAliveAlgo c r = (if alive_ok c n then WDGM_SUBSTATE_CORRECT else WDGM_SUBSTATE_INCORRECT,
     r\<lparr>AliveCounter := 0, SupervisionCycleCounter := 0\<rparr>)"
proof -
  have "unat (ucast (of_nat n :: uint32) :: uint16) = n"
    using assms(2) by (simp add: unsigned_ucast_eq unat_of_nat take_bit_nat_eq_self)
  then have "sint (ucast (AliveCounter r) :: uint16) = int n"
    using assms(1,2) by (simp add: sint16_unat)
  moreover have "sint (ExpectedAliveIndications c) = int (unat (ExpectedAliveIndications c))"
    using assms(3) by (rule sint16_unat)
  moreover have "sint (word_of_int (int n - int (unat (ExpectedAliveIndications c))) :: uint16)
      = int n - int (unat (ExpectedAliveIndications c))"
    using assms(2,3) by (intro sint16_small) linarith+
  moreover have "alive_ok c n \<longleftrightarrow> int n - int (unat (ExpectedAliveIndications c)) \<le> int (unat (MaxMargin c))
      \<and> int n - int (unat (ExpectedAliveIndications c)) \<ge> 0 - int (unat (MinMargin c))"
    unfolding alive_ok_def by linarith
  ultimately show ?thesis
    unfolding WdgM_internal_SpecAliveAlgo_def Let_def uint_nat by presburger
qed

lemma alive_cycle_wait:
  assumes "AliveCounter r = of_nat t" "SupervisionCycleCounter r = of_nat k" "Suc k < unat (SupervisionReferenceCycle c)"
  shows "\<exists>r'. alive_cycle c n r = (WDGM_SUBSTATE_CORRECT, r') \<and> \<not> wasEvaluated r'
    \<and> AliveCounter r' = of_nat (t + n) \<and> SupervisionCycleCounter r' = of_nat (Suc k)"
proof -
  have "(of_nat (Suc k) :: uint16) \<noteq> SupervisionReferenceCycle c"
  proof -
    have "Suc k < 2 ^ 16" using assms(3) unsigned_less [of "SupervisionReferenceCycle c", where ?'a = nat] by simp
    then have "unat (of_nat (Suc k) :: uint16) = Suc k" by (simp add: unat_of_nat take_bit_nat_eq_self del: of_nat_Suc)
    then show ?thesis using assms(3) by auto
  qed
  moreover have "SupervisionReferenceCycle c \<noteq> 1" using assms(3) by auto
  ultimately show ?thesis
    using assms(1,2) by (simp add: alive_cycle_def WdgM_internal_IsAliveHold_def Let_def add.commute)
qed


lemma alive_cycle_end:
  assumes "AliveCounter r = of_nat t" "SupervisionCycleCounter r = of_nat k" "Suc k = unat (SupervisionReferenceCycle c)"
    and "t + n < 32768" "unat (ExpectedAliveIndications c) < 32768"
  shows "\<exists>r'. alive_cycle c n r
      = (if alive_ok c (t + n) then WDGM_SUBSTATE_CORRECT else WDGM_SUBSTATE_INCORRECT, r')
    \<and> wasEvaluated r' \<and> AliveCounter r' = 0 \<and> SupervisionCycleCounter r' = 0"
proof -
  have "of_nat k + 1 = SupervisionReferenceCycle c"
    using arg_cong [OF assms(3), of "of_nat :: nat \<Rightarrow> uint16"] by (simp add: add.commute)
  then show ?thesis
    using assms(1,2)
    by (simp add: alive_cycle_def WdgM_internal_IsAliveHold_def Let_def SpecAliveAlgo_bounds [OF _ assms(4,5)] add.commute)
qed

lemma alive_cycles_wait:
  assumes "AliveCounter r = of_nat t" "SupervisionCycleCounter r = of_nat k"
    and "k + length ns < unat (SupervisionReferenceCycle c)"
  shows "\<exists>r'. alive_cycles c ns r = (replicate (length ns) (WDGM_SUBSTATE_CORRECT, False), r')
    \<and> AliveCounter r' = of_nat (t + sum_list ns) \<and> SupervisionCycleCounter r' = of_nat (k + length ns)"
  using assms
proof (induction ns arbitrary: r t k)
  case (Cons n ns)
  then obtain r1 where r1: "alive_cycle c n r = (WDGM_SUBSTATE_CORRECT, r1)" "\<not> wasEvaluated r1"
      "AliveCounter r1 = of_nat (t + n)" "SupervisionCycleCounter r1 = of_nat (Suc k)"
    using alive_cycle_wait [of r t k c n] by auto
  show ?case using Cons.IH [OF r1(3,4)] Cons.prems(3) r1(1,2) by (auto simp: add.assoc)
qed simp

lemma alive_cycles_append:
  "alive_cycles c (ms @ ns) r =
     (let (vs, r') = alive_cycles c ms r; (ws, r'') = alive_cycles c ns r' in (vs @ ws, r''))"
  by (induction ms arbitrary: r) (simp_all add: case_prod_beta Let_def)


definition demo_alive :: WdgM_AliveSupervision where
  "demo_alive = \<lparr>CheckpointId = 1, ExpectedAliveIndications = 6, MinMargin = 1, MaxMargin = 2, SupervisionReferenceCycle = 3\<rparr>"


subsection \<open>The state machine of an entity\<close>

text \<open>
  The local supervision status as specified: \<open>a\<close>, \<open>d\<close> and \<open>l\<close> say whether alive, deadline and
  logical supervision are correct, \<open>ev\<close> whether alive supervision was evaluated in this cycle,
  and the number counts the failed reference cycles, tolerated up to \<open>tol\<close>.
\<close>

fun local_next :: "nat \<Rightarrow> bool \<Rightarrow> bool \<Rightarrow> bool \<Rightarrow> bool \<Rightarrow> WdgM_LocalStatusType \<times> nat \<Rightarrow> WdgM_LocalStatusType \<times> nat" where
  "local_next tol ev a d l (WDGM_LOCAL_STATUS_OK, n) =
     (if \<not> d \<or> \<not> l then (WDGM_LOCAL_STATUS_EXPIRED, n)
      else if a then (WDGM_LOCAL_STATUS_OK, n)
      else (if n + 1 > tol then WDGM_LOCAL_STATUS_EXPIRED else WDGM_LOCAL_STATUS_FAILED, n + 1))"
| "local_next tol ev a d l (WDGM_LOCAL_STATUS_FAILED, n) =
     (if \<not> d \<or> \<not> l then (WDGM_LOCAL_STATUS_EXPIRED, n)
      else if a then (if n > 1 then (WDGM_LOCAL_STATUS_FAILED, n - 1) else (WDGM_LOCAL_STATUS_OK, 0))
      else (let n = (if ev then n + 1 else n)
            in (if n > tol then WDGM_LOCAL_STATUS_EXPIRED else WDGM_LOCAL_STATUS_FAILED, n)))"
| "local_next tol ev a d l s = s"

definition local_abs :: "WdgM_runtime_SupervisedEntity \<Rightarrow> WdgM_LocalStatusType \<times> nat" where
  "local_abs se = (LocalState se, unat (FailedAliveCyclesCounter se))"

definition substates_ok :: "WdgM_runtime_SupervisedEntity \<Rightarrow> bool" where
  "substates_ok se \<longleftrightarrow> SubstateAlive se \<in> {0, 1} \<and> SubstateDeadline se \<in> {0, 1} \<and> SubstateLogical se \<in> {0, 1}"

lemmas local_defs = WdgM_internal_CalculateLocalState_def WdgM_internal_CalculateLocalState_FromOKOneError_def
  WdgM_internal_CalculateLocalState_FromFailedOneError_def WdgM_internal_CalculateLocalState_FromFailedNoError_def substate_defs

lemma unat_Suc8: "w \<noteq> (255 :: uint8) \<Longrightarrow> unat (w + 1) = unat w + 1"
proof -
  assume "w \<noteq> 255"
  then have "unat w \<noteq> 255" by (simp add: word_unat_eq_iff)
  then have "unat w + 1 < 256" using unsigned_less [of w, where ?'a = nat] by simp
  then show ?thesis by (simp add: unat_word_ariths)
qed


definition demo_conf :: "uint8 \<Rightarrow> WdgM_SupervisedEntityConfiguration" where
  "demo_conf tol = \<lparr>SupervisedEntityId = 1, CheckInternalLogic = True, AliveSupervisions = [demo_alive],
     DeadlineSupervisions = [\<lparr>CheckpointIdStart = 0, CheckpointIdFinish = 2, DeadlineMin = 1, DeadlineMax = 3\<rparr>],
     FailedAliveSupervisionReferenceCycleTol = tol, OSCounter = 0\<rparr>"

definition demo_rtconf :: WdgM_runtime_SupervisedEntityConfig where
  "demo_rtconf = \<lparr>rt_AliveSupervisions = [\<lparr>AliveCounter = 0, SupervisionCycleCounter = 0, wasEvaluated = True\<rparr>],
     rt_DeadlineSupervisions = [\<lparr>LastTickValue = 0\<rparr>]\<rparr>"


text \<open>
  A failed entity within its tolerance whose deadline or logical supervision (not both) is
  violated while alive supervision is correct stays failed: nothing is changed or reported, although
  the same violation expires an entity in state OK at once.
\<close>

theorem failed_entity_ignores_violation:
  assumes "LocalState se = WDGM_LOCAL_STATUS_FAILED" "SubstateAlive se = WDGM_SUBSTATE_CORRECT"
    and "{SubstateDeadline se, SubstateLogical se} = {WDGM_SUBSTATE_CORRECT, WDGM_SUBSTATE_INCORRECT}"
    and "FailedAliveCyclesCounter se \<le> FailedAliveSupervisionReferenceCycleTol c"
  shows "WdgM_internal_CalculateLocalState c rc se = (se, [])
    \<and> LocalState (fst (WdgM_internal_CalculateLocalState c rc (se\<lparr>LocalState := WDGM_LOCAL_STATUS_OK\<rparr>)))
        = WDGM_LOCAL_STATUS_EXPIRED"
  using assms by (auto simp: local_defs doubleton_eq_iff)

theorem failed_entity_ignores_violation_witness:
  "\<exists>se. SubstateDeadline se = WDGM_SUBSTATE_INCORRECT
    \<and> WdgM_internal_CalculateLocalState (demo_conf 1) demo_rtconf se = (se, [])"
proof -
  let ?se = "demo_rt\<lparr>LocalState := WDGM_LOCAL_STATUS_FAILED, SubstateDeadline := 0, FailedAliveCyclesCounter := 1\<rparr>"
  have "WdgM_internal_CalculateLocalState (demo_conf 1) demo_rtconf ?se = (?se, [])"
    using failed_entity_ignores_violation [of ?se "demo_conf 1" demo_rtconf]
    by (simp add: demo_rt_def demo_conf_def substate_defs doubleton_eq_iff)
  then show ?thesis by (intro exI [of _ ?se]) (simp add: substate_defs)
qed

text \<open>
  With the largest configurable tolerance, 255, alive violations never expire an entity: the
  8-bit failure counter wraps to zero instead of exceeding the tolerance.
\<close>

theorem tolerance_255_never_expires:
  assumes "FailedAliveSupervisionReferenceCycleTol c = 255" "SubstateAlive se = WDGM_SUBSTATE_INCORRECT"
    and "SubstateDeadline se = WDGM_SUBSTATE_CORRECT" "SubstateLogical se = WDGM_SUBSTATE_CORRECT"
    and "LocalState se = WDGM_LOCAL_STATUS_FAILED"
  shows "LocalState (((\<lambda>se. fst (WdgM_internal_CalculateLocalState c rc se)) ^^ k) se) = WDGM_LOCAL_STATUS_FAILED"
proof -
  have le: "w \<le> (255 :: uint8)" for w
    using unsigned_less [of w, where ?'a = nat] by (simp add: word_le_nat_alt)
  have "LocalState x = WDGM_LOCAL_STATUS_FAILED \<and> SubstateAlive x = WDGM_SUBSTATE_INCORRECT
      \<and> SubstateDeadline x = WDGM_SUBSTATE_CORRECT \<and> SubstateLogical x = WDGM_SUBSTATE_CORRECT"
    if "x = ((\<lambda>se. fst (WdgM_internal_CalculateLocalState c rc se)) ^^ k) se" for x
    using that
  proof (induction k arbitrary: x)
    case (Suc k)
    let ?y = "((\<lambda>se. fst (WdgM_internal_CalculateLocalState c rc se)) ^^ k) se"
    have "LocalState ?y = WDGM_LOCAL_STATUS_FAILED" "SubstateAlive ?y = 0" "SubstateDeadline ?y = 1" "SubstateLogical ?y = 1"
      using Suc.IH [OF refl] by (simp_all add: substate_defs)
    then show ?case using assms(1) le Suc.prems by (simp add: local_defs Let_def not_less)
  qed (use assms in simp)
  then show ?thesis by blast
qed

theorem tolerance_255_never_expires_witness:
  "LocalState (((\<lambda>se. fst (WdgM_internal_CalculateLocalState (demo_conf 255) demo_rtconf se)) ^^ 1000)
      (demo_rt\<lparr>LocalState := WDGM_LOCAL_STATUS_FAILED, SubstateAlive := 0\<rparr>)) = WDGM_LOCAL_STATUS_FAILED"
  by (rule tolerance_255_never_expires) (simp_all add: demo_conf_def demo_rt_def substate_defs)

subsection \<open>Deadline supervision\<close>

text \<open>The services of a software counter with value \<open>v\<close> and maximum \<open>mx\<close> can be called.\<close>

definition counter_at :: "uint8 \<Rightarrow> TickType \<Rightarrow> TickType \<Rightarrow> Os_State \<Rightarrow> bool" where
  "counter_at c v mx o1 \<longleftrightarrow> \<not> Os_SysIntAnyDisabled o1 \<and> IsCounterValid (unat c) o1
     \<and> counter_type (counter_list o1 ! unat c) = COUNTER_TYPE_SOFT \<and> val (counter_list o1 ! unat c) = v
     \<and> Os_CounterGetMaxValue (unat c) o1 = mx"

lemma elapsed_since_at:
  "counter_at c v mx o1 \<Longrightarrow> old \<le> mx \<Longrightarrow> elapsed_since E c old o1 = (v, Os_CounterDiff v old mx, o1)"
  by (simp add: elapsed_since_def counter_at_def GetElapsedValue_def GetCounterValue_def Let_def)


text \<open>
  When the start checkpoint is reached at counter value zero the deadline is lost: whenever the
  finish checkpoint is reached, however late, the result is CORRECT.
\<close>

theorem deadline_lost_at_tick_zero:
  assumes "DeadlineSupervisions sc = [d]" "CheckpointIdStart d \<noteq> CheckpointIdFinish d"
    and "rt_DeadlineSupervisions rc = [r]" "LastTickValue r \<le> mx" "counter_at (OSCounter sc) 0 mx o1"
    and "WdgM_internal_DeadlineMonitoring E sc (CheckpointIdStart d) rc o1 = (r1, rc1, o1')"
    and "WdgM_internal_DeadlineMonitoring E sc (CheckpointIdFinish d) rc1 o2 = (r2, rc2, o2')"
  shows "r1 = WDGM_SUBSTATE_CORRECT \<and> r2 = WDGM_SUBSTATE_CORRECT"
  using assms
  by (auto simp: WdgM_internal_DeadlineMonitoring_def elapsed_since_at)

definition demo_env :: WdgM_Env where
  "demo_env = \<lparr>WDGM_OFF_MODE_ENABLED = False, WDGM_DEM_ALIVE_SUPERVISION_REPORT = True, WDGM_IMMEDIATE_RESET = False,
     WdgIf_NumberOfDevices = 2, Wdg_SetModeLocationPtr = (\<lambda>l d m. E_OK), OSTICKDURATION = 500000000,
     LastTickPointer = 1, elapsedTicksPointer = 2, currTickPointer = 3\<rparr>"

lemma demo_counter_at: "counter_at 0 7 9 demo_t" "counter_at 0 v 9 (upd_counter 0 (\<lambda>x. x\<lparr>val := v\<rparr>) demo_t)"
  by (simp_all add: counter_at_def demo_t_simps upd_counter_def Os_SysIntAnyDisabled_def IsCounterValid_def Os_CounterGetMaxValue_def)


theorem deadline_lost_at_tick_zero_witness:
  "\<exists>rc1 o1. WdgM_internal_DeadlineMonitoring demo_env (demo_conf 1) 0 demo_rtconf (upd_counter 0 (\<lambda>x. x\<lparr>val := 0\<rparr>) demo_t)
      = (1, rc1, o1)
    \<and> fst (WdgM_internal_DeadlineMonitoring demo_env (demo_conf 1) 2 rc1 (upd_counter 0 (\<lambda>x. x\<lparr>val := 9\<rparr>) demo_t)) = 1"
proof -
  let ?o1 = "upd_counter 0 (\<lambda>x. x\<lparr>val := 0\<rparr>) demo_t" and ?o2 = "upd_counter 0 (\<lambda>x. x\<lparr>val := 9\<rparr>) demo_t"
  obtain r1 rc1 o1 where 1: "WdgM_internal_DeadlineMonitoring demo_env (demo_conf 1) 0 demo_rtconf ?o1 = (r1, rc1, o1)"
    by (metis prod_cases3)
  obtain r2 rc2 o2 where 2: "WdgM_internal_DeadlineMonitoring demo_env (demo_conf 1) 2 rc1 ?o2 = (r2, rc2, o2)"
    by (metis prod_cases3)
  have "r1 = 1 \<and> r2 = 1"
    using deadline_lost_at_tick_zero [of "demo_conf 1" _ demo_rtconf _ 9 ?o1 demo_env r1 rc1 o1 ?o2 r2 rc2 o2]
      1 2 demo_counter_at
    by (simp add: demo_conf_def demo_rtconf_def substate_defs)
  then show ?thesis using 1 2 by auto
qed

end
