(* ===== verification/WdgM_Props.thy ===== *)
theory WdgM_Props
  imports WdgM_Supervision
begin

unbundle bit_operations_syntax

text \<open>
  Properties of the watchdog manager as a whole: the invariant of the module under every sequence
  of calls, what a change of mode does to the entities, and that an expired system is stopped and
  then never triggers a watchdog again.
\<close>

subsection \<open>What the operations leave alone\<close>

lemma map_list_update_same: "g (f (xs ! i)) = g (xs ! i) \<Longrightarrow> map g (xs[i := f (xs ! i)]) = map g xs"
  by (cases "i < length xs") (simp_all add: map_update list_update_beyond list_update_same_conv)

definition conf_shape :: "WdgM_runtime_SupervisedEntityConfig \<Rightarrow> nat \<times> nat" where
  "conf_shape c = (length (rt_AliveSupervisions c), length (rt_DeadlineSupervisions c))"

definition mode_shape :: "WdgM_runtime_Mode \<Rightarrow> (nat \<times> nat) list" where
  "mode_shape m = map conf_shape (SE_Configs m)"

text \<open>The part of the state that only initialisation, mode changes and resets touch.\<close>

definition core where
  "core s = (ConfigPtr s, CurrentMode s, isInitiated s, ResetInitiated s, map mode_shape (rt_Modes s), length (SEs s))"

abbreviation expired_counts :: "WdgM_State \<Rightarrow> uint16 list" where
  "expired_counts s \<equiv> map ExpiredSupervisionCycleCounter (rt_Modes s)"

abbreviation local_states :: "WdgM_State \<Rightarrow> WdgM_LocalStatusType list" where
  "local_states s \<equiv> map LocalState (SEs s)"

definition quiet :: "WdgM_Event \<Rightarrow> bool" where
  "quiet e \<longleftrightarrow> (case e of Wdg_SetMode d m \<Rightarrow> False | Wdg_SetTriggerCondition d v \<Rightarrow> v = 0 | _ \<Rightarrow> True)"

text \<open>The log has grown by events that start no watchdog and keep none alive.\<close>

definition quiet_ext :: "WdgM_Event list \<Rightarrow> WdgM_Event list \<Rightarrow> bool" where
  "quiet_ext l l' \<longleftrightarrow> (\<exists>es. l' = l @ es \<and> list_all quiet es)"

lemma quiet_ext_refl [simp]: "quiet_ext l l"
  by (simp add: quiet_ext_def)

lemma quiet_ext_trans: "quiet_ext l l' \<Longrightarrow> quiet_ext l' l'' \<Longrightarrow> quiet_ext l l''"
  by (auto simp: quiet_ext_def)

lemma quiet_ext_emit: "quiet e \<Longrightarrow> quiet_ext l (wlog s) \<Longrightarrow> quiet_ext l (wlog (emit e s))"
  by (auto simp: quiet_ext_def emit_def)

lemma emit_simps [simp]:
  "core (emit e s) = core s" "GlobalState (emit e s) = GlobalState s" "SEs (emit e s) = SEs s"
  "rt_Modes (emit e s) = rt_Modes s" "ConfigPtr (emit e s) = ConfigPtr s" "CurrentMode (emit e s) = CurrentMode s"
  "isInitiated (emit e s) = isInitiated s" "ResetInitiated (emit e s) = ResetInitiated s"
  by (simp_all add: emit_def core_def)

lemma upd_SE_simps [simp]:
  "core (upd_SE i f s) = core s" "GlobalState (upd_SE i f s) = GlobalState s" "wlog (upd_SE i f s) = wlog s"
  "rt_Modes (upd_SE i f s) = rt_Modes s" "length (SEs (upd_SE i f s)) = length (SEs s)"
  "ConfigPtr (upd_SE i f s) = ConfigPtr s" "CurrentMode (upd_SE i f s) = CurrentMode s"
  "isInitiated (upd_SE i f s) = isInitiated s" "ResetInitiated (upd_SE i f s) = ResetInitiated s"
  by (simp_all add: upd_SE_def core_def)

lemma upd_SE_nth: "SEs (upd_SE i f s) ! j = (if j = i \<and> i < length (SEs s) then f (SEs s ! i) else SEs s ! j)"
  by (auto simp: upd_SE_def nth_list_update list_update_beyond)

lemma upd_rtConf_simps [simp]:
  "GlobalState (upd_rtConf i f s) = GlobalState s" "wlog (upd_rtConf i f s) = wlog s" "SEs (upd_rtConf i f s) = SEs s"
  "expired_counts (upd_rtConf i f s) = expired_counts s"
  "ConfigPtr (upd_rtConf i f s) = ConfigPtr s" "CurrentMode (upd_rtConf i f s) = CurrentMode s"
  "isInitiated (upd_rtConf i f s) = isInitiated s" "ResetInitiated (upd_rtConf i f s) = ResetInitiated s"
  unfolding upd_rtConf_def upd_rtMode_def by (simp_all add: map_list_update_same)

lemma upd_rtConf_core:
  assumes "conf_shape (f (SE_Configs (cur_rt s) ! i)) = conf_shape (SE_Configs (cur_rt s) ! i)"
  shows "core (upd_rtConf i f s) = core s"
proof -
  let ?g = "\<lambda>m. m\<lparr>SE_Configs := (SE_Configs m)[i := f (SE_Configs m ! i)]\<rparr>"
  have "mode_shape (?g (cur_rt s)) = mode_shape (cur_rt s)"
    by (simp add: mode_shape_def map_list_update_same assms)
  from map_list_update_same [where f = ?g, OF this] show ?thesis
    by (simp add: upd_rtConf_def upd_rtMode_def core_def)
qed

lemma CheckAlives_entity_length: "length (snd (snd (CheckAlives_entity cs a r w rs))) = length rs"
  by (induction cs arbitrary: a r w rs) (simp_all add: Let_def case_prod_beta)

lemma CheckAlives_entity_result:
  "r \<in> {0, 1} \<Longrightarrow> fst (CheckAlives_entity cs a r w rs) \<in> {0, 1}"
  by (induction cs arbitrary: a r w rs) (simp_all add: Let_def case_prod_beta substate_defs)

definition substates_all :: "WdgM_State \<Rightarrow> bool" where
  "substates_all s \<longleftrightarrow> list_all substates_ok (SEs s)"

lemma substates_all_upd:
  "substates_all s \<Longrightarrow> (\<And>x. substates_ok x \<Longrightarrow> substates_ok (f x)) \<Longrightarrow> substates_all (upd_SE i f s)"
  by (cases "i < length (SEs s)")
    (auto simp: substates_all_def upd_SE_def list_all_iff list_update_beyond dest!: set_update_subset_insert [THEN subsetD])

text \<open>Checking the alive supervisions changes the alive substates and nothing the state machines read besides.\<close>

lemma CheckAlives_frame:
  "core (CheckAlives_loop cs i s) = core s \<and> GlobalState (CheckAlives_loop cs i s) = GlobalState s
   \<and> local_states (CheckAlives_loop cs i s) = local_states s \<and> wlog (CheckAlives_loop cs i s) = wlog s
   \<and> expired_counts (CheckAlives_loop cs i s) = expired_counts s
   \<and> (substates_all s \<longrightarrow> substates_all (CheckAlives_loop cs i s))"
proof (induction cs arbitrary: i s)
  case (Cons c cs)
  let ?e = "CheckAlives_entity (AliveSupervisions c) 0 WDGM_SUBSTATE_CORRECT False
            (rt_AliveSupervisions (SE_Configs (cur_rt s) ! i))"
  let ?s1 = "upd_rtConf i (\<lambda>x. x\<lparr>rt_AliveSupervisions := snd (snd ?e)\<rparr>) s"
  let ?s2 = "if fst (snd ?e) then upd_SE (unat (SupervisedEntityId c)) (\<lambda>x. x\<lparr>SubstateAlive := fst ?e\<rparr>) ?s1 else ?s1"
  have 1: "core ?s1 = core s"
    by (rule upd_rtConf_core) (simp add: conf_shape_def CheckAlives_entity_length)
  have "substates_all ?s1 = substates_all s" by (simp add: substates_all_def)
  then have "substates_all s \<longrightarrow> substates_all ?s2"
    using CheckAlives_entity_result [of WDGM_SUBSTATE_CORRECT]
    by (auto intro!: substates_all_upd simp: substates_ok_def substate_defs)
  moreover have "core ?s2 = core s" "GlobalState ?s2 = GlobalState s" "wlog ?s2 = wlog s"
    "expired_counts ?s2 = expired_counts s" using 1 by simp_all
  moreover have "local_states ?s2 = local_states s"
    by (simp add: upd_SE_def map_list_update_same)
  moreover have "CheckAlives_loop (c # cs) i s = CheckAlives_loop cs (Suc i) ?s2"
    by (simp add: Let_def case_prod_beta)
  ultimately show ?case using Cons.IH [of "Suc i" ?s2] by simp
qed simp

lemma CalculateLocalState_frame:
  assumes "WdgM_internal_CalculateLocalState c rc x = (x', reports)"
  shows "substates_ok x \<longrightarrow> substates_ok x'"
    and "LocalState x = WDGM_LOCAL_STATUS_EXPIRED \<longrightarrow> LocalState x' = WDGM_LOCAL_STATUS_EXPIRED"
    and "LocalState x \<noteq> WDGM_LOCAL_STATUS_DEACTIVATED \<longrightarrow> LocalState x' \<noteq> WDGM_LOCAL_STATUS_DEACTIVATED"
  using assms by (auto simp: local_defs Let_def substates_ok_def split: if_splits)

lemma emit_all_frame:
  "core (fold (\<lambda>l. emit (Rte_Switch_SE n l)) ls s) = core s
   \<and> GlobalState (fold (\<lambda>l. emit (Rte_Switch_SE n l)) ls s) = GlobalState s
   \<and> SEs (fold (\<lambda>l. emit (Rte_Switch_SE n l)) ls s) = SEs s
   \<and> rt_Modes (fold (\<lambda>l. emit (Rte_Switch_SE n l)) ls s) = rt_Modes s
   \<and> quiet_ext (wlog s) (wlog (fold (\<lambda>l. emit (Rte_Switch_SE n l)) ls s))"
proof (induction ls arbitrary: s)
  case (Cons l ls)
  have "quiet_ext (wlog s) (wlog (emit (Rte_Switch_SE n l) s))" by (rule quiet_ext_emit) (simp_all add: quiet_def)
  then show ?case using Cons.IH [of "emit (Rte_Switch_SE n l) s"] by (auto intro: quiet_ext_trans)
qed simp

text \<open>The identifiers of the entities a list of configurations supervises.\<close>

abbreviation ids :: "WdgM_SupervisedEntityConfiguration list \<Rightarrow> nat list" where
  "ids cs \<equiv> map (\<lambda>c. unat (SupervisedEntityId c)) cs"

definition global_step :: "WdgM_SupervisedEntityConfiguration list \<Rightarrow> nat \<Rightarrow> WdgM_State \<Rightarrow> nat \<Rightarrow> WdgM_State \<Rightarrow> bool" where
  "global_step cs e s e' s' \<longleftrightarrow> core s' = core s \<and> GlobalState s' = GlobalState s \<and> expired_counts s' = expired_counts s
     \<and> quiet_ext (wlog s) (wlog s') \<and> (substates_all s \<longrightarrow> substates_all s')
     \<and> (\<forall>j. j \<notin> set (ids cs) \<longrightarrow> SEs s' ! j = SEs s ! j)
     \<and> (\<forall>j. LocalState (SEs s ! j) = WDGM_LOCAL_STATUS_EXPIRED \<longrightarrow> LocalState (SEs s' ! j) = WDGM_LOCAL_STATUS_EXPIRED)
     \<and> (\<forall>j. LocalState (SEs s ! j) \<noteq> WDGM_LOCAL_STATUS_DEACTIVATED \<longrightarrow> LocalState (SEs s' ! j) \<noteq> WDGM_LOCAL_STATUS_DEACTIVATED)
     \<and> (0 < e' \<longleftrightarrow> 0 < e \<or> (\<exists>j\<in>set (ids cs). LocalState (SEs s' ! j) = WDGM_LOCAL_STATUS_EXPIRED))"

lemma core_SEs: "core s' = core s \<Longrightarrow> length (SEs s') = length (SEs s)"
  by (simp add: core_def)

lemma CalculateGlobalState_loop_step:
  assumes "distinct (ids cs)" "\<forall>j\<in>set (ids cs). j < length (SEs s)"
    and "CalculateGlobalState_loop cs i e f s = (e', f', s')"
  shows "global_step cs e s e' s'"
  using assms
proof (induction cs arbitrary: i e f s)
  case (Cons c cs)
  define n where "n = unat (SupervisedEntityId c)"
  obtain x reports where x: "WdgM_internal_CalculateLocalState c (SE_Configs (cur_rt s) ! i) (SEs s ! n) = (x, reports)"
    by fastforce
  define t where "t = fold (\<lambda>l. emit (Rte_Switch_SE n l)) reports (upd_SE n (\<lambda>_. x) s)"
  define s1 where "s1 = (if LocalState x = WDGM_LOCAL_STATUS_EXPIRED \<and> \<not> isFirstExpiredSet t
      then t\<lparr>firstExpiredSEID := of_nat i, firstExpiredSEIDInverse := NOT (of_nat i), isFirstExpiredSet := True\<rparr> else t)"
  let ?e1 = "if LocalState x = WDGM_LOCAL_STATUS_EXPIRED then e + 1 else e"
  have loop: "CalculateGlobalState_loop cs (Suc i) ?e1 (if LocalState x = WDGM_LOCAL_STATUS_FAILED then f + 1 else f) s1
      = (e', f', s')"
    using Cons.prems(3) x unfolding s1_def t_def n_def by (simp add: Let_def)
  have t: "core t = core s" "GlobalState t = GlobalState s" "SEs t = SEs (upd_SE n (\<lambda>_. x) s)" "rt_Modes t = rt_Modes s"
    "quiet_ext (wlog s) (wlog t)"
    using emit_all_frame [of n reports "upd_SE n (\<lambda>_. x) s"] by (simp_all add: t_def)
  have s1: "core s1 = core s" "GlobalState s1 = GlobalState s" "SEs s1 = SEs (upd_SE n (\<lambda>_. x) s)"
    "expired_counts s1 = expired_counts s" "quiet_ext (wlog s) (wlog s1)"
    using t by (simp_all add: s1_def core_def)
  have n: "n < length (SEs s)" "n \<notin> set (ids cs)" using Cons.prems(1,2) by (auto simp: n_def)
  have sub: "substates_all s \<longrightarrow> substates_all s1"
  proof
    assume s: "substates_all s"
    then have "substates_ok (SEs s ! n)" using n by (simp add: substates_all_def list_all_length)
    then have "substates_ok x" using CalculateLocalState_frame(1) [OF x] by simp
    then have "substates_all (upd_SE n (\<lambda>_. x) s)" using s by (auto intro: substates_all_upd)
    then show "substates_all s1" by (simp add: substates_all_def s1(3))
  qed
  have IH: "global_step cs ?e1 s1 e' s'"
    using Cons.prems(1,2) loop s1(3) by (intro Cons.IH) auto
  have nth: "SEs s1 ! j = (if j = n then x else SEs s ! j)" for j using n by (simp add: s1(3) upd_SE_nth)
  have last: "SEs s' ! n = x" using IH n(2) nth by (simp add: global_step_def)
  have ex: "LocalState (SEs s1 ! j) = WDGM_LOCAL_STATUS_EXPIRED \<Longrightarrow> LocalState (SEs s' ! j) = WDGM_LOCAL_STATUS_EXPIRED"
    and de: "LocalState (SEs s1 ! j) \<noteq> WDGM_LOCAL_STATUS_DEACTIVATED \<Longrightarrow> LocalState (SEs s' ! j) \<noteq> WDGM_LOCAL_STATUS_DEACTIVATED"
    for j
    using IH by (auto simp: global_step_def)
  show ?case
    unfolding global_step_def
  proof (intro conjI allI impI)
    show "quiet_ext (wlog s) (wlog s')" using IH s1(5) by (auto simp: global_step_def intro: quiet_ext_trans)
    show "SEs s' ! j = SEs s ! j" if "j \<notin> set (ids (c # cs))" for j
      using IH that by (simp add: global_step_def nth n_def)
    show "LocalState (SEs s' ! j) = WDGM_LOCAL_STATUS_EXPIRED" if "LocalState (SEs s ! j) = WDGM_LOCAL_STATUS_EXPIRED" for j
      using ex [of j] that CalculateLocalState_frame(2) [OF x] by (cases "j = n") (simp_all add: nth)
    show "LocalState (SEs s' ! j) \<noteq> WDGM_LOCAL_STATUS_DEACTIVATED"
      if "LocalState (SEs s ! j) \<noteq> WDGM_LOCAL_STATUS_DEACTIVATED" for j
      using de [of j] that CalculateLocalState_frame(3) [OF x] by (cases "j = n") (simp_all add: nth)
    show "0 < e' \<longleftrightarrow> 0 < e \<or> (\<exists>j\<in>set (ids (c # cs)). LocalState (SEs s' ! j) = WDGM_LOCAL_STATUS_EXPIRED)"
      using IH last by (simp add: global_step_def n_def)
  qed (use IH s1 sub in \<open>auto simp: global_step_def\<close>)
qed (simp add: global_step_def)

subsection \<open>The invariant of the module\<close>

definition config_ok :: "WdgM_ConfigType \<Rightarrow> bool" where
  "config_ok c \<longleftrightarrow> (let ms = Modes (ConfigSet c) in
     unat (initialModeId (ConfigSet c)) < length ms
     \<and> (\<forall>k<length ms. unat (Mode_Id (ms ! k)) = k \<and> sorted_wrt (<) (ids (SEConfigurations (ms ! k)))
          \<and> (\<forall>j\<in>set (ids (SEConfigurations (ms ! k))). j < length (SupervisedEntities (General c)))))"

text \<open>The generated runtime data has the dimensions of the configuration.\<close>

definition runtime_fits :: "WdgM_ConfigType \<Rightarrow> WdgM_State \<Rightarrow> bool" where
  "runtime_fits c s \<longleftrightarrow> length (SEs s) = length (SupervisedEntities (General c))
     \<and> map mode_shape (rt_Modes s)
       = map (\<lambda>m. map (\<lambda>x. (length (AliveSupervisions x), length (DeadlineSupervisions x))) (SEConfigurations m))
           (Modes (ConfigSet c))"

definition static_ok :: "WdgM_State \<Rightarrow> bool" where
  "static_ok s \<longleftrightarrow> (\<exists>c m. ConfigPtr s = Some c \<and> CurrentMode s = Some m \<and> config_ok c \<and> m \<in> set (Modes (ConfigSet c))
     \<and> runtime_fits c s)"

abbreviation supervised :: "WdgM_State \<Rightarrow> nat set" where
  "supervised s \<equiv> set (ids (SEConfigurations (cur_mode s)))"

definition wdgm_ok :: "WdgM_State \<Rightarrow> bool" where
  "wdgm_ok s \<longleftrightarrow> static_ok s \<and> substates_all s \<and> GlobalState s \<noteq> WDGM_GLOBAL_STATUS_DEACTIVATED
     \<and> (\<forall>j<length (SEs s). LocalState (SEs s ! j) = WDGM_LOCAL_STATUS_DEACTIVATED \<longleftrightarrow> j \<notin> supervised s)
     \<and> (GlobalState s \<in> {WDGM_GLOBAL_STATUS_OK, WDGM_GLOBAL_STATUS_FAILED}
          \<longrightarrow> WDGM_LOCAL_STATUS_EXPIRED \<notin> set (local_states s))
     \<and> (GlobalState s = WDGM_GLOBAL_STATUS_EXPIRED \<longrightarrow> WDGM_LOCAL_STATUS_EXPIRED \<in> set (local_states s))"

definition wdgm_inv :: "WdgM_State \<Rightarrow> bool" where
  "wdgm_inv s \<longleftrightarrow> (isInitiated s \<longrightarrow> wdgm_ok s)"

lemma core_fields:
  assumes "core s' = core s"
  shows "ConfigPtr s' = ConfigPtr s" "CurrentMode s' = CurrentMode s" "isInitiated s' = isInitiated s"
    "ResetInitiated s' = ResetInitiated s" "length (SEs s') = length (SEs s)" "static_ok s' = static_ok s"
    "length (rt_Modes s') = length (rt_Modes s)"
  using assms by (auto simp: core_def static_ok_def runtime_fits_def dest: map_eq_imp_length_eq)

lemma core_upd [simp]:
  "core (s\<lparr>GlobalState := g\<rparr>) = core s" "core (s\<lparr>os := o1\<rparr>) = core s"
  by (simp_all add: core_def)

lemma cur_mode_facts:
  assumes "static_ok s"
  shows "distinct (ids (SEConfigurations (cur_mode s)))" "\<forall>j\<in>supervised s. j < length (SEs s)"
    "unat (Mode_Id (cur_mode s)) < length (rt_Modes s)"
proof -
  obtain c m where c: "ConfigPtr s = Some c" "CurrentMode s = Some m" "config_ok c" "m \<in> set (Modes (ConfigSet c))"
    "runtime_fits c s" using assms by (auto simp: static_ok_def)
  then obtain k where k: "k < length (Modes (ConfigSet c))" "m = Modes (ConfigSet c) ! k" by (auto simp: in_set_conv_nth)
  have "unat (Mode_Id m) = k" "sorted_wrt (<) (ids (SEConfigurations m))"
    "\<forall>j\<in>set (ids (SEConfigurations m)). j < length (SupervisedEntities (General c))"
    using c(3) k unfolding config_ok_def Let_def by blast+
  moreover have "length (rt_Modes s) = length (Modes (ConfigSet c))"
    using c(5) map_eq_imp_length_eq by (auto simp: runtime_fits_def)
  ultimately show "distinct (ids (SEConfigurations (cur_mode s)))" "\<forall>j\<in>supervised s. j < length (SEs s)"
    "unat (Mode_Id (cur_mode s)) < length (rt_Modes s)"
    using c k by (simp_all add: runtime_fits_def strict_sorted_iff)
qed

lemma upd_counter_core:
  "core (upd_rtMode k (\<lambda>m. m\<lparr>ExpiredSupervisionCycleCounter := g m\<rparr>) s) = core s"
proof -
  let ?g = "\<lambda>m. m\<lparr>ExpiredSupervisionCycleCounter := g m\<rparr>"
  have "map mode_shape ((rt_Modes s)[k := ?g (rt_Modes s ! k)]) = map mode_shape (rt_Modes s)"
    by (rule map_list_update_same [where f = ?g]) (simp add: mode_shape_def)
  then show ?thesis by (simp add: upd_rtMode_def core_def)
qed

lemma wdgm_ok_cong:
  assumes "wdgm_ok s" "core s' = core s" "local_states s' = local_states s" "GlobalState s' = GlobalState s" "substates_all s'"
  shows "wdgm_ok s'"
proof -
  have "LocalState (SEs s' ! j) = LocalState (SEs s ! j)" if "j < length (SEs s)" for j
    using arg_cong [OF assms(3), of "\<lambda>l. l ! j"] that core_fields(5) [OF assms(2)] by simp
  then show ?thesis using assms core_fields [OF assms(2)] by (simp add: wdgm_ok_def)
qed

lemma wdgm_ok_global:
  assumes "wdgm_ok s" "global_step (SEConfigurations (cur_mode s)) 0 s e s'"
    and "core s2 = core s" "SEs s2 = SEs s'" "GlobalState s2 \<noteq> WDGM_GLOBAL_STATUS_DEACTIVATED"
    and "GlobalState s2 \<in> {WDGM_GLOBAL_STATUS_OK, WDGM_GLOBAL_STATUS_FAILED} \<longrightarrow> e = 0"
    and "GlobalState s2 = WDGM_GLOBAL_STATUS_EXPIRED \<longrightarrow> 0 < e"
  shows "wdgm_ok s2"
proof -
  note c = core_fields [OF assms(3)]
  have st: "static_ok s" and d: "\<And>j. j < length (SEs s) \<Longrightarrow>
      LocalState (SEs s ! j) = WDGM_LOCAL_STATUS_DEACTIVATED \<longleftrightarrow> j \<notin> supervised s"
    using assms(1) by (simp_all add: wdgm_ok_def)
  have g: "\<And>j. j \<notin> supervised s \<Longrightarrow> SEs s2 ! j = SEs s ! j"
    "\<And>j. LocalState (SEs s ! j) \<noteq> WDGM_LOCAL_STATUS_DEACTIVATED \<Longrightarrow> LocalState (SEs s2 ! j) \<noteq> WDGM_LOCAL_STATUS_DEACTIVATED"
    "0 < e \<longleftrightarrow> (\<exists>j\<in>supervised s. LocalState (SEs s2 ! j) = WDGM_LOCAL_STATUS_EXPIRED)" "substates_all s2"
    using assms(1,2,4) by (simp_all add: global_step_def wdgm_ok_def substates_all_def)
  have sup: "supervised s2 = supervised s" using c(2) by simp
  have de: "LocalState (SEs s2 ! j) = WDGM_LOCAL_STATUS_DEACTIVATED \<longleftrightarrow> j \<notin> supervised s2" if "j < length (SEs s2)" for j
    using that c(5) d [of j] g(1,2) [of j] unfolding sup by (cases "j \<in> supervised s") simp_all
  have "0 < e \<longleftrightarrow> WDGM_LOCAL_STATUS_EXPIRED \<in> set (local_states s2)"
  proof
    assume "0 < e"
    then obtain j where "j \<in> supervised s" "LocalState (SEs s2 ! j) = WDGM_LOCAL_STATUS_EXPIRED" using g(3) by blast
    moreover have "j < length (SEs s2)" using cur_mode_facts(2) [OF st] c(5) \<open>j \<in> supervised s\<close> by auto
    ultimately show "WDGM_LOCAL_STATUS_EXPIRED \<in> set (local_states s2)" by (metis image_eqI list.set_map nth_mem)
  next
    assume "WDGM_LOCAL_STATUS_EXPIRED \<in> set (local_states s2)"
    then obtain j where j: "j < length (SEs s2)" "LocalState (SEs s2 ! j) = WDGM_LOCAL_STATUS_EXPIRED"
      by (auto simp: in_set_conv_nth)
    then have "j \<in> supervised s" using de [of j] sup by auto
    then show "0 < e" using j(2) g(3) by blast
  qed
  then show ?thesis
    using assms(5-7) g(4) st c(6) de unfolding wdgm_ok_def by blast
qed

subsection \<open>The main function\<close>

abbreviation expired_count :: "WdgM_State \<Rightarrow> nat" where
  "expired_count s \<equiv> unat (ExpiredSupervisionCycleCounter (cur_rt s))"

abbreviation expired_tol :: "WdgM_State \<Rightarrow> nat" where
  "expired_tol s \<equiv> unat (ExpiredSupervisionCycleTol (cur_mode s))"

text \<open>What a main function call guarantees about the global state.\<close>

definition main_step :: "WdgM_State \<Rightarrow> WdgM_State \<Rightarrow> bool" where
  "main_step s s' \<longleftrightarrow> core s' = core s \<and> wdgm_ok s'
     \<and> (GlobalState s = WDGM_GLOBAL_STATUS_STOPPED
          \<longrightarrow> GlobalState s' = WDGM_GLOBAL_STATUS_STOPPED \<and> quiet_ext (wlog s) (wlog s'))
     \<and> (GlobalState s = WDGM_GLOBAL_STATUS_EXPIRED
          \<longrightarrow> (if expired_count s < expired_tol s
              then GlobalState s' = WDGM_GLOBAL_STATUS_EXPIRED \<and> expired_count s' = Suc (expired_count s)
              else GlobalState s' = WDGM_GLOBAL_STATUS_STOPPED))"

lemma cur_rt_count:
  assumes "static_ok s" "core s' = core s" "expired_counts s' = expired_counts s"
  shows "ExpiredSupervisionCycleCounter (cur_rt s') = ExpiredSupervisionCycleCounter (cur_rt s)"
    "expired_tolerated s' = expired_tolerated s"
proof -
  have "unat (Mode_Id (cur_mode s)) < length (rt_Modes s)" by (rule cur_mode_facts(3) [OF assms(1)])
  then show "ExpiredSupervisionCycleCounter (cur_rt s') = ExpiredSupervisionCycleCounter (cur_rt s)"
    using arg_cong [OF assms(3), of "\<lambda>l. l ! unat (Mode_Id (cur_mode s))"] core_fields [OF assms(2)] by simp
  then show "expired_tolerated s' = expired_tolerated s"
    using core_fields [OF assms(2)] by (simp add: expired_tolerated_def)
qed

lemma expired_step:
  assumes "static_ok s" "expired_tolerated s"
  shows "expired_count (upd_rtMode (unat (Mode_Id (cur_mode s)))
      (\<lambda>m. m\<lparr>ExpiredSupervisionCycleCounter := ExpiredSupervisionCycleCounter m + 1\<rparr>) s) = Suc (expired_count s)"
proof -
  have k: "unat (Mode_Id (cur_mode s)) < length (rt_Modes s)" by (rule cur_mode_facts(3) [OF assms(1)])
  have "expired_count s < unat (ExpiredSupervisionCycleTol (cur_mode s))"
    using assms(2) by (simp add: expired_tolerated_def word_less_nat_alt)
  then have "Suc (expired_count s) < 2 ^ 16"
    using unsigned_less [of "ExpiredSupervisionCycleTol (cur_mode s)", where ?'a = nat] by simp
  then show ?thesis using k by (simp add: upd_rtMode_def unat_word_ariths)
qed

text \<open>The update of the global state after the loop over the entities.\<close>

definition global_update :: "nat \<Rightarrow> nat \<Rightarrow> WdgM_State \<Rightarrow> WdgM_State" where
  "global_update e f s = (case GlobalState s of
       WDGM_GLOBAL_STATUS_OK \<Rightarrow> WdgM_internal_updateFromGlobalOK e f s
     | WDGM_GLOBAL_STATUS_FAILED \<Rightarrow> WdgM_internal_updateFromGlobalFAILED e f s
     | WDGM_GLOBAL_STATUS_EXPIRED \<Rightarrow> WdgM_internal_updateFromGlobalEXPIRED e s
     | _ \<Rightarrow> s)"

lemmas update_defs = global_update_def WdgM_internal_updateFromGlobalOK_def WdgM_internal_updateFromGlobalFAILED_def
  WdgM_internal_updateFromGlobalEXPIRED_def Let_def

lemma upd_rtMode_simps [simp]:
  "SEs (upd_rtMode k h s) = SEs s" "wlog (upd_rtMode k h s) = wlog s" "GlobalState (upd_rtMode k h s) = GlobalState s"
  by (simp_all add: upd_rtMode_def)

lemma global_update_frame:
  "core (global_update e f s) = core s" "SEs (global_update e f s) = SEs s" "wlog (global_update e f s) = wlog s"
  by (auto simp: update_defs upd_counter_core split: WdgM_GlobalStatusType.split)

lemma global_update_state:
  assumes "GlobalState s \<noteq> WDGM_GLOBAL_STATUS_DEACTIVATED" "GlobalState s = WDGM_GLOBAL_STATUS_EXPIRED \<longrightarrow> 0 < e"
  shows "GlobalState (global_update e f s) \<noteq> WDGM_GLOBAL_STATUS_DEACTIVATED"
    "GlobalState (global_update e f s) \<in> {WDGM_GLOBAL_STATUS_OK, WDGM_GLOBAL_STATUS_FAILED} \<longrightarrow> e = 0"
    "GlobalState (global_update e f s) = WDGM_GLOBAL_STATUS_EXPIRED \<longrightarrow> 0 < e"
    "GlobalState s = WDGM_GLOBAL_STATUS_STOPPED \<longrightarrow> GlobalState (global_update e f s) = WDGM_GLOBAL_STATUS_STOPPED"
    "GlobalState s = WDGM_GLOBAL_STATUS_EXPIRED \<longrightarrow> global_update e f s =
       (if expired_tolerated s
        then upd_rtMode (unat (Mode_Id (cur_mode s)))
               (\<lambda>m. m\<lparr>ExpiredSupervisionCycleCounter := ExpiredSupervisionCycleCounter m + 1\<rparr>) s
        else s\<lparr>GlobalState := WDGM_GLOBAL_STATUS_STOPPED\<rparr>)"
  using assms by (auto simp: update_defs split: WdgM_GlobalStatusType.splits)

lemma CalculateGlobalState_step:
  assumes ok: "wdgm_ok s"
  shows "main_step s (WdgM_internal_CalculateGlobalState s)"
proof -
  have st: "static_ok s" using ok by (simp add: wdgm_ok_def)
  obtain e f t where loop: "CalculateGlobalState_loop (SEConfigurations (cur_mode s)) 0 0 0 s = (e, f, t)"
    by (metis prod_cases3)
  have g: "global_step (SEConfigurations (cur_mode s)) 0 s e t"
    by (rule CalculateGlobalState_loop_step [OF cur_mode_facts(1,2) [OF st] loop])
  have t: "core t = core s" "GlobalState t = GlobalState s" "expired_counts t = expired_counts s" "quiet_ext (wlog s) (wlog t)"
    using g by (simp_all add: global_step_def)
  note tc = cur_rt_count [OF st t(1,3)]
  have st_t: "static_ok t" using st core_fields(6) [OF t(1)] by simp
  have "0 < e" if "GlobalState s = WDGM_GLOBAL_STATUS_EXPIRED"
  proof -
    have "WDGM_LOCAL_STATUS_EXPIRED \<in> set (local_states s)" using ok that by (simp add: wdgm_ok_def)
    then obtain j where j: "j < length (SEs s)" "LocalState (SEs s ! j) = WDGM_LOCAL_STATUS_EXPIRED"
      by (auto simp: in_set_conv_nth)
    then have "j \<in> supervised s" using ok by (metis WdgM_LocalStatusType.distinct(11) wdgm_ok_def)
    moreover have "LocalState (SEs t ! j) = WDGM_LOCAL_STATUS_EXPIRED" using g j(2) by (simp add: global_step_def)
    ultimately show ?thesis using g by (auto simp: global_step_def)
  qed
  then have gl: "GlobalState t \<noteq> WDGM_GLOBAL_STATUS_DEACTIVATED" "GlobalState t = WDGM_GLOBAL_STATUS_EXPIRED \<longrightarrow> 0 < e"
    using ok t(2) by (simp_all add: wdgm_ok_def)
  note u = global_update_state [OF gl, of f]
  define u where "u = global_update e f t"
  define s' where "s' = (if GlobalState s \<noteq> GlobalState u then Wdgm_internal_ReportGlobalModeChange u else u)"
  have eq: "WdgM_internal_CalculateGlobalState s = s'"
    by (simp add: WdgM_internal_CalculateGlobalState_def loop Let_def u_def s'_def global_update_def)
  have s': "core s' = core s" "SEs s' = SEs t" "GlobalState s' = GlobalState u" "rt_Modes s' = rt_Modes u"
      "quiet_ext (wlog s) (wlog s')"
    using t(1,4) global_update_frame [of e f t]
    by (auto simp: s'_def u_def Wdgm_internal_ReportGlobalModeChange_def quiet_def intro: quiet_ext_emit)
  have "wdgm_ok s'"
    by (rule wdgm_ok_global [OF ok g s'(1,2)]) (use u s'(3) in \<open>simp_all add: u_def\<close>)
  moreover have "GlobalState s = WDGM_GLOBAL_STATUS_STOPPED \<longrightarrow> GlobalState s' = WDGM_GLOBAL_STATUS_STOPPED"
    using u(4) t(2) s'(3) by (simp add: u_def)
  moreover have "if expired_count s < expired_tol s
              then GlobalState s' = WDGM_GLOBAL_STATUS_EXPIRED \<and> expired_count s' = Suc (expired_count s)
              else GlobalState s' = WDGM_GLOBAL_STATUS_STOPPED" if "GlobalState s = WDGM_GLOBAL_STATUS_EXPIRED"
  proof (cases "expired_tolerated t")
    case True
    then have u1: "u = upd_rtMode (unat (Mode_Id (cur_mode t)))
        (\<lambda>m. m\<lparr>ExpiredSupervisionCycleCounter := ExpiredSupervisionCycleCounter m + 1\<rparr>) t"
      using u(5) t(2) that by (simp add: u_def)
    then have "expired_count u = Suc (expired_count t)" using expired_step [OF st_t True] by simp
    moreover have "GlobalState u = GlobalState t" by (simp add: u1 upd_rtMode_def)
    ultimately show ?thesis
      using True tc s'(3,4) core_fields(2) [OF s'(1)] core_fields(2) [OF t(1)] u1 that t(2)
      by (simp add: expired_tolerated_def word_less_nat_alt upd_rtMode_def)
  next
    case False
    then show ?thesis
      using u(5) t(2) tc that s'(3) by (simp add: u_def expired_tolerated_def word_less_nat_alt)
  qed
  ultimately show ?thesis unfolding main_step_def eq using s'(1,5) by blast
qed

lemma trigger_loop_frame:
  "core (trigger_loop E ts s) = core s \<and> GlobalState (trigger_loop E ts s) = GlobalState s \<and> SEs (trigger_loop E ts s) = SEs s
   \<and> rt_Modes (trigger_loop E ts s) = rt_Modes s
   \<and> (GlobalState s = WDGM_GLOBAL_STATUS_STOPPED \<longrightarrow> quiet_ext (wlog s) (wlog (trigger_loop E ts s)))"
proof (induction ts arbitrary: s)
  case (Cons t ts)
  define s1 where "s1 = (if WatchdogMode t \<noteq> WDGIF_OFF_MODE
               then (let triggerValue = (if GlobalState s = WDGM_GLOBAL_STATUS_STOPPED then 0 else TriggerConditionValue t)
                     in if \<not> ResetInitiated s then WdgIf_SetTriggerCondition E (DeviceIndex s t) triggerValue s else s)
               else s)"
  have "core s1 = core s" "GlobalState s1 = GlobalState s" "SEs s1 = SEs s" "rt_Modes s1 = rt_Modes s"
    "GlobalState s = WDGM_GLOBAL_STATUS_STOPPED \<longrightarrow> quiet_ext (wlog s) (wlog s1)"
    by (auto simp: s1_def WdgIf_SetTriggerCondition_def Let_def quiet_def intro!: quiet_ext_emit)
  moreover have "trigger_loop E (t # ts) s = trigger_loop E ts s1" by (simp add: s1_def Let_def)
  ultimately show ?case using Cons.IH [of s1] quiet_ext_trans [of "wlog s" "wlog s1"] by simp
qed simp

lemma MainFunction_step:
  assumes ok: "wdgm_ok s" and init: "isInitiated s"
  shows "main_step s (WdgM_MainFunction E s)"
proof -
  define s1 where "s1 = WdgM_internal_CheckAlives s"
  have 1: "core s1 = core s" "GlobalState s1 = GlobalState s" "local_states s1 = local_states s" "wlog s1 = wlog s"
    "expired_counts s1 = expired_counts s" "substates_all s1"
    using CheckAlives_frame [of "SEConfigurations (cur_mode s)" 0 s] ok
    by (simp_all add: s1_def WdgM_internal_CheckAlives_def wdgm_ok_def)
  have ok1: "wdgm_ok s1" by (rule wdgm_ok_cong [OF ok 1(1,3,2,6)])
  define s2 where "s2 = WdgM_internal_CalculateGlobalState s1"
  have 2: "main_step s1 s2" unfolding s2_def by (rule CalculateGlobalState_step [OF ok1])
  define s3 where "s3 = (if GlobalState s2 = WDGM_GLOBAL_STATUS_STOPPED
                  then (let s = (if WDGM_DEM_ALIVE_SUPERVISION_REPORT E
                                 then WDGM_REPORT_DEM_ERROR (Dem_Supervision (DemEventIdRefs (ConfigSet (cfg s2)))) s2 else s2)
                        in if WDGM_IMMEDIATE_RESET E then emit Mcu_PerformReset s else s)
                  else s2)"
  have 3: "core s3 = core s2" "GlobalState s3 = GlobalState s2" "SEs s3 = SEs s2" "rt_Modes s3 = rt_Modes s2"
    "quiet_ext (wlog s2) (wlog s3)"
    by (auto simp: s3_def Let_def WDGM_REPORT_DEM_ERROR_def quiet_def intro!: quiet_ext_emit)
  define s4 where "s4 = trigger_loop E (Triggers (cur_mode s3)) s3"
  have eq: "WdgM_MainFunction E s = s4"
    using init by (simp add: WdgM_MainFunction_def Let_def s1_def s2_def s3_def s4_def)
  have 4: "core s4 = core s2" "GlobalState s4 = GlobalState s2" "SEs s4 = SEs s2" "rt_Modes s4 = rt_Modes s2"
    "GlobalState s2 = WDGM_GLOBAL_STATUS_STOPPED \<longrightarrow> quiet_ext (wlog s2) (wlog s4)"
    using trigger_loop_frame [of E "Triggers (cur_mode s3)" s3] 3 by (auto simp: s4_def intro: quiet_ext_trans)
  have ok2: "wdgm_ok s2" using 2 by (simp add: main_step_def)
  then have "substates_all s4" using 4(3) by (simp add: wdgm_ok_def substates_all_def)
  then have ok4: "wdgm_ok s4" by (intro wdgm_ok_cong [OF ok2 4(1) _ 4(2)]) (simp_all add: 4(3))
  have cnt: "ExpiredSupervisionCycleCounter (cur_rt s1) = ExpiredSupervisionCycleCounter (cur_rt s)"
    using cur_rt_count(1) [OF _ 1(1,5)] ok by (simp add: wdgm_ok_def)
  have cm: "cur_mode s1 = cur_mode s" "cur_mode s4 = cur_mode s2"
    using core_fields(2) [OF 1(1)] core_fields(2) [OF 4(1)] by simp_all
  show ?thesis
    unfolding main_step_def eq
  proof (intro conjI impI)
    show "core s4 = core s" using 2 4(1) 1(1) by (simp add: main_step_def)
    show "wdgm_ok s4" by (rule ok4)
    assume st: "GlobalState s = WDGM_GLOBAL_STATUS_STOPPED"
    then have "GlobalState s2 = WDGM_GLOBAL_STATUS_STOPPED" "quiet_ext (wlog s) (wlog s2)"
      using 2 1(2,4) by (simp_all add: main_step_def)
    then show "GlobalState s4 = WDGM_GLOBAL_STATUS_STOPPED" "quiet_ext (wlog s) (wlog s4)"
      using 4(2,5) by (auto intro: quiet_ext_trans)
  next
    assume "GlobalState s = WDGM_GLOBAL_STATUS_EXPIRED"
    then have "if expired_count s1 < expired_tol s1
              then GlobalState s2 = WDGM_GLOBAL_STATUS_EXPIRED \<and> expired_count s2 = Suc (expired_count s1)
              else GlobalState s2 = WDGM_GLOBAL_STATUS_STOPPED"
      using 2 1(2) unfolding main_step_def by simp
    then show "if expired_count s < expired_tol s
              then GlobalState s4 = WDGM_GLOBAL_STATUS_EXPIRED \<and> expired_count s4 = Suc (expired_count s)
              else GlobalState s4 = WDGM_GLOBAL_STATUS_STOPPED"
      using 4(2,4) cnt cm by simp
  qed
qed

subsection \<open>Checkpoints keep the invariant\<close>

lemma AliveMonitoring_shape: "conf_shape (WdgM_internal_AliveMonitoring sc p rc) = conf_shape rc"
  by (simp add: WdgM_internal_AliveMonitoring_def conf_shape_def split: option.split)

lemma DeadlineMonitoring_loop_frame:
  "length (fst (snd (DeadlineMonitoring_loop E c p ds i rs o1))) = length rs
   \<and> fst (DeadlineMonitoring_loop E c p ds i rs o1) \<in> {0, 1}"
proof (induction ds arbitrary: i rs o1)
  case (Cons d ds)
  then show ?case by (auto simp: Let_def case_prod_beta substate_defs simp del: insert_iff)
qed (simp add: substate_defs)

lemma DeadlineMonitoring_frame:
  "conf_shape (fst (snd (WdgM_internal_DeadlineMonitoring E sc p rc o1))) = conf_shape rc"
  "fst (WdgM_internal_DeadlineMonitoring E sc p rc o1) \<in> {0, 1}"
  using DeadlineMonitoring_loop_frame [of E "OSCounter sc" p "DeadlineSupervisions sc" 0 "rt_DeadlineSupervisions rc" o1]
  by (auto simp: WdgM_internal_DeadlineMonitoring_def case_prod_beta conf_shape_def)

lemma LogicalMonitoring_frame:
  "LocalState (snd (WdgM_internal_LogicalMonitoring se p x)) = LocalState x"
  "fst (WdgM_internal_LogicalMonitoring se p x) \<in> {0, 1}"
  "substates_ok x \<Longrightarrow> substates_ok (snd (WdgM_internal_LogicalMonitoring se p x))"
  by (auto simp: logical_defs Let_def substates_ok_def)

lemma substates_all_upd_at:
  "substates_all s \<Longrightarrow> (substates_ok (SEs s ! i) \<Longrightarrow> substates_ok (f (SEs s ! i))) \<Longrightarrow> substates_all (upd_SE i f s)"
  by (cases "i < length (SEs s)")
    (auto simp: substates_all_def upd_SE_def list_all_length nth_list_update list_update_beyond)

text \<open>A step that changes neither the global nor a local state.\<close>

definition calm_step :: "WdgM_State \<Rightarrow> WdgM_State \<Rightarrow> bool" where
  "calm_step s s' \<longleftrightarrow> core s' = core s \<and> GlobalState s' = GlobalState s \<and> local_states s' = local_states s
     \<and> expired_counts s' = expired_counts s \<and> quiet_ext (wlog s) (wlog s') \<and> (substates_all s \<longrightarrow> substates_all s')"

lemma calm_step_refl [simp]: "calm_step s s"
  by (simp add: calm_step_def)

lemma calm_step_trans: "calm_step s s' \<Longrightarrow> calm_step s' s'' \<Longrightarrow> calm_step s s''"
  by (auto simp: calm_step_def intro: quiet_ext_trans)

lemma calm_emit: "quiet e \<Longrightarrow> calm_step s (emit e s)"
  by (simp add: calm_step_def quiet_ext_emit substates_all_def)

lemma calm_det [simp]: "calm_step s (det SID err s)"
  by (simp add: det_def calm_emit quiet_def)

lemma calm_os [simp]: "calm_step s (s\<lparr>os := o1\<rparr>)"
  by (simp add: calm_step_def substates_all_def)

lemma calm_rtConf:
  "conf_shape (f (SE_Configs (cur_rt s) ! i)) = conf_shape (SE_Configs (cur_rt s) ! i) \<Longrightarrow> calm_step s (upd_rtConf i f s)"
  by (simp add: calm_step_def upd_rtConf_core substates_all_def)

lemma calm_SE:
  "LocalState (f (SEs s ! i)) = LocalState (SEs s ! i) \<Longrightarrow> (substates_ok (SEs s ! i) \<Longrightarrow> substates_ok (f (SEs s ! i)))
    \<Longrightarrow> calm_step s (upd_SE i f s)"
  by (simp add: calm_step_def substates_all_upd_at) (simp add: upd_SE_def map_list_update_same)

lemma calm_ok: "wdgm_ok s \<Longrightarrow> calm_step s s' \<Longrightarrow> wdgm_ok s'"
  by (rule wdgm_ok_cong) (simp_all add: calm_step_def wdgm_ok_def)

lemma CheckpointReached_calm: "calm_step s (snd (WdgM_CheckpointReached E SEID p s))"
proof (cases "find_SEConf SEID (SEConfigurations (cur_mode s)) 0")
  case None
  then show ?thesis by (simp add: WdgM_CheckpointReached_def Let_def)
next
  case (Some i)
  define se where "se = SupervisedEntities (General (cfg s)) ! unat SEID"
  define sc where "sc = SEConfigurations (cur_mode s) ! i"
  define s1 where "s1 = upd_rtConf i (WdgM_internal_AliveMonitoring sc p) s"
  define dm where "dm = WdgM_internal_DeadlineMonitoring E sc p (SE_Configs (cur_rt s1) ! i) (os s1)"
  define s2 where "s2 = (upd_rtConf i (\<lambda>_. fst (snd dm)) s1)\<lparr>os := snd (snd dm)\<rparr>"
  define s3 where "s3 = upd_SE (unat SEID) (\<lambda>x. x\<lparr>SubstateDeadline := fst dm\<rparr>) s2"
  define lm where "lm = WdgM_internal_LogicalMonitoring se p (SEs s3 ! unat SEID)"
  define s4 where "s4 = (if CheckInternalLogic sc then upd_SE (unat SEID) (\<lambda>_. (snd lm)\<lparr>SubstateLogical := fst lm\<rparr>) s3 else s3)"
  have 1: "calm_step s s1" unfolding s1_def by (rule calm_rtConf) (rule AliveMonitoring_shape)
  have 2: "calm_step s1 (upd_rtConf i (\<lambda>_. fst (snd dm)) s1)"
    by (rule calm_rtConf) (simp add: dm_def DeadlineMonitoring_frame)
  have 3: "calm_step s2 s3" unfolding s3_def
    using DeadlineMonitoring_frame(2) [of E sc p "SE_Configs (cur_rt s1) ! i" "os s1"]
    by (intro calm_SE) (simp_all add: dm_def substates_ok_def)
  have 4: "calm_step s3 s4" unfolding s4_def
    using LogicalMonitoring_frame(1,2) [of se p "SEs s3 ! unat SEID"] LogicalMonitoring_frame(3) [of "SEs s3 ! unat SEID" se p]
    by (auto simp: lm_def substates_ok_def intro!: calm_SE)
  have "calm_step s1 s2" unfolding s2_def by (rule calm_step_trans [OF 2 calm_os])
  then have "calm_step s s4" by (rule calm_step_trans [OF 1 calm_step_trans, OF _ calm_step_trans [OF 3 4]])
  note this [unfolded s4_def lm_def s3_def s2_def dm_def s1_def sc_def se_def]
  then show ?thesis
    using Some by (cases "CheckInternalLogic (SEConfigurations (cur_mode s) ! i)")
      (simp_all add: WdgM_CheckpointReached_def Let_def case_prod_beta)
qed

subsection \<open>Mode changes\<close>

definition reset_se :: "WdgM_runtime_SupervisedEntity \<Rightarrow> WdgM_runtime_SupervisedEntity" where
  "reset_se x = x\<lparr>LocalState := WDGM_LOCAL_STATUS_DEACTIVATED, IsInternalGraphActive := False,
     PreviousCheckpointId_internalLogic := 0, FailedAliveCyclesCounter := 0, SubstateAlive := WDGM_SUBSTATE_CORRECT,
     SubstateDeadline := WDGM_SUBSTATE_CORRECT, SubstateLogical := WDGM_SUBSTATE_CORRECT\<rparr>"

definition activate_se :: "WdgM_runtime_SupervisedEntity \<Rightarrow> WdgM_runtime_SupervisedEntity" where
  "activate_se x = (if LocalState x = WDGM_LOCAL_STATUS_DEACTIVATED then x\<lparr>LocalState := WDGM_LOCAL_STATUS_OK\<rparr> else x)"

text \<open>A step that changes entities and the log only.\<close>

definition entity_step :: "WdgM_State \<Rightarrow> WdgM_State \<Rightarrow> bool" where
  "entity_step s s' \<longleftrightarrow> core s' = core s \<and> GlobalState s' = GlobalState s \<and> rt_Modes s' = rt_Modes s"

lemma entity_step_trans: "entity_step s s' \<Longrightarrow> entity_step s' s'' \<Longrightarrow> entity_step s s''"
  by (simp add: entity_step_def)

lemma entity_step_length: "entity_step s s' \<Longrightarrow> length (SEs s') = length (SEs s)"
  unfolding entity_step_def by (blast dest: core_SEs)

lemma DeactivateAndResetSE_step:
  "entity_step s (WdgM_internal_DeactivateAndResetSE i s)"
  "SEs (WdgM_internal_DeactivateAndResetSE i s) ! j = (if j = i \<and> i < length (SEs s) then reset_se (SEs s ! i) else SEs s ! j)"
  by (simp_all add: WdgM_internal_DeactivateAndResetSE_def Let_def WdgM_Internal_ReportLocalModeChange_def entity_step_def
      upd_SE_nth reset_se_def)

lemma DeactivateAll_step:
  assumes "distinct js"
  shows "entity_step s (DeactivateAll js s)"
    "SEs (DeactivateAll js s) ! j = (if j \<in> set js \<and> j < length (SEs s) then reset_se (SEs s ! j) else SEs s ! j)"
proof -
  have "entity_step s (DeactivateAll js s) \<and> SEs (DeactivateAll js s) ! j
      = (if j \<in> set js \<and> j < length (SEs s) then reset_se (SEs s ! j) else SEs s ! j)"
    using assms
  proof (induction js arbitrary: s)
    case (Cons i js)
    let ?s1 = "WdgM_internal_DeactivateAndResetSE i s"
    have "length (SEs ?s1) = length (SEs s)"
      by (rule entity_step_length [OF DeactivateAndResetSE_step(1)])
    moreover have "entity_step ?s1 (DeactivateAll js ?s1)"
      using Cons.IH [of ?s1] Cons.prems by (simp only: distinct.simps)
    then have "entity_step s (DeactivateAll js ?s1)" by (rule entity_step_trans [OF DeactivateAndResetSE_step(1)])
    ultimately show ?case
      using Cons.IH [of ?s1] Cons.prems by (cases "j = i") (simp_all add: DeactivateAndResetSE_step(2))
  qed (simp add: entity_step_def)
  then show "entity_step s (DeactivateAll js s)"
    "SEs (DeactivateAll js s) ! j = (if j \<in> set js \<and> j < length (SEs s) then reset_se (SEs s ! j) else SEs s ! j)"
    by blast+
qed

lemma SetMode_activate_step:
  defines "act i s \<equiv> if LocalState (SEs s ! i) = WDGM_LOCAL_STATUS_DEACTIVATED
     then WdgM_Internal_ReportLocalModeChange i (upd_SE i (\<lambda>x. x\<lparr>LocalState := WDGM_LOCAL_STATUS_OK\<rparr>) s) else s"
  shows "entity_step s (act i s)"
    "SEs (act i s) ! j = (if j = i \<and> i < length (SEs s) then activate_se (SEs s ! i) else SEs s ! j)"
  by (auto simp: act_def entity_step_def WdgM_Internal_ReportLocalModeChange_def upd_SE_nth activate_se_def)

text \<open>The loop of \<open>WdgM_SetMode\<close>: from index \<open>i\<close> on, entities of the mode are activated and all others reset.\<close>

lemma SetMode_loop_step:
  assumes "sorted_wrt (<) (ids cs)" "\<forall>j\<in>set (ids cs). i \<le> j \<and> j < length (SEs s)"
    and "length (SupervisedEntities (General (cfg s))) = length (SEs s)"
  shows "entity_step s (SetMode_loop cs i s) \<and> (\<forall>j. SEs (SetMode_loop cs i s) ! j =
     (if j < i \<or> length (SEs s) \<le> j then SEs s ! j else if j \<in> set (ids cs) then activate_se (SEs s ! j) else reset_se (SEs s ! j)))"
  using assms
proof (induction cs arbitrary: i s)
  case Nil
  then show ?case using DeactivateAll_step [of "[i..<length (SEs s)]" s] by auto
next
  case (Cons c cs)
  define n where "n = unat (SupervisedEntityId c)"
  have n: "i \<le> n" "n < length (SEs s)" "\<forall>j\<in>set (ids cs). Suc n \<le> j \<and> j < length (SEs s)"
    using Cons.prems(1,2) by (auto simp: n_def Suc_le_eq)
  define s1 where "s1 = DeactivateAll [i..<n] s"
  define s2 where "s2 = (if LocalState (SEs s1 ! n) = WDGM_LOCAL_STATUS_DEACTIVATED
     then WdgM_Internal_ReportLocalModeChange n (upd_SE n (\<lambda>x. x\<lparr>LocalState := WDGM_LOCAL_STATUS_OK\<rparr>) s1) else s1)"
  have A: "entity_step s s1" "\<And>j. SEs s1 ! j = (if i \<le> j \<and> j < n then reset_se (SEs s ! j) else SEs s ! j)"
    using DeactivateAll_step [of "[i..<n]" s] n(2) by (auto simp: s1_def)
  have B: "entity_step s1 s2" "\<And>j. SEs s2 ! j = (if j = n \<and> n < length (SEs s1) then activate_se (SEs s1 ! n) else SEs s1 ! j)"
    unfolding s2_def by (rule SetMode_activate_step)+
  have l: "length (SEs s1) = length (SEs s)" "length (SEs s2) = length (SEs s)" "ConfigPtr s2 = ConfigPtr s"
    using entity_step_length [OF A(1)] entity_step_length [OF B(1)] A(1) B(1) core_fields(1) [of s2 s]
    by (simp_all add: entity_step_def)
  have eq: "SetMode_loop (c # cs) i s = SetMode_loop cs (Suc n) s2"
    using n(1) by (simp add: Let_def n_def [symmetric] s1_def s2_def max_absorb2)
  have IH: "entity_step s2 (SetMode_loop cs (Suc n) s2)"
    "\<And>j. SEs (SetMode_loop cs (Suc n) s2) ! j = (if j < Suc n \<or> length (SEs s) \<le> j then SEs s2 ! j
       else if j \<in> set (ids cs) then activate_se (SEs s2 ! j) else reset_se (SEs s2 ! j))"
    using Cons.IH [of "Suc n" s2] Cons.prems(1,3) n(3) l by simp_all
  have ids: "set (ids (c # cs)) = insert n (set (ids cs))" by (simp add: n_def)
  have "SEs (SetMode_loop cs (Suc n) s2) ! j = (if j < i \<or> length (SEs s) \<le> j then SEs s ! j
       else if j \<in> set (ids (c # cs)) then activate_se (SEs s ! j) else reset_se (SEs s ! j))" for j
  proof -
    have later: "j \<in> set (ids cs) \<Longrightarrow> n < j" using n(3) by (auto simp: Suc_le_eq)
    consider "j < n" | "j = n" | "n < j" by linarith
    then show ?thesis
    proof cases
      case 1
      then have "j \<notin> insert n (set (ids cs))" using later by auto
      with 1 show ?thesis using n(2) l(1) unfolding ids by (simp add: IH(2) B(2) A(2))
    next
      case 2
      then show ?thesis using n(1,2) l(1) unfolding ids by (simp add: IH(2) B(2) A(2))
    next
      case 3
      then show ?thesis using n(1) l(1) unfolding ids by (simp add: IH(2) B(2) A(2))
    qed
  qed
  then show ?case
    unfolding eq using entity_step_trans [OF entity_step_trans [OF A(1) B(1)] IH(1)] by blast
qed

text \<open>Switching watchdog modes changes the global state only, to stopped, and only on failure.\<close>

definition trigger_step :: "WdgM_State \<Rightarrow> Std_ReturnType \<times> WdgM_State \<Rightarrow> bool" where
  "trigger_step s rs \<longleftrightarrow> core (snd rs) = core s \<and> SEs (snd rs) = SEs s \<and> rt_Modes (snd rs) = rt_Modes s
     \<and> GlobalState (snd rs) = (if fst rs = E_OK then GlobalState s else WDGM_GLOBAL_STATUS_STOPPED)"

lemma wdg_refused_step:
  "core (wdg_refused e s) = core s" "SEs (wdg_refused e s) = SEs s" "rt_Modes (wdg_refused e s) = rt_Modes s"
  "GlobalState (wdg_refused e s) = WDGM_GLOBAL_STATUS_STOPPED"
  by (simp_all add: wdg_refused_def WDGM_REPORT_DEM_ERROR_def Wdgm_internal_ReportGlobalModeChange_def)

lemma WdgIf_SetMode_step:
  "core (snd (WdgIf_SetMode E d m s)) = core s" "SEs (snd (WdgIf_SetMode E d m s)) = SEs s"
  "rt_Modes (snd (WdgIf_SetMode E d m s)) = rt_Modes s" "GlobalState (snd (WdgIf_SetMode E d m s)) = GlobalState s"
  by (simp_all add: WdgIf_SetMode_def)

lemma SetTriggerCondition_step:
  "core (WdgIf_SetTriggerCondition E d v s) = core s" "SEs (WdgIf_SetTriggerCondition E d v s) = SEs s"
  "rt_Modes (WdgIf_SetTriggerCondition E d v s) = rt_Modes s"
  "GlobalState (WdgIf_SetTriggerCondition E d v s) = GlobalState s"
  by (simp_all add: WdgIf_SetTriggerCondition_def)

lemmas wdg_steps = wdg_refused_step WdgIf_SetMode_step SetTriggerCondition_step

lemma deactivate_loop_step: "trigger_step s (deactivate_loop E e ts s)"
proof (induction ts arbitrary: s)
  case (Cons t ts)
  let ?p = "WdgIf_SetMode E (DeviceIndex s t) WDGIF_OFF_MODE s"
  show ?case using Cons.IH [of "snd ?p"] by (simp add: Let_def case_prod_beta trigger_step_def wdg_steps)
qed (simp add: trigger_step_def)

lemma activate_loop_step: "trigger_step s (activate_loop E e ts s)"
proof (induction ts arbitrary: s)
  case (Cons t ts)
  define p where "p = WdgIf_SetMode E (DeviceIndex s t) (WatchdogMode t) s"
  define s1 where "s1 = (if fst p = E_OK \<and> WatchdogMode t \<noteq> WDGIF_OFF_MODE \<and> \<not> ResetInitiated (snd p)
    then WdgIf_SetTriggerCondition E (DeviceIndex s t) (TriggerConditionValue t) (snd p) else snd p)"
  have "core s1 = core s" "SEs s1 = SEs s" "rt_Modes s1 = rt_Modes s" "GlobalState s1 = GlobalState s"
    by (simp_all add: s1_def p_def wdg_steps)
  moreover have "activate_loop E e (t # ts) s = (if fst p \<noteq> E_OK then (E_NOT_OK, wdg_refused e s1) else activate_loop E e ts s1)"
    by (simp add: Let_def case_prod_beta p_def s1_def)
  ultimately show ?case using Cons.IH [of s1] by (simp add: trigger_step_def wdg_steps)
qed (simp add: trigger_step_def)

lemma reset_SEConfig_shape: "conf_shape (reset_SEConfig c) = conf_shape c"
  by (simp add: conf_shape_def reset_SEConfig_def)

lemma ResetSEConfigsForMode_step:
  "core (WdgM_internal_ResetSEConfigsForMode m s) = core s" "SEs (WdgM_internal_ResetSEConfigsForMode m s) = SEs s"
  "GlobalState (WdgM_internal_ResetSEConfigsForMode m s) = GlobalState s"
proof -
  let ?g = "\<lambda>x. x\<lparr>ExpiredSupervisionCycleCounter := 0, SE_Configs := map reset_SEConfig (SE_Configs x)\<rparr>"
  have "map mode_shape ((rt_Modes s)[m := ?g (rt_Modes s ! m)]) = map mode_shape (rt_Modes s)"
    by (rule map_list_update_same [where f = ?g]) (simp add: mode_shape_def reset_SEConfig_shape)
  then show "core (WdgM_internal_ResetSEConfigsForMode m s) = core s" "SEs (WdgM_internal_ResetSEConfigsForMode m s) = SEs s"
    "GlobalState (WdgM_internal_ResetSEConfigsForMode m s) = GlobalState s"
    by (simp_all add: WdgM_internal_ResetSEConfigsForMode_def upd_rtMode_def core_def)
qed

text \<open>The part of the entities a mode change makes of those before it.\<close>

definition mode_entities :: "WdgM_Mode \<Rightarrow> WdgM_State \<Rightarrow> WdgM_State \<Rightarrow> bool" where
  "mode_entities m s s' \<longleftrightarrow> length (SEs s') = length (SEs s) \<and> (\<forall>j<length (SEs s). SEs s' ! j =
     (if j \<in> set (ids (SEConfigurations m)) then activate_se (SEs s ! j) else reset_se (SEs s ! j)))"

lemma mode_facts:
  assumes "static_ok s" "k < length (Modes (ConfigSet (cfg s)))" "m = Modes (ConfigSet (cfg s)) ! k"
  shows "sorted_wrt (<) (ids (SEConfigurations m))" "\<forall>j\<in>set (ids (SEConfigurations m)). j < length (SEs s)"
    "length (SupervisedEntities (General (cfg s))) = length (SEs s)" "m \<in> set (Modes (ConfigSet (cfg s)))"
proof -
  obtain c where c: "ConfigPtr s = Some c" "config_ok c" "runtime_fits c s" using assms(1) by (auto simp: static_ok_def)
  have "sorted_wrt (<) (ids (SEConfigurations m))"
    "\<forall>j\<in>set (ids (SEConfigurations m)). j < length (SupervisedEntities (General c))"
    using c(1,2) assms(2,3) unfolding config_ok_def Let_def option.sel by simp_all
  then show "sorted_wrt (<) (ids (SEConfigurations m))" "\<forall>j\<in>set (ids (SEConfigurations m)). j < length (SEs s)"
    "length (SupervisedEntities (General (cfg s))) = length (SEs s)" "m \<in> set (Modes (ConfigSet (cfg s)))"
    using c(1,3) assms(2,3) by (simp_all add: runtime_fits_def)
qed

definition mode_allowed :: "WdgM_Env \<Rightarrow> uint8 \<Rightarrow> WdgM_State \<Rightarrow> bool" where
  "mode_allowed E k s \<longleftrightarrow> WDGM_OFF_MODE_ENABLED E
     \<or> (\<exists>t\<in>set (Triggers (Modes (ConfigSet (cfg s)) ! unat k)). WatchdogMode t \<noteq> WDGIF_OFF_MODE)"

lemma SetMode_changes:
  assumes "static_ok s" "isInitiated s" "unat k < length (Modes (ConfigSet (cfg s)))" "mode_allowed E k s"
    and "GlobalState s \<in> {WDGM_GLOBAL_STATUS_OK, WDGM_GLOBAL_STATUS_FAILED}"
    and "WdgM_SetMode E k s = (rv, s')"
  defines "m \<equiv> Modes (ConfigSet (cfg s)) ! unat k"
  shows "mode_entities m s s'" "CurrentMode s' = Some m" "core (s'\<lparr>CurrentMode := CurrentMode s\<rparr>) = core s"
    "GlobalState s' = (if rv = E_OK then GlobalState s else WDGM_GLOBAL_STATUS_STOPPED)"
proof -
  define s1 where "s1 = SetMode_loop (SEConfigurations m) 0 s"
  note f = mode_facts [OF assms(1,3) m_def [THEN meta_eq_to_obj_eq]]
  have 1: "entity_step s s1" "\<And>j. SEs s1 ! j = (if length (SEs s) \<le> j then SEs s ! j
      else if j \<in> set (ids (SEConfigurations m)) then activate_se (SEs s ! j) else reset_se (SEs s ! j))"
    using SetMode_loop_step [of "SEConfigurations m" 0 s] f by (simp_all add: s1_def)
  define s2 where "s2 = WdgM_internal_ResetSEConfigsForMode (unat (Mode_Id (cur_mode s1))) s1"
  define ev where "ev = Dem_SetMode (DemEventIdRefs (ConfigSet (cfg s2)))"
  define d where "d = WdgM_internal_deactivateCurrentTriggers E ev s2"
  define a where "a = (if fst d = E_OK then WdgM_internal_activateTriggers E m ev (snd d) else d)"
  have s2: "core s2 = core s" "SEs s2 = SEs s1" "GlobalState s2 = GlobalState s"
    using 1(1) by (simp_all add: s2_def ResetSEConfigsForMode_step entity_step_def)
  have d: "trigger_step s2 d" unfolding d_def WdgM_internal_deactivateCurrentTriggers_def by (rule deactivate_loop_step)
  have "trigger_step s2 a"
  proof (cases "fst d = E_OK")
    case True
    then show ?thesis
      using d activate_loop_step [of "snd d" E ev "Triggers m"]
      by (simp add: a_def WdgM_internal_activateTriggers_def trigger_step_def)
  qed (simp add: a_def d)
  then have a: "core (snd a) = core s" "SEs (snd a) = SEs s1"
    "GlobalState (snd a) = (if fst a = E_OK then GlobalState s else WDGM_GLOBAL_STATUS_STOPPED)"
    using s2 by (simp_all add: trigger_step_def)
  have "WdgM_SetMode E k s = (fst a, (snd a)\<lparr>CurrentMode := Some m\<rparr>)"
    using assms(2-5)
    by (auto simp: WdgM_SetMode_def mode_allowed_def WdgM_internal_isAtLeastOneWdogEnabled_def list_ex_iff Let_def
        case_prod_beta m_def s1_def s2_def ev_def d_def a_def not_le)
  then have s': "rv = fst a" "s' = (snd a)\<lparr>CurrentMode := Some m\<rparr>" using assms(6) by simp_all
  then show "CurrentMode s' = Some m"
    "GlobalState s' = (if rv = E_OK then GlobalState s else WDGM_GLOBAL_STATUS_STOPPED)" using a(3) by simp_all
  show "core (s'\<lparr>CurrentMode := CurrentMode s\<rparr>) = core s" using a(1) by (simp add: s'(2) core_def)
  show "mode_entities m s s'"
    using entity_step_length [OF 1(1)] by (simp add: mode_entities_def s'(2) a(2) 1(2))
qed

lemma entity_state:
  "LocalState (activate_se x) \<noteq> WDGM_LOCAL_STATUS_DEACTIVATED" "LocalState (reset_se x) = WDGM_LOCAL_STATUS_DEACTIVATED"
  "LocalState (activate_se x) = WDGM_LOCAL_STATUS_EXPIRED \<longleftrightarrow> LocalState x = WDGM_LOCAL_STATUS_EXPIRED"
  "substates_ok (reset_se x)" "substates_ok (activate_se x) = substates_ok x"
  by (auto simp: activate_se_def reset_se_def substates_ok_def substate_defs)

lemma mode_entities_ok:
  assumes "mode_entities m s s'" "CurrentMode s' = Some m" "static_ok s'"
    and "list_all substates_ok (SEs s) \<or> (\<forall>j<length (SEs s). SEs s ! j = reset_se (SEs s ! j))"
    and "WDGM_LOCAL_STATUS_EXPIRED \<notin> set (local_states s)"
    and "GlobalState s' \<notin> {WDGM_GLOBAL_STATUS_EXPIRED, WDGM_GLOBAL_STATUS_DEACTIVATED}"
  shows "wdgm_ok s'"
proof -
  have e: "length (SEs s') = length (SEs s)" "\<And>j. j < length (SEs s) \<Longrightarrow> SEs s' ! j =
     (if j \<in> set (ids (SEConfigurations m)) then activate_se (SEs s ! j) else reset_se (SEs s ! j))"
    using assms(1) by (simp_all add: mode_entities_def)
  have "substates_ok (SEs s ! j)" if "j < length (SEs s)" for j
    using assms(4) that entity_state(4) [of "SEs s ! j"] by (auto simp: list_all_length)
  then have "substates_all s'"
    unfolding substates_all_def list_all_length using e by (simp add: entity_state)
  moreover have "WDGM_LOCAL_STATUS_EXPIRED \<notin> set (local_states s')"
  proof
    assume "WDGM_LOCAL_STATUS_EXPIRED \<in> set (local_states s')"
    then obtain j where "j < length (SEs s')" "LocalState (SEs s' ! j) = WDGM_LOCAL_STATUS_EXPIRED"
      by (auto simp: in_set_conv_nth)
    then have "j < length (SEs s)" "LocalState (SEs s ! j) = WDGM_LOCAL_STATUS_EXPIRED"
      using e by (auto simp: entity_state split: if_splits)
    then show False using assms(5) by (metis image_eqI list.set_map nth_mem)
  qed
  moreover have "LocalState (SEs s' ! j) = WDGM_LOCAL_STATUS_DEACTIVATED \<longleftrightarrow> j \<notin> supervised s'" if "j < length (SEs s')" for j
    using e that assms(2) by (simp add: entity_state)
  ultimately show ?thesis
    using assms(3,6) unfolding wdgm_ok_def by blast
qed

lemma SetMode_ok:
  assumes "wdgm_ok s" "isInitiated s"
  shows "GlobalState s \<notin> {WDGM_GLOBAL_STATUS_OK, WDGM_GLOBAL_STATUS_FAILED} \<Longrightarrow> calm_step s (snd (WdgM_SetMode E k s))"
    and "isInitiated (snd (WdgM_SetMode E k s)) \<and> wdgm_ok (snd (WdgM_SetMode E k s))"
proof -
  have st: "static_ok s" using assms(1) by (simp add: wdgm_ok_def)
  have calm: "calm_step s (snd (WdgM_SetMode E k s))"
    if "\<not> (unat k < length (Modes (ConfigSet (cfg s))) \<and> mode_allowed E k s
        \<and> GlobalState s \<in> {WDGM_GLOBAL_STATUS_OK, WDGM_GLOBAL_STATUS_FAILED})"
    using that assms(2)
    by (auto simp: WdgM_SetMode_def mode_allowed_def WdgM_internal_isAtLeastOneWdogEnabled_def list_ex_iff Let_def
        calm_emit quiet_def)
  then show "GlobalState s \<notin> {WDGM_GLOBAL_STATUS_OK, WDGM_GLOBAL_STATUS_FAILED} \<Longrightarrow> calm_step s (snd (WdgM_SetMode E k s))"
    by blast
  show "isInitiated (snd (WdgM_SetMode E k s)) \<and> wdgm_ok (snd (WdgM_SetMode E k s))"
  proof (cases "unat k < length (Modes (ConfigSet (cfg s))) \<and> mode_allowed E k s
        \<and> GlobalState s \<in> {WDGM_GLOBAL_STATUS_OK, WDGM_GLOBAL_STATUS_FAILED}")
    case False
    then have "calm_step s (snd (WdgM_SetMode E k s))" by (rule calm)
    moreover from this have "isInitiated (snd (WdgM_SetMode E k s)) = isInitiated s"
      unfolding calm_step_def by (blast dest: core_fields(3))
    ultimately show ?thesis using calm_ok [OF assms(1)] assms(2) by simp
  next
    case True
    let ?m = "Modes (ConfigSet (cfg s)) ! unat k" and ?s = "snd (WdgM_SetMode E k s)"
    have T: "unat k < length (Modes (ConfigSet (cfg s)))" "mode_allowed E k s"
      "GlobalState s \<in> {WDGM_GLOBAL_STATUS_OK, WDGM_GLOBAL_STATUS_FAILED}" using True by blast+
    have "WdgM_SetMode E k s = (fst (WdgM_SetMode E k s), ?s)" by simp
    note c = SetMode_changes [OF st assms(2) T this]
    have f: "ConfigPtr ?s = ConfigPtr s" "isInitiated ?s = isInitiated s" "map mode_shape (rt_Modes ?s) = map mode_shape (rt_Modes s)"
      using c(3) by (simp_all add: core_def)
    obtain cf where cf: "ConfigPtr s = Some cf" "config_ok cf" "runtime_fits cf s" using st by (auto simp: static_ok_def)
    have "static_ok ?s"
      unfolding static_ok_def
    proof (intro exI conjI)
      show "ConfigPtr ?s = Some cf" "config_ok cf" using f(1) cf by simp_all
      show "?m \<in> set (Modes (ConfigSet cf))" using T(1) cf(1) by simp
      show "runtime_fits cf ?s" using c(1) cf(3) f(3) by (simp add: runtime_fits_def mode_entities_def)
    qed (rule c(2))
    moreover have "WDGM_LOCAL_STATUS_EXPIRED \<notin> set (local_states s)" "list_all substates_ok (SEs s)"
      using assms(1) T(3) unfolding wdgm_ok_def substates_all_def by blast+
    moreover have "GlobalState ?s \<notin> {WDGM_GLOBAL_STATUS_EXPIRED, WDGM_GLOBAL_STATUS_DEACTIVATED}" using c(4) T(3) by auto
    ultimately have "wdgm_ok ?s" using mode_entities_ok [OF c(1,2)] by blast
    then show ?thesis using f(2) assms(2) by simp
  qed
qed

subsection \<open>Initialisation and shutdown\<close>

lemma ActivateAll_step:
  "entity_step s (ActivateAll cs s) \<and> (\<forall>j. SEs (ActivateAll cs s) ! j =
     (if j \<in> set (ids cs) \<and> j < length (SEs s) then (SEs s ! j)\<lparr>LocalState := WDGM_LOCAL_STATUS_OK\<rparr> else SEs s ! j))"
proof (induction cs arbitrary: s)
  case (Cons c cs)
  define n where "n = unat (SupervisedEntityId c)"
  define s1 where "s1 = WdgM_Internal_ReportLocalModeChange n (upd_SE n (\<lambda>x. x\<lparr>LocalState := WDGM_LOCAL_STATUS_OK\<rparr>) s)"
  have s1: "entity_step s s1" "length (SEs s1) = length (SEs s)"
    "\<And>j. SEs s1 ! j = (if j = n \<and> n < length (SEs s) then (SEs s ! n)\<lparr>LocalState := WDGM_LOCAL_STATUS_OK\<rparr> else SEs s ! j)"
    by (simp_all add: s1_def WdgM_Internal_ReportLocalModeChange_def entity_step_def upd_SE_nth)
  have eq: "ActivateAll (c # cs) s = ActivateAll cs s1" by (simp add: Let_def n_def s1_def)
  have ids: "set (ids (c # cs)) = insert n (set (ids cs))" by (simp add: n_def)
  have "entity_step s1 (ActivateAll cs s1)" using Cons.IH by blast
  then have "entity_step s (ActivateAll cs s1)" by (rule entity_step_trans [OF s1(1)])
  moreover have "SEs (ActivateAll cs s1) ! j = (if j \<in> insert n (set (ids cs)) \<and> j < length (SEs s)
      then (SEs s ! j)\<lparr>LocalState := WDGM_LOCAL_STATUS_OK\<rparr> else SEs s ! j)" for j
    using Cons.IH [of s1] s1(2,3) by (cases "j = n") simp_all
  ultimately show ?case unfolding eq ids by blast
qed (simp add: entity_step_def)

lemma reset_reset [simp]: "reset_se (reset_se x) = reset_se x"
  by (simp add: reset_se_def)

lemma activate_reset: "(reset_se x)\<lparr>LocalState := WDGM_LOCAL_STATUS_OK\<rparr> = activate_se (reset_se x)"
  by (simp add: activate_se_def reset_se_def)

lemma Init_ok:
  assumes "\<not> isInitiated s" "config_ok c" "runtime_fits c s" "isInitiated (WdgM_Init E (Some c) s)"
  shows "wdgm_ok (WdgM_Init E (Some c) s)"
proof -
  define m where "m = Modes (ConfigSet c) ! unat (initialModeId (ConfigSet c))"
  define st where "st = (if WDGM_OFF_MODE_ENABLED E then (True, s\<lparr>ConfigPtr := Some c\<rparr>)
     else WdgM_internal_isAtLeastOneWdogEnabled (Mode_Id m) WDGM_SID_INIT WDGM_E_DISABLE_NOT_ALLOWED (s\<lparr>ConfigPtr := Some c\<rparr>))"
  define s0 where "s0 = snd st"
  define s1 where "s1 = DeactivateAll [0..<length (SupervisedEntities (General c))] s0"
  define s2 where "s2 = ActivateAll (SEConfigurations m) s1"
  define s3 where "s3 = WdgM_internal_ResetSEConfigsForMode (unat (Mode_Id m)) s2"
  define s4 where "s4 = (Wdgm_internal_ReportGlobalModeChange (s3\<lparr>GlobalState := WDGM_GLOBAL_STATUS_OK\<rparr>))
    \<lparr>isFirstExpiredSet := False, firstExpiredSEIDInverse := 0, firstExpiredSEID := 0,
     CurrentMode := Some m, ResetInitiated := False\<rparr>"
  define a where "a = WdgM_internal_activateTriggers E m (Dem_SetMode (DemEventIdRefs (ConfigSet c))) s4"
  define r where "r = (if fst st then (if fst a = E_OK then (snd a)\<lparr>isInitiated := True\<rparr> else snd a) else s0)"
  have eq: "WdgM_Init E (Some c) s = r"
    using assms(1) unfolding WdgM_Init_def option.case Let_def case_prod_beta
    by (simp add: r_def a_def s4_def s3_def s2_def s1_def s0_def st_def m_def)
  have s0: "ConfigPtr s0 = Some c" "SEs s0 = SEs s" "rt_Modes s0 = rt_Modes s" "\<not> isInitiated s0"
    using assms(1) by (simp_all add: s0_def st_def WdgM_internal_isAtLeastOneWdogEnabled_def Let_def)
  have len: "length (SEs s0) = length (SupervisedEntities (General c))" using assms(3) s0(2) by (simp add: runtime_fits_def)
  have s1: "entity_step s0 s1" "\<And>j. j < length (SEs s0) \<Longrightarrow> SEs s1 ! j = reset_se (SEs s0 ! j)"
    using DeactivateAll_step [of "[0..<length (SupervisedEntities (General c))]" s0] len by (simp_all add: s1_def)
  have s2: "entity_step s1 s2" "\<And>j. SEs s2 ! j = (if j \<in> set (ids (SEConfigurations m)) \<and> j < length (SEs s1)
      then (SEs s1 ! j)\<lparr>LocalState := WDGM_LOCAL_STATUS_OK\<rparr> else SEs s1 ! j)"
    using ActivateAll_step [of s1 "SEConfigurations m"] by (simp_all add: s2_def)
  note l1 = entity_step_length [OF s1(1)] and l2 = entity_step_length [OF s2(1)]
  have core3: "core s3 = core s0" using s1(1) s2(1) by (simp add: s3_def ResetSEConfigsForMode_step entity_step_def)
  have s4: "SEs s4 = SEs s2" "map mode_shape (rt_Modes s4) = map mode_shape (rt_Modes s)" "ConfigPtr s4 = Some c"
    "CurrentMode s4 = Some m" "GlobalState s4 = WDGM_GLOBAL_STATUS_OK" "\<not> isInitiated s4"
    using core3 s0 by (simp_all add: s4_def s3_def Wdgm_internal_ReportGlobalModeChange_def ResetSEConfigsForMode_step core_def)
  have a: "trigger_step s4 a" unfolding a_def WdgM_internal_activateTriggers_def by (rule activate_loop_step)
  have ret: "fst st" "fst a = E_OK"
    using assms(4) a s4(6) s0(4) core_fields(3) [of "snd a" s4]
    by (auto simp: eq r_def trigger_step_def split: if_splits)
  then have r: "r = (snd a)\<lparr>isInitiated := True\<rparr>" by (simp add: r_def)
  have ent: "mode_entities m s1 r"
    unfolding mode_entities_def
  proof (intro conjI allI impI)
    show "length (SEs r) = length (SEs s1)" using a s4(1) l2 by (simp add: r trigger_step_def)
    fix j assume j: "j < length (SEs s1)"
    then have "SEs s1 ! j = reset_se (SEs s0 ! j)" using s1(2) l1 by simp
    then show "SEs r ! j = (if j \<in> set (ids (SEConfigurations m)) then activate_se (SEs s1 ! j) else reset_se (SEs s1 ! j))"
      using a s4(1) s2(2) [of j] j by (simp add: r trigger_step_def activate_reset)
  qed
  have shape: "map mode_shape (rt_Modes r) = map mode_shape (rt_Modes s)" "ConfigPtr r = Some c" "CurrentMode r = Some m"
    "GlobalState r = WDGM_GLOBAL_STATUS_OK"
    using a s4 ret(2) by (simp_all add: r trigger_step_def core_def)
  have "runtime_fits c r"
    using shape(1) assms(3) ent l1 s0(2) unfolding runtime_fits_def mode_entities_def by simp
  moreover have "m \<in> set (Modes (ConfigSet c))" using assms(2) by (simp add: m_def config_ok_def Let_def)
  ultimately have static: "static_ok r" using shape(2,3) assms(2) unfolding static_ok_def by blast
  have reset: "\<forall>j<length (SEs s1). SEs s1 ! j = reset_se (SEs s1 ! j)" using s1(2) l1 by simp
  then have "WDGM_LOCAL_STATUS_EXPIRED \<notin> set (local_states s1)"
    using entity_state(2) by (auto simp: in_set_conv_nth) (metis WdgM_LocalStatusType.distinct(11))
  then show ?thesis
    unfolding eq using mode_entities_ok [OF ent shape(3) static] reset shape(4) by simp
qed

lemma trigger_zero_calm: "calm_step s (trigger_zero E ws s)"
proof (induction ws arbitrary: s)
  case (Cons w ws)
  have "calm_step s (WdgIf_SetTriggerCondition E (WatchdogDeviceId w) 0 s)"
    by (simp add: WdgIf_SetTriggerCondition_def calm_emit quiet_def)
  then show ?case using Cons.IH by (auto intro: calm_step_trans)
qed simp

lemma reset_flag_ok: "wdgm_ok (s\<lparr>ResetInitiated := b\<rparr>) = wdgm_ok s"
  by (simp add: wdgm_ok_def static_ok_def runtime_fits_def substates_all_def)

lemma PerformReset_step:
  assumes "wdgm_ok s" "isInitiated s"
  shows "wdgm_ok (WdgM_PerformReset E s) \<and> isInitiated (WdgM_PerformReset E s)
    \<and> GlobalState (WdgM_PerformReset E s) = GlobalState s \<and> quiet_ext (wlog s) (wlog (WdgM_PerformReset E s))
    \<and> CurrentMode (WdgM_PerformReset E s) = CurrentMode s \<and> expired_counts (WdgM_PerformReset E s) = expired_counts s"
proof (cases "ResetInitiated s")
  case False
  let ?r = "s\<lparr>ResetInitiated := True\<rparr>"
  let ?z = "trigger_zero E (Watchdogs (General (cfg s))) ?r"
  have z: "calm_step ?r ?z" by (rule trigger_zero_calm)
  then have "core ?z = core ?r" by (simp add: calm_step_def)
  note core_fields [OF this]
  moreover have "wdgm_ok ?z" using calm_ok [OF _ z] assms(1) by (simp add: reset_flag_ok)
  ultimately show ?thesis using z False assms(2) by (simp add: WdgM_PerformReset_def calm_step_def)
qed (use assms in \<open>simp add: WdgM_PerformReset_def\<close>)

lemma DeInit_step:
  assumes "wdgm_ok s" "isInitiated s"
  shows "GlobalState s \<noteq> WDGM_GLOBAL_STATUS_OK \<longrightarrow> WdgM_DeInit E s = s"
    and "isInitiated (WdgM_DeInit E s) \<longrightarrow> wdgm_ok (WdgM_DeInit E s)"
proof -
  show "GlobalState s \<noteq> WDGM_GLOBAL_STATUS_OK \<longrightarrow> WdgM_DeInit E s = s" using assms(2) by (simp add: WdgM_DeInit_def)
  show "isInitiated (WdgM_DeInit E s) \<longrightarrow> wdgm_ok (WdgM_DeInit E s)"
  proof (cases "GlobalState s = WDGM_GLOBAL_STATUS_OK")
    case True
    define s1 where "s1 = Wdgm_internal_ReportGlobalModeChange (s\<lparr>GlobalState := WDGM_GLOBAL_STATUS_DEACTIVATED\<rparr>)"
    define d where "d = WdgM_internal_deactivateCurrentTriggers E 0 s1"
    have s1: "core s1 = core s" "SEs s1 = SEs s" by (simp_all add: s1_def Wdgm_internal_ReportGlobalModeChange_def)
    have d: "trigger_step s1 d" unfolding d_def WdgM_internal_deactivateCurrentTriggers_def by (rule deactivate_loop_step)
    show ?thesis
    proof (cases "fst d = E_OK")
      case ok: True
      then have "\<not> isInitiated (WdgM_DeInit E s)"
        using True assms(2) by (simp add: WdgM_DeInit_def Let_def case_prod_beta d_def s1_def)
      then show ?thesis by simp
    next
      case False
      then have eq: "WdgM_DeInit E s = snd d"
        using True assms(2) by (simp add: WdgM_DeInit_def Let_def case_prod_beta d_def s1_def)
      have "core (snd d) = core s" "SEs (snd d) = SEs s" "GlobalState (snd d) = WDGM_GLOBAL_STATUS_STOPPED"
        using d s1 False by (simp_all add: trigger_step_def)
      note c = core_fields [OF this(1)] and this
      show ?thesis
        using assms(1) c \<open>SEs (snd d) = SEs s\<close> \<open>GlobalState (snd d) = WDGM_GLOBAL_STATUS_STOPPED\<close>
        by (simp add: eq wdgm_ok_def substates_all_def)
    qed
  qed (use assms in \<open>simp add: WdgM_DeInit_def\<close>)
qed

subsection \<open>Sequences of calls\<close>

text \<open>The calls the rest of the system makes; \<open>Os_Runs\<close> is time passing in the operating system.\<close>

datatype wdgm_call = Init "WdgM_ConfigType option" | DeInit | SetMode uint8 | CheckpointReached uint16 uint16
  | PerformReset | MainFunction | GetMode "nat option" | GetLocalStatus uint16 "nat option"
  | GetGlobalStatus "nat option" | GetFirstExpiredSEID "nat option" | Os_Runs Os_State

fun wdgm_exec :: "WdgM_Env \<Rightarrow> wdgm_call \<Rightarrow> WdgM_State \<Rightarrow> WdgM_State option" where
  "wdgm_exec E (Init c) s = Some (WdgM_Init E c s)"
| "wdgm_exec E DeInit s = Some (WdgM_DeInit E s)"
| "wdgm_exec E (SetMode k) s = Some (snd (WdgM_SetMode E k s))"
| "wdgm_exec E (CheckpointReached i p) s = Some (snd (WdgM_CheckpointReached E i p s))"
| "wdgm_exec E PerformReset s = Some (WdgM_PerformReset E s)"
| "wdgm_exec E MainFunction s = Some (WdgM_MainFunction E s)"
| "wdgm_exec E (GetMode p) s = Some (snd (snd (WdgM_GetMode p s)))"
| "wdgm_exec E (GetLocalStatus i p) s = Some (snd (snd (WdgM_GetLocalStatus i p s)))"
| "wdgm_exec E (GetGlobalStatus p) s = Some (snd (snd (WdgM_GetGlobalStatus p s)))"
| "wdgm_exec E (GetFirstExpiredSEID p) s = Some (snd (snd (WdgM_GetFirstExpiredSEID p s)))"
| "wdgm_exec E (Os_Runs o1) s = Some (s\<lparr>os := o1\<rparr>)"

text \<open>Initialisation is called with a consistent configuration that the runtime data was generated for.\<close>

definition wdgm_legal :: "wdgm_call \<Rightarrow> WdgM_State \<Rightarrow> bool" where
  "wdgm_legal call s \<longleftrightarrow> (case call of Init (Some c) \<Rightarrow> config_ok c \<and> runtime_fits c s | _ \<Rightarrow> True)"

lemma getters_calm:
  "calm_step s (snd (snd (WdgM_GetMode p s)))" "calm_step s (snd (snd (WdgM_GetLocalStatus i p s)))"
  "calm_step s (snd (snd (WdgM_GetGlobalStatus p s)))" "calm_step s (snd (snd (WdgM_GetFirstExpiredSEID p s)))"
  by (simp_all add: WdgM_GetMode_def WdgM_GetLocalStatus_def WdgM_GetGlobalStatus_def WdgM_GetFirstExpiredSEID_def Let_def)

text \<open>What any call does in an initialised module.\<close>

definition call_step :: "wdgm_call \<Rightarrow> WdgM_State \<Rightarrow> WdgM_State \<Rightarrow> bool" where
  "call_step call s s' \<longleftrightarrow> (isInitiated s' \<longrightarrow> wdgm_ok s')
     \<and> (GlobalState s = WDGM_GLOBAL_STATUS_STOPPED
          \<longrightarrow> isInitiated s' \<and> GlobalState s' = WDGM_GLOBAL_STATUS_STOPPED \<and> quiet_ext (wlog s) (wlog s'))
     \<and> (GlobalState s = WDGM_GLOBAL_STATUS_EXPIRED \<longrightarrow> isInitiated s' \<and> CurrentMode s' = CurrentMode s
          \<and> (if call = MainFunction \<and> \<not> expired_count s < expired_tol s then GlobalState s' = WDGM_GLOBAL_STATUS_STOPPED
             else GlobalState s' = WDGM_GLOBAL_STATUS_EXPIRED
               \<and> expired_count s' = (if call = MainFunction then Suc (expired_count s) else expired_count s)))"

lemma calm_call:
  assumes "wdgm_ok s" "isInitiated s" "calm_step s s'" "call \<noteq> MainFunction"
  shows "call_step call s s'"
proof -
  have c: "core s' = core s" "expired_counts s' = expired_counts s" "GlobalState s' = GlobalState s" "quiet_ext (wlog s) (wlog s')"
    using assms(3) by (simp_all add: calm_step_def)
  have "static_ok s" using assms(1) by (simp add: wdgm_ok_def)
  note n = cur_rt_count(1) [OF this c(1,2)] and f = core_fields [OF c(1)]
  show ?thesis
    unfolding call_step_def using calm_ok [OF assms(1,3)] c(3,4) n f assms(2,4) by simp
qed

lemma main_call:
  assumes "wdgm_ok s" "isInitiated s"
  shows "call_step MainFunction s (WdgM_MainFunction E s)"
proof -
  have m: "main_step s (WdgM_MainFunction E s)" by (rule MainFunction_step [OF assms])
  then have "core (WdgM_MainFunction E s) = core s" by (simp add: main_step_def)
  note f = core_fields [OF this]
  show ?thesis using m f assms(2) unfolding call_step_def main_step_def
    by (cases "expired_count s < expired_tol s") simp_all
qed

lemma exec_call:
  assumes ok: "wdgm_ok s" "isInitiated s" and ex: "wdgm_exec E call s = Some s'"
  shows "call_step call s s'"
proof (cases call)
  case (Init c)
  then have "s' = det WDGM_SID_INIT (case c of None \<Rightarrow> WDGM_E_INV_POINTER | Some _ \<Rightarrow> WDGM_E_NO_DEINIT) s"
    using ex ok(2) by (cases c) (simp_all add: WdgM_Init_def)
  then show ?thesis using calm_call [OF ok] Init by simp
next
  case DeInit
  then show ?thesis
    using ex ok DeInit_step [OF ok, of E] by (auto simp: call_step_def)
next
  case (SetMode k)
  have s': "s' = snd (WdgM_SetMode E k s)" using ex SetMode by simp
  show ?thesis
  proof (cases "GlobalState s \<in> {WDGM_GLOBAL_STATUS_OK, WDGM_GLOBAL_STATUS_FAILED}")
    case True
    then show ?thesis using SetMode_ok(2) [OF ok, of E k] by (auto simp: call_step_def s')
  next
    case False
    then show ?thesis using calm_call [OF ok SetMode_ok(1) [OF ok False, of E k]] SetMode by (simp add: s')
  qed
next
  case (CheckpointReached i p)
  then show ?thesis using ex calm_call [OF ok CheckpointReached_calm] by auto
next
  case PerformReset
  have s': "s' = WdgM_PerformReset E s" using ex PerformReset by simp
  have st: "static_ok s" using ok(1) by (simp add: wdgm_ok_def)
  note r = PerformReset_step [OF ok, of E]
  have "unat (Mode_Id (cur_mode s)) < length (rt_Modes s)" by (rule cur_mode_facts(3) [OF st])
  moreover have "length (rt_Modes s') = length (rt_Modes s)" using r map_eq_imp_length_eq unfolding s' by blast
  ultimately have "ExpiredSupervisionCycleCounter (cur_rt s') = ExpiredSupervisionCycleCounter (cur_rt s)"
    using r arg_cong [of _ _ "\<lambda>l. l ! unat (Mode_Id (cur_mode s))"] unfolding s' by (metis nth_map)
  then show ?thesis using r PerformReset unfolding s' call_step_def by simp
next
  case MainFunction
  then show ?thesis using ex main_call [OF ok, of E] by simp
qed (use ex calm_call [OF ok] getters_calm in auto)

lemma uninitiated_step:
  assumes "\<not> isInitiated s" "wdgm_exec E call s = Some s'" "isInitiated s'" "wdgm_legal call s"
  shows "wdgm_ok s'"
proof (cases "\<exists>c. call = Init (Some c)")
  case True
  then show ?thesis using Init_ok [OF assms(1)] assms(2-4) by (auto simp: wdgm_legal_def)
next
  case False
  then have "calm_step s s'"
    using assms(1,2) CheckpointReached_calm getters_calm
    by (cases call)
      (auto simp: WdgM_Init_def WdgM_DeInit_def WdgM_SetMode_def WdgM_PerformReset_def WdgM_MainFunction_def split: option.splits)
  then have "isInitiated s' = isInitiated s" unfolding calm_step_def by (blast dest: core_fields(3))
  then show ?thesis using assms(1,3) by simp
qed

lemma wdgm_exec_total: "\<exists>s'. wdgm_exec E call s = Some s'"
  by (cases call) simp_all

interpretation wdgm: safe_steps wdgm_legal "wdgm_exec E" wdgm_inv for E
proof
  fix s call
  assume inv: "wdgm_inv s" and legal: "wdgm_legal call s"
  obtain s' where s': "wdgm_exec E call s = Some s'" using wdgm_exec_total by blast
  have "wdgm_inv s'"
  proof (cases "isInitiated s")
    case True
    then have "wdgm_ok s" using inv by (simp add: wdgm_inv_def)
    from exec_call [OF this True s'] show ?thesis by (simp add: call_step_def wdgm_inv_def)
  next
    case False
    then show ?thesis using uninitiated_step [OF False s' _ legal] by (simp add: wdgm_inv_def)
  qed
  then show "\<exists>s'. wdgm_exec E call s = Some s' \<and> wdgm_inv s'" using s' by blast
qed

text \<open>The module has been stopped, and since its log was \<open>l\<close> it has triggered no watchdog.\<close>

definition stopped_since :: "WdgM_Event list \<Rightarrow> WdgM_State \<Rightarrow> bool" where
  "stopped_since l s \<longleftrightarrow> isInitiated s \<and> wdgm_ok s \<and> GlobalState s = WDGM_GLOBAL_STATUS_STOPPED \<and> quiet_ext l (wlog s)"

interpretation halted: safe_steps wdgm_legal "wdgm_exec E" "stopped_since l" for E l
proof
  fix s call
  assume st: "stopped_since l s"
  obtain s' where s': "wdgm_exec E call s = Some s'" using wdgm_exec_total by blast
  have "call_step call s s'" using st s' by (intro exec_call) (auto simp: stopped_since_def)
  then have "stopped_since l s'"
    using st by (auto simp: call_step_def stopped_since_def intro: quiet_ext_trans)
  then show "\<exists>s'. wdgm_exec E call s = Some s' \<and> stopped_since l s'" using s' by blast
qed

abbreviation wdgm_reach :: "WdgM_Env \<Rightarrow> WdgM_State \<Rightarrow> WdgM_State \<Rightarrow> bool" where
  "wdgm_reach E \<equiv> reach wdgm_legal (wdgm_exec E)"

text \<open>
  C14. In every state an uninitialised watchdog manager can be brought to by any sequence of calls,
  interleaved with anything the operating system does, the module is consistent once initialised:
  the runtime data has the dimensions of the configuration, the current mode belongs to it, every
  substate is CORRECT or INCORRECT, exactly the entities outside the current mode are deactivated, no
  entity is expired while the global state is OK or FAILED, and one is when it is EXPIRED.
\<close>

theorem wdgm_always_consistent:
  assumes "\<not> isInitiated s0" "wdgm_reach E s0 s" "isInitiated s"
  shows "(\<exists>c m. ConfigPtr s = Some c \<and> CurrentMode s = Some m \<and> config_ok c \<and> m \<in> set (Modes (ConfigSet c)) \<and> runtime_fits c s)
    \<and> (\<forall>x\<in>set (SEs s). {SubstateAlive x, SubstateDeadline x, SubstateLogical x} \<subseteq> {WDGM_SUBSTATE_CORRECT, WDGM_SUBSTATE_INCORRECT})
    \<and> (\<forall>j<length (SEs s). LocalState (SEs s ! j) = WDGM_LOCAL_STATUS_DEACTIVATED
         \<longleftrightarrow> j \<notin> set (ids (SEConfigurations (cur_mode s))))
    \<and> (GlobalState s \<in> {WDGM_GLOBAL_STATUS_OK, WDGM_GLOBAL_STATUS_FAILED} \<longrightarrow> WDGM_LOCAL_STATUS_EXPIRED \<notin> set (local_states s))
    \<and> (GlobalState s = WDGM_GLOBAL_STATUS_EXPIRED \<longrightarrow> WDGM_LOCAL_STATUS_EXPIRED \<in> set (local_states s))"
proof -
  have "wdgm_ok s" using wdgm.reach_inv [OF assms(2)] assms(1,3) by (simp add: wdgm_inv_def)
  then show ?thesis
    by (auto simp: wdgm_ok_def static_ok_def substates_all_def list_all_iff substates_ok_def substate_defs)
qed


primrec wdgm_run :: "WdgM_Env \<Rightarrow> wdgm_call list \<Rightarrow> WdgM_State \<Rightarrow> WdgM_State option" where
  "wdgm_run E [] s = Some s"
| "wdgm_run E (c # cs) s = Option.bind (wdgm_exec E c s) (wdgm_run E cs)"

lemma run_stopped:
  "isInitiated s \<Longrightarrow> wdgm_ok s \<Longrightarrow> GlobalState s = WDGM_GLOBAL_STATUS_STOPPED
    \<Longrightarrow> \<exists>s'. wdgm_run E cs s = Some s' \<and> GlobalState s' = WDGM_GLOBAL_STATUS_STOPPED"
proof (induction cs arbitrary: s)
  case (Cons c cs)
  obtain s' where s': "wdgm_exec E c s = Some s'" using wdgm_exec_total by blast
  have "call_step c s s'" using exec_call [OF Cons.prems(2,1) s'] .
  then have "isInitiated s'" "wdgm_ok s'" "GlobalState s' = WDGM_GLOBAL_STATUS_STOPPED"
    using Cons.prems(3) by (simp_all add: call_step_def)
  from Cons.IH [OF this] show ?case using s' by simp
qed simp

text \<open>
  C6. An expired system is stopped in time: from a reachable state with global state EXPIRED, every
  sequence of calls that contains more main function calls than the tolerated expired supervision
  cycles that are left ends in global state STOPPED, whatever else is called in between.
\<close>

theorem wdgm_expired_stops:
  assumes "\<not> isInitiated s0" "wdgm_reach E s0 s" "isInitiated s" "GlobalState s = WDGM_GLOBAL_STATUS_EXPIRED"
    and "unat (ExpiredSupervisionCycleTol (cur_mode s)) - unat (ExpiredSupervisionCycleCounter (cur_rt s))
      < length (filter (\<lambda>c. c = MainFunction) cs)"
  shows "\<exists>s'. wdgm_run E cs s = Some s' \<and> GlobalState s' = WDGM_GLOBAL_STATUS_STOPPED"
proof -
  have "wdgm_ok s" using wdgm.reach_inv [OF assms(2)] assms(1,3) by (simp add: wdgm_inv_def)
  then show ?thesis using assms(3-5)
  proof (induction cs arbitrary: s)
    case (Cons c cs)
    obtain s' where s': "wdgm_exec E c s = Some s'" using wdgm_exec_total by blast
    have st: "call_step c s s'" using exec_call [OF Cons.prems(1,2) s'] .
    then have 1: "isInitiated s'" "wdgm_ok s'" "CurrentMode s' = CurrentMode s" using Cons.prems(3) by (simp_all add: call_step_def)
    show ?case
    proof (cases "c = MainFunction \<and> \<not> expired_count s < expired_tol s")
      case True
      then have "GlobalState s' = WDGM_GLOBAL_STATUS_STOPPED" using st Cons.prems(3) by (simp add: call_step_def)
      from run_stopped [OF 1(1,2) this] show ?thesis using s' by simp
    next
      case False
      have g: "GlobalState s' = WDGM_GLOBAL_STATUS_EXPIRED"
        "expired_count s' = (if c = MainFunction then Suc (expired_count s) else expired_count s)"
        using st Cons.prems(3) unfolding call_step_def if_not_P [OF False] by blast+
      have "expired_tol s' - expired_count s' < length (filter (\<lambda>c. c = MainFunction) cs)"
        using Cons.prems(4) False g(2) 1(3) by (cases "c = MainFunction") simp_all
      from Cons.IH [OF 1(2,1) g(1) this] show ?thesis using s' by simp
    qed
  qed simp
qed

subsection \<open>A small system\<close>

definition demo_mode :: "uint8 \<Rightarrow> WdgM_SupervisedEntityConfiguration list \<Rightarrow> WdgM_Mode" where
  "demo_mode k cs = \<lparr>Mode_Id = k, ExpiredSupervisionCycleTol = 2, SEConfigurations = cs,
     Triggers = [\<lparr>TriggerConditionValue = 100, WatchdogMode = WDGIF_SLOW_MODE, Trigger_WatchdogId = 0\<rparr>]\<rparr>"

definition demo_cfg :: WdgM_ConfigType where
  "demo_cfg = \<lparr>
     General = \<lparr>SupervisedEntities = [demo_se, demo_se], Watchdogs = [\<lparr>WatchdogId = 0, WatchdogDeviceId = 1\<rparr>]\<rparr>,
     ConfigSet = \<lparr>DemEventIdRefs = \<lparr>Dem_Supervision = 7, Dem_SetMode = 8\<rparr>, initialModeId = 0,
       Modes = [demo_mode 0 [demo_conf 0], demo_mode 1 [(demo_conf 0)\<lparr>SupervisedEntityId := 0\<rparr>]]\<rparr>\<rparr>"

definition demo_w0 :: WdgM_State where
  "demo_w0 = \<lparr>ConfigPtr = None, SEs = [demo_rt, demo_rt],
     rt_Modes = [\<lparr>SE_Configs = [demo_rtconf], ExpiredSupervisionCycleCounter = 0\<rparr>,
       \<lparr>SE_Configs = [demo_rtconf], ExpiredSupervisionCycleCounter = 0\<rparr>],
     isInitiated = False, GlobalState = WDGM_GLOBAL_STATUS_DEACTIVATED, CurrentMode = None, ResetInitiated = False,
     isFirstExpiredSet = False, firstExpiredSEID = 0, firstExpiredSEIDInverse = 0, wlog = [], os = demo_t\<rparr>"

definition demo_w1 :: WdgM_State where
  "demo_w1 = WdgM_Init demo_env (Some demo_cfg) demo_w0"

definition demo_w2 :: WdgM_State where
  "demo_w2 = WdgM_MainFunction demo_env (WdgM_MainFunction demo_env (WdgM_MainFunction demo_env demo_w1))"

definition demo_w3 :: WdgM_State where
  "demo_w3 = WdgM_MainFunction demo_env (WdgM_MainFunction demo_env (WdgM_MainFunction demo_env demo_w2))"

lemma demo_cfg_ok: "config_ok demo_cfg" "runtime_fits demo_cfg demo_w0"
  by (auto simp: config_ok_def demo_cfg_def demo_mode_def demo_conf_def runtime_fits_def demo_w0_def mode_shape_def
      conf_shape_def demo_rtconf_def less_Suc_eq numeral_2_eq_2 Let_def demo_alive_def)

text \<open>The reachable states of the small system in explicit form.\<close>

definition demo_at :: "WdgM_LocalStatusType \<Rightarrow> WdgM_Substate \<Rightarrow> uint8 \<Rightarrow> WdgM_runtime_SupervisedEntityConfig
    \<Rightarrow> WdgM_GlobalStatusType \<Rightarrow> uint16 \<Rightarrow> bool \<Rightarrow> uint16 \<Rightarrow> WdgM_Event list \<Rightarrow> WdgM_State" where
  "demo_at l sa n rc g e x inv16 lg = \<lparr>ConfigPtr = Some demo_cfg,
     SEs = [demo_rt\<lparr>LocalState := WDGM_LOCAL_STATUS_DEACTIVATED\<rparr>,
       demo_rt\<lparr>LocalState := l, SubstateAlive := sa, FailedAliveCyclesCounter := n\<rparr>],
     rt_Modes = [\<lparr>SE_Configs = [rc], ExpiredSupervisionCycleCounter = e\<rparr>,
       \<lparr>SE_Configs = [demo_rtconf], ExpiredSupervisionCycleCounter = 0\<rparr>],
     isInitiated = True, GlobalState = g, CurrentMode = Some (demo_mode 0 [demo_conf 0]), ResetInitiated = False,
     isFirstExpiredSet = x, firstExpiredSEID = 0, firstExpiredSEIDInverse = inv16, wlog = lg, os = demo_t\<rparr>"

definition demo_rc :: "uint16 \<Rightarrow> bool \<Rightarrow> WdgM_runtime_SupervisedEntityConfig" where
  "demo_rc k ev = \<lparr>rt_AliveSupervisions = [\<lparr>AliveCounter = 0, SupervisionCycleCounter = k, wasEvaluated = ev\<rparr>],
     rt_DeadlineSupervisions = [\<lparr>LastTickValue = 0\<rparr>]\<rparr>"

lemmas demo_wdgm_simps = demo_at_def demo_rc_def demo_rt_def demo_rtconf_def demo_cfg_def demo_mode_def demo_conf_def demo_alive_def
  demo_env_def substate_defs

lemmas wdgm_eval = Let_def emit_def det_def upd_SE_def upd_rtMode_def upd_rtConf_def WdgIf_SetMode_def WdgIf_SetTriggerCondition_def
  WdgM_Internal_ReportLocalModeChange_def Wdgm_internal_ReportGlobalModeChange_def WDGM_REPORT_DEM_ERROR_def
  WdgM_internal_DeactivateAndResetSE_def reset_SEConfig_def WdgM_internal_ResetSEConfigsForMode_def
  WdgM_internal_isAtLeastOneWdogEnabled_def DeviceIndex_def WdgM_internal_activateTriggers_def
  WdgM_internal_SpecAliveAlgo_def WdgM_internal_IsAliveHold_def WdgM_internal_CheckAlives_def
  WdgM_internal_CalculateGlobalState_def expired_tolerated_def
  WdgM_internal_CalculateLocalState_def WdgM_internal_CalculateLocalState_FromOKOneError_def
  WdgM_internal_updateFromGlobalOK_def WdgM_internal_updateFromGlobalEXPIRED_def

lemma demo_w1_eval: "demo_w1 = demo_at WDGM_LOCAL_STATUS_OK 1 0 (demo_rc 0 True) WDGM_GLOBAL_STATUS_OK 0 False 0 (wlog demo_w1)"
  by (simp add: demo_w1_def WdgM_Init_def wdgm_eval demo_w0_def demo_wdgm_simps numeral_2_eq_2)

lemma demo_main:
  "\<exists>l. WdgM_MainFunction demo_env (demo_at WDGM_LOCAL_STATUS_OK 1 0 (demo_rc 0 ev) WDGM_GLOBAL_STATUS_OK 0 False 0 lg)
    = demo_at WDGM_LOCAL_STATUS_OK 1 0 (demo_rc 1 False) WDGM_GLOBAL_STATUS_OK 0 False 0 l"
  "\<exists>l. WdgM_MainFunction demo_env (demo_at WDGM_LOCAL_STATUS_OK 1 0 (demo_rc 1 ev) WDGM_GLOBAL_STATUS_OK 0 False 0 lg)
    = demo_at WDGM_LOCAL_STATUS_OK 1 0 (demo_rc 2 False) WDGM_GLOBAL_STATUS_OK 0 False 0 l"
  "\<exists>l. WdgM_MainFunction demo_env (demo_at WDGM_LOCAL_STATUS_OK 1 0 (demo_rc 2 ev) WDGM_GLOBAL_STATUS_OK 0 False 0 lg)
    = demo_at WDGM_LOCAL_STATUS_EXPIRED 0 1 (demo_rc 0 True) WDGM_GLOBAL_STATUS_EXPIRED 0 True (NOT 0) l"
  by (simp_all add: WdgM_MainFunction_def wdgm_eval demo_wdgm_simps)

lemma demo_main_expired:
  "\<exists>l. WdgM_MainFunction demo_env (demo_at WDGM_LOCAL_STATUS_EXPIRED 0 1 (demo_rc 0 ev) WDGM_GLOBAL_STATUS_EXPIRED 0 True (NOT 0) lg)
    = demo_at WDGM_LOCAL_STATUS_EXPIRED 0 1 (demo_rc 1 False) WDGM_GLOBAL_STATUS_EXPIRED 1 True (NOT 0) l"
  "\<exists>l. WdgM_MainFunction demo_env (demo_at WDGM_LOCAL_STATUS_EXPIRED 0 1 (demo_rc 1 ev) WDGM_GLOBAL_STATUS_EXPIRED 1 True (NOT 0) lg)
    = demo_at WDGM_LOCAL_STATUS_EXPIRED 0 1 (demo_rc 2 False) WDGM_GLOBAL_STATUS_EXPIRED 2 True (NOT 0) l"
  "\<exists>l. WdgM_MainFunction demo_env (demo_at WDGM_LOCAL_STATUS_EXPIRED 0 1 (demo_rc 2 ev) WDGM_GLOBAL_STATUS_EXPIRED 2 True (NOT 0) lg)
    = demo_at WDGM_LOCAL_STATUS_EXPIRED 0 1 (demo_rc 0 True) WDGM_GLOBAL_STATUS_STOPPED 2 True (NOT 0) l"
  by (simp_all add: WdgM_MainFunction_def wdgm_eval demo_wdgm_simps)

lemma demo_w2_eval:
  "\<exists>l. demo_w2 = demo_at WDGM_LOCAL_STATUS_EXPIRED 0 1 (demo_rc 0 True) WDGM_GLOBAL_STATUS_EXPIRED 0 True (NOT 0) l"
  unfolding demo_w2_def using demo_main demo_w1_eval by metis

lemma demo_w3_eval:
  "\<exists>l. demo_w3 = demo_at WDGM_LOCAL_STATUS_EXPIRED 0 1 (demo_rc 0 True) WDGM_GLOBAL_STATUS_STOPPED 2 True (NOT 0) l"
  unfolding demo_w3_def using demo_main_expired demo_w2_eval by metis

lemma demo_w2_facts:
  "isInitiated demo_w2" "GlobalState demo_w2 = WDGM_GLOBAL_STATUS_EXPIRED" "cur_mode demo_w2 = demo_mode 0 [demo_conf 0]"
  "ExpiredSupervisionCycleCounter (rt_Modes demo_w2 ! 0) = 0"
  "local_states demo_w2 = [WDGM_LOCAL_STATUS_DEACTIVATED, WDGM_LOCAL_STATUS_EXPIRED]"
  "firstExpiredSEID demo_w2 = 0" "firstExpiredSEIDInverse demo_w2 = NOT 0"
proof -
  obtain l where l: "demo_w2 = demo_at WDGM_LOCAL_STATUS_EXPIRED 0 1 (demo_rc 0 True) WDGM_GLOBAL_STATUS_EXPIRED 0 True (NOT 0) l"
    using demo_w2_eval by blast
  show "isInitiated demo_w2" "GlobalState demo_w2 = WDGM_GLOBAL_STATUS_EXPIRED" "cur_mode demo_w2 = demo_mode 0 [demo_conf 0]"
    "ExpiredSupervisionCycleCounter (rt_Modes demo_w2 ! 0) = 0"
    "local_states demo_w2 = [WDGM_LOCAL_STATUS_DEACTIVATED, WDGM_LOCAL_STATUS_EXPIRED]"
    "firstExpiredSEID demo_w2 = 0" "firstExpiredSEIDInverse demo_w2 = NOT 0"
    by (simp_all add: l) (simp_all add: demo_at_def demo_rt_def)
qed

lemma demo_w3_facts: "isInitiated demo_w3" "GlobalState demo_w3 = WDGM_GLOBAL_STATUS_STOPPED"
proof -
  obtain l where l: "demo_w3 = demo_at WDGM_LOCAL_STATUS_EXPIRED 0 1 (demo_rc 0 True) WDGM_GLOBAL_STATUS_STOPPED 2 True (NOT 0) l"
    using demo_w3_eval by blast
  show "isInitiated demo_w3" "GlobalState demo_w3 = WDGM_GLOBAL_STATUS_STOPPED" by (simp_all add: l) (simp_all add: demo_at_def)
qed

lemma main_reach: "wdgm_reach E s0 s \<Longrightarrow> wdgm_reach E s0 (WdgM_MainFunction E s)"
  by (rule reach.step [of _ _ _ _ MainFunction]) (simp_all add: wdgm_legal_def)

lemma demo_reach: "wdgm_reach demo_env demo_w0 demo_w1" "wdgm_reach demo_env demo_w0 demo_w2" "wdgm_reach demo_env demo_w0 demo_w3"
proof -
  show 1: "wdgm_reach demo_env demo_w0 demo_w1"
    using reach.step [OF reach.start, of wdgm_legal "Init (Some demo_cfg)" demo_w0 "wdgm_exec demo_env" demo_w1] demo_cfg_ok
    by (simp add: wdgm_legal_def demo_w1_def)
  show 2: "wdgm_reach demo_env demo_w0 demo_w2" unfolding demo_w2_def by (intro main_reach 1)
  show "wdgm_reach demo_env demo_w0 demo_w3" unfolding demo_w3_def by (intro main_reach 2)
qed

lemma demo_w0_uninit: "\<not> isInitiated demo_w0"
  by (simp add: demo_w0_def)

theorem wdgm_always_consistent_witness:
  "isInitiated demo_w2 \<and> GlobalState demo_w2 = WDGM_GLOBAL_STATUS_EXPIRED \<and> WDGM_LOCAL_STATUS_EXPIRED \<in> set (local_states demo_w2)"
  using wdgm_always_consistent [OF demo_w0_uninit demo_reach(2) demo_w2_facts(1)] demo_w2_facts(1,2) by blast


theorem wdgm_expired_stops_witness:
  "\<exists>s'. wdgm_run demo_env [MainFunction, CheckpointReached 1 0, MainFunction, SetMode 1, MainFunction] demo_w2 = Some s'
    \<and> GlobalState s' = WDGM_GLOBAL_STATUS_STOPPED"
proof (rule wdgm_expired_stops [OF demo_w0_uninit demo_reach(2) demo_w2_facts(1,2)])
  show "unat (ExpiredSupervisionCycleTol (cur_mode demo_w2)) - unat (ExpiredSupervisionCycleCounter (cur_rt demo_w2))
      < length (filter (\<lambda>c. c = MainFunction) [MainFunction, CheckpointReached 1 0, MainFunction, SetMode 1, MainFunction])"
    by (simp add: demo_w2_facts demo_mode_def)
qed

text \<open>
  C19. A change of mode in global state OK or FAILED leaves exactly the entities of the new mode
  active: those already active keep their supervision data, those newly activated start in state OK
  with reset data, and all others are deactivated and reset; the new mode is current even if a
  watchdog refuses its new mode, in which case the module is stopped.
\<close>

theorem SetMode_switches_entities:
  assumes "\<not> isInitiated s0" "wdgm_reach E s0 s" "isInitiated s"
    and "GlobalState s \<in> {WDGM_GLOBAL_STATUS_OK, WDGM_GLOBAL_STATUS_FAILED}"
    and "unat k < length (Modes (ConfigSet (cfg s)))" "mode_allowed E k s" "WdgM_SetMode E k s = (rv, s')"
  shows "CurrentMode s' = Some (Modes (ConfigSet (cfg s)) ! unat k)
    \<and> GlobalState s' = (if rv = E_OK then GlobalState s else WDGM_GLOBAL_STATUS_STOPPED)
    \<and> length (SEs s') = length (SEs s)
    \<and> (\<forall>j<length (SEs s). SEs s' ! j =
         (if j \<in> set (ids (SEConfigurations (Modes (ConfigSet (cfg s)) ! unat k)))
          then activate_se (SEs s ! j) else reset_se (SEs s ! j)))"
proof -
  have "wdgm_ok s" using wdgm.reach_inv [OF assms(2)] assms(1,3) by (simp add: wdgm_inv_def)
  then have "static_ok s" by (simp add: wdgm_ok_def)
  from SetMode_changes [OF this assms(3,5,6,4,7)] show ?thesis by (simp add: mode_entities_def)
qed

theorem SetMode_switches_entities_witness:
  "local_states demo_w1 = [WDGM_LOCAL_STATUS_DEACTIVATED, WDGM_LOCAL_STATUS_OK]
   \<and> LocalState (SEs (snd (WdgM_SetMode demo_env 1 demo_w1)) ! 0) = WDGM_LOCAL_STATUS_OK
   \<and> LocalState (SEs (snd (WdgM_SetMode demo_env 1 demo_w1)) ! 1) = WDGM_LOCAL_STATUS_DEACTIVATED"
proof -
  have w1: "isInitiated demo_w1" "GlobalState demo_w1 = WDGM_GLOBAL_STATUS_OK" "ConfigPtr demo_w1 = Some demo_cfg"
    "SEs demo_w1 = [demo_rt\<lparr>LocalState := WDGM_LOCAL_STATUS_DEACTIVATED\<rparr>, demo_rt]"
    by (subst demo_w1_eval, simp add: demo_at_def demo_rt_def)+
  have m: "Modes (ConfigSet (cfg demo_w1)) = [demo_mode 0 [demo_conf 0], demo_mode 1 [(demo_conf 0)\<lparr>SupervisedEntityId := 0\<rparr>]]"
    using w1(3) by (simp add: demo_cfg_def)
  have al: "mode_allowed demo_env 1 demo_w1" by (simp add: mode_allowed_def m) (simp add: demo_mode_def)
  have g: "GlobalState demo_w1 \<in> {WDGM_GLOBAL_STATUS_OK, WDGM_GLOBAL_STATUS_FAILED}"
    "unat (1 :: uint8) < length (Modes (ConfigSet (cfg demo_w1)))" using w1(2) m by simp_all
  have "WdgM_SetMode demo_env 1 demo_w1 = (fst (WdgM_SetMode demo_env 1 demo_w1), snd (WdgM_SetMode demo_env 1 demo_w1))"
    by simp
  from SetMode_switches_entities [OF demo_w0_uninit demo_reach(1) w1(1) g al this]
  have "\<forall>j<length (SEs demo_w1). SEs (snd (WdgM_SetMode demo_env 1 demo_w1)) ! j =
      (if j \<in> set (ids (SEConfigurations (Modes (ConfigSet (cfg demo_w1)) ! unat (1 :: uint8))))
       then activate_se (SEs demo_w1 ! j) else reset_se (SEs demo_w1 ! j))" by blast
  then show ?thesis unfolding m by (simp add: w1(4) demo_mode_def activate_se_def reset_se_def demo_rt_def)
qed

text \<open>
  \<open>WdgM_GetFirstExpiredSEID\<close> reports the position of the expired entity in the current mode
  instead of its identifier: in a mode that supervises only entity 1, the expiry of entity 1 is
  reported as that of entity 0, which is not supervised at all.
\<close>

theorem first_expired_is_position:
  "fst (WdgM_GetFirstExpiredSEID (Some 0) demo_w2) = E_OK
   \<and> fst (snd (WdgM_GetFirstExpiredSEID (Some 0) demo_w2)) = Some 0
   \<and> local_states demo_w2 = [WDGM_LOCAL_STATUS_DEACTIVATED, WDGM_LOCAL_STATUS_EXPIRED]"
  by (simp add: WdgM_GetFirstExpiredSEID_def Let_def demo_w2_facts del: list.map)

end
