(* ===== verification/E2E_SM.thy ===== *)
theory E2E_SM
  imports Prelude
begin

unbundle bit_operations_syntax

text \<open>
  The end-to-end protection library, safety\_security/SafeLib/E2E: the return codes of
  inc/E2E.h and the state machine of src/E2E\_SM.c, which every receiver cycle feeds with the
  status the profile reported and which decides from a window of the last statuses whether the
  received data may be used.

  The window is an array the caller provides: \<open>None\<close> is a NULL pointer, the list holds the
  elements of the array. An operation that would access the array outside its bounds, or a NULL
  array, has no result (\<open>None\<close>).
\<close>

subsection \<open>Types\<close>

datatype E2E_ReturnType = E2E_E_OK | E2E_E_INPUTERR_NULL | E2E_E_INPUTERR_WRONG | E2E_E_INTERR
  | E2E_E_WRONGSTATE

datatype E2E_PCheckStatusType = E2E_P_OK | E2E_P_REPEATED | E2E_P_WRONGSEQUENCE | E2E_P_ERROR
  | E2E_P_NOTAVAILABLE | E2E_P_NONEWDATA

text \<open>The value of an enumerator, stored as a byte in the window.\<close>

primrec PStatus_code :: "E2E_PCheckStatusType \<Rightarrow> uint8" where
  "PStatus_code E2E_P_OK = 0x00"
| "PStatus_code E2E_P_REPEATED = 0x01"
| "PStatus_code E2E_P_WRONGSEQUENCE = 0x02"
| "PStatus_code E2E_P_ERROR = 0x03"
| "PStatus_code E2E_P_NOTAVAILABLE = 0x04"
| "PStatus_code E2E_P_NONEWDATA = 0x05"

datatype E2E_SMStateType = E2E_SM_VALID | E2E_SM_DEINIT | E2E_SM_NODATA | E2E_SM_INIT | E2E_SM_INVALID

record E2E_SMConfigType =
  WindowSize :: uint8
  MinOkStateInit :: uint8
  MaxErrorStateInit :: uint8
  MinOkStateValid :: uint8
  MaxErrorStateValid :: uint8
  MinOkStateInvalid :: uint8
  MaxErrorStateInvalid :: uint8

record E2E_SMCheckStateType =
  ProfileStatusWindow :: "uint8 list option"
  WindowTopIndex :: uint8
  OkCount :: uint8
  ErrorCount :: uint8
  SMState :: E2E_SMStateType

subsection \<open>Accesses to the window\<close>

definition write_window :: "nat \<Rightarrow> uint8 \<Rightarrow> uint8 list option \<Rightarrow> uint8 list option option" where
  "write_window i v w =
     (case w of None \<Rightarrow> None | Some a \<Rightarrow> if i < length a then Some (Some (a[i := v])) else None)"

definition read_window :: "nat \<Rightarrow> uint8 list option \<Rightarrow> uint8 option" where
  "read_window i w = (case w of None \<Rightarrow> None | Some a \<Rightarrow> if i < length a then Some (a ! i) else None)"

subsection \<open>Operations\<close>

primrec ClearStatus_loop :: "uint8 list option \<Rightarrow> nat \<Rightarrow> uint8 list option option" where
  "ClearStatus_loop w 0 = Some w"
| "ClearStatus_loop w (Suc i) =
     (case ClearStatus_loop w i of None \<Rightarrow> None
      | Some w \<Rightarrow> write_window i (PStatus_code E2E_P_NOTAVAILABLE) w)"

definition E2E_SMClearStatus :: "E2E_SMCheckStateType \<Rightarrow> uint8 \<Rightarrow> E2E_SMCheckStateType option" where
  "E2E_SMClearStatus st windowSize =
     (case ClearStatus_loop (ProfileStatusWindow st) (unat windowSize) of None \<Rightarrow> None
      | Some w \<Rightarrow> Some (st\<lparr>ProfileStatusWindow := w, OkCount := 0, ErrorCount := 0, WindowTopIndex := 0\<rparr>))"

text \<open>The two counting loops, for the status \<open>p\<close>.\<close>

primrec count_loop :: "E2E_PCheckStatusType \<Rightarrow> uint8 list option \<Rightarrow> nat \<Rightarrow> uint8 option" where
  "count_loop p w 0 = Some 0"
| "count_loop p w (Suc i) =
     (case count_loop p w i of None \<Rightarrow> None
      | Some count \<Rightarrow>
          (case read_window i w of None \<Rightarrow> None
           | Some v \<Rightarrow> Some (if v = PStatus_code p then count + 1 else count)))"

definition E2E_SMAddStatus :: "E2E_PCheckStatusType \<Rightarrow> E2E_SMCheckStateType \<Rightarrow> uint8
    \<Rightarrow> E2E_SMCheckStateType option" where
  "E2E_SMAddStatus ProfileStatus st windowSize =
     (case write_window (unat (WindowTopIndex st)) (PStatus_code ProfileStatus) (ProfileStatusWindow st) of
        None \<Rightarrow> None
      | Some w \<Rightarrow>
          (case (count_loop E2E_P_OK w (unat windowSize), count_loop E2E_P_ERROR w (unat windowSize)) of
             (Some ok, Some err) \<Rightarrow>
               (let st = st\<lparr>ProfileStatusWindow := w, OkCount := ok, ErrorCount := err\<rparr>
                in Some (if int (unat (WindowTopIndex st)) \<ge> int (unat windowSize) - 1
                         then st\<lparr>WindowTopIndex := 0\<rparr>
                         else st\<lparr>WindowTopIndex := WindowTopIndex st + 1\<rparr>))
           | _ \<Rightarrow> None))"

definition E2E_SMCheck_NODATA :: "E2E_PCheckStatusType \<Rightarrow> E2E_SMCheckStateType \<Rightarrow> E2E_SMCheckStateType" where
  "E2E_SMCheck_NODATA ProfileStatus st =
     (if ProfileStatus \<noteq> E2E_P_ERROR \<and> ProfileStatus \<noteq> E2E_P_NONEWDATA
      then st\<lparr>SMState := E2E_SM_INIT\<rparr> else st\<lparr>SMState := E2E_SM_NODATA\<rparr>)"

definition E2E_SMCheck_INIT :: "E2E_SMConfigType \<Rightarrow> E2E_SMCheckStateType \<Rightarrow> E2E_SMCheckStateType" where
  "E2E_SMCheck_INIT cfg st =
     (if ErrorCount st \<le> MaxErrorStateInit cfg \<and> OkCount st \<ge> MinOkStateInit cfg
      then st\<lparr>SMState := E2E_SM_VALID\<rparr>
      else if ErrorCount st > MaxErrorStateInit cfg then st\<lparr>SMState := E2E_SM_INVALID\<rparr>
      else st\<lparr>SMState := E2E_SM_INIT\<rparr>)"

definition E2E_SMCheck_VALID :: "E2E_SMConfigType \<Rightarrow> E2E_SMCheckStateType \<Rightarrow> E2E_SMCheckStateType" where
  "E2E_SMCheck_VALID cfg st =
     (if ErrorCount st \<le> MaxErrorStateValid cfg \<and> OkCount st \<ge> MinOkStateValid cfg
      then st\<lparr>SMState := E2E_SM_VALID\<rparr> else st\<lparr>SMState := E2E_SM_INVALID\<rparr>)"

definition E2E_SMCheck_INVALID :: "E2E_SMConfigType \<Rightarrow> E2E_SMCheckStateType \<Rightarrow> E2E_SMCheckStateType" where
  "E2E_SMCheck_INVALID cfg st =
     (if ErrorCount st \<le> MaxErrorStateInvalid cfg \<and> OkCount st \<ge> MinOkStateInvalid cfg
      then st\<lparr>SMState := E2E_SM_VALID\<rparr> else st\<lparr>SMState := E2E_SM_INVALID\<rparr>)"

definition E2E_SMCheck :: "E2E_PCheckStatusType \<Rightarrow> E2E_SMConfigType option \<Rightarrow> E2E_SMCheckStateType option
    \<Rightarrow> (E2E_ReturnType \<times> E2E_SMCheckStateType option) option" where
  "E2E_SMCheck ProfileStatus ConfigPtr StatePtr =
     (case (StatePtr, ConfigPtr) of
        (Some st, Some cfg) \<Rightarrow>
          (if ProfileStatusWindow st = None \<and> WindowSize cfg > 0 then Some (E2E_E_INPUTERR_WRONG, StatePtr)
           else if SMState st = E2E_SM_DEINIT then Some (E2E_E_WRONGSTATE, StatePtr)
           else if SMState st = E2E_SM_NODATA then Some (E2E_E_OK, Some (E2E_SMCheck_NODATA ProfileStatus st))
           else
             (case E2E_SMAddStatus ProfileStatus st (WindowSize cfg) of None \<Rightarrow> None
              | Some st' \<Rightarrow>
                  Some (E2E_E_OK,
                        Some (if SMState st = E2E_SM_INIT then E2E_SMCheck_INIT cfg st'
                              else if SMState st = E2E_SM_VALID then E2E_SMCheck_VALID cfg st'
                              else E2E_SMCheck_INVALID cfg st'))))
      | _ \<Rightarrow> Some (E2E_E_INPUTERR_NULL, StatePtr))"

definition E2E_SMCheckInit :: "E2E_SMCheckStateType option \<Rightarrow> E2E_SMConfigType option
    \<Rightarrow> (E2E_ReturnType \<times> E2E_SMCheckStateType option) option" where
  "E2E_SMCheckInit StatePtr ConfigPtr =
     (case (StatePtr, ConfigPtr) of
        (Some st, Some cfg) \<Rightarrow>
          (if ProfileStatusWindow st = None \<and> WindowSize cfg > 0 then Some (E2E_E_INPUTERR_WRONG, StatePtr)
           else (case E2E_SMClearStatus st (WindowSize cfg) of None \<Rightarrow> None
                 | Some st \<Rightarrow> Some (E2E_E_OK, Some (st\<lparr>SMState := E2E_SM_NODATA\<rparr>))))
      | _ \<Rightarrow> Some (E2E_E_INPUTERR_NULL, StatePtr))"

subsection \<open>The specification: a sliding window\<close>

text \<open>
  The specified machine keeps the last statuses themselves, oldest first; the window starts full
  of \<open>E2E_P_NOTAVAILABLE\<close>.
\<close>

definition occ :: "E2E_PCheckStatusType \<Rightarrow> E2E_PCheckStatusType list \<Rightarrow> nat" where
  "occ p ps = length (filter (\<lambda>q. q = p) ps)"

definition sm_decide :: "E2E_SMConfigType \<Rightarrow> E2E_SMStateType \<Rightarrow> E2E_PCheckStatusType list \<Rightarrow> E2E_SMStateType" where
  "sm_decide cfg m win =
     (case m of
        E2E_SM_INIT \<Rightarrow>
          if occ E2E_P_ERROR win > unat (MaxErrorStateInit cfg) then E2E_SM_INVALID
          else if occ E2E_P_OK win \<ge> unat (MinOkStateInit cfg) then E2E_SM_VALID else E2E_SM_INIT
      | E2E_SM_VALID \<Rightarrow>
          if occ E2E_P_ERROR win \<le> unat (MaxErrorStateValid cfg) \<and> occ E2E_P_OK win \<ge> unat (MinOkStateValid cfg)
          then E2E_SM_VALID else E2E_SM_INVALID
      | _ \<Rightarrow>
          if occ E2E_P_ERROR win \<le> unat (MaxErrorStateInvalid cfg) \<and> occ E2E_P_OK win \<ge> unat (MinOkStateInvalid cfg)
          then E2E_SM_VALID else E2E_SM_INVALID)"

fun sm_spec :: "E2E_SMConfigType \<Rightarrow> E2E_SMStateType \<times> E2E_PCheckStatusType list \<Rightarrow> E2E_PCheckStatusType
    \<Rightarrow> E2E_SMStateType \<times> E2E_PCheckStatusType list" where
  "sm_spec cfg (m, win) p =
     (if m = E2E_SM_NODATA
      then (if p = E2E_P_ERROR \<or> p = E2E_P_NONEWDATA then E2E_SM_NODATA else E2E_SM_INIT, win)
      else (let win = tl win @ [p] in (sm_decide cfg m win, win)))"

definition sm_spec_init :: "E2E_SMConfigType \<Rightarrow> E2E_SMStateType \<times> E2E_PCheckStatusType list" where
  "sm_spec_init cfg = (E2E_SM_NODATA, replicate (unat (WindowSize cfg)) E2E_P_NOTAVAILABLE)"

text \<open>A sequence of receiver cycles, \<open>None\<close> when a call fails.\<close>

primrec sm_run :: "E2E_SMConfigType \<Rightarrow> E2E_PCheckStatusType list \<Rightarrow> E2E_SMCheckStateType
    \<Rightarrow> E2E_SMCheckStateType option" where
  "sm_run cfg [] st = Some st"
| "sm_run cfg (p # ps) st =
     (case E2E_SMCheck p (Some cfg) (Some st) of
        Some (E2E_E_OK, Some st') \<Rightarrow> sm_run cfg ps st'
      | _ \<Rightarrow> None)"

text \<open>The circular array holds the window, its oldest element at the top index.\<close>

fun sm_rel :: "E2E_SMConfigType \<Rightarrow> E2E_SMCheckStateType \<Rightarrow> E2E_SMStateType \<times> E2E_PCheckStatusType list \<Rightarrow> bool" where
  "sm_rel cfg st (m, win) \<longleftrightarrow>
     (\<exists>a. ProfileStatusWindow st = Some a \<and> length a = unat (WindowSize cfg)
        \<and> unat (WindowTopIndex st) < length a
        \<and> rotate (unat (WindowTopIndex st)) a = map PStatus_code win
        \<and> SMState st = m \<and> m \<noteq> E2E_SM_DEINIT)"

text \<open>Once data arrived the window slides by one status per message.\<close>

lemma sm_decide_states: "sm_decide cfg m win \<noteq> E2E_SM_NODATA" "sm_decide cfg m win \<noteq> E2E_SM_DEINIT"
  by (cases m; simp add: sm_decide_def)+

lemma sm_spec_window:
  assumes "fst x \<noteq> E2E_SM_NODATA"
  shows "fst (foldl (sm_spec cfg) x ps) \<noteq> E2E_SM_NODATA
       \<and> (length ps \<le> length (snd x) \<longrightarrow> snd (foldl (sm_spec cfg) x ps) = drop (length ps) (snd x) @ ps)"
  using assms
proof (induction ps arbitrary: x)
  case (Cons p ps)
  obtain m win where x: "x = (m, win)" by (cases x)
  then have step: "sm_spec cfg x p = (sm_decide cfg m (tl win @ [p]), tl win @ [p])" using Cons.prems by (simp add: Let_def)
  from Cons.IH [of "sm_spec cfg x p"] show ?case
    unfolding foldl_Cons step by (cases win) (simp_all add: sm_decide_states x)
qed simp

lemma sm_spec_full_window:
  assumes "fst x \<noteq> E2E_SM_NODATA" and "length ps = length (snd x)" and "ps \<noteq> []"
  shows "\<exists>m. m \<noteq> E2E_SM_NODATA \<and> foldl (sm_spec cfg) x ps = (sm_decide cfg m ps, ps)"
proof -
  obtain qs p where ps: "ps = qs @ [p]" using assms(3) by (metis rev_exhaust)
  obtain m win where y: "foldl (sm_spec cfg) x qs = (m, win)" by (cases "foldl (sm_spec cfg) x qs")
  have "m \<noteq> E2E_SM_NODATA" "win = drop (length qs) (snd x) @ qs"
    using sm_spec_window [OF assms(1), of cfg qs] assms(2) y ps by simp_all
  moreover have "length (drop (length qs) (snd x)) = 1" using assms(2) ps by simp
  then obtain q where "drop (length qs) (snd x) = [q]" by (metis One_nat_def length_0_conv length_Suc_conv)
  ultimately have "m \<noteq> E2E_SM_NODATA" "tl win @ [p] = ps" using ps by simp_all
  then show ?thesis using y ps by (auto simp: Let_def)
qed

lemma sm_spec_leaves_nodata:
  "p \<in> set ps \<Longrightarrow> p \<noteq> E2E_P_ERROR \<Longrightarrow> p \<noteq> E2E_P_NONEWDATA \<Longrightarrow> fst (foldl (sm_spec cfg) x ps) \<noteq> E2E_SM_NODATA"
proof (induction ps arbitrary: x)
  case (Cons q ps)
  show ?case
  proof (cases "p = q")
    case True
    then have "fst (sm_spec cfg x q) \<noteq> E2E_SM_NODATA"
      using Cons.prems by (cases x) (simp add: sm_decide_states Let_def)
    then show ?thesis using sm_spec_window by simp
  qed (use Cons in simp)
qed simp

lemma sm_spec_length: "snd x \<noteq> [] \<Longrightarrow> length (snd (foldl (sm_spec cfg) x ps)) = length (snd x)"
proof (induction ps arbitrary: x)
  case (Cons p ps)
  then show ?case by (cases x) (auto simp: Let_def)
qed simp

text \<open>Too many errors in the window make every state invalid, a window of accepted messages makes it valid.\<close>

definition max_errors :: "E2E_SMConfigType \<Rightarrow> nat" where
  "max_errors cfg = max (unat (MaxErrorStateInit cfg)) (max (unat (MaxErrorStateValid cfg)) (unat (MaxErrorStateInvalid cfg)))"

definition min_oks :: "E2E_SMConfigType \<Rightarrow> nat" where
  "min_oks cfg = max (unat (MinOkStateInit cfg)) (max (unat (MinOkStateValid cfg)) (unat (MinOkStateInvalid cfg)))"

lemma sm_decide_invalid: "occ E2E_P_ERROR win > max_errors cfg \<Longrightarrow> sm_decide cfg m win = E2E_SM_INVALID"
  by (cases m) (simp_all add: sm_decide_def max_errors_def)

lemma sm_decide_valid: "min_oks cfg \<le> n \<Longrightarrow> sm_decide cfg m (replicate n E2E_P_OK) = E2E_SM_VALID"
  by (cases m) (simp_all add: sm_decide_def min_oks_def occ_def)

lemma PStatus_code_inject [simp]: "PStatus_code p = PStatus_code q \<longleftrightarrow> p = q"
  by (cases p; cases q) simp_all

lemma write_window_Some [simp]: "i < length a \<Longrightarrow> write_window i v (Some a) = Some (Some (a[i := v]))"
  by (simp add: write_window_def)

lemma read_window_Some [simp]: "i < length a \<Longrightarrow> read_window i (Some a) = Some (a ! i)"
  by (simp add: read_window_def)

lemma ClearStatus_loop_eq:
  "n \<le> length a \<Longrightarrow> ClearStatus_loop (Some a) n
     = Some (Some (replicate n (PStatus_code E2E_P_NOTAVAILABLE) @ drop n a))"
proof (induction n)
  case (Suc n)
  then have "drop n a = a ! n # drop (Suc n) a" by (simp add: Cons_nth_drop_Suc)
  with Suc show ?case by (simp add: list_update_append replicate_app_Cons_same flip: replicate_Suc)
qed simp

lemma count_loop_eq:
  "n \<le> length a \<Longrightarrow> count_loop p (Some a) n = Some (of_nat (length (filter (\<lambda>v. v = PStatus_code p) (take n a))))"
  by (induction n) (auto simp: take_Suc_conv_app_nth)

lemma length_filter_rotate: "length (filter P (rotate n xs)) = length (filter P xs)"
proof -
  have "length (filter P (rotate n xs)) = length (filter P (drop (n mod length xs) xs @ take (n mod length xs) xs))"
    by (simp add: rotate_drop_take)
  also have "\<dots> = length (filter P (take (n mod length xs) xs @ drop (n mod length xs) xs))"
    by (simp del: append_take_drop_id)
  finally show ?thesis by simp
qed

lemma rotate_push:
  assumes "i < length a" and "j = (if Suc i \<ge> length a then 0 else Suc i)"
  shows "rotate j (a[i := v]) = tl (rotate i a) @ [v]"
proof -
  obtain xs y zs where a: "a = xs @ y # zs" and i: "i = length xs"
    using id_take_nth_drop [OF assms(1)] assms(1) by (metis length_take min.absorb4)
  show ?thesis
  proof (cases "zs = []")
    case True
    with a i assms(2) show ?thesis using rotate_append [of xs "y # zs"] by simp
  next
    case False
    then have "j = length (xs @ [v])" using a i assms(2) by (cases zs) simp_all
    then show ?thesis
      using a i rotate_append [of xs "y # zs"] rotate_append [of "xs @ [v]" zs] by simp
  qed
qed

lemma counts_window:
  assumes "length a < 256" and "rotate i a = map PStatus_code win"
  shows "count_loop p (Some a) (length a) = Some (of_nat (occ p win))" and "occ p win < 256"
proof -
  have "length (filter (\<lambda>v. v = PStatus_code p) a) = length (filter (\<lambda>v. v = PStatus_code p) (rotate i a))"
    by (simp add: length_filter_rotate)
  also have "\<dots> = occ p win" by (simp add: assms(2) occ_def filter_map o_def)
  finally have eq: "length (filter (\<lambda>v. v = PStatus_code p) a) = occ p win" .
  show "count_loop p (Some a) (length a) = Some (of_nat (occ p win))"
    by (simp add: count_loop_eq eq)
  show "occ p win < 256"
    using eq length_filter_le [of "\<lambda>v. v = PStatus_code p" a] assms(1) by linarith
qed

text \<open>One added status is one shift of the window, with the counts of the new window.\<close>

lemma AddStatus_rel:
  assumes "sm_rel cfg st (m, win)"
  obtains st' where "E2E_SMAddStatus p st (WindowSize cfg) = Some st'"
    and "sm_rel cfg st' (m, tl win @ [p])"
    and "OkCount st' = of_nat (occ E2E_P_OK (tl win @ [p]))" and "occ E2E_P_OK (tl win @ [p]) < 256"
    and "ErrorCount st' = of_nat (occ E2E_P_ERROR (tl win @ [p]))" and "occ E2E_P_ERROR (tl win @ [p]) < 256"
proof -
  obtain a where a: "ProfileStatusWindow st = Some a" and len: "length a = unat (WindowSize cfg)"
    and top: "unat (WindowTopIndex st) < length a"
    and rot: "rotate (unat (WindowTopIndex st)) a = map PStatus_code win"
    and m: "SMState st = m" "m \<noteq> E2E_SM_DEINIT"
    using assms by auto
  define b where "b = a[unat (WindowTopIndex st) := PStatus_code p]"
  define j where "j = (if Suc (unat (WindowTopIndex st)) \<ge> length a then 0 else Suc (unat (WindowTopIndex st)))"
  have lt: "length a < 256" using len unat_uint8_less by simp
  have wb: "length b = unat (WindowSize cfg)" by (simp add: b_def len)
  have rb: "rotate j b = map PStatus_code (tl win @ [p])"
    unfolding b_def rotate_push [OF top j_def] rot by (simp add: map_tl)
  have counts: "count_loop q (Some b) (unat (WindowSize cfg)) = Some (of_nat (occ q (tl win @ [p])))"
    and small: "occ q (tl win @ [p]) < 256" for q
    using counts_window [OF _ rb] lt by (simp_all add: len flip: wb)
  define st' where "st' = st\<lparr>ProfileStatusWindow := Some b, OkCount := of_nat (occ E2E_P_OK (tl win @ [p])),
    ErrorCount := of_nat (occ E2E_P_ERROR (tl win @ [p])), WindowTopIndex := of_nat j\<rparr>"
  have "unat (WindowTopIndex st + 1) = Suc (unat (WindowTopIndex st))" if "\<not> Suc (unat (WindowTopIndex st)) \<ge> length a"
    using that lt by (simp add: unat_word_ariths)
  moreover have "uint (WindowSize cfg) - 1 \<le> uint (WindowTopIndex st)
      \<longleftrightarrow> unat (WindowSize cfg) \<le> Suc (unat (WindowTopIndex st))"
    unfolding uint_nat by linarith
  ultimately have "E2E_SMAddStatus p st (WindowSize cfg) = Some st'"
    unfolding E2E_SMAddStatus_def a using top len
    by (auto simp: counts st'_def j_def Let_def simp flip: b_def)
  moreover have "unat (of_nat j :: uint8) = j" and "j < length a"
    using lt top by (auto simp: j_def unat_of_nat)
  then have "sm_rel cfg st' (m, tl win @ [p])"
    using wb rb m by (simp add: st'_def len)
  ultimately show thesis
    by (rule that) (simp_all add: st'_def small)
qed

lemma SMCheck_spec:
  assumes "sm_rel cfg st x"
  shows "\<exists>st'. E2E_SMCheck p (Some cfg) (Some st) = Some (E2E_E_OK, Some st') \<and> sm_rel cfg st' (sm_spec cfg x p)"
proof -
  obtain m win where x: "x = (m, win)" by (cases x)
  show ?thesis
  proof (cases "m = E2E_SM_NODATA")
    case True
    with assms x show ?thesis
      by (auto simp: E2E_SMCheck_def E2E_SMCheck_NODATA_def)
  next
    case False
    obtain st' where st': "E2E_SMAddStatus p st (WindowSize cfg) = Some st'" "sm_rel cfg st' (m, tl win @ [p])"
      and ok: "OkCount st' = of_nat (occ E2E_P_OK (tl win @ [p]))" "occ E2E_P_OK (tl win @ [p]) < 256"
      and err: "ErrorCount st' = of_nat (occ E2E_P_ERROR (tl win @ [p]))" "occ E2E_P_ERROR (tl win @ [p]) < 256"
      using AddStatus_rel [OF assms [unfolded x]] by metis
    have cmp: "of_nat n \<le> x \<longleftrightarrow> n \<le> unat x" "x \<le> of_nat n \<longleftrightarrow> unat x \<le> n" "x < of_nat n \<longleftrightarrow> unat x < n"
      if "n < 256" for n :: nat and x :: uint8
      using that by (simp_all add: word_le_nat_alt word_less_nat_alt unat_of_nat)
    have sel: "SMState st = m" "ProfileStatusWindow st \<noteq> None" "m \<noteq> E2E_SM_DEINIT"
      using assms x by auto
    define st'' where "st'' = st'\<lparr>SMState := sm_decide cfg m (tl win @ [p])\<rparr>"
    have "E2E_SMCheck p (Some cfg) (Some st) = Some (E2E_E_OK, Some st'')"
      using False sel st'(1)
      by (cases m) (simp_all add: E2E_SMCheck_def sm_decide_def E2E_SMCheck_INIT_def E2E_SMCheck_VALID_def
          E2E_SMCheck_INVALID_def ok(1) err(1) cmp [OF ok(2)] cmp [OF err(2)] not_le st''_def)
    moreover have "sm_rel cfg st'' (sm_spec cfg x p)"
      using st'(2) False x by (cases m) (auto simp: st''_def sm_decide_def Let_def)
    ultimately show ?thesis by blast
  qed
qed

lemma SMCheckInit_spec:
  assumes "WindowSize cfg > 0" and "ProfileStatusWindow st = Some a" and "length a = unat (WindowSize cfg)"
  shows "\<exists>st'. E2E_SMCheckInit (Some st) (Some cfg) = Some (E2E_E_OK, Some st') \<and> sm_rel cfg st' (sm_spec_init cfg)"
  using assms ClearStatus_loop_eq [of "length a" a]
  by (simp add: E2E_SMCheckInit_def E2E_SMClearStatus_def sm_spec_init_def word_less_nat_alt)

lemma sm_run_spec:
  "sm_rel cfg st x \<Longrightarrow> \<exists>st'. sm_run cfg ps st = Some st' \<and> sm_rel cfg st' (foldl (sm_spec cfg) x ps)"
proof (induction ps arbitrary: st x)
  case (Cons p ps)
  from SMCheck_spec [OF Cons.prems, of p] obtain st' where
    "E2E_SMCheck p (Some cfg) (Some st) = Some (E2E_E_OK, Some st')" "sm_rel cfg st' (sm_spec cfg x p)"
    by blast
  with Cons.IH [OF this(2)] show ?case by simp
qed simp

subsection \<open>Correctness\<close>

text \<open>
  C10. The E2E state machine on its circular array implements the specified machine on a sliding
  window: after initialisation, for every sequence of reported statuses, no access leaves the
  array, every call succeeds, the state is the one decided from the last \<open>WindowSize\<close> statuses,
  and the array holds exactly these statuses, the oldest at the top index.
\<close>
theorem e2e_sm_refines_window:
  assumes "WindowSize cfg > 0" and "ProfileStatusWindow st = Some a" and "length a = unat (WindowSize cfg)"
  shows "\<exists>st0 st' b. E2E_SMCheckInit (Some st) (Some cfg) = Some (E2E_E_OK, Some st0)
       \<and> sm_run cfg ps st0 = Some st'
       \<and> SMState st' = fst (foldl (sm_spec cfg) (sm_spec_init cfg) ps)
       \<and> ProfileStatusWindow st' = Some b
       \<and> rotate (unat (WindowTopIndex st')) b = map PStatus_code (snd (foldl (sm_spec cfg) (sm_spec_init cfg) ps))"
proof -
  obtain st0 where st0: "E2E_SMCheckInit (Some st) (Some cfg) = Some (E2E_E_OK, Some st0)"
    and rel: "sm_rel cfg st0 (sm_spec_init cfg)"
    using SMCheckInit_spec [OF assms] by blast
  obtain st' where st': "sm_run cfg ps st0 = Some st'"
    and rel': "sm_rel cfg st' (foldl (sm_spec cfg) (sm_spec_init cfg) ps)"
    using sm_run_spec [OF rel] by blast
  then show ?thesis
    using st0 by (cases "foldl (sm_spec cfg) (sm_spec_init cfg) ps") auto
qed

definition demo_sm_cfg :: E2E_SMConfigType where
  "demo_sm_cfg = \<lparr>WindowSize = 3, MinOkStateInit = 1, MaxErrorStateInit = 1, MinOkStateValid = 1,
     MaxErrorStateValid = 1, MinOkStateInvalid = 2, MaxErrorStateInvalid = 0\<rparr>"

definition demo_sm :: E2E_SMCheckStateType where
  "demo_sm = \<lparr>ProfileStatusWindow = Some [7, 7, 7], WindowTopIndex = 9, OkCount = 0, ErrorCount = 0,
     SMState = E2E_SM_DEINIT\<rparr>"

lemma demo_sm_spec:
  "foldl (sm_spec demo_sm_cfg) (sm_spec_init demo_sm_cfg) [E2E_P_OK, E2E_P_OK, E2E_P_ERROR, E2E_P_OK, E2E_P_ERROR]
     = (E2E_SM_INVALID, [E2E_P_ERROR, E2E_P_OK, E2E_P_ERROR])"
  by code_simp

theorem e2e_sm_refines_window_witness:
  "\<exists>st0 st' b. E2E_SMCheckInit (Some demo_sm) (Some demo_sm_cfg) = Some (E2E_E_OK, Some st0)
     \<and> sm_run demo_sm_cfg [E2E_P_OK, E2E_P_OK, E2E_P_ERROR, E2E_P_OK, E2E_P_ERROR] st0 = Some st'
     \<and> SMState st' = E2E_SM_INVALID
     \<and> ProfileStatusWindow st' = Some b
     \<and> rotate (unat (WindowTopIndex st')) b = [3, 0, 3]"
  using e2e_sm_refines_window [of demo_sm_cfg demo_sm "[7, 7, 7]"
      "[E2E_P_OK, E2E_P_OK, E2E_P_ERROR, E2E_P_OK, E2E_P_ERROR]", unfolded demo_sm_spec]
  by (simp add: demo_sm_cfg_def demo_sm_def)

text \<open>
  A window of size zero, which the code means to allow together with a NULL array, is accepted
  by the initialisation, and the second received message makes the state machine write through
  the NULL pointer.
\<close>
theorem e2e_sm_zero_window:
  assumes "WindowSize cfg = 0" and "ProfileStatusWindow st = None" and "p \<noteq> E2E_P_ERROR" and "p \<noteq> E2E_P_NONEWDATA"
  shows "\<exists>st0 st1. E2E_SMCheckInit (Some st) (Some cfg) = Some (E2E_E_OK, Some st0)
       \<and> E2E_SMCheck p (Some cfg) (Some st0) = Some (E2E_E_OK, Some st1)
       \<and> E2E_SMCheck q (Some cfg) (Some st1) = None"
  using assms by (simp add: E2E_SMCheckInit_def E2E_SMClearStatus_def E2E_SMCheck_def E2E_SMCheck_NODATA_def
      E2E_SMAddStatus_def write_window_def)

theorem e2e_sm_zero_window_witness:
  "\<exists>st0 st1. E2E_SMCheckInit (Some (demo_sm\<lparr>ProfileStatusWindow := None\<rparr>)) (Some (demo_sm_cfg\<lparr>WindowSize := 0\<rparr>))
       = Some (E2E_E_OK, Some st0)
     \<and> E2E_SMCheck E2E_P_OK (Some (demo_sm_cfg\<lparr>WindowSize := 0\<rparr>)) (Some st0) = Some (E2E_E_OK, Some st1)
     \<and> E2E_SMCheck E2E_P_OK (Some (demo_sm_cfg\<lparr>WindowSize := 0\<rparr>)) (Some st1) = None"
  by (rule e2e_sm_zero_window) simp_all

end
