(* ===== verification/E2E_Profile.thy ===== *)
theory E2E_Profile
  imports E2E_SM Crc
begin

unbundle bit_operations_syntax

text \<open>
  The contract of an end-to-end profile and what follows from it for a receiver. A profile
  protects a message of the sender with a counter and a CRC, and its check reports a status for
  every received message; the state machine of theory \<open>E2E_SM\<close> turns the statuses into a
  verdict. The theories \<open>E2E_P01\<close>, \<open>E2E_P02\<close>, \<open>E2E_P04\<close>, \<open>E2E_P05\<close> and \<open>E2E_P06\<close>
  interpret the locales on the functions of the source.
\<close>

subsection \<open>The bytes under a CRC\<close>

text \<open>The bytes of a message of \<open>n\<close> bytes except those from \<open>a\<close> on and before \<open>b\<close>.\<close>

definition around :: "byte_ptr \<Rightarrow> nat \<Rightarrow> nat \<Rightarrow> nat \<Rightarrow> uint8 list" where
  "around d a b n = read_bytes d a @ read_bytes (\<lambda>i. d (b + i)) (n - b)"

lemma length_around: "length (around d a b n) = a + (n - b)"
  by (simp add: around_def)

lemma around_cong:
  assumes "\<And>i. i < n \<Longrightarrow> \<not> (a \<le> i \<and> i < b) \<Longrightarrow> d i = e i" and "a \<le> n"
  shows "around d a b n = around e a b n"
  using assms unfolding around_def by (intro arg_cong2 [where f = append] read_bytes_cong) auto

lemma read_bytes_upd: "read_bytes (d(k := v)) n = (read_bytes d n)[k := v]"
  by (rule nth_equalityI) (auto simp: nth_list_update)

lemma read_bytes_shift_upd:
  "read_bytes (\<lambda>i. (d(k := v)) (m + i)) n
     = (if m \<le> k then (read_bytes (\<lambda>i. d (m + i)) n)[k - m := v] else read_bytes (\<lambda>i. d (m + i)) n)"
  by (rule nth_equalityI) (auto simp: nth_list_update)

text \<open>A changed byte outside the gap changes exactly one of the bytes.\<close>

lemma around_upd:
  assumes "k < n" and "\<not> (a \<le> k \<and> k < b)" and "a \<le> b"
  obtains j where "j < length (around d a b n)" and "around d a b n ! j = d k"
    and "\<And>v. around (d(k := v)) a b n = (around d a b n)[j := v]"
proof (cases "k < a")
  case True
  show thesis
  proof (rule that [of k])
    fix v
    from True assms(3) have "\<not> b \<le> k" by simp
    then show "around (d(k := v)) a b n = (around d a b n)[k := v]"
      unfolding around_def read_bytes_shift_upd read_bytes_upd using True
      by (simp add: list_update_append)
  qed (use True in \<open>simp_all add: length_around around_def nth_append\<close>)
next
  case False
  with assms have "b \<le> k" by simp
  then obtain m where k: "k = b + m" by (rule le_iff_add [THEN iffD1, THEN exE])
  show thesis
  proof (rule that [of "a + m"])
    fix v
    have "(read_bytes d a)[k := v] = read_bytes d a" using False by (simp add: list_update_beyond)
    then show "around (d(k := v)) a b n = (around d a b n)[a + m := v]"
      unfolding around_def read_bytes_shift_upd read_bytes_upd by (simp add: list_update_append k)
  qed (use k assms in \<open>simp_all add: length_around around_def nth_append\<close>)
qed

lemma read_one: "read_bytes (\<lambda>_. b) 1 = [b]"
  by (simp add: read_bytes_def)

subsection \<open>Byte order\<close>

text \<open>Words as the bytes of a header, the most significant byte first.\<close>

definition be16 :: "uint8 \<Rightarrow> uint8 \<Rightarrow> uint16" where
  "be16 a b = push_bit 8 (ucast a) OR ucast b"

definition be32 :: "uint8 \<Rightarrow> uint8 \<Rightarrow> uint8 \<Rightarrow> uint8 \<Rightarrow> uint32" where
  "be32 a b c d = push_bit 24 (ucast a) OR push_bit 16 (ucast b) OR push_bit 8 (ucast c) OR ucast d"

lemma bit_be16: "k < 16 \<Longrightarrow> bit (be16 a b) k \<longleftrightarrow> (if k < 8 then bit b k else bit a (k - 8))"
  by (auto simp: be16_def bit_simps bit_ucast_iff dest: bit_imp_le_length)

lemma bit_be32: "k < 32 \<Longrightarrow> bit (be32 a b c d) k \<longleftrightarrow>
    (if k < 8 then bit d k else if k < 16 then bit c (k - 8) else if k < 24 then bit b (k - 16) else bit a (k - 24))"
  by (auto simp: be32_def bit_simps bit_ucast_iff dest: bit_imp_le_length)

lemma be16_inject [simp]: "be16 a b = be16 a' b' \<longleftrightarrow> a = a' \<and> b = b'"
proof
  assume eq: "be16 a b = be16 a' b'"
  have "a = a'"
  proof (rule bit_word_eqI)
    fix n assume "n < LENGTH(8)"
    then show "bit a n = bit a' n" using arg_cong [OF eq, of "\<lambda>w. bit w (n + 8)"] by (simp add: bit_be16)
  qed
  moreover have "b = b'"
  proof (rule bit_word_eqI)
    fix n assume "n < LENGTH(8)"
    then show "bit b n = bit b' n" using arg_cong [OF eq, of "\<lambda>w. bit w n"] by (simp add: bit_be16)
  qed
  ultimately show "a = a' \<and> b = b'" ..
qed simp

lemma be32_inject [simp]: "be32 a b c d = be32 a' b' c' d' \<longleftrightarrow> a = a' \<and> b = b' \<and> c = c' \<and> d = d'"
proof
  assume eq: "be32 a b c d = be32 a' b' c' d'"
  have *: "bit (be32 a b c d) n = bit (be32 a' b' c' d') n" for n by (simp add: eq)
  have "be16 a b = be16 a' b'"
  proof (rule bit_word_eqI)
    fix n assume "n < LENGTH(16)"
    then show "bit (be16 a b) n = bit (be16 a' b') n" using * [of "n + 16"] by (simp add: bit_be16 bit_be32 split: if_splits)
  qed
  moreover have "be16 c d = be16 c' d'"
  proof (rule bit_word_eqI)
    fix n assume "n < LENGTH(16)"
    then show "bit (be16 c d) n = bit (be16 c' d') n" using * [of n] by (simp add: bit_be16 bit_be32 split: if_splits)
  qed
  ultimately show "a = a' \<and> b = b' \<and> c = c' \<and> d = d'" by simp
qed simp

lemma byte_masks:
  "(0xFF :: uint16) = mask 8" "(0xFF00 :: uint16) = push_bit 8 (mask 8)"
  "(0xFF :: uint32) = mask 8" "(0xFF00 :: uint32) = push_bit 8 (mask 8)" "(0xFF0000 :: uint32) = push_bit 16 (mask 8)"
  "(0xFF000000 :: uint32) = push_bit 24 (mask 8)"
  by (simp_all add: mask_eq_exp_minus_1 push_bit_eq_mult)

lemma byte_of_uint16:
  "ucast (drop_bit 8 (w AND 0xFF00) AND 0xFF) = (ucast (drop_bit 8 w) :: uint8)"
  "ucast ((w AND 0x00FF) AND 0xFF) = (ucast w :: uint8)" for w :: uint16
  unfolding byte_masks by (rule bit_word_eqI; simp add: bit_simps bit_ucast_iff; auto)+

lemma byte_of_uint32:
  "ucast (drop_bit 24 (w AND 0xFF000000) AND 0xFF) = (ucast (drop_bit 24 w) :: uint8)"
  "ucast (drop_bit 16 (w AND 0x00FF0000) AND 0xFF) = (ucast (drop_bit 16 w) :: uint8)"
  "ucast (drop_bit 8 (w AND 0x0000FF00) AND 0xFF) = (ucast (drop_bit 8 w) :: uint8)"
  "ucast ((w AND 0x000000FF) AND 0xFF) = (ucast w :: uint8)" for w :: uint32
  unfolding byte_masks by (rule bit_word_eqI; simp add: bit_simps bit_ucast_iff; auto)+

lemma id_bytes:
  "ucast (w AND 0xFF) = (ucast w :: uint8)"
  "ucast (drop_bit 8 w AND 0xFF) = (ucast (drop_bit 8 w) :: uint8)" for w :: uint16
  unfolding byte_masks by (rule bit_word_eqI; simp add: bit_simps bit_ucast_iff; auto)+

lemma and_all_bits [simp]: "b AND 0xFF = b" for b :: uint8
proof -
  have "(0xFF :: uint8) = - 1" by simp
  then show ?thesis by (simp only: and.right_neutral)
qed

lemma join_uint16:
  "(0 OR (push_bit 8 (ucast a) AND 0xFF00)) OR (ucast b AND 0x00FF) = be16 a b"
  unfolding byte_masks by (rule bit_word_eqI) (auto simp: bit_be16 bit_simps bit_ucast_iff dest: bit_imp_le_length)

lemma join_uint32:
  "(((0 OR (push_bit 24 (ucast a) AND 0xFF000000)) OR (push_bit 16 (ucast b) AND 0x00FF0000))
      OR (push_bit 8 (ucast c) AND 0x0000FF00)) OR (ucast d AND 0x000000FF) = be32 a b c d"
  unfolding byte_masks by (rule bit_word_eqI) (auto simp: bit_be32 bit_simps bit_ucast_iff dest: bit_imp_le_length)

lemma be16_split [simp]: "be16 (ucast (drop_bit 8 w)) (ucast w) = w"
  by (rule bit_word_eqI) (auto simp: bit_be16 bit_simps bit_ucast_iff)

lemma be32_split [simp]: "be32 (ucast (drop_bit 24 w)) (ucast (drop_bit 16 w)) (ucast (drop_bit 8 w)) (ucast w) = w"
  by (rule bit_word_eqI) (auto simp: bit_be32 bit_simps bit_ucast_iff)

text \<open>The distance of two counters across the wrap.\<close>

lemma wrap_diff:
  fixes r l :: "'a::len word"
  assumes "r < l" and "LENGTH('a) < 32" and k: "unat (k :: uint32) = 2 ^ LENGTH('a)"
  shows "ucast (k + ucast r - ucast l) = r - l"
proof -
  have p: "(2::nat) ^ LENGTH('a) * 2 \<le> 2 ^ 32"
    using power_increasing [of "Suc LENGTH('a)" 32 "2::nat"] assms(2) by simp
  have b: "unat r < 2 ^ LENGTH('a)" "unat l < 2 ^ LENGTH('a)" "unat r < unat l"
    using assms(1) by (simp_all add: word_less_nat_alt unsigned_less)
  have u: "unat (ucast r :: uint32) = unat r" "unat (ucast l :: uint32) = unat l"
    using assms(2) by (simp_all add: unat_ucast_up)
  have "2 ^ LENGTH('a) + unat r < 2 ^ 32" using b(1) p by linarith
  then have s: "unat (k + ucast r) = 2 ^ LENGTH('a) + unat r"
    by (simp add: unat_word_ariths u k)
  moreover have "(ucast l :: uint32) \<le> k + ucast r"
    unfolding word_le_nat_alt u s using b(2) by linarith
  ultimately have eq: "unat (k + ucast r - ucast l) = 2 ^ LENGTH('a) + unat r - unat l"
    by (simp add: unat_sub u)
  have "unat (ucast (k + ucast r - ucast l) :: 'a word) = (2 ^ LENGTH('a) + unat r - unat l) mod 2 ^ LENGTH('a)"
    unfolding eq [symmetric] by (simp add: unsigned_ucast_eq take_bit_eq_mod)
  moreover have small: "2 ^ LENGTH('a) + unat r - unat l < 2 ^ LENGTH('a)" using b by linarith
  then have "(2 ^ LENGTH('a) + unat r - unat l) mod 2 ^ LENGTH('a) = unat (r - l)"
    using b(3) by (simp add: unat_sub_if_size word_size)
  ultimately show ?thesis by (metis unsigned_word_eqI)
qed
lemma unat_small: "m < 2 ^ 32 \<Longrightarrow> unat (of_nat m :: uint32) = m"
  by (simp add: unat_of_nat)

lemma next_counter: "of_nat ((unat w + 1) mod m) = w + 1" if "m = 2 ^ LENGTH('a)" for w :: "'a::len word"
proof -
  have "unat (of_nat ((unat w + 1) mod m) :: 'a word) = unat (w + 1)"
    by (simp add: that unat_of_nat unat_word_ariths)
  then show ?thesis by (metis unsigned_word_eqI)
qed

text \<open>Nibbles.\<close>

lemma nibble_masks: "(0xF :: uint8) = mask 4" "(0xF0 :: uint8) = push_bit 4 (mask 4)"
  by (simp_all add: mask_eq_exp_minus_1 push_bit_eq_mult)

lemma low_nibble:
  "((b AND 0xF0) OR (n AND 0x0F)) AND 0xF = n AND 0xF"
  "drop_bit 4 ((b AND 0xF0) OR (n AND 0x0F)) AND 0xF = drop_bit 4 b AND 0xF" for b n :: uint8
  unfolding nibble_masks by (rule bit_word_eqI; auto simp: bit_simps)+

lemma high_nibble:
  "drop_bit 4 ((b AND 0x0F) OR (push_bit 4 n AND 0xF0)) AND 0xF = n AND 0xF"
  "((b AND 0x0F) OR (push_bit 4 n AND 0xF0)) AND 0xF = b AND 0xF" for b n :: uint8
  unfolding nibble_masks by (rule bit_word_eqI; auto simp: bit_simps)+

lemma small_nibble: "n AND 0xF = n" if "n < 16" for n :: uint8
proof -
  have "unat (take_bit 4 n) = unat n"
    using that by (simp add: take_bit_eq_mod unat_mod word_less_nat_alt)
  then show ?thesis unfolding nibble_masks take_bit_eq_mask [symmetric] by (metis unsigned_word_eqI)
qed

lemma nibble_xor: "(b XOR x) AND 0xF = (b AND 0xF) XOR (x AND 0xF)" for b x :: uint8
  by (rule bit_word_eqI) (auto simp: bit_simps)

lemma uint8_dec: "unat (x - 1) < unat x" "x - 1 \<le> x" if "0 < x" for x :: uint8
proof -
  have "unat (x - 1) = unat x - 1" "0 < unat x" using that by (simp_all add: word_less_nat_alt unat_sub word_le_nat_alt)
  then show "unat (x - 1) < unat x" "x - 1 \<le> x" by (simp_all add: word_le_nat_alt)
qed

lemma nibble_less: "d AND 0xF < 16" for d :: uint8
proof -
  have "d AND 0xF \<le> 0xF" by (simp add: word_and_le1)
  then show ?thesis by (simp add: word_le_nat_alt word_less_nat_alt)
qed

subsection \<open>A checksum inside its message\<close>

text \<open>
  The checksum of a message stands in the bytes from \<open>lo c\<close> on and before \<open>hi c\<close> and is
  computed over all other bytes: a changed byte either changes the received checksum or the
  computed one, never both.
\<close>

locale e2e_crc =
  fixes valid :: "'c \<Rightarrow> bool"
    and size lo hi :: "'c \<Rightarrow> nat"
    and computed received :: "'c \<Rightarrow> byte_ptr \<Rightarrow> 'w"
  assumes gap: "valid c \<Longrightarrow> lo c \<le> hi c \<and> hi c \<le> size c"
    and received_cong: "valid c \<Longrightarrow> (\<And>i. lo c \<le> i \<Longrightarrow> i < hi c \<Longrightarrow> d i = e i) \<Longrightarrow> received c d = received c e"
    and received_change: "valid c \<Longrightarrow> lo c \<le> k \<Longrightarrow> k < hi c \<Longrightarrow> v \<noteq> d k \<Longrightarrow> received c (d(k := v)) \<noteq> received c d"
    and computed_cong: "valid c \<Longrightarrow> around d (lo c) (hi c) (size c) = around e (lo c) (hi c) (size c)
      \<Longrightarrow> computed c d = computed c e"
    and computed_change: "valid c \<Longrightarrow> around e (lo c) (hi c) (size c) = (around d (lo c) (hi c) (size c))[j := v]
      \<Longrightarrow> j < length (around d (lo c) (hi c) (size c)) \<Longrightarrow> v \<noteq> around d (lo c) (hi c) (size c) ! j
      \<Longrightarrow> computed c e \<noteq> computed c d"
begin

lemma computed_gap:
  assumes "valid c" and "\<And>i. i < size c \<Longrightarrow> \<not> (lo c \<le> i \<and> i < hi c) \<Longrightarrow> d i = e i"
  shows "computed c d = computed c e"
  using assms gap [OF assms(1)] by (intro computed_cong around_cong) auto

lemma inside_cong:
  assumes "valid c" and "\<And>i. i < size c \<Longrightarrow> d i = e i"
  shows "computed c d = computed c e" and "received c d = received c e"
  using assms gap [OF assms(1)] by (auto intro!: computed_gap received_cong)

lemma byte_change_detected:
  assumes c: "valid c" and ok: "received c d = computed c d" and k: "k < size c" and x: "x \<noteq> 0"
  shows "received c (d(k := d k XOR x)) \<noteq> computed c (d(k := d k XOR x))"
proof -
  let ?e = "d(k := d k XOR x)"
  have new: "d k XOR x \<noteq> d k" using x xor_right_eq [of x "d k" 0] by (auto simp: xor.commute)
  show ?thesis
  proof (cases "lo c \<le> k \<and> k < hi c")
    case True
    then have "computed c ?e = computed c d" by (intro computed_gap [OF c]) auto
    with True ok received_change [OF c, of k "d k XOR x" d] new show ?thesis by metis
  next
    case False
    obtain j where j: "j < length (around d (lo c) (hi c) (size c))" "around d (lo c) (hi c) (size c) ! j = d k"
      and e: "around ?e (lo c) (hi c) (size c) = (around d (lo c) (hi c) (size c))[j := d k XOR x]"
      using around_upd [OF k False] gap [OF c] by metis
    have "computed c ?e \<noteq> computed c d" using computed_change [OF c e j(1)] j(2) new by simp
    moreover have "received c ?e = received c d" using False by (intro received_cong [OF c]) auto
    ultimately show ?thesis using ok by simp
  qed
qed

end

subsection \<open>The contract of a profile\<close>

text \<open>
  \<open>'c\<close> is a configuration, \<open>'s\<close> the state of the sender and \<open>'r\<close> that of the receiver;
  \<open>size c\<close> is the number of bytes of a message, \<open>header c\<close> the positions the profile
  writes, and \<open>covers c k x\<close> says that the profile promises to detect the change of byte \<open>k\<close>
  by the bits \<open>x\<close>.
\<close>

locale e2e_profile =
  fixes valid :: "'c \<Rightarrow> bool"
    and size :: "'c \<Rightarrow> nat"
    and header :: "'c \<Rightarrow> nat set"
    and covers :: "'c \<Rightarrow> nat \<Rightarrow> uint8 \<Rightarrow> bool"
    and sender_ok :: "'c \<Rightarrow> 's \<Rightarrow> bool"
    and protect :: "'c \<Rightarrow> 's \<Rightarrow> byte_ptr \<Rightarrow> 's \<times> byte_ptr"
    and check :: "'c \<Rightarrow> 'r \<Rightarrow> byte_ptr \<Rightarrow> 'r \<times> E2E_PCheckStatusType"
  assumes header_inside: "valid c \<Longrightarrow> header c \<subseteq> {..<size c}"
    and payload: "valid c \<Longrightarrow> i \<notin> header c \<Longrightarrow> snd (protect c s d) i = d i"
    and sender: "valid c \<Longrightarrow> sender_ok c s \<Longrightarrow> sender_ok c (fst (protect c s d))"
    and reads_inside: "valid c \<Longrightarrow> (\<And>i. i < size c \<Longrightarrow> d i = e i) \<Longrightarrow> check c r d = check c r e"
    and accepts: "valid c \<Longrightarrow> sender_ok c s \<Longrightarrow> snd (check c r (snd (protect c s d))) \<noteq> E2E_P_ERROR"
    and new_data: "valid c \<Longrightarrow> snd (check c r d) \<noteq> E2E_P_NONEWDATA"
    and detects: "valid c \<Longrightarrow> sender_ok c s \<Longrightarrow> k < size c \<Longrightarrow> x \<noteq> 0 \<Longrightarrow> covers c k x \<Longrightarrow> d' = snd (protect c s d)
      \<Longrightarrow> snd (check c r (d'(k := d' k XOR x))) = E2E_P_ERROR"

text \<open>\<open>synced\<close>: the receiver expects exactly the counter the sender uses next.\<close>

locale e2e_synced = e2e_profile valid size header covers sender_ok protect check
  for valid :: "'c \<Rightarrow> bool" and size header covers
    and sender_ok :: "'c \<Rightarrow> 's \<Rightarrow> bool" and protect
    and check :: "'c \<Rightarrow> 'r \<Rightarrow> byte_ptr \<Rightarrow> 'r \<times> E2E_PCheckStatusType" +
  fixes synced :: "'c \<Rightarrow> 's \<Rightarrow> 'r \<Rightarrow> bool"
  assumes in_sync: "valid c \<Longrightarrow> sender_ok c s \<Longrightarrow> synced c s r \<Longrightarrow> snd (check c r (snd (protect c s d))) = E2E_P_OK"
    and stays_synced: "valid c \<Longrightarrow> sender_ok c s \<Longrightarrow> synced c s r
      \<Longrightarrow> synced c (fst (protect c s d)) (fst (check c r (snd (protect c s d))))"

text \<open>
  A receiver synchronises again with intact messages: \<open>lag\<close> decreases with every one of them
  until it is synchronised, from at most \<open>bound\<close>, whatever it received before.
\<close>

locale e2e_resync = e2e_synced valid size header covers sender_ok protect check synced
  for valid :: "'c \<Rightarrow> bool" and size header covers
    and sender_ok :: "'c \<Rightarrow> 's \<Rightarrow> bool" and protect
    and check :: "'c \<Rightarrow> 'r \<Rightarrow> byte_ptr \<Rightarrow> 'r \<times> E2E_PCheckStatusType" and synced +
  fixes receiver_ok :: "'c \<Rightarrow> 'r \<Rightarrow> bool"
    and lag :: "'c \<Rightarrow> 's \<Rightarrow> 'r \<Rightarrow> nat"
    and bound :: "'c \<Rightarrow> nat"
  assumes receiver: "valid c \<Longrightarrow> receiver_ok c r \<Longrightarrow> receiver_ok c (fst (check c r d))"
    and lag_bound: "valid c \<Longrightarrow> receiver_ok c r \<Longrightarrow> lag c s r \<le> bound c"
    and resync: "valid c \<Longrightarrow> sender_ok c s \<Longrightarrow> receiver_ok c r \<Longrightarrow> \<not> synced c s r
      \<Longrightarrow> lag c (fst (protect c s d)) (fst (check c r (snd (protect c s d)))) < lag c s r"

subsection \<open>A channel\<close>

text \<open>What happens to a message on its way: nothing, the loss of the message, or the change of one byte.\<close>

datatype fault = Intact | Lost | Flipped nat uint8

text \<open>
  One message after the other: the statuses the receiver reports for the messages that arrive.
\<close>

primrec e2e_stream :: "('s \<Rightarrow> byte_ptr \<Rightarrow> 's \<times> byte_ptr) \<Rightarrow> ('r \<Rightarrow> byte_ptr \<Rightarrow> 'r \<times> E2E_PCheckStatusType)
    \<Rightarrow> (byte_ptr \<times> fault) list \<Rightarrow> 's \<Rightarrow> 'r \<Rightarrow> E2E_PCheckStatusType list" where
  "e2e_stream protect check [] s r = []"
| "e2e_stream protect check (m # ms) s r =
     (case protect s (fst m) of (s', d) \<Rightarrow>
        (case snd m of
           Lost \<Rightarrow> e2e_stream protect check ms s' r
         | Intact \<Rightarrow> (case check r d of (r', p) \<Rightarrow> p # e2e_stream protect check ms s' r')
         | Flipped k x \<Rightarrow> (case check r (d(k := d k XOR x)) of (r', p) \<Rightarrow> p # e2e_stream protect check ms s' r')))"

definition arrived :: "(byte_ptr \<times> fault) list \<Rightarrow> fault list" where
  "arrived ms = filter (\<lambda>f. f \<noteq> Lost) (map snd ms)"

text \<open>A change of a byte of the message that the profile covers.\<close>

definition fault_ok :: "nat \<Rightarrow> (nat \<Rightarrow> uint8 \<Rightarrow> bool) \<Rightarrow> fault \<Rightarrow> bool" where
  "fault_ok n covered f = (case f of Flipped k x \<Rightarrow> k < n \<and> x \<noteq> 0 \<and> covered k x | _ \<Rightarrow> True)"

context e2e_profile
begin

text \<open>Exactly the changed messages are reported as errors, whatever is lost and in whatever state the receiver is.\<close>

lemma stream_errors:
  assumes "valid c" and "sender_ok c s" and "list_all (fault_ok (size c) (covers c)) (map snd ms)"
  shows "map (\<lambda>p. p = E2E_P_ERROR) (e2e_stream (protect c) (check c) ms s r)
       = map (\<lambda>f. f \<noteq> Intact) (arrived ms)"
  using assms(2,3)
proof (induction ms arbitrary: s r)
  case Nil
  then show ?case by (simp add: arrived_def)
next
  case (Cons m ms)
  obtain s' d where p: "protect c s (fst m) = (s', d)" by fastforce
  have s': "sender_ok c s'" using sender [OF assms(1) Cons.prems(1), of "fst m"] p by simp
  note IH = Cons.IH [OF s'] and d = accepts [OF assms(1) Cons.prems(1), of _ "fst m", unfolded p snd_conv]
  show ?case
  proof (cases "snd m")
    case (Flipped k x)
    then have "snd (check c r (d(k := d k XOR x))) = E2E_P_ERROR"
      using Cons.prems by (intro detects [OF assms(1) Cons.prems(1), where d = "fst m"]) (simp_all add: fault_ok_def p)
    with Flipped Cons.prems(2) IH p show ?thesis by (auto simp: arrived_def split: prod.split)
  qed (use Cons.prems(2) IH p d [of r] in \<open>auto simp: arrived_def split: prod.split\<close>)
qed

end

context e2e_synced
begin

lemma synced_stream:
  "valid c \<Longrightarrow> sender_ok c s \<Longrightarrow> synced c s r
   \<Longrightarrow> e2e_stream (protect c) (check c) (map (\<lambda>d. (d, Intact)) ds) s r = replicate (length ds) E2E_P_OK"
proof (induction ds arbitrary: s r)
  case (Cons d ds)
  with Cons.IH [OF Cons.prems(1) sender [OF Cons.prems(1,2)] stays_synced [OF Cons.prems(1-3)], of d]
    in_sync [OF Cons.prems(1-3), of d]
  show ?case by (simp add: split_beta)
qed simp

end

subsection \<open>What a receiver may rely on\<close>

text \<open>
  The verdicts for a sender and a receiver on a channel. First, exactly the changed messages are
  reported as errors.
\<close>

definition errors_exact :: "nat \<Rightarrow> (nat \<Rightarrow> uint8 \<Rightarrow> bool) \<Rightarrow> ('s \<Rightarrow> bool) \<Rightarrow> ('s \<Rightarrow> byte_ptr \<Rightarrow> 's \<times> byte_ptr)
    \<Rightarrow> ('r \<Rightarrow> byte_ptr \<Rightarrow> 'r \<times> E2E_PCheckStatusType) \<Rightarrow> bool" where
  "errors_exact n covered ok send receive \<longleftrightarrow>
     (\<forall>ms s r. ok s \<longrightarrow> list_all (fault_ok n covered) (map snd ms) \<longrightarrow>
        map (\<lambda>p. p = E2E_P_ERROR) (e2e_stream send receive ms s r) = map (\<lambda>f. f \<noteq> Intact) (arrived ms))"

text \<open>The sender writes the bytes of the header only, the receiver reads the \<open>n\<close> bytes of the message only.\<close>

definition inside_message :: "nat \<Rightarrow> nat set \<Rightarrow> ('s \<Rightarrow> byte_ptr \<Rightarrow> 's \<times> byte_ptr)
    \<Rightarrow> ('r \<Rightarrow> byte_ptr \<Rightarrow> 'r \<times> E2E_PCheckStatusType) \<Rightarrow> bool" where
  "inside_message n header send receive \<longleftrightarrow>
     header \<subseteq> {..<n} \<and> (\<forall>s d i. i \<notin> header \<longrightarrow> snd (send s d) i = d i)
     \<and> (\<forall>r d e. (\<forall>i<n. d i = e i) \<longrightarrow> receive r d = receive r e)"

text \<open>An initialised state machine.\<close>

definition sm_ready :: "E2E_SMConfigType \<Rightarrow> E2E_SMCheckStateType \<Rightarrow> bool" where
  "sm_ready cfg st \<longleftrightarrow>
     (\<exists>st0 a. WindowSize cfg > 0 \<and> ProfileStatusWindow st0 = Some a \<and> length a = unat (WindowSize cfg)
        \<and> E2E_SMCheckInit (Some st0) (Some cfg) = Some (E2E_E_OK, Some st))"

text \<open>
  The statuses go into the state machine. Second, once a message came through, too many changed
  messages among the last \<open>WindowSize\<close> ones make its state invalid.
\<close>

definition blocks_errors :: "nat \<Rightarrow> (nat \<Rightarrow> uint8 \<Rightarrow> bool) \<Rightarrow> ('s \<Rightarrow> bool) \<Rightarrow> ('s \<Rightarrow> byte_ptr \<Rightarrow> 's \<times> byte_ptr)
    \<Rightarrow> ('r \<Rightarrow> byte_ptr \<Rightarrow> 'r \<times> E2E_PCheckStatusType) \<Rightarrow> bool" where
  "blocks_errors n covered ok send receive \<longleftrightarrow>
     (\<forall>cfg st ms ms' s r. sm_ready cfg st \<longrightarrow> ok s \<longrightarrow> list_all (fault_ok n covered) (map snd (ms @ ms')) \<longrightarrow>
        Intact \<in> set (arrived ms) \<longrightarrow> length (arrived ms') = unat (WindowSize cfg) \<longrightarrow>
        length (filter (\<lambda>f. f \<noteq> Intact) (arrived ms')) > max_errors cfg \<longrightarrow>
        map_option SMState (sm_run cfg (e2e_stream send receive (ms @ ms') s r) st) = Some E2E_SM_INVALID)"

text \<open>
  Third, after any history of losses and changes, detected or not, \<open>k\<close> intact messages
  beyond the window make the state valid, and then every further one is accepted.
\<close>

definition recovers :: "nat \<Rightarrow> ('s \<Rightarrow> bool) \<Rightarrow> ('r \<Rightarrow> bool) \<Rightarrow> ('s \<Rightarrow> byte_ptr \<Rightarrow> 's \<times> byte_ptr)
    \<Rightarrow> ('r \<Rightarrow> byte_ptr \<Rightarrow> 'r \<times> E2E_PCheckStatusType) \<Rightarrow> bool" where
  "recovers k ok ok' send receive \<longleftrightarrow>
     (\<forall>cfg st ms ds s r. sm_ready cfg st \<longrightarrow> ok s \<longrightarrow> ok' r \<longrightarrow> min_oks cfg \<le> unat (WindowSize cfg) \<longrightarrow>
        length ds > k + unat (WindowSize cfg) \<longrightarrow>
        map_option SMState (sm_run cfg (e2e_stream send receive (ms @ map (\<lambda>d. (d, Intact)) ds) s r) st) = Some E2E_SM_VALID)"

lemma sm_ready_run:
  assumes "sm_ready cfg st"
  shows "map_option SMState (sm_run cfg ps st) = Some (fst (foldl (sm_spec cfg) (sm_spec_init cfg) ps))"
proof -
  have "sm_rel cfg st (sm_spec_init cfg)"
    using assms SMCheckInit_spec unfolding sm_ready_def by fastforce
  from sm_run_spec [OF this, of ps] show ?thesis
    by (cases "foldl (sm_spec cfg) (sm_spec_init cfg) ps") auto
qed

lemma sm_init_length: "length (snd (foldl (sm_spec cfg) (sm_spec_init cfg) ps)) = unat (WindowSize cfg)"
  if "WindowSize cfg > 0"
  using that sm_spec_length [of "sm_spec_init cfg"] by (simp add: sm_spec_init_def word_less_nat_alt)

lemma sm_last_window:
  assumes "WindowSize cfg > 0" and "p \<in> set ps" "p \<noteq> E2E_P_ERROR" "p \<noteq> E2E_P_NONEWDATA"
    and "length qs = unat (WindowSize cfg)"
  shows "\<exists>m. fst (foldl (sm_spec cfg) (sm_spec_init cfg) (ps @ qs)) = sm_decide cfg m qs"
proof -
  define x where "x = foldl (sm_spec cfg) (sm_spec_init cfg) ps"
  have "qs \<noteq> []" using assms(1,5) by (auto simp: word_less_nat_alt)
  then have "\<exists>m. m \<noteq> E2E_SM_NODATA \<and> foldl (sm_spec cfg) x qs = (sm_decide cfg m qs, qs)"
    using assms sm_init_length [of cfg ps] by (intro sm_spec_full_window) (simp_all add: x_def sm_spec_leaves_nodata)
  then show ?thesis by (auto simp: x_def)
qed

text \<open>Lost messages advance the sender only.\<close>

lemma lost_stream:
  "e2e_stream send receive (map (\<lambda>d. (d, Lost)) ds @ ms) s r
     = e2e_stream send receive ms (foldl (\<lambda>s d. fst (send s d)) s ds) r"
  by (induction ds arbitrary: s) (simp_all add: split_beta)

text \<open>
  The verdict on the first message after \<open>k\<close> lost ones, for a counter that counts modulo
  \<open>m\<close> and a largest accepted distance \<open>mx\<close>.
\<close>

definition loss_status :: "nat \<Rightarrow> nat \<Rightarrow> nat \<Rightarrow> E2E_PCheckStatusType" where
  "loss_status m mx k =
     (let delta = (k + 1) mod m
      in if delta > mx then E2E_P_WRONGSEQUENCE else if delta = 0 then E2E_P_REPEATED else E2E_P_OK)"

context e2e_profile
begin

lemma channel_errors_exact:
  "valid c \<Longrightarrow> errors_exact (size c) (covers c) (sender_ok c) (protect c) (check c)"
  unfolding errors_exact_def using stream_errors by blast

lemma channel_inside_message: "valid c \<Longrightarrow> inside_message (size c) (header c) (protect c) (check c)"
  unfolding inside_message_def using header_inside payload reads_inside by blast

lemma stream_new_data: "valid c \<Longrightarrow> E2E_P_NONEWDATA \<notin> set (e2e_stream (protect c) (check c) ms s r)"
proof (induction ms arbitrary: s r)
  case (Cons m ms)
  note IH = Cons.IH [OF Cons.prems] and new = new_data [OF Cons.prems]
  show ?case
    by (cases "snd m") (use IH new in \<open>simp_all add: split_beta not_sym [OF new]\<close>)
qed simp

lemma channel_blocks_errors:
  assumes "valid c"
  shows "blocks_errors (size c) (covers c) (sender_ok c) (protect c) (check c)"
  unfolding blocks_errors_def
proof (intro allI impI)
  fix cfg st ms ms' s r
  assume ready: "sm_ready cfg st" and s: "sender_ok c s" and ok: "list_all (fault_ok (size c) (covers c)) (map snd (ms @ ms'))"
    and one: "Intact \<in> set (arrived ms)" and n: "length (arrived ms') = unat (WindowSize cfg)"
    and many: "length (filter (\<lambda>f. f \<noteq> Intact) (arrived ms')) > max_errors cfg"
  define ps where "ps = e2e_stream (protect c) (check c) (ms @ ms') s r"
  define p1 p2 where "p1 = take (length (arrived ms)) ps" and "p2 = drop (length (arrived ms)) ps"
  have "map (\<lambda>p. p = E2E_P_ERROR) ps = map (\<lambda>f. f \<noteq> Intact) (arrived ms) @ map (\<lambda>f. f \<noteq> Intact) (arrived ms')"
    using stream_errors [OF assms s ok, of r] by (simp add: ps_def arrived_def)
  then have p1: "map (\<lambda>p. p = E2E_P_ERROR) p1 = map (\<lambda>f. f \<noteq> Intact) (arrived ms)"
    and p2: "map (\<lambda>p. p = E2E_P_ERROR) p2 = map (\<lambda>f. f \<noteq> Intact) (arrived ms')"
    by (simp_all add: p1_def p2_def flip: take_map drop_map)
  have "False \<in> set (map (\<lambda>f. f \<noteq> Intact) (arrived ms))" using one by force
  then obtain p where p: "p \<in> set p1" "p \<noteq> E2E_P_ERROR" unfolding p1 [symmetric] by auto
  then have "p \<noteq> E2E_P_NONEWDATA"
    using stream_new_data [OF assms, of "ms @ ms'" s r] in_set_takeD unfolding p1_def ps_def by fastforce
  moreover have "length p2 = unat (WindowSize cfg)" using n arg_cong [OF p2, of length] by simp
  moreover have "WindowSize cfg > 0" using ready by (auto simp: sm_ready_def)
  ultimately obtain m where m: "fst (foldl (sm_spec cfg) (sm_spec_init cfg) (p1 @ p2)) = sm_decide cfg m p2"
    using sm_last_window p by blast
  have "length (filter (\<lambda>b. b) (map (\<lambda>p. p = E2E_P_ERROR) p2)) = length (filter (\<lambda>b. b) (map (\<lambda>f. f \<noteq> Intact) (arrived ms')))"
    unfolding p2 ..
  then have "occ E2E_P_ERROR p2 > max_errors cfg" using many by (simp add: occ_def filter_map o_def)
  then have "sm_decide cfg m p2 = E2E_SM_INVALID" by (rule sm_decide_invalid)
  with m show "map_option SMState (sm_run cfg (e2e_stream (protect c) (check c) (ms @ ms') s r) st) = Some E2E_SM_INVALID"
    unfolding sm_ready_run [OF ready] ps_def [symmetric] by (simp add: p1_def p2_def)
qed

end

context e2e_resync
begin

text \<open>The states after a part of the messages.\<close>

lemma stream_append:
  assumes "valid c" and "sender_ok c s" and "receiver_ok c r"
  shows "\<exists>s' r'. sender_ok c s' \<and> receiver_ok c r'
       \<and> e2e_stream (protect c) (check c) (ms @ ms') s r
           = e2e_stream (protect c) (check c) ms s r @ e2e_stream (protect c) (check c) ms' s' r'"
  using assms(2,3)
proof (induction ms arbitrary: s r)
  case (Cons m ms)
  obtain s1 d where p: "protect c s (fst m) = (s1, d)" by fastforce
  have s1: "sender_ok c s1" using sender [OF assms(1) Cons.prems(1), of "fst m"] p by simp
  have r1: "receiver_ok c (fst (check c r e))" for e by (rule receiver [OF assms(1) Cons.prems(2)])
  show ?case
    by (cases "snd m") (use Cons.IH [OF s1 Cons.prems(2)] Cons.IH [OF s1 r1] p in \<open>simp_all add: split_beta\<close>)
qed auto

lemma recovered_stream:
  assumes "valid c"
  shows "sender_ok c s \<Longrightarrow> receiver_ok c r \<Longrightarrow> lag c s r \<le> n \<Longrightarrow>
    \<exists>ps. length ps \<le> n
       \<and> e2e_stream (protect c) (check c) (map (\<lambda>d. (d, Intact)) ds) s r = ps @ replicate (length ds - length ps) E2E_P_OK"
proof (induction ds arbitrary: s r n)
  case (Cons d ds)
  show ?case
  proof (cases "synced c s r")
    case True
    have "e2e_stream (protect c) (check c) (map (\<lambda>d. (d, Intact)) (d # ds)) s r = replicate (length (d # ds)) E2E_P_OK"
      by (rule synced_stream [OF assms Cons.prems(1) True])
    then have "e2e_stream (protect c) (check c) (map (\<lambda>d. (d, Intact)) (d # ds)) s r
        = [] @ replicate (length (d # ds) - length []) E2E_P_OK" by simp
    then show ?thesis by (metis le0 list.size(3))
  next
    case False
    let ?s = "fst (protect c s d)" and ?r = "fst (check c r (snd (protect c s d)))" and ?p = "snd (check c r (snd (protect c s d)))"
    have lag: "lag c ?s ?r < n" using resync [OF assms Cons.prems(1,2) False, of d] Cons.prems(3) by linarith
    then obtain k where n: "n = Suc k" by (cases n) auto
    from lag Cons.IH [OF sender [OF assms Cons.prems(1), of d] receiver [OF assms Cons.prems(2)], of "snd (protect c s d)" k]
    obtain ps where "length ps \<le> k"
      "e2e_stream (protect c) (check c) (map (\<lambda>d. (d, Intact)) ds) ?s ?r = ps @ replicate (length ds - length ps) E2E_P_OK"
      unfolding n by auto
    then show ?thesis by (intro exI [of _ "?p # ps"]) (simp add: split_beta n)
  qed
qed simp

lemma channel_recovers:
  assumes "valid c"
  shows "recovers (bound c) (sender_ok c) (receiver_ok c) (protect c) (check c)"
  unfolding recovers_def
proof (intro allI impI)
  fix cfg :: E2E_SMConfigType and ds :: "byte_ptr list" and st ms s r
  let ?W = "unat (WindowSize cfg)" and ?ms = "map (\<lambda>d. (d, Intact)) ds"
  assume ready: "sm_ready cfg st" and s: "sender_ok c s" and r: "receiver_ok c r" and oks: "min_oks cfg \<le> ?W"
    and n: "length ds > bound c + ?W"
  obtain s' r' where s': "sender_ok c s'" and r': "receiver_ok c r'"
    and split: "e2e_stream (protect c) (check c) (ms @ ?ms) s r
        = e2e_stream (protect c) (check c) ms s r @ e2e_stream (protect c) (check c) ?ms s' r'"
    using stream_append [OF assms s r] by blast
  obtain ps where ps: "length ps \<le> bound c"
    and tail: "e2e_stream (protect c) (check c) ?ms s' r' = ps @ replicate (length ds - length ps) E2E_P_OK"
    using recovered_stream [OF assms s' r' lag_bound [OF assms r']] by blast
  define k where "k = length ds - length ps - ?W"
  have k: "k > 0" "length ds - length ps = k + ?W" using n ps by (simp_all add: k_def)
  define qs where "qs = e2e_stream (protect c) (check c) ms s r @ ps @ replicate k E2E_P_OK"
  have all: "e2e_stream (protect c) (check c) (ms @ ?ms) s r = qs @ replicate ?W E2E_P_OK"
    by (simp add: split tail k(2) qs_def replicate_add)
  have "E2E_P_OK \<in> set qs" using k(1) by (simp add: qs_def)
  moreover have "WindowSize cfg > 0" using ready by (auto simp: sm_ready_def)
  ultimately obtain m where "fst (foldl (sm_spec cfg) (sm_spec_init cfg) (qs @ replicate ?W E2E_P_OK))
      = sm_decide cfg m (replicate ?W E2E_P_OK)"
    using sm_last_window [of cfg E2E_P_OK qs "replicate ?W E2E_P_OK"] by auto
  then show "map_option SMState (sm_run cfg (e2e_stream (protect c) (check c) (ms @ ?ms) s r) st) = Some E2E_SM_VALID"
    unfolding sm_ready_run [OF ready] all by (simp add: sm_decide_valid [OF oks])
qed

end

end
