(* ===== verification/E2E_P01.thy ===== *)
theory E2E_P01
  imports E2E_Profile
begin

unbundle bit_operations_syntax

text \<open>
  Profile 1 of the end-to-end library, SafeLib/E2E/src/E2E\_P01.c: an 8 bit CRC and a counter of
  four bits at configured positions of the message; the CRC covers the data identifier, in one of
  four modes, and all other bytes. The counter takes the values 0 to 14.
\<close>

subsection \<open>Types\<close>

datatype E2E_P01CheckStatusType = E2E_P01STATUS_OK | E2E_P01STATUS_NONEWDATA | E2E_P01STATUS_WRONGCRC
  | E2E_P01STATUS_SYNC | E2E_P01STATUS_INITIAL | E2E_P01STATUS_REPEATED | E2E_P01STATUS_OKSOMELOST
  | E2E_P01STATUS_WRONGSEQUENCE

datatype E2E_P01DataIDMode = E2E_P01_DATAID_BOTH | E2E_P01_DATAID_ALT | E2E_P01_DATAID_LOW
  | E2E_P01_DATAID_NIBBLE

record E2E_P01ConfigType =
  P01_CounterOffset :: uint16
  P01_CRCOffset :: uint16
  P01_DataID :: uint16
  P01_DataIDNibbleOffset :: uint16
  P01_DataIDMode :: E2E_P01DataIDMode
  P01_DataLength :: uint16
  P01_MaxDeltaCounterInit :: uint8
  P01_MaxNoNewOrRepeatedData :: uint8
  P01_SyncCounterInit :: uint8

record E2E_P01ProtectStateType =
  P01Protect_Counter :: uint8

record E2E_P01CheckStateType =
  P01_LastValidCounter :: uint8
  P01_MaxDeltaCounter :: uint8
  P01_WaitForFirstData :: bool
  P01_NewDataAvailable :: bool
  P01_LostData :: uint8
  P01_Status :: E2E_P01CheckStatusType
  P01_SyncCounter :: uint8
  P01_NoNewOrRepeatedDataCounter :: uint8

subsection \<open>Common functions\<close>

definition MAX_P01_COUNTER_VALUE :: uint8 where "MAX_P01_COUNTER_VALUE = 14"

definition calculateDeltaCounterP01 :: "uint8 \<Rightarrow> uint8 \<Rightarrow> uint8" where
  "calculateDeltaCounterP01 receivedCounter lastValidCounter =
     (if receivedCounter \<ge> lastValidCounter then receivedCounter - lastValidCounter
      else MAX_P01_COUNTER_VALUE + 1 + receivedCounter - lastValidCounter)"

definition checkConfigP01 :: "E2E_P01ConfigType option \<Rightarrow> E2E_ReturnType" where
  "checkConfigP01 Config =
     (case Config of None \<Rightarrow> E2E_E_INPUTERR_NULL
      | Some cfg \<Rightarrow>
          if unat (P01_DataLength cfg) > 240 \<or> P01_DataLength cfg mod 8 \<noteq> 0
             \<or> P01_CounterOffset cfg mod 4 \<noteq> 0 \<or> P01_CRCOffset cfg mod 8 \<noteq> 0
          then E2E_E_INPUTERR_WRONG
          else if unat (P01_CRCOffset cfg) + 8 > unat (P01_DataLength cfg)
             \<or> unat (P01_CounterOffset cfg) + 4 > unat (P01_DataLength cfg)
             \<or> P01_CRCOffset cfg div 8 = P01_CounterOffset cfg div 8
          then E2E_E_INPUTERR_WRONG
          else if P01_DataIDMode cfg \<noteq> E2E_P01_DATAID_NIBBLE \<and> P01_DataIDNibbleOffset cfg \<noteq> 0 then E2E_E_INPUTERR_WRONG
          else if P01_DataIDMode cfg = E2E_P01_DATAID_LOW \<and> drop_bit 8 (P01_DataID cfg) \<noteq> 0 then E2E_E_INPUTERR_WRONG
          else if P01_DataIDMode cfg = E2E_P01_DATAID_NIBBLE \<and> drop_bit 12 (P01_DataID cfg) \<noteq> 0 then E2E_E_INPUTERR_WRONG
          else E2E_E_OK)"

definition calculateCrcP01 :: "Crc_Mode \<Rightarrow> E2E_P01ConfigType \<Rightarrow> uint8 \<Rightarrow> byte_ptr \<Rightarrow> uint8" where
  "calculateCrcP01 mode cfg Counter d =
     (let crc = 0x00 XOR Crc_8_Xor;
          lowerByteId = ucast (P01_DataID cfg);
          upperByteId = ucast (drop_bit 8 (P01_DataID cfg));
          crc = (case P01_DataIDMode cfg of
                   E2E_P01_DATAID_BOTH \<Rightarrow>
                     Crc_CalculateCRC8 mode (Some (\<lambda>_. upperByteId)) 1
                       (Crc_CalculateCRC8 mode (Some (\<lambda>_. lowerByteId)) 1 crc False) False
                 | E2E_P01_DATAID_LOW \<Rightarrow> Crc_CalculateCRC8 mode (Some (\<lambda>_. lowerByteId)) 1 crc False
                 | E2E_P01_DATAID_NIBBLE \<Rightarrow>
                     Crc_CalculateCRC8 mode (Some (\<lambda>_. 0)) 1
                       (Crc_CalculateCRC8 mode (Some (\<lambda>_. lowerByteId)) 1 crc False) False
                 | E2E_P01_DATAID_ALT \<Rightarrow>
                     if Counter mod 2 = 0 then Crc_CalculateCRC8 mode (Some (\<lambda>_. lowerByteId)) 1 crc False
                     else Crc_CalculateCRC8 mode (Some (\<lambda>_. upperByteId)) 1 crc False);
          CRCByte = unat (P01_CRCOffset cfg) div 8;
          DataBytes = unat (P01_DataLength cfg) div 8;
          crc = (if P01_CRCOffset cfg \<ge> 8 then Crc_CalculateCRC8 mode (Some d) (of_nat CRCByte) crc False else crc);
          crc = (if int CRCByte < int DataBytes - 1
                 then Crc_CalculateCRC8 mode (Some (\<lambda>i. d (CRCByte + 1 + i))) (of_nat (DataBytes - CRCByte - 1)) crc False
                 else crc)
      in crc XOR Crc_8_Xor)"

subsection \<open>Sender\<close>

definition E2E_P01Protect :: "Crc_Mode \<Rightarrow> E2E_P01ConfigType option \<Rightarrow> E2E_P01ProtectStateType option
    \<Rightarrow> byte_ptr option \<Rightarrow> E2E_ReturnType \<times> E2E_P01ProtectStateType option \<times> byte_ptr option" where
  "E2E_P01Protect mode ConfigPtr StatePtr DataPtr =
     (let returnValue = checkConfigP01 ConfigPtr
      in if returnValue \<noteq> E2E_E_OK then (returnValue, StatePtr, DataPtr)
         else if StatePtr = None \<or> DataPtr = None then (E2E_E_INPUTERR_NULL, StatePtr, DataPtr)
         else (let cfg = the ConfigPtr; st = the StatePtr; d = the DataPtr;
                   c = unat (P01_CounterOffset cfg) div 8;
                   d = (if P01_CounterOffset cfg mod 8 = 0
                        then d(c := (d c AND 0xF0) OR (P01Protect_Counter st AND 0x0F))
                        else d(c := (d c AND 0x0F) OR (push_bit 4 (P01Protect_Counter st) AND 0xF0)));
                   n = unat (P01_DataIDNibbleOffset cfg) div 8;
                   d = (if P01_DataIDMode cfg = E2E_P01_DATAID_NIBBLE
                        then (if P01_DataIDNibbleOffset cfg mod 8 = 0
                              then d(n := (d n AND 0xF0) OR ucast (drop_bit 8 (P01_DataID cfg) AND 0x0F))
                              else d(n := (d n AND 0x0F) OR ucast (drop_bit 4 (P01_DataID cfg) AND 0xF0)))
                        else d);
                   d = d(unat (P01_CRCOffset cfg) div 8 := calculateCrcP01 mode cfg (P01Protect_Counter st) d);
                   st = st\<lparr>P01Protect_Counter := of_nat ((unat (P01Protect_Counter st) + 1) mod 15)\<rparr>
               in (E2E_E_OK, Some st, Some d)))"

definition E2E_P01ProtectInit :: "E2E_P01ProtectStateType option \<Rightarrow> E2E_ReturnType \<times> E2E_P01ProtectStateType option" where
  "E2E_P01ProtectInit StatePtr =
     (case StatePtr of None \<Rightarrow> (E2E_E_INPUTERR_NULL, None)
      | Some st \<Rightarrow> (E2E_E_OK, Some (st\<lparr>P01Protect_Counter := 0\<rparr>)))"

subsection \<open>Receiver\<close>

definition readCounterP01 :: "E2E_P01ConfigType \<Rightarrow> byte_ptr \<Rightarrow> uint8" where
  "readCounterP01 cfg d =
     (if P01_CounterOffset cfg mod 8 = 0 then d (unat (P01_CounterOffset cfg) div 8) AND 0x0F
      else drop_bit 4 (d (unat (P01_CounterOffset cfg) div 8)) AND 0x0F)"

definition readDataIDNibbleOffsetP01 :: "E2E_P01ConfigType \<Rightarrow> byte_ptr \<Rightarrow> uint8" where
  "readDataIDNibbleOffsetP01 cfg d =
     (if P01_DataIDMode cfg = E2E_P01_DATAID_NIBBLE
      then (if P01_DataIDNibbleOffset cfg mod 8 = 0 then d (unat (P01_DataIDNibbleOffset cfg) div 8) AND 0x0F
            else drop_bit 4 (d (unat (P01_DataIDNibbleOffset cfg) div 8)) AND 0x0F)
      else 0)"

definition isFirstDataSinceInitialisationP01 :: "E2E_P01ConfigType \<Rightarrow> E2E_P01CheckStateType \<Rightarrow> uint8
    \<Rightarrow> bool \<times> E2E_P01CheckStateType" where
  "isFirstDataSinceInitialisationP01 cfg st receivedCounter =
     (if P01_WaitForFirstData st
      then (True, st\<lparr>P01_WaitForFirstData := False, P01_MaxDeltaCounter := P01_MaxDeltaCounterInit cfg,
                     P01_LastValidCounter := receivedCounter, P01_Status := E2E_P01STATUS_INITIAL\<rparr>)
      else (False, st))"

definition isCheckOfReceivedDataNotOkP01 :: "E2E_P01ConfigType \<Rightarrow> E2E_P01CheckStateType \<Rightarrow> uint8 \<Rightarrow> uint8 \<Rightarrow> uint8
    \<Rightarrow> uint8 \<Rightarrow> bool \<times> E2E_P01CheckStateType" where
  "isCheckOfReceivedDataNotOkP01 cfg st receivedCounter receivedCrc calculatedCrc receivedDataIDNibble =
     (if receivedCrc \<noteq> calculatedCrc
         \<or> P01_DataIDMode cfg = E2E_P01_DATAID_NIBBLE \<and> ucast receivedDataIDNibble \<noteq> drop_bit 8 (P01_DataID cfg)
      then (True, st\<lparr>P01_Status := E2E_P01STATUS_WRONGCRC\<rparr>)
      else isFirstDataSinceInitialisationP01 cfg st receivedCounter)"

text \<open>What two of its branches share: synchronisation, or \<open>good\<close> outside of it.\<close>

definition sync_P01 :: "E2E_P01ConfigType \<Rightarrow> E2E_P01CheckStatusType \<Rightarrow> E2E_P01CheckStateType \<Rightarrow> E2E_P01CheckStateType" where
  "sync_P01 cfg good st =
     (if P01_NoNewOrRepeatedDataCounter st \<le> P01_MaxNoNewOrRepeatedData cfg
      then (let st = st\<lparr>P01_NoNewOrRepeatedDataCounter := 0\<rparr>
            in if P01_SyncCounter st > 0
               then st\<lparr>P01_SyncCounter := P01_SyncCounter st - 1, P01_Status := E2E_P01STATUS_SYNC\<rparr>
               else st\<lparr>P01_Status := good\<rparr>)
      else st\<lparr>P01_NoNewOrRepeatedDataCounter := 0, P01_SyncCounter := P01_SyncCounterInit cfg,
              P01_Status := E2E_P01STATUS_SYNC\<rparr>)"

definition doChecksP01 :: "E2E_P01ConfigType \<Rightarrow> E2E_P01CheckStateType \<Rightarrow> uint8 \<Rightarrow> E2E_P01CheckStateType" where
  "doChecksP01 cfg st receivedCounter =
     (let delta = calculateDeltaCounterP01 receivedCounter (P01_LastValidCounter st)
      in if delta = 0
         then (let st = (if P01_NoNewOrRepeatedDataCounter st < MAX_P01_COUNTER_VALUE
                         then st\<lparr>P01_NoNewOrRepeatedDataCounter := P01_NoNewOrRepeatedDataCounter st + 1\<rparr> else st)
               in st\<lparr>P01_Status := E2E_P01STATUS_REPEATED\<rparr>)
         else if delta = 1
         then sync_P01 cfg E2E_P01STATUS_OK
                (st\<lparr>P01_MaxDeltaCounter := P01_MaxDeltaCounterInit cfg, P01_LastValidCounter := receivedCounter,
                    P01_LostData := 0\<rparr>)
         else if delta \<le> P01_MaxDeltaCounter st
         then sync_P01 cfg E2E_P01STATUS_OKSOMELOST
                (st\<lparr>P01_MaxDeltaCounter := P01_MaxDeltaCounterInit cfg, P01_LastValidCounter := receivedCounter,
                    P01_LostData := delta - 1\<rparr>)
         else (let st = st\<lparr>P01_NoNewOrRepeatedDataCounter := 0, P01_SyncCounter := P01_SyncCounterInit cfg\<rparr>;
                   st = (if P01_SyncCounter st > 0
                         then st\<lparr>P01_MaxDeltaCounter := P01_MaxDeltaCounterInit cfg,
                                 P01_LastValidCounter := receivedCounter\<rparr> else st)
               in st\<lparr>P01_Status := E2E_P01STATUS_WRONGSEQUENCE\<rparr>))"

definition E2E_P01Check :: "Crc_Mode \<Rightarrow> E2E_P01ConfigType option \<Rightarrow> E2E_P01CheckStateType option
    \<Rightarrow> byte_ptr option \<Rightarrow> E2E_ReturnType \<times> E2E_P01CheckStateType option" where
  "E2E_P01Check mode ConfigPtr StatePtr DataPtr =
     (let returnValue = checkConfigP01 ConfigPtr
      in if returnValue \<noteq> E2E_E_OK then (returnValue, StatePtr)
         else if StatePtr = None \<or> DataPtr = None then (E2E_E_INPUTERR_NULL, StatePtr)
         else (let cfg = the ConfigPtr; st = the StatePtr; d = the DataPtr;
                   st = (if P01_MaxDeltaCounter st < MAX_P01_COUNTER_VALUE
                         then st\<lparr>P01_MaxDeltaCounter := P01_MaxDeltaCounter st + 1\<rparr> else st)
               in if \<not> P01_NewDataAvailable st
                  then (let st = (if P01_NoNewOrRepeatedDataCounter st < MAX_P01_COUNTER_VALUE
                                  then st\<lparr>P01_NoNewOrRepeatedDataCounter := P01_NoNewOrRepeatedDataCounter st + 1\<rparr>
                                  else st)
                        in (E2E_E_OK, Some (st\<lparr>P01_Status := E2E_P01STATUS_NONEWDATA\<rparr>)))
                  else (let receivedCounter = readCounterP01 cfg d
                        in if receivedCounter > MAX_P01_COUNTER_VALUE then (E2E_E_INPUTERR_WRONG, Some st)
                           else (let receivedCrc = d (unat (P01_CRCOffset cfg) div 8);
                                     receivedDataIDNibble = readDataIDNibbleOffsetP01 cfg d;
                                     calculatedCrc = calculateCrcP01 mode cfg receivedCounter d
                                 in (case isCheckOfReceivedDataNotOkP01 cfg st receivedCounter receivedCrc
                                            calculatedCrc receivedDataIDNibble of
                                       (True, st) \<Rightarrow> (E2E_E_OK, Some st)
                                     | (False, st) \<Rightarrow> (E2E_E_OK, Some (doChecksP01 cfg st receivedCounter)))))))"

definition E2E_P01CheckInit :: "E2E_P01CheckStateType option \<Rightarrow> E2E_ReturnType \<times> E2E_P01CheckStateType option" where
  "E2E_P01CheckInit StatePtr =
     (case StatePtr of None \<Rightarrow> (E2E_E_INPUTERR_NULL, None)
      | Some st \<Rightarrow>
          (E2E_E_OK, Some (st\<lparr>P01_LastValidCounter := 0, P01_MaxDeltaCounter := 0, P01_WaitForFirstData := True,
                              P01_NewDataAvailable := False, P01_LostData := 0, P01_Status := E2E_P01STATUS_NONEWDATA,
                              P01_SyncCounter := 0, P01_NoNewOrRepeatedDataCounter := 0\<rparr>)))"

definition doE2E_P01MapStatusToSM_TRUE :: "E2E_P01CheckStatusType \<Rightarrow> E2E_PCheckStatusType" where
  "doE2E_P01MapStatusToSM_TRUE Status =
     (case Status of
        E2E_P01STATUS_OK \<Rightarrow> E2E_P_OK
      | E2E_P01STATUS_OKSOMELOST \<Rightarrow> E2E_P_OK
      | E2E_P01STATUS_SYNC \<Rightarrow> E2E_P_OK
      | E2E_P01STATUS_REPEATED \<Rightarrow> E2E_P_REPEATED
      | E2E_P01STATUS_NONEWDATA \<Rightarrow> E2E_P_NONEWDATA
      | E2E_P01STATUS_WRONGSEQUENCE \<Rightarrow> E2E_P_WRONGSEQUENCE
      | E2E_P01STATUS_INITIAL \<Rightarrow> E2E_P_WRONGSEQUENCE
      | E2E_P01STATUS_WRONGCRC \<Rightarrow> E2E_P_ERROR)"

definition doE2E_P01MapStatusToSM_FALSE :: "E2E_P01CheckStatusType \<Rightarrow> E2E_PCheckStatusType" where
  "doE2E_P01MapStatusToSM_FALSE Status =
     (case Status of
        E2E_P01STATUS_OK \<Rightarrow> E2E_P_OK
      | E2E_P01STATUS_OKSOMELOST \<Rightarrow> E2E_P_OK
      | E2E_P01STATUS_INITIAL \<Rightarrow> E2E_P_OK
      | E2E_P01STATUS_REPEATED \<Rightarrow> E2E_P_REPEATED
      | E2E_P01STATUS_NONEWDATA \<Rightarrow> E2E_P_NONEWDATA
      | E2E_P01STATUS_WRONGSEQUENCE \<Rightarrow> E2E_P_WRONGSEQUENCE
      | E2E_P01STATUS_SYNC \<Rightarrow> E2E_P_WRONGSEQUENCE
      | E2E_P01STATUS_WRONGCRC \<Rightarrow> E2E_P_ERROR)"

definition E2E_P01MapStatusToSM :: "E2E_ReturnType \<Rightarrow> E2E_P01CheckStatusType \<Rightarrow> bool \<Rightarrow> E2E_PCheckStatusType" where
  "E2E_P01MapStatusToSM CheckReturn Status profileBehavior =
     (if CheckReturn \<noteq> E2E_E_OK then E2E_P_ERROR
      else if profileBehavior then doE2E_P01MapStatusToSM_TRUE Status
      else doE2E_P01MapStatusToSM_FALSE Status)"

subsection \<open>Correctness\<close>

text \<open>
  A configuration with the CRC mode and the choice of the mapping to the state machine. The
  position of the identifier's nibble is not checked by the code; it must lie inside the message,
  outside the byte of the CRC and apart from the counter.
\<close>

type_synonym P01_cfg = "Crc_Mode \<times> E2E_P01ConfigType \<times> bool"

definition P01_nibble_ok :: "E2E_P01ConfigType \<Rightarrow> bool" where
  "P01_nibble_ok cfg \<longleftrightarrow>
     P01_DataIDMode cfg = E2E_P01_DATAID_NIBBLE \<longrightarrow>
       P01_DataIDNibbleOffset cfg mod 4 = 0
       \<and> unat (P01_DataIDNibbleOffset cfg) div 8 < unat (P01_DataLength cfg) div 8
       \<and> P01_DataIDNibbleOffset cfg div 8 \<noteq> P01_CRCOffset cfg div 8
       \<and> P01_DataIDNibbleOffset cfg \<noteq> P01_CounterOffset cfg"

fun P01_valid :: "P01_cfg \<Rightarrow> bool" where
  "P01_valid (mode, cfg, b) \<longleftrightarrow> checkConfigP01 (Some cfg) = E2E_E_OK \<and> P01_nibble_ok cfg"

fun P01_size :: "P01_cfg \<Rightarrow> nat" where
  "P01_size (mode, cfg, b) = unat (P01_DataLength cfg) div 8"

definition P01_crc_pos :: "P01_cfg \<Rightarrow> nat" where
  "P01_crc_pos c = unat (P01_CRCOffset (fst (snd c))) div 8"

definition P01_counter_pos :: "P01_cfg \<Rightarrow> nat" where
  "P01_counter_pos c = unat (P01_CounterOffset (fst (snd c))) div 8"

definition P01_nibble_pos :: "P01_cfg \<Rightarrow> nat" where
  "P01_nibble_pos c = unat (P01_DataIDNibbleOffset (fst (snd c))) div 8"

definition P01_header :: "P01_cfg \<Rightarrow> nat set" where
  "P01_header c = {P01_crc_pos c, P01_counter_pos c}
     \<union> (if P01_DataIDMode (fst (snd c)) = E2E_P01_DATAID_NIBBLE then {P01_nibble_pos c} else {})"

text \<open>With alternating identifiers a changed counter also changes the identifier in the CRC.\<close>

definition P01_covers :: "P01_cfg \<Rightarrow> nat \<Rightarrow> uint8 \<Rightarrow> bool" where
  "P01_covers c k x \<longleftrightarrow> P01_DataIDMode (fst (snd c)) = E2E_P01_DATAID_ALT \<longrightarrow> k \<noteq> P01_counter_pos c"

definition P01_sender_ok :: "P01_cfg \<Rightarrow> E2E_P01ProtectStateType \<Rightarrow> bool" where
  "P01_sender_ok c s \<longleftrightarrow> P01Protect_Counter s < 15"

fun P01_send :: "P01_cfg \<Rightarrow> E2E_P01ProtectStateType \<Rightarrow> byte_ptr \<Rightarrow> E2E_P01ProtectStateType \<times> byte_ptr" where
  "P01_send (mode, cfg, b) s d =
     (case E2E_P01Protect mode (Some cfg) (Some s) (Some d) of (_, s', d') \<Rightarrow> (the s', the d'))"

text \<open>The receiver marks new data as available before the check.\<close>

fun P01_receive :: "P01_cfg \<Rightarrow> E2E_P01CheckStateType \<Rightarrow> byte_ptr \<Rightarrow> E2E_P01CheckStateType \<times> E2E_PCheckStatusType" where
  "P01_receive (mode, cfg, b) r d =
     (case E2E_P01Check mode (Some cfg) (Some (r\<lparr>P01_NewDataAvailable := True\<rparr>)) (Some d) of
        (ret, r') \<Rightarrow> (the r', E2E_P01MapStatusToSM ret (P01_Status (the r')) b))"

definition P01_next :: "uint8 \<Rightarrow> uint8" where
  "P01_next n = of_nat ((unat n + 1) mod 15)"

definition P01_synced :: "P01_cfg \<Rightarrow> E2E_P01ProtectStateType \<Rightarrow> E2E_P01CheckStateType \<Rightarrow> bool" where
  "P01_synced c s r \<longleftrightarrow>
     \<not> P01_WaitForFirstData r \<and> P01_SyncCounter r = 0 \<and> P01_LastValidCounter r < 15
     \<and> P01Protect_Counter s = P01_next (P01_LastValidCounter r)
     \<and> P01_NoNewOrRepeatedDataCounter r \<le> P01_MaxNoNewOrRepeatedData (fst (snd c))"

subsubsection \<open>Nibbles of a message\<close>

definition get_nibble :: "uint16 \<Rightarrow> byte_ptr \<Rightarrow> uint8" where
  "get_nibble off d =
     (if off mod 8 = 0 then d (unat off div 8) AND 0x0F else drop_bit 4 (d (unat off div 8)) AND 0x0F)"

definition put_nibble :: "uint16 \<Rightarrow> uint8 \<Rightarrow> byte_ptr \<Rightarrow> byte_ptr" where
  "put_nibble off v d =
     (if off mod 8 = 0 then d(unat off div 8 := (d (unat off div 8) AND 0xF0) OR (v AND 0x0F))
      else d(unat off div 8 := (d (unat off div 8) AND 0x0F) OR (push_bit 4 v AND 0xF0)))"

lemma put_nibble_byte:
  "off mod 8 = 0 \<Longrightarrow> put_nibble off v d (unat off div 8) AND 0xF = v AND 0xF"
  "off mod 8 = 0 \<Longrightarrow> drop_bit 4 (put_nibble off v d (unat off div 8)) AND 0xF = drop_bit 4 (d (unat off div 8)) AND 0xF"
  "off mod 8 \<noteq> 0 \<Longrightarrow> drop_bit 4 (put_nibble off v d (unat off div 8)) AND 0xF = v AND 0xF"
  "off mod 8 \<noteq> 0 \<Longrightarrow> put_nibble off v d (unat off div 8) AND 0xF = d (unat off div 8) AND 0xF"
  unfolding put_nibble_def by (simp_all only: if_True if_False simp_thms fun_upd_same low_nibble high_nibble)

lemma get_put_nibble: "get_nibble off (put_nibble off v d) = v AND 0xF"
  by (simp add: get_nibble_def put_nibble_byte)

lemma put_nibble_other: "i \<noteq> unat off div 8 \<Longrightarrow> put_nibble off v d i = d i"
  by (simp add: put_nibble_def)

lemma get_nibble_cong: "d (unat off div 8) = e (unat off div 8) \<Longrightarrow> get_nibble off d = get_nibble off e"
  by (simp add: get_nibble_def)

lemma mod_word_unat: "x mod 8 = 0 \<longleftrightarrow> unat x mod 8 = 0" "x mod 4 = 0 \<longleftrightarrow> unat x mod 4 = 0" for x :: uint16
proof -
  have "unat (x mod 8) = unat x mod 8" "unat (x mod 4) = unat x mod 4" by (simp_all add: unat_mod)
  then show "x mod 8 = 0 \<longleftrightarrow> unat x mod 8 = 0" "x mod 4 = 0 \<longleftrightarrow> unat x mod 4 = 0"
    by (metis unsigned_0 unsigned_word_eqI)+
qed

lemma get_put_nibble_other:
  assumes "off \<noteq> off'" and "off mod 4 = 0" and "off' mod 4 = 0"
  shows "get_nibble off' (put_nibble off v d) = get_nibble off' d"
proof (cases "unat off div 8 = unat off' div 8")
  case True
  have "unat off \<noteq> unat off'" using assms(1) by (metis unsigned_word_eqI)
  moreover have "unat off mod 8 = 0 \<or> unat off mod 8 = 4" "unat off' mod 8 = 0 \<or> unat off' mod 8 = 4"
    using assms(2,3) unfolding mod_word_unat by presburger+
  ultimately have "off mod 8 = 0 \<longleftrightarrow> off' mod 8 \<noteq> 0"
    using True unfolding mod_word_unat by (metis div_mod_decomp)
  with True show ?thesis
    by (simp add: get_nibble_def flip: True) (simp add: put_nibble_byte)
next
  case False
  then show ?thesis by (intro get_nibble_cong) (simp add: put_nibble_other)
qed

lemma id_nibble:
  "ucast (drop_bit 8 i AND 0x0F) = (ucast (drop_bit 8 i) AND 0x0F :: uint8)"
  "ucast (drop_bit 4 i AND 0xF0) = (push_bit 4 (ucast (drop_bit 8 i)) AND 0xF0 :: uint8)" for i :: uint16
proof -
  have m: "(0xF :: uint16) = mask 4" "(0xF0 :: uint16) = push_bit 4 (mask 4)"
    by (simp_all add: mask_eq_exp_minus_1 push_bit_eq_mult)
  show "ucast (drop_bit 8 i AND 0x0F) = (ucast (drop_bit 8 i) AND 0x0F :: uint8)"
    "ucast (drop_bit 4 i AND 0xF0) = (push_bit 4 (ucast (drop_bit 8 i)) AND 0xF0 :: uint8)"
    unfolding m nibble_masks by (rule bit_word_eqI; auto simp: bit_simps bit_ucast_iff)+
qed

lemma id_nibble_read:
  fixes i :: uint16
  assumes "drop_bit 12 i = 0"
  shows "ucast (ucast (drop_bit 8 i) AND 0x0F :: uint8) = drop_bit 8 i"
proof (rule bit_word_eqI)
  fix k
  assume "k < LENGTH(16)"
  have "bit (drop_bit 12 i) (k - 4) = False" using assms by simp
  then show "bit (ucast (ucast (drop_bit 8 i) AND 0x0F :: uint8) :: uint16) k = bit (drop_bit 8 i) k"
    unfolding nibble_masks by (cases "k < 4") (auto simp: bit_simps bit_ucast_iff)
qed

subsubsection \<open>The checksum\<close>

definition P01_ids :: "E2E_P01ConfigType \<Rightarrow> uint8 \<Rightarrow> uint8 list" where
  "P01_ids cfg n =
     (case P01_DataIDMode cfg of
        E2E_P01_DATAID_BOTH \<Rightarrow> [ucast (P01_DataID cfg), ucast (drop_bit 8 (P01_DataID cfg))]
      | E2E_P01_DATAID_LOW \<Rightarrow> [ucast (P01_DataID cfg)]
      | E2E_P01_DATAID_NIBBLE \<Rightarrow> [ucast (P01_DataID cfg), 0]
      | E2E_P01_DATAID_ALT \<Rightarrow> if n mod 2 = 0 then [ucast (P01_DataID cfg)] else [ucast (drop_bit 8 (P01_DataID cfg))])"

lemma div8_less:
  assumes "(a::nat) < b" and "b mod 8 = 0"
  shows "a div 8 < b div 8"
proof (rule less_mult_imp_div_less)
  have "b = b div 8 * 8"
    using assms(2) div_mult_mod_eq [of b 8] by linarith
  then show "a < b div 8 * 8"
    using assms(1) by linarith
qed

lemma P01_config:
  assumes "P01_valid c"
  shows "P01_crc_pos c < P01_size c" and "P01_counter_pos c < P01_size c" and "P01_crc_pos c \<noteq> P01_counter_pos c"
    and "P01_size c \<le> 30" and "P01_CounterOffset (fst (snd c)) mod 4 = 0"
    and "P01_DataIDMode (fst (snd c)) = E2E_P01_DATAID_NIBBLE \<Longrightarrow>
      P01_nibble_pos c < P01_size c \<and> P01_nibble_pos c \<noteq> P01_crc_pos c
      \<and> P01_DataIDNibbleOffset (fst (snd c)) \<noteq> P01_CounterOffset (fst (snd c))
      \<and> P01_DataIDNibbleOffset (fst (snd c)) mod 4 = 0 \<and> drop_bit 12 (P01_DataID (fst (snd c))) = 0"
proof -
  obtain mode cfg b where c: "c = (mode, cfg, b)" by (cases c)
  have *: "unat (P01_DataLength cfg) \<le> 240" "unat (P01_CRCOffset cfg) + 8 \<le> unat (P01_DataLength cfg)"
      "unat (P01_CounterOffset cfg) + 4 \<le> unat (P01_DataLength cfg)" "P01_CounterOffset cfg mod 4 = 0"
      "P01_CRCOffset cfg div 8 \<noteq> P01_CounterOffset cfg div 8" "unat (P01_DataLength cfg) mod 8 = 0"
      "P01_DataIDMode cfg = E2E_P01_DATAID_NIBBLE \<Longrightarrow> drop_bit 12 (P01_DataID cfg) = 0"
    using assms c mod_word_unat(1) [of "P01_DataLength cfg"] by (auto simp: checkConfigP01_def split: if_splits)
  have div: "x div 8 = y div 8 \<longleftrightarrow> unat x div 8 = unat y div 8" for x y :: uint16
  proof -
    have "unat (x div 8) = unat x div 8" "unat (y div 8) = unat y div 8" by (simp_all add: unat_div)
    then show ?thesis by (metis unsigned_word_eqI)
  qed
  show "P01_crc_pos c < P01_size c" "P01_size c \<le> 30" using * by (simp_all add: c P01_crc_pos_def)
  show "P01_counter_pos c < P01_size c" using div8_less [of "unat (P01_CounterOffset cfg)"] *(3,6) by (simp add: c P01_counter_pos_def)
  show "P01_crc_pos c \<noteq> P01_counter_pos c" using *(5) div by (simp add: c P01_crc_pos_def P01_counter_pos_def)
  show "P01_CounterOffset (fst (snd c)) mod 4 = 0" using *(4) by (simp add: c)
  show "P01_DataIDMode (fst (snd c)) = E2E_P01_DATAID_NIBBLE \<Longrightarrow>
      P01_nibble_pos c < P01_size c \<and> P01_nibble_pos c \<noteq> P01_crc_pos c
      \<and> P01_DataIDNibbleOffset (fst (snd c)) \<noteq> P01_CounterOffset (fst (snd c))
      \<and> P01_DataIDNibbleOffset (fst (snd c)) mod 4 = 0 \<and> drop_bit 12 (P01_DataID (fst (snd c))) = 0"
    using assms *(7) div by (simp add: c P01_nibble_ok_def P01_nibble_pos_def P01_crc_pos_def)
qed

text \<open>One further call of the CRC library, on a register \<open>w\<close> behind the final inversion.\<close>

lemma Crc8_continue:
  "Crc_CalculateCRC8 mode (Some p) len (w XOR 0xFF) False = foldl crc8.byte_step w (read_bytes p (unat len)) XOR 0xFF"
  unfolding Crc_CalculateCRC8_fold by (simp add: xor.assoc)

lemma P01_crc_ids:
  "(case P01_DataIDMode cfg of
      E2E_P01_DATAID_BOTH \<Rightarrow>
        Crc_CalculateCRC8 mode (Some (\<lambda>_. ucast (drop_bit 8 (P01_DataID cfg)))) 1
          (Crc_CalculateCRC8 mode (Some (\<lambda>_. ucast (P01_DataID cfg))) 1 (0 XOR 0xFF) False) False
    | E2E_P01_DATAID_LOW \<Rightarrow> Crc_CalculateCRC8 mode (Some (\<lambda>_. ucast (P01_DataID cfg))) 1 (0 XOR 0xFF) False
    | E2E_P01_DATAID_NIBBLE \<Rightarrow>
        Crc_CalculateCRC8 mode (Some (\<lambda>_. 0)) 1
          (Crc_CalculateCRC8 mode (Some (\<lambda>_. ucast (P01_DataID cfg))) 1 (0 XOR 0xFF) False) False
    | E2E_P01_DATAID_ALT \<Rightarrow>
        if n mod 2 = 0 then Crc_CalculateCRC8 mode (Some (\<lambda>_. ucast (P01_DataID cfg))) 1 (0 XOR 0xFF) False
        else Crc_CalculateCRC8 mode (Some (\<lambda>_. ucast (drop_bit 8 (P01_DataID cfg)))) 1 (0 XOR 0xFF) False)
   = foldl crc8.byte_step 0 (P01_ids cfg n) XOR 0xFF"
  unfolding Crc8_continue unat_1 read_one P01_ids_def
  by (cases "P01_DataIDMode cfg") (simp_all only: E2E_P01DataIDMode.case foldl_Cons foldl_Nil split: if_split, simp_all)

lemma P01_crc_around:
  assumes "P01_valid c"
  shows "calculateCrcP01 (fst c) (fst (snd c)) n d
       = foldl crc8.byte_step 0 (P01_ids (fst (snd c)) n @ around d (P01_crc_pos c) (P01_crc_pos c + 1) (P01_size c))"
proof -
  obtain mode cfg b where c: "c = (mode, cfg, b)" by (cases c)
  define p where "p = unat (P01_CRCOffset cfg) div 8"
  define m where "m = unat (P01_DataLength cfg) div 8"
  have pm: "p < m" "m \<le> 30" using P01_config(1,4) [OF assms] by (simp_all add: c P01_crc_pos_def p_def m_def)
  have "P01_CRCOffset cfg \<ge> 8 \<longleftrightarrow> 8 \<le> unat (P01_CRCOffset cfg)" by (simp add: word_le_nat_alt)
  then have c8: "P01_CRCOffset cfg \<ge> 8 \<longleftrightarrow> p \<noteq> 0" unfolding p_def by presburger
  have before: "(if P01_CRCOffset cfg \<ge> 8 then Crc_CalculateCRC8 mode (Some d) (of_nat p) (w XOR 0xFF) False else w XOR 0xFF)
      = foldl crc8.byte_step w (read_bytes d p) XOR 0xFF" for w
    using pm by (simp add: c8 Crc8_continue unat_small)
  have *: "unat (of_nat (m - p - 1) :: uint32) = m - (p + 1)"
    using pm unat_small [of "m - p - 1"] by simp
  have z: "int p < int m - 1 \<longleftrightarrow> m - (p + 1) \<noteq> 0" using pm by linarith
  have after: "(if int p < int m - 1 then Crc_CalculateCRC8 mode (Some e) (of_nat (m - p - 1)) (w XOR 0xFF) False else w XOR 0xFF)
      = foldl crc8.byte_step w (read_bytes e (m - (p + 1))) XOR 0xFF" for w e
    unfolding Crc8_continue * z by simp
  show ?thesis
    unfolding calculateCrcP01_def Let_def Crc_8_Xor_def c fst_conv snd_conv P01_crc_pos_def P01_size.simps
      P01_crc_ids p_def [symmetric] m_def [symmetric] before after around_def foldl_append
    by (simp add: xor.assoc)
qed

text \<open>The checksum for a fixed counter.\<close>

interpretation p01crc: e2e_crc "\<lambda>(c, n). P01_valid c" "\<lambda>(c, n). P01_size c" "\<lambda>(c, n). P01_crc_pos c" "\<lambda>(c, n). P01_crc_pos c + 1"
  "\<lambda>(c, n) d. calculateCrcP01 (fst c) (fst (snd c)) n d" "\<lambda>(c, n) d. d (P01_crc_pos c)"
proof
  fix cn :: "P01_cfg \<times> uint8" and d e :: byte_ptr and j :: nat and v :: uint8
  assume "case cn of (c, n) \<Rightarrow> P01_valid c"
  then obtain c n where cn: "cn = (c, n)" and valid: "P01_valid c" by (cases cn) auto
  show "(case cn of (c, n) \<Rightarrow> P01_crc_pos c) \<le> (case cn of (c, n) \<Rightarrow> P01_crc_pos c + 1)
      \<and> (case cn of (c, n) \<Rightarrow> P01_crc_pos c + 1) \<le> (case cn of (c, n) \<Rightarrow> P01_size c)"
    using P01_config(1) [OF valid] cn by simp
  show "(case cn of (c, n) \<Rightarrow> \<lambda>d. d (P01_crc_pos c)) d = (case cn of (c, n) \<Rightarrow> \<lambda>d. d (P01_crc_pos c)) e"
    if "\<And>i. (case cn of (c, n) \<Rightarrow> P01_crc_pos c) \<le> i \<Longrightarrow> i < (case cn of (c, n) \<Rightarrow> P01_crc_pos c + 1) \<Longrightarrow> d i = e i"
    using that [of "P01_crc_pos c"] by (simp add: cn)
  show "(case cn of (c, n) \<Rightarrow> \<lambda>d. d (P01_crc_pos c)) (d(k := v)) \<noteq> (case cn of (c, n) \<Rightarrow> \<lambda>d. d (P01_crc_pos c)) d"
    if "(case cn of (c, n) \<Rightarrow> P01_crc_pos c) \<le> k" "k < (case cn of (c, n) \<Rightarrow> P01_crc_pos c + 1)" "v \<noteq> d k" for k
  proof -
    have "k = P01_crc_pos c" using that(1,2) by (simp add: cn)
    with that(3) show ?thesis by (simp add: cn)
  qed
  show "(case cn of (c, n) \<Rightarrow> \<lambda>d. calculateCrcP01 (fst c) (fst (snd c)) n d) d
      = (case cn of (c, n) \<Rightarrow> \<lambda>d. calculateCrcP01 (fst c) (fst (snd c)) n d) e"
    if "around d (case cn of (c, n) \<Rightarrow> P01_crc_pos c) (case cn of (c, n) \<Rightarrow> P01_crc_pos c + 1) (case cn of (c, n) \<Rightarrow> P01_size c)
      = around e (case cn of (c, n) \<Rightarrow> P01_crc_pos c) (case cn of (c, n) \<Rightarrow> P01_crc_pos c + 1) (case cn of (c, n) \<Rightarrow> P01_size c)"
    using that by (simp add: cn P01_crc_around [OF valid])
  let ?a = "\<lambda>d. around d (P01_crc_pos c) (P01_crc_pos c + 1) (P01_size c)" and ?i = "length (P01_ids (fst (snd c)) n)"
  assume e: "around e (case cn of (c, n) \<Rightarrow> P01_crc_pos c) (case cn of (c, n) \<Rightarrow> P01_crc_pos c + 1) (case cn of (c, n) \<Rightarrow> P01_size c)
      = (around d (case cn of (c, n) \<Rightarrow> P01_crc_pos c) (case cn of (c, n) \<Rightarrow> P01_crc_pos c + 1) (case cn of (c, n) \<Rightarrow> P01_size c))[j := v]"
    and j: "j < length (around d (case cn of (c, n) \<Rightarrow> P01_crc_pos c) (case cn of (c, n) \<Rightarrow> P01_crc_pos c + 1) (case cn of (c, n) \<Rightarrow> P01_size c))"
    and v: "v \<noteq> around d (case cn of (c, n) \<Rightarrow> P01_crc_pos c) (case cn of (c, n) \<Rightarrow> P01_crc_pos c + 1) (case cn of (c, n) \<Rightarrow> P01_size c) ! j"
  have "P01_ids (fst (snd c)) n @ ?a e = (P01_ids (fst (snd c)) n @ ?a d)[?i + j := v]"
    using e by (simp add: cn list_update_append)
  then have "calculateCrcP01 (fst c) (fst (snd c)) n e \<noteq> calculateCrcP01 (fst c) (fst (snd c)) n d"
    unfolding P01_crc_around [OF valid]
    by (simp only:) (rule crc8.one_byte_detected_update, use j v cn in \<open>simp_all add: nth_append\<close>)
  then show "(case cn of (c, n) \<Rightarrow> \<lambda>d. calculateCrcP01 (fst c) (fst (snd c)) n d) e
      \<noteq> (case cn of (c, n) \<Rightarrow> \<lambda>d. calculateCrcP01 (fst c) (fst (snd c)) n d) d"
    by (simp add: cn)
qed

subsubsection \<open>Sender and receiver\<close>

definition P01_intact :: "P01_cfg \<Rightarrow> byte_ptr \<Rightarrow> bool" where
  "P01_intact c d \<longleftrightarrow>
     readCounterP01 (fst (snd c)) d < 15
     \<and> d (P01_crc_pos c) = calculateCrcP01 (fst c) (fst (snd c)) (readCounterP01 (fst (snd c)) d) d
     \<and> (P01_DataIDMode (fst (snd c)) = E2E_P01_DATAID_NIBBLE \<longrightarrow>
          ucast (readDataIDNibbleOffsetP01 (fst (snd c)) d) = drop_bit 8 (P01_DataID (fst (snd c))))"

lemma P01_next_less: "P01_next n < 15"
  by (simp add: P01_next_def word_less_nat_alt unat_of_nat)

lemma readCounterP01_nibble: "readCounterP01 cfg d = get_nibble (P01_CounterOffset cfg) d"
  by (simp add: readCounterP01_def get_nibble_def)

lemma P01_send_eq:
  assumes "P01_valid c"
  shows "fst (P01_send c s d) = s\<lparr>P01Protect_Counter := P01_next (P01Protect_Counter s)\<rparr>"
    and "i \<notin> P01_header c \<Longrightarrow> snd (P01_send c s d) i = d i"
    and "P01Protect_Counter s < 15 \<Longrightarrow> P01_intact c (snd (P01_send c s d))"
    and "P01Protect_Counter s < 15 \<Longrightarrow> readCounterP01 (fst (snd c)) (snd (P01_send c s d)) = P01Protect_Counter s"
proof -
  obtain mode cfg b where c: "c = (mode, cfg, b)" by (cases c)
  have sel: "fst c = mode" "fst (snd c) = cfg" by (simp_all add: c)
  note config = P01_config [OF assms]
  let ?n = "P01Protect_Counter s" and ?v = "ucast (drop_bit 8 (P01_DataID cfg)) :: uint8"
  define d1 where "d1 = put_nibble (P01_CounterOffset cfg) ?n d"
  define d2 where "d2 = (if P01_DataIDMode cfg = E2E_P01_DATAID_NIBBLE then put_nibble (P01_DataIDNibbleOffset cfg) ?v d1 else d1)"
  define e where "e = d2(P01_crc_pos c := calculateCrcP01 mode cfg ?n d2)"
  have send: "P01_send c s d = (s\<lparr>P01Protect_Counter := P01_next ?n\<rparr>, e)"
    using assms unfolding e_def d2_def d1_def put_nibble_def
    by (simp only: c P01_send.simps P01_valid.simps E2E_P01Protect_def Let_def P01_next_def P01_crc_pos_def id_nibble
        option.sel option.simps prod.case fst_conv snd_conv if_True if_False simp_thms)
  show "fst (P01_send c s d) = s\<lparr>P01Protect_Counter := P01_next ?n\<rparr>" by (simp add: send)
  have pos: "unat (P01_CounterOffset cfg) div 8 = P01_counter_pos c" "unat (P01_DataIDNibbleOffset cfg) div 8 = P01_nibble_pos c"
    by (simp_all add: P01_counter_pos_def P01_nibble_pos_def sel)
  show "i \<notin> P01_header c \<Longrightarrow> snd (P01_send c s d) i = d i"
    by (auto simp: send e_def d2_def d1_def P01_header_def sel put_nibble_other pos)
  have crc: "calculateCrcP01 mode cfg n (d2(P01_crc_pos c := v)) = calculateCrcP01 mode cfg n d2" for n v
    by (rule p01crc.computed_gap [of "(c, n)" "d2(P01_crc_pos c := v)" d2, unfolded prod.case sel]) (use assms in \<open>auto\<close>)
  have id: "get_nibble (P01_DataIDNibbleOffset cfg) e = ?v AND 0xF" if "P01_DataIDMode cfg = E2E_P01_DATAID_NIBBLE"
  proof -
    have "get_nibble (P01_DataIDNibbleOffset cfg) e = get_nibble (P01_DataIDNibbleOffset cfg) d2"
      using config(6) that sel by (intro get_nibble_cong) (simp add: e_def pos)
    then show ?thesis using that by (simp add: d2_def get_put_nibble)
  qed
  assume n: "?n < 15"
  have "get_nibble (P01_CounterOffset cfg) e = get_nibble (P01_CounterOffset cfg) d2"
    using config(3) by (intro get_nibble_cong) (simp add: e_def pos)
  also have "\<dots> = get_nibble (P01_CounterOffset cfg) d1"
    using config(5,6) sel by (simp add: d2_def get_put_nibble_other)
  also have "\<dots> = ?n" using n by (simp add: d1_def get_put_nibble small_nibble word_less_nat_alt)
  finally show counter: "readCounterP01 (fst (snd c)) (snd (P01_send c s d)) = ?n"
    by (simp add: send sel readCounterP01_nibble)
  have "ucast (readDataIDNibbleOffsetP01 cfg e) = drop_bit 8 (P01_DataID cfg)" if "P01_DataIDMode cfg = E2E_P01_DATAID_NIBBLE"
    using id [OF that] that config(6) sel by (simp add: readDataIDNibbleOffsetP01_def get_nibble_def id_nibble_read)
  then show "P01_intact c (snd (P01_send c s d))"
    using counter n crc unfolding P01_intact_def send sel snd_conv by (simp add: e_def)
qed

definition P01_after :: "P01_cfg \<Rightarrow> E2E_P01CheckStateType \<Rightarrow> uint8 \<Rightarrow> E2E_P01CheckStateType" where
  "P01_after c r n =
     (let cfg = fst (snd c);
          r = r\<lparr>P01_NewDataAvailable := True,
                P01_MaxDeltaCounter := P01_MaxDeltaCounter r + (if P01_MaxDeltaCounter r < 14 then 1 else 0)\<rparr>
      in if P01_WaitForFirstData r then snd (isFirstDataSinceInitialisationP01 cfg r n) else doChecksP01 cfg r n)"

lemma counter_limit: "n > 14 \<longleftrightarrow> \<not> n < 15" for n :: uint8
  by (simp add: word_less_nat_alt) linarith

lemma P01_receive_eq:
  assumes "P01_valid c"
  shows "P01_intact c d \<Longrightarrow> P01_receive c r d
      = (P01_after c r (readCounterP01 (fst (snd c)) d),
         E2E_P01MapStatusToSM E2E_E_OK (P01_Status (P01_after c r (readCounterP01 (fst (snd c)) d))) (snd (snd c)))"
    and "\<not> P01_intact c d \<Longrightarrow> snd (P01_receive c r d) = E2E_P_ERROR"
proof -
  obtain mode cfg b where c: "c = (mode, cfg, b)" by (cases c)
  show "P01_intact c d \<Longrightarrow> P01_receive c r d
      = (P01_after c r (readCounterP01 (fst (snd c)) d),
         E2E_P01MapStatusToSM E2E_E_OK (P01_Status (P01_after c r (readCounterP01 (fst (snd c)) d))) (snd (snd c)))"
    using assms
    by (auto simp: c P01_intact_def P01_crc_pos_def E2E_P01Check_def Let_def P01_after_def isCheckOfReceivedDataNotOkP01_def
        isFirstDataSinceInitialisationP01_def MAX_P01_COUNTER_VALUE_def counter_limit)
  show "\<not> P01_intact c d \<Longrightarrow> snd (P01_receive c r d) = E2E_P_ERROR"
    using assms
    by (auto simp: c P01_intact_def P01_crc_pos_def E2E_P01Check_def Let_def E2E_P01MapStatusToSM_def
        isCheckOfReceivedDataNotOkP01_def MAX_P01_COUNTER_VALUE_def counter_limit
        doE2E_P01MapStatusToSM_TRUE_def doE2E_P01MapStatusToSM_FALSE_def)
qed

lemma P01_map_error: "E2E_P01MapStatusToSM E2E_E_OK st b = E2E_P_ERROR \<longleftrightarrow> st = E2E_P01STATUS_WRONGCRC"
  by (cases st) (simp_all add: E2E_P01MapStatusToSM_def doE2E_P01MapStatusToSM_TRUE_def doE2E_P01MapStatusToSM_FALSE_def)

lemma P01_after_not_wrong: "P01_Status (P01_after c r n) \<noteq> E2E_P01STATUS_WRONGCRC"
  by (simp add: P01_after_def isFirstDataSinceInitialisationP01_def doChecksP01_def sync_P01_def Let_def)

lemma P01_delta_next: "n < 15 \<Longrightarrow> calculateDeltaCounterP01 (P01_next n) n = 1"
proof -
  assume "n < 15"
  then have n: "unat n < 15" by (simp add: word_less_nat_alt)
  then have "unat n = 14 \<or> (unat n + 1) mod 15 = unat n + 1" by (cases "unat n = 14") simp_all
  then show ?thesis
  proof
    assume "unat n = 14"
    then have "unat n = unat (14 :: uint8)" by simp
    then have "n = 14" by (metis unsigned_word_eqI)
    then show ?thesis by (simp add: P01_next_def calculateDeltaCounterP01_def MAX_P01_COUNTER_VALUE_def)
  next
    assume "(unat n + 1) mod 15 = unat n + 1"
    then have "P01_next n = n + 1" by (simp add: P01_next_def)
    then show ?thesis using n by (simp add: calculateDeltaCounterP01_def word_le_nat_alt unat_word_ariths)
  qed
qed

lemma P01_ids_cong: "P01_DataIDMode cfg \<noteq> E2E_P01_DATAID_ALT \<Longrightarrow> P01_ids cfg n = P01_ids cfg m"
  by (simp add: P01_ids_def split: E2E_P01DataIDMode.split)

subsubsection \<open>Synchronisation\<close>

text \<open>
  A receiver that takes the counter of the sender's last message as the last valid one follows
  the sender. While it does not, every intact message widens the accepted distance by one, up to
  the largest distance there is.
\<close>

definition P01_receiver_ok :: "P01_cfg \<Rightarrow> E2E_P01CheckStateType \<Rightarrow> bool" where
  "P01_receiver_ok c r \<longleftrightarrow> P01_LastValidCounter r < 15 \<and> P01_SyncCounter r \<le> P01_SyncCounterInit (fst (snd c))"

definition P01_follows :: "E2E_P01ProtectStateType \<Rightarrow> E2E_P01CheckStateType \<Rightarrow> bool" where
  "P01_follows s r \<longleftrightarrow> \<not> P01_WaitForFirstData r \<and> P01Protect_Counter s = P01_next (P01_LastValidCounter r)"

definition P01_lag :: "P01_cfg \<Rightarrow> E2E_P01ProtectStateType \<Rightarrow> E2E_P01CheckStateType \<Rightarrow> nat" where
  "P01_lag c s r =
     (let cfg = fst (snd c)
      in if P01_follows s r
         then (if P01_NoNewOrRepeatedDataCounter r \<le> P01_MaxNoNewOrRepeatedData cfg then unat (P01_SyncCounter r)
               else unat (P01_SyncCounterInit cfg) + 1)
         else unat (P01_SyncCounterInit cfg) + 2 + (14 - unat (P01_MaxDeltaCounter r)))"

definition P01_bound :: "P01_cfg \<Rightarrow> nat" where
  "P01_bound c = unat (P01_SyncCounterInit (fst (snd c))) + 16"

lemma P01_delta_bounds:
  assumes "n < 15" and "l < 15"
  shows "calculateDeltaCounterP01 n l \<le> 14" and "calculateDeltaCounterP01 n l = 0 \<longleftrightarrow> n = l"
proof -
  have *: "unat n < 15" "unat l < 15" using assms by (simp_all add: word_less_nat_alt)
  have "unat (calculateDeltaCounterP01 n l) = (if l \<le> n then unat n - unat l else 15 + unat n - unat l)"
  proof (cases "l \<le> n")
    case True
    then show ?thesis by (simp add: calculateDeltaCounterP01_def unat_sub)
  next
    case False
    have "unat (15 + n :: uint8) = 15 + unat n" using *(1) by (simp add: unat_word_ariths)
    moreover from this have "l \<le> 15 + n" using *(2) by (simp add: word_le_nat_alt)
    ultimately show ?thesis using False
      by (simp add: calculateDeltaCounterP01_def MAX_P01_COUNTER_VALUE_def unat_sub)
  qed
  then have u: "unat (calculateDeltaCounterP01 n l) \<le> 14" "unat (calculateDeltaCounterP01 n l) = 0 \<longleftrightarrow> unat n = unat l"
    using * by (auto simp: word_le_nat_alt)
  show "calculateDeltaCounterP01 n l \<le> 14" using u(1) by (simp add: word_le_nat_alt)
  show "calculateDeltaCounterP01 n l = 0 \<longleftrightarrow> n = l" using u(2) by (metis unsigned_0 unsigned_word_eqI)
qed

text \<open>An intact message makes the receiver follow or widens the accepted distance.\<close>

lemma P01_after_progress:
  assumes "P01_receiver_ok c r" and "n < 15"
  shows "P01_receiver_ok c (P01_after c r n)" and "\<not> P01_WaitForFirstData (P01_after c r n)"
    and "P01_LastValidCounter (P01_after c r n) = n
       \<or> unat (P01_MaxDeltaCounter r) < 14 \<and> unat (P01_MaxDeltaCounter (P01_after c r n)) = unat (P01_MaxDeltaCounter r) + 1"
proof -
  let ?cfg = "fst (snd c)" and ?delta = "calculateDeltaCounterP01 n (P01_LastValidCounter r)"
  define q where "q = r\<lparr>P01_NewDataAvailable := True,
    P01_MaxDeltaCounter := P01_MaxDeltaCounter r + (if P01_MaxDeltaCounter r < 14 then 1 else 0)\<rparr>"
  have sel: "P01_LastValidCounter q = P01_LastValidCounter r" "P01_SyncCounter q = P01_SyncCounter r"
      "P01_WaitForFirstData q = P01_WaitForFirstData r"
    by (simp_all add: q_def)
  have after: "P01_after c r n = (if P01_WaitForFirstData r then snd (isFirstDataSinceInitialisationP01 ?cfg q n) else doChecksP01 ?cfg q n)"
    by (simp add: P01_after_def q_def)
  have r: "P01_LastValidCounter r < 15" "P01_SyncCounter r \<le> P01_SyncCounterInit ?cfg"
    using assms(1) by (simp_all add: P01_receiver_ok_def)
  have sync: "P01_SyncCounter (sync_P01 ?cfg g t) \<le> P01_SyncCounterInit ?cfg"
      "P01_LastValidCounter (sync_P01 ?cfg g t) = P01_LastValidCounter t"
      "P01_WaitForFirstData (sync_P01 ?cfg g t) = P01_WaitForFirstData t"
    if "P01_SyncCounter t \<le> P01_SyncCounterInit ?cfg" for g t
    using that uint8_dec(2) [of "P01_SyncCounter t"] by (auto simp: sync_P01_def Let_def)
  show "P01_receiver_ok c (P01_after c r n)"
    unfolding after using assms(2) r
    by (simp add: P01_receiver_ok_def isFirstDataSinceInitialisationP01_def doChecksP01_def sync sel Let_def)
  show "\<not> P01_WaitForFirstData (P01_after c r n)"
    unfolding after using r(2)
    by (simp add: isFirstDataSinceInitialisationP01_def doChecksP01_def sync sel Let_def)
  show "P01_LastValidCounter (P01_after c r n) = n
       \<or> unat (P01_MaxDeltaCounter r) < 14 \<and> unat (P01_MaxDeltaCounter (P01_after c r n)) = unat (P01_MaxDeltaCounter r) + 1"
  proof (rule ccontr)
    assume not: "\<not> ?thesis"
    then have *: "\<not> P01_WaitForFirstData r" "?delta \<noteq> 0" "?delta \<noteq> 1" "\<not> ?delta \<le> P01_MaxDeltaCounter q"
      "\<not> P01_SyncCounterInit ?cfg > 0"
      using P01_delta_bounds(2) [OF assms(2) r(1)] r(2) unfolding after
      by (auto simp: isFirstDataSinceInitialisationP01_def doChecksP01_def sync sel Let_def not_less split: if_splits)
    then have eq: "P01_MaxDeltaCounter (P01_after c r n) = P01_MaxDeltaCounter q"
      unfolding after by (simp add: doChecksP01_def sel Let_def)
    have "\<not> 14 \<le> P01_MaxDeltaCounter q" using *(4) P01_delta_bounds(1) [OF assms(2) r(1)] by (meson order_trans)
    then have "unat (P01_MaxDeltaCounter r) < 14"
      by (cases "P01_MaxDeltaCounter r < 14") (simp_all add: q_def word_less_nat_alt word_le_nat_alt)
    moreover from this have "unat (P01_MaxDeltaCounter q) = unat (P01_MaxDeltaCounter r) + 1"
      by (simp add: q_def word_less_nat_alt unat_word_ariths)
    ultimately show False using not eq by simp
  qed
qed

lemma P01_lag_decreases:
  assumes "P01_receiver_ok c r" and "P01_sender_ok c s" and "\<not> P01_synced c s r" and n: "n = P01Protect_Counter s"
  shows "P01_lag c (s\<lparr>P01Protect_Counter := P01_next n\<rparr>) (P01_after c r n) < P01_lag c s r"
proof -
  let ?cfg = "fst (snd c)" and ?r = "P01_after c r n" and ?s = "s\<lparr>P01Protect_Counter := P01_next n\<rparr>"
  have n': "n < 15" using assms(2) unfolding n by (simp add: P01_sender_ok_def P01_next_less)
  note progress = P01_after_progress [OF assms(1) n']
  have follows: "P01_follows ?s ?r" if "P01_LastValidCounter ?r = n"
    using that progress(2) by (simp add: P01_follows_def)
  show ?thesis
  proof (cases "P01_follows s r")
    case True
    then have delta: "calculateDeltaCounterP01 n (P01_LastValidCounter r) = 1" "\<not> P01_WaitForFirstData r"
      using assms(1,2) P01_delta_next [of "P01_LastValidCounter r"] by (simp_all add: P01_follows_def P01_receiver_ok_def P01_sender_ok_def n)
    have "P01_LastValidCounter ?r = n" "P01_NoNewOrRepeatedDataCounter ?r = 0"
      "P01_SyncCounter ?r = (if P01_NoNewOrRepeatedDataCounter r \<le> P01_MaxNoNewOrRepeatedData ?cfg
         then (if P01_SyncCounter r > 0 then P01_SyncCounter r - 1 else P01_SyncCounter r) else P01_SyncCounterInit ?cfg)"
      using delta by (simp_all add: P01_after_def doChecksP01_def sync_P01_def Let_def)
    moreover have "P01_SyncCounter r > 0" if "P01_NoNewOrRepeatedDataCounter r \<le> P01_MaxNoNewOrRepeatedData ?cfg"
      using assms(1,3) True that by (auto simp: P01_synced_def P01_follows_def P01_receiver_ok_def word_gt_0)
    ultimately show ?thesis
      using True follows uint8_dec(1) [of "P01_SyncCounter r"] by (auto simp: P01_lag_def Let_def)
  next
    case False
    have "unat (P01_SyncCounter ?r) \<le> unat (P01_SyncCounterInit ?cfg)"
      using progress(1) by (simp add: P01_receiver_ok_def word_le_nat_alt)
    then have "P01_lag c ?s ?r < P01_lag c s r" if "P01_follows ?s ?r"
      using that False by (simp add: P01_lag_def Let_def)
    moreover have "P01_lag c ?s ?r < P01_lag c s r" if "\<not> P01_follows ?s ?r"
      using that False progress(3) follows by (auto simp: P01_lag_def Let_def)
    ultimately show ?thesis by blast
  qed
qed

lemma P01_lag_bound: "P01_receiver_ok c r \<Longrightarrow> P01_lag c s r \<le> P01_bound c"
  by (simp add: P01_lag_def P01_bound_def P01_receiver_ok_def word_le_nat_alt Let_def)

lemma P01_receiver_keeps:
  assumes "P01_valid c" and "P01_receiver_ok c r"
  shows "P01_receiver_ok c (fst (P01_receive c r d))"
proof (cases "P01_intact c d")
  case True
  then have "readCounterP01 (fst (snd c)) d < 15" by (simp add: P01_intact_def)
  with P01_after_progress(1) [OF assms(2)] show ?thesis by (simp add: P01_receive_eq(1) [OF assms(1) True])
next
  case False
  then have "P01_LastValidCounter (fst (P01_receive c r d)) = P01_LastValidCounter r
      \<and> P01_SyncCounter (fst (P01_receive c r d)) = P01_SyncCounter r"
    using assms(1)
    by (cases c) (auto simp: P01_intact_def P01_crc_pos_def E2E_P01Check_def Let_def
        isCheckOfReceivedDataNotOkP01_def MAX_P01_COUNTER_VALUE_def counter_limit)
  with assms(2) show ?thesis by (simp add: P01_receiver_ok_def)
qed

lemma P01_map_new: "E2E_P01MapStatusToSM E2E_E_OK st b = E2E_P_NONEWDATA \<longleftrightarrow> st = E2E_P01STATUS_NONEWDATA"
  by (cases st) (simp_all add: E2E_P01MapStatusToSM_def doE2E_P01MapStatusToSM_TRUE_def doE2E_P01MapStatusToSM_FALSE_def)

lemma P01_after_new: "P01_Status (P01_after c r n) \<noteq> E2E_P01STATUS_NONEWDATA"
  by (simp add: P01_after_def isFirstDataSinceInitialisationP01_def doChecksP01_def sync_P01_def Let_def)

interpretation p01: e2e_resync P01_valid P01_size P01_header P01_covers P01_sender_ok P01_send P01_receive P01_synced
  P01_receiver_ok P01_lag P01_bound
proof
  fix c s d
  assume v: "P01_valid c"
  note config = P01_config [OF v]
  show "P01_header c \<subseteq> {..<P01_size c}" using config by (auto simp: P01_header_def)
  show "P01_receiver_ok c r \<Longrightarrow> P01_receiver_ok c (fst (P01_receive c r d))" for r by (rule P01_receiver_keeps [OF v])
  show "P01_receiver_ok c r \<Longrightarrow> P01_lag c s r \<le> P01_bound c" for r by (rule P01_lag_bound)
  show "snd (P01_receive c r d) \<noteq> E2E_P_NONEWDATA" for r
    by (cases "P01_intact c d") (simp_all add: P01_receive_eq [OF v] P01_map_new P01_after_new)
  show "i \<notin> P01_header c \<Longrightarrow> snd (P01_send c s d) i = d i" for i by (rule P01_send_eq(2) [OF v])
  show "P01_sender_ok c (fst (P01_send c s d))" by (simp add: P01_sender_ok_def P01_send_eq(1) [OF v] P01_next_less)
  assume ok: "P01_sender_ok c s"
  note intact = P01_send_eq(3) [OF v ok [unfolded P01_sender_ok_def], of d]
  note receive = P01_receive_eq(1) [OF v intact]
  show "snd (P01_receive c r (snd (P01_send c s d))) \<noteq> E2E_P_ERROR" for r
    by (simp add: receive P01_map_error P01_after_not_wrong)
  show "snd (P01_receive c r (d'(k := d' k XOR x))) = E2E_P_ERROR"
    if "k < P01_size c" "x \<noteq> 0" "P01_covers c k x" "d' = snd (P01_send c s d)" for k x r d'
  proof -
    let ?e = "d'(k := d' k XOR x)" and ?n = "readCounterP01 (fst (snd c)) d'"
    have "calculateCrcP01 (fst c) (fst (snd c)) (readCounterP01 (fst (snd c)) ?e) ?e = calculateCrcP01 (fst c) (fst (snd c)) ?n ?e"
    proof (cases "P01_DataIDMode (fst (snd c)) = E2E_P01_DATAID_ALT")
      case True
      with that(3) have "?n = readCounterP01 (fst (snd c)) ?e"
        unfolding readCounterP01_nibble by (intro get_nibble_cong) (simp add: P01_covers_def P01_counter_pos_def)
      then show ?thesis by simp
    next
      case False
      then show ?thesis unfolding P01_crc_around [OF v] by (metis P01_ids_cong)
    qed
    moreover have "?e (P01_crc_pos c) \<noteq> calculateCrcP01 (fst c) (fst (snd c)) ?n ?e"
      using p01crc.byte_change_detected [of "(c, ?n)" d' k x] v that intact by (simp add: P01_intact_def)
    ultimately have "\<not> P01_intact c ?e" by (simp add: P01_intact_def)
    then show ?thesis by (rule P01_receive_eq(2) [OF v])
  qed
  have after: "P01_Status (P01_after c r n) = E2E_P01STATUS_OK \<and> P01_synced c (s\<lparr>P01Protect_Counter := P01_next n\<rparr>) (P01_after c r n)"
    if "P01_synced c s r" "n = P01Protect_Counter s" for r n
    using that ok P01_delta_next [of "P01_LastValidCounter r"]
    by (simp add: P01_after_def P01_synced_def P01_sender_ok_def doChecksP01_def sync_P01_def Let_def)
  show "snd (P01_receive c r (snd (P01_send c s d))) = E2E_P_OK"
    and "P01_synced c (fst (P01_send c s d)) (fst (P01_receive c r (snd (P01_send c s d))))" if "P01_synced c s r" for r
    using after [OF that refl] P01_send_eq(1,4) [OF v] ok
    by (simp_all add: receive P01_sender_ok_def E2E_P01MapStatusToSM_def doE2E_P01MapStatusToSM_TRUE_def
        doE2E_P01MapStatusToSM_FALSE_def)
  show "P01_lag c (fst (P01_send c s d)) (fst (P01_receive c r (snd (P01_send c s d)))) < P01_lag c s r"
    if "P01_receiver_ok c r" "\<not> P01_synced c s r" for r
    using P01_lag_decreases [OF that(1) ok that(2) refl] P01_send_eq(1,4) [OF v] ok by (simp add: receive P01_sender_ok_def)
next
  fix c r and d e :: byte_ptr
  assume v: "P01_valid c" and eq: "\<And>i. i < P01_size c \<Longrightarrow> d i = e i"
  obtain mode cfg b where c: "c = (mode, cfg, b)" by (cases c)
  note config = P01_config [OF v]
  have "readCounterP01 cfg d = readCounterP01 cfg e" "d (unat (P01_CRCOffset cfg) div 8) = e (unat (P01_CRCOffset cfg) div 8)"
      "readDataIDNibbleOffsetP01 cfg d = readDataIDNibbleOffsetP01 cfg e"
    using config eq by (auto simp: c readCounterP01_def readDataIDNibbleOffsetP01_def P01_counter_pos_def P01_crc_pos_def P01_nibble_pos_def)
  moreover have "calculateCrcP01 mode cfg n d = calculateCrcP01 mode cfg n e" for n
    using p01crc.inside_cong(1) [of "(c, n)" d e] v eq by (simp add: c)
  ultimately show "P01_receive c r d = P01_receive c r e"
    by (simp add: c E2E_P01Check_def Let_def)
qed

end
