(* ===== verification/E2E_P02.thy ===== *)
theory E2E_P02
  imports E2E_Profile
begin

unbundle bit_operations_syntax

text \<open>
  Profile 2 of the end-to-end library, SafeLib/E2E/src/E2E\_P02.c: an 8 bit CRC in byte 0 and a
  counter of four bits in byte 1; the CRC covers all other bytes and one of sixteen data
  identifiers, chosen by the counter.
\<close>

subsection \<open>Types\<close>

datatype E2E_P02CheckStatusType = E2E_P02STATUS_OK | E2E_P02STATUS_NONEWDATA | E2E_P02STATUS_WRONGCRC
  | E2E_P02STATUS_SYNC | E2E_P02STATUS_INITIAL | E2E_P02STATUS_REPEATED | E2E_P02STATUS_OKSOMELOST
  | E2E_P02STATUS_WRONGSEQUENCE

text \<open>\<open>P02_DataIDList\<close> is the array of sixteen identifiers.\<close>

record E2E_P02ConfigType =
  P02_DataLength :: uint16
  P02_DataIDList :: "uint8 list"
  P02_MaxDeltaCounterInit :: uint8
  P02_MaxNoNewOrRepeatedData :: uint8
  P02_SyncCounterInit :: uint8
  P02_Offset :: uint16

record E2E_P02ProtectStateType =
  P02Protect_Counter :: uint8

record E2E_P02CheckStateType =
  P02_LastValidCounter :: uint8
  P02_MaxDeltaCounter :: uint8
  P02_WaitForFirstData :: bool
  P02_NewDataAvailable :: bool
  P02_LostData :: uint8
  P02_Status :: E2E_P02CheckStatusType
  P02_SyncCounter :: uint8
  P02_NoNewOrRepeatedDataCounter :: uint8

subsection \<open>Common functions\<close>

definition MAX_P02_COUNTER_VALUE :: uint8 where "MAX_P02_COUNTER_VALUE = 15"

definition calculateDeltaCounterP02 :: "uint8 \<Rightarrow> uint8 \<Rightarrow> uint8" where
  "calculateDeltaCounterP02 receivedCounter lastValidCounter =
     (if receivedCounter \<ge> lastValidCounter then receivedCounter - lastValidCounter
      else MAX_P02_COUNTER_VALUE + 1 + receivedCounter - lastValidCounter)"

definition checkConfigP02 :: "E2E_P02ConfigType option \<Rightarrow> E2E_ReturnType" where
  "checkConfigP02 Config =
     (case Config of None \<Rightarrow> E2E_E_INPUTERR_NULL
      | Some cfg \<Rightarrow>
          if P02_DataLength cfg mod 8 \<noteq> 0 \<or> unat (P02_DataLength cfg) < 8 * 2 \<or> unat (P02_DataLength cfg) > 8 * 256
          then E2E_E_INPUTERR_WRONG
          else if unat (P02_Offset cfg) > 8 * 256 - 8 * 2 then E2E_E_INPUTERR_WRONG
          else E2E_E_OK)"

text \<open>The CRC over the data and then the identifier, as both functions compute it.\<close>

definition crc_P02 :: "Crc_Mode \<Rightarrow> E2E_P02ConfigType \<Rightarrow> uint8 \<Rightarrow> byte_ptr \<Rightarrow> uint8" where
  "crc_P02 mode cfg dataId d =
     (let crc = Crc_CalculateCRC8H2F mode (Some (\<lambda>i. d (1 + i))) (of_nat (unat (P02_DataLength cfg) div 8 - 1)) 0 True
      in Crc_CalculateCRC8H2F mode (Some (\<lambda>_. dataId)) 1 crc False)"

subsection \<open>Sender\<close>

definition E2E_P02Protect :: "Crc_Mode \<Rightarrow> E2E_P02ConfigType option \<Rightarrow> E2E_P02ProtectStateType option
    \<Rightarrow> byte_ptr option \<Rightarrow> E2E_ReturnType \<times> E2E_P02ProtectStateType option \<times> byte_ptr option" where
  "E2E_P02Protect mode ConfigPtr StatePtr DataPtr =
     (let returnValue = checkConfigP02 ConfigPtr
      in if returnValue \<noteq> E2E_E_OK then (returnValue, StatePtr, DataPtr)
         else if StatePtr = None \<or> DataPtr = None then (E2E_E_INPUTERR_NULL, StatePtr, DataPtr)
         else (let cfg = the ConfigPtr; st = the StatePtr; d = the DataPtr;
                   st = st\<lparr>P02Protect_Counter :=
                          of_nat ((unat (P02Protect_Counter st) + 1) mod (unat MAX_P02_COUNTER_VALUE + 1))\<rparr>;
                   d = d(1 := (d 1 AND 0xF0) OR (P02Protect_Counter st AND 0x0F));
                   dataId = P02_DataIDList cfg ! unat (P02Protect_Counter st);
                   crc = crc_P02 mode cfg dataId d
               in (E2E_E_OK, Some st, Some (d(0 := crc)))))"

definition E2E_P02ProtectInit :: "E2E_P02ProtectStateType option \<Rightarrow> E2E_ReturnType \<times> E2E_P02ProtectStateType option" where
  "E2E_P02ProtectInit StatePtr =
     (case StatePtr of None \<Rightarrow> (E2E_E_INPUTERR_NULL, None)
      | Some st \<Rightarrow> (E2E_E_OK, Some (st\<lparr>P02Protect_Counter := 0\<rparr>)))"

subsection \<open>Receiver\<close>

definition isFirstDataSinceInitialisationP02 :: "E2E_P02ConfigType \<Rightarrow> E2E_P02CheckStateType \<Rightarrow> uint8
    \<Rightarrow> bool \<times> E2E_P02CheckStateType" where
  "isFirstDataSinceInitialisationP02 cfg st receivedCounter =
     (if P02_WaitForFirstData st
      then (True, st\<lparr>P02_WaitForFirstData := False, P02_MaxDeltaCounter := P02_MaxDeltaCounterInit cfg,
                     P02_LastValidCounter := receivedCounter, P02_Status := E2E_P02STATUS_INITIAL\<rparr>)
      else (False, st))"

text \<open>What the last two branches share: synchronisation, or \<open>good\<close> outside of it.\<close>

definition sync_P02 :: "E2E_P02ConfigType \<Rightarrow> E2E_P02CheckStatusType \<Rightarrow> E2E_P02CheckStateType \<Rightarrow> E2E_P02CheckStateType" where
  "sync_P02 cfg good st =
     (if P02_NoNewOrRepeatedDataCounter st \<le> P02_MaxNoNewOrRepeatedData cfg
      then (let st = st\<lparr>P02_NoNewOrRepeatedDataCounter := 0\<rparr>
            in if P02_SyncCounter st > 0
               then st\<lparr>P02_SyncCounter := P02_SyncCounter st - 1, P02_Status := E2E_P02STATUS_SYNC\<rparr>
               else st\<lparr>P02_Status := good\<rparr>)
      else st\<lparr>P02_NoNewOrRepeatedDataCounter := 0, P02_SyncCounter := P02_SyncCounterInit cfg,
              P02_Status := E2E_P02STATUS_SYNC\<rparr>)"

definition doChecksP02 :: "E2E_P02ConfigType \<Rightarrow> E2E_P02CheckStateType \<Rightarrow> uint8 \<Rightarrow> E2E_P02CheckStateType" where
  "doChecksP02 cfg st receivedCounter =
     (let delta = calculateDeltaCounterP02 receivedCounter (P02_LastValidCounter st)
      in if delta = 0
         then (let st = (if P02_NoNewOrRepeatedDataCounter st < MAX_P02_COUNTER_VALUE
                         then st\<lparr>P02_NoNewOrRepeatedDataCounter := P02_NoNewOrRepeatedDataCounter st + 1\<rparr> else st)
               in st\<lparr>P02_Status := E2E_P02STATUS_REPEATED\<rparr>)
         else if delta = 1
         then sync_P02 cfg E2E_P02STATUS_OK
                (st\<lparr>P02_MaxDeltaCounter := P02_MaxDeltaCounterInit cfg, P02_LastValidCounter := receivedCounter,
                    P02_LostData := 0\<rparr>)
         else if delta > P02_MaxDeltaCounter st
         then (let st = st\<lparr>P02_NoNewOrRepeatedDataCounter := 0, P02_SyncCounter := P02_SyncCounterInit cfg\<rparr>;
                   st = (if P02_SyncCounter st > 0
                         then st\<lparr>P02_MaxDeltaCounter := P02_MaxDeltaCounterInit cfg,
                                 P02_LastValidCounter := receivedCounter\<rparr> else st)
               in st\<lparr>P02_Status := E2E_P02STATUS_WRONGSEQUENCE\<rparr>)
         else sync_P02 cfg E2E_P02STATUS_OKSOMELOST
                (st\<lparr>P02_MaxDeltaCounter := P02_MaxDeltaCounterInit cfg, P02_LastValidCounter := receivedCounter,
                    P02_LostData := delta - 1\<rparr>))"

definition E2E_P02Check :: "Crc_Mode \<Rightarrow> E2E_P02ConfigType option \<Rightarrow> E2E_P02CheckStateType option
    \<Rightarrow> byte_ptr option \<Rightarrow> E2E_ReturnType \<times> E2E_P02CheckStateType option" where
  "E2E_P02Check mode ConfigPtr StatePtr DataPtr =
     (let returnValue = checkConfigP02 ConfigPtr
      in if returnValue \<noteq> E2E_E_OK then (returnValue, StatePtr)
         else if StatePtr = None \<or> DataPtr = None then (E2E_E_INPUTERR_NULL, StatePtr)
         else (let cfg = the ConfigPtr; st = the StatePtr; d = the DataPtr;
                   st = (if P02_MaxDeltaCounter st < MAX_P02_COUNTER_VALUE
                         then st\<lparr>P02_MaxDeltaCounter := P02_MaxDeltaCounter st + 1\<rparr> else st)
               in if \<not> P02_NewDataAvailable st
                  then (let st = (if P02_NoNewOrRepeatedDataCounter st < MAX_P02_COUNTER_VALUE
                                  then st\<lparr>P02_NoNewOrRepeatedDataCounter := P02_NoNewOrRepeatedDataCounter st + 1\<rparr>
                                  else st)
                        in (E2E_E_OK, Some (st\<lparr>P02_Status := E2E_P02STATUS_NONEWDATA\<rparr>)))
                  else (let receivedCounter = d 1 AND 0xF;
                            dataId = P02_DataIDList cfg ! unat receivedCounter;
                            crc = crc_P02 mode cfg dataId d
                        in if crc \<noteq> d 0 then (E2E_E_OK, Some (st\<lparr>P02_Status := E2E_P02STATUS_WRONGCRC\<rparr>))
                           else (case isFirstDataSinceInitialisationP02 cfg st receivedCounter of
                                   (True, st) \<Rightarrow> (E2E_E_OK, Some st)
                                 | (False, st) \<Rightarrow> (E2E_E_OK, Some (doChecksP02 cfg st receivedCounter))))))"

definition E2E_P02CheckInit :: "E2E_P02CheckStateType option \<Rightarrow> E2E_ReturnType \<times> E2E_P02CheckStateType option" where
  "E2E_P02CheckInit StatePtr =
     (case StatePtr of None \<Rightarrow> (E2E_E_INPUTERR_NULL, None)
      | Some st \<Rightarrow>
          (E2E_E_OK, Some (st\<lparr>P02_LastValidCounter := 0, P02_MaxDeltaCounter := 0, P02_WaitForFirstData := True,
                              P02_NewDataAvailable := False, P02_LostData := 0, P02_Status := E2E_P02STATUS_NONEWDATA,
                              P02_SyncCounter := 0, P02_NoNewOrRepeatedDataCounter := 0\<rparr>)))"

definition doE2E_P02MapStatusToSM_TRUE :: "E2E_P02CheckStatusType \<Rightarrow> E2E_PCheckStatusType" where
  "doE2E_P02MapStatusToSM_TRUE Status =
     (case Status of
        E2E_P02STATUS_OK \<Rightarrow> E2E_P_OK
      | E2E_P02STATUS_OKSOMELOST \<Rightarrow> E2E_P_OK
      | E2E_P02STATUS_SYNC \<Rightarrow> E2E_P_OK
      | E2E_P02STATUS_REPEATED \<Rightarrow> E2E_P_REPEATED
      | E2E_P02STATUS_NONEWDATA \<Rightarrow> E2E_P_NONEWDATA
      | E2E_P02STATUS_WRONGSEQUENCE \<Rightarrow> E2E_P_WRONGSEQUENCE
      | E2E_P02STATUS_INITIAL \<Rightarrow> E2E_P_WRONGSEQUENCE
      | E2E_P02STATUS_WRONGCRC \<Rightarrow> E2E_P_ERROR)"

definition doE2E_P02MapStatusToSM_FALSE :: "E2E_P02CheckStatusType \<Rightarrow> E2E_PCheckStatusType" where
  "doE2E_P02MapStatusToSM_FALSE Status =
     (case Status of
        E2E_P02STATUS_OK \<Rightarrow> E2E_P_OK
      | E2E_P02STATUS_OKSOMELOST \<Rightarrow> E2E_P_OK
      | E2E_P02STATUS_INITIAL \<Rightarrow> E2E_P_OK
      | E2E_P02STATUS_REPEATED \<Rightarrow> E2E_P_REPEATED
      | E2E_P02STATUS_NONEWDATA \<Rightarrow> E2E_P_NONEWDATA
      | E2E_P02STATUS_WRONGSEQUENCE \<Rightarrow> E2E_P_WRONGSEQUENCE
      | E2E_P02STATUS_SYNC \<Rightarrow> E2E_P_WRONGSEQUENCE
      | E2E_P02STATUS_WRONGCRC \<Rightarrow> E2E_P_ERROR)"

definition E2E_P02MapStatusToSM :: "E2E_ReturnType \<Rightarrow> E2E_P02CheckStatusType \<Rightarrow> bool \<Rightarrow> E2E_PCheckStatusType" where
  "E2E_P02MapStatusToSM CheckReturn Status profileBehavior =
     (if CheckReturn \<noteq> E2E_E_OK then E2E_P_ERROR
      else if profileBehavior then doE2E_P02MapStatusToSM_TRUE Status
      else doE2E_P02MapStatusToSM_FALSE Status)"

subsection \<open>Correctness\<close>

text \<open>A configuration with the CRC mode and the choice of the mapping to the state machine.\<close>

type_synonym P02_cfg = "Crc_Mode \<times> E2E_P02ConfigType \<times> bool"

fun P02_valid :: "P02_cfg \<Rightarrow> bool" where
  "P02_valid (mode, cfg, b) \<longleftrightarrow> checkConfigP02 (Some cfg) = E2E_E_OK \<and> length (P02_DataIDList cfg) = 16"

fun P02_size :: "P02_cfg \<Rightarrow> nat" where
  "P02_size (mode, cfg, b) = unat (P02_DataLength cfg) div 8"

definition P02_covers :: "P02_cfg \<Rightarrow> nat \<Rightarrow> uint8 \<Rightarrow> bool" where
  "P02_covers c k x \<longleftrightarrow> k \<noteq> 1 \<or> x AND 0xF = 0"

definition P02_sender_ok :: "P02_cfg \<Rightarrow> E2E_P02ProtectStateType \<Rightarrow> bool" where
  "P02_sender_ok c s \<longleftrightarrow> P02Protect_Counter s < 16"

fun P02_send :: "P02_cfg \<Rightarrow> E2E_P02ProtectStateType \<Rightarrow> byte_ptr \<Rightarrow> E2E_P02ProtectStateType \<times> byte_ptr" where
  "P02_send (mode, cfg, b) s d =
     (case E2E_P02Protect mode (Some cfg) (Some s) (Some d) of (_, s', d') \<Rightarrow> (the s', the d'))"

text \<open>The receiver marks new data as available before the check.\<close>

fun P02_receive :: "P02_cfg \<Rightarrow> E2E_P02CheckStateType \<Rightarrow> byte_ptr \<Rightarrow> E2E_P02CheckStateType \<times> E2E_PCheckStatusType" where
  "P02_receive (mode, cfg, b) r d =
     (case E2E_P02Check mode (Some cfg) (Some (r\<lparr>P02_NewDataAvailable := True\<rparr>)) (Some d) of
        (ret, r') \<Rightarrow> (the r', E2E_P02MapStatusToSM ret (P02_Status (the r')) b))"

definition P02_synced :: "P02_cfg \<Rightarrow> E2E_P02ProtectStateType \<Rightarrow> E2E_P02CheckStateType \<Rightarrow> bool" where
  "P02_synced c s r \<longleftrightarrow>
     \<not> P02_WaitForFirstData r \<and> P02_SyncCounter r = 0 \<and> P02_LastValidCounter r = P02Protect_Counter s
     \<and> P02_NoNewOrRepeatedDataCounter r \<le> P02_MaxNoNewOrRepeatedData (fst (snd c))"

lemma P02_room: "P02_valid c \<Longrightarrow> 2 \<le> P02_size c" and P02_size_bound: "P02_size c < 2 ^ 16"
proof -
  show "P02_valid c \<Longrightarrow> 2 \<le> P02_size c"
    by (cases c) (simp add: checkConfigP02_def split: if_splits)
  show "P02_size c < 2 ^ 16"
  proof -
    have "unat (P02_DataLength (fst (snd c))) < 2 ^ LENGTH(16)" by (rule unsigned_less)
    then show ?thesis by (cases c) simp
  qed
qed

lemma P02_crc_around:
  "P02_valid (mode, cfg, b) \<Longrightarrow> crc_P02 mode cfg i d
     = foldl crc8h2f.byte_step 0xFF (around d 0 1 (P02_size (mode, cfg, b)) @ [i]) XOR 0xFF"
proof -
  assume "P02_valid (mode, cfg, b)"
  then have *: "unat (of_nat (unat (P02_DataLength cfg) div 8 - 1) :: uint32) = unat (P02_DataLength cfg) div 8 - 1"
    using P02_size_bound [of "(mode, cfg, b)"] by (intro unat_small) simp
  show ?thesis
    unfolding crc_P02_def Crc_CalculateCRC8H2F_fold Let_def * around_def unat_1 read_one by (simp add: xor.assoc)
qed

text \<open>The checksum for a fixed identifier.\<close>

interpretation p02crc: e2e_crc "\<lambda>(c, i). P02_valid c" "\<lambda>(c, i). P02_size c" "\<lambda>_. 0" "\<lambda>_. 1"
  "\<lambda>(c, i) d. crc_P02 (fst c) (fst (snd c)) i d" "\<lambda>_ d. d 0"
proof
  fix ci :: "P02_cfg \<times> uint8" and d e :: byte_ptr and j :: nat and v :: uint8
  assume "case ci of (c, i) \<Rightarrow> P02_valid c"
  then obtain mode cfg b i where ci: "ci = ((mode, cfg, b), i)" and valid: "P02_valid (mode, cfg, b)"
    by (cases ci) auto
  show "0 \<le> (1 :: nat) \<and> 1 \<le> (case ci of (c, i) \<Rightarrow> P02_size c)" using P02_room [OF valid] ci by simp
  show "(\<And>i. 0 \<le> i \<Longrightarrow> i < 1 \<Longrightarrow> d i = e i) \<Longrightarrow> d 0 = e 0" by simp
  show "(d(k := v)) 0 \<noteq> d 0" if "k < 1" "v \<noteq> d k" for k :: nat using that by simp
  show "(case ci of (c, i) \<Rightarrow> \<lambda>d. crc_P02 (fst c) (fst (snd c)) i d) d
      = (case ci of (c, i) \<Rightarrow> \<lambda>d. crc_P02 (fst c) (fst (snd c)) i d) e"
    if "around d 0 1 (case ci of (c, i) \<Rightarrow> P02_size c) = around e 0 1 (case ci of (c, i) \<Rightarrow> P02_size c)"
    using that by (simp add: ci P02_crc_around [OF valid])
  assume e: "around e 0 1 (case ci of (c, i) \<Rightarrow> P02_size c) = (around d 0 1 (case ci of (c, i) \<Rightarrow> P02_size c))[j := v]"
    and j: "j < length (around d 0 1 (case ci of (c, i) \<Rightarrow> P02_size c))"
    and v: "v \<noteq> around d 0 1 (case ci of (c, i) \<Rightarrow> P02_size c) ! j"
  note e' = e [unfolded ci prod.case] and j' = j [unfolded ci prod.case] and v' = v [unfolded ci prod.case]
  have "crc_P02 mode cfg i e \<noteq> crc_P02 mode cfg i d"
    unfolding P02_crc_around [OF valid] e' list_update_append1 [OF j', symmetric] xor_right_eq
    by (rule crc8h2f.one_byte_detected_update) (use j' v' in \<open>simp_all add: nth_append\<close>)
  then show "(case ci of (c, i) \<Rightarrow> \<lambda>d. crc_P02 (fst c) (fst (snd c)) i d) e
      \<noteq> (case ci of (c, i) \<Rightarrow> \<lambda>d. crc_P02 (fst c) (fst (snd c)) i d) d"
    by (simp add: ci)
qed

definition P02_intact :: "P02_cfg \<Rightarrow> byte_ptr \<Rightarrow> bool" where
  "P02_intact c d \<longleftrightarrow> d 0 = crc_P02 (fst c) (fst (snd c)) (P02_DataIDList (fst (snd c)) ! unat (d 1 AND 0xF)) d"

definition P02_next :: "uint8 \<Rightarrow> uint8" where
  "P02_next n = of_nat ((unat n + 1) mod 16)"

lemma P02_next_less: "P02_next n < 16"
  by (simp add: P02_next_def word_less_nat_alt unat_of_nat)

lemma P02_send_eq:
  assumes "P02_valid c"
  shows "fst (P02_send c s d) = s\<lparr>P02Protect_Counter := P02_next (P02Protect_Counter s)\<rparr>"
    and "i \<notin> {0, 1} \<Longrightarrow> snd (P02_send c s d) i = d i"
    and "P02_intact c (snd (P02_send c s d))"
    and "snd (P02_send c s d) 1 AND 0xF = P02_next (P02Protect_Counter s)"
proof -
  obtain mode cfg b where c: "c = (mode, cfg, b)" by (cases c)
  let ?n = "P02_next (P02Protect_Counter s)" and ?i = "P02_DataIDList cfg ! unat (P02_next (P02Protect_Counter s))"
  define d1 where "d1 = d(1 := (d 1 AND 0xF0) OR (?n AND 0x0F))"
  have send: "P02_send c s d = (s\<lparr>P02Protect_Counter := ?n\<rparr>, d1(0 := crc_P02 mode cfg ?i d1))"
    using assms by (simp add: c E2E_P02Protect_def Let_def MAX_P02_COUNTER_VALUE_def P02_next_def d1_def)
  then show "fst (P02_send c s d) = s\<lparr>P02Protect_Counter := ?n\<rparr>" by simp
  show "i \<notin> {0, 1} \<Longrightarrow> snd (P02_send c s d) i = d i" by (simp add: send d1_def)
  show n: "snd (P02_send c s d) 1 AND 0xF = ?n"
    using low_nibble(1) [of "d 1" ?n] by (simp add: send d1_def small_nibble P02_next_less)
  have "crc_P02 mode cfg ?i (d1(0 := v)) = crc_P02 mode cfg ?i d1" for v
    using p02crc.computed_gap [of "(c, ?i)" "d1(0 := v)" d1] assms c by simp
  moreover have "fst c = mode" "fst (snd c) = cfg" by (simp_all add: c)
  ultimately show "P02_intact c (snd (P02_send c s d))"
    using n by (simp add: P02_intact_def send)
qed

definition P02_after :: "P02_cfg \<Rightarrow> E2E_P02CheckStateType \<Rightarrow> uint8 \<Rightarrow> E2E_P02CheckStateType" where
  "P02_after c r n =
     (let cfg = fst (snd c);
          r = r\<lparr>P02_NewDataAvailable := True,
                P02_MaxDeltaCounter := P02_MaxDeltaCounter r + (if P02_MaxDeltaCounter r < 15 then 1 else 0)\<rparr>
      in if P02_WaitForFirstData r then snd (isFirstDataSinceInitialisationP02 cfg r n) else doChecksP02 cfg r n)"

lemma P02_receive_eq:
  assumes "P02_valid c"
  shows "P02_intact c d \<Longrightarrow> P02_receive c r d
      = (P02_after c r (d 1 AND 0xF), E2E_P02MapStatusToSM E2E_E_OK (P02_Status (P02_after c r (d 1 AND 0xF))) (snd (snd c)))"
    and "\<not> P02_intact c d \<Longrightarrow> snd (P02_receive c r d) = E2E_P_ERROR"
proof -
  obtain mode cfg b where c: "c = (mode, cfg, b)" by (cases c)
  show "P02_intact c d \<Longrightarrow> P02_receive c r d
      = (P02_after c r (d 1 AND 0xF), E2E_P02MapStatusToSM E2E_E_OK (P02_Status (P02_after c r (d 1 AND 0xF))) (snd (snd c)))"
    using assms
    by (simp add: c P02_intact_def E2E_P02Check_def Let_def P02_after_def isFirstDataSinceInitialisationP02_def
        MAX_P02_COUNTER_VALUE_def)
  show "\<not> P02_intact c d \<Longrightarrow> snd (P02_receive c r d) = E2E_P_ERROR"
    using assms
    by (simp add: c P02_intact_def E2E_P02Check_def Let_def E2E_P02MapStatusToSM_def
        doE2E_P02MapStatusToSM_TRUE_def doE2E_P02MapStatusToSM_FALSE_def)
qed

lemma P02_map_error: "E2E_P02MapStatusToSM E2E_E_OK st b = E2E_P_ERROR \<longleftrightarrow> st = E2E_P02STATUS_WRONGCRC"
  by (cases st) (simp_all add: E2E_P02MapStatusToSM_def doE2E_P02MapStatusToSM_TRUE_def doE2E_P02MapStatusToSM_FALSE_def)

lemma P02_after_not_wrong: "P02_Status (P02_after c r n) \<noteq> E2E_P02STATUS_WRONGCRC"
  by (simp add: P02_after_def isFirstDataSinceInitialisationP02_def doChecksP02_def sync_P02_def Let_def)

lemma P02_delta_next: "n < 16 \<Longrightarrow> calculateDeltaCounterP02 (P02_next n) n = 1"
proof -
  assume "n < 16"
  then have "unat n < 16" by (simp add: word_less_nat_alt)
  then have "unat n = 15 \<or> (unat n + 1) mod 16 = unat n + 1" by (cases "unat n = 15") simp_all
  then show ?thesis
  proof
    assume "unat n = 15"
    then have "unat n = unat (15 :: uint8)" by simp
    then have "n = 15" by (metis unsigned_word_eqI)
    then show ?thesis by (simp add: P02_next_def calculateDeltaCounterP02_def MAX_P02_COUNTER_VALUE_def)
  next
    assume "(unat n + 1) mod 16 = unat n + 1"
    then have "P02_next n = n + 1" by (simp add: P02_next_def)
    then show ?thesis using \<open>unat n < 16\<close> by (simp add: calculateDeltaCounterP02_def word_le_nat_alt unat_word_ariths)
  qed
qed

subsubsection \<open>Synchronisation\<close>

text \<open>
  A receiver that takes the counter of the sender's last message as the last valid one follows
  the sender. While it does not, every intact message widens the accepted distance by one, up to
  the largest distance there is.
\<close>

definition P02_receiver_ok :: "P02_cfg \<Rightarrow> E2E_P02CheckStateType \<Rightarrow> bool" where
  "P02_receiver_ok c r \<longleftrightarrow> P02_LastValidCounter r < 16 \<and> P02_SyncCounter r \<le> P02_SyncCounterInit (fst (snd c))"

definition P02_follows :: "E2E_P02ProtectStateType \<Rightarrow> E2E_P02CheckStateType \<Rightarrow> bool" where
  "P02_follows s r \<longleftrightarrow> \<not> P02_WaitForFirstData r \<and> P02_LastValidCounter r = P02Protect_Counter s"

definition P02_lag :: "P02_cfg \<Rightarrow> E2E_P02ProtectStateType \<Rightarrow> E2E_P02CheckStateType \<Rightarrow> nat" where
  "P02_lag c s r =
     (let cfg = fst (snd c)
      in if P02_follows s r
         then (if P02_NoNewOrRepeatedDataCounter r \<le> P02_MaxNoNewOrRepeatedData cfg then unat (P02_SyncCounter r)
               else unat (P02_SyncCounterInit cfg) + 1)
         else unat (P02_SyncCounterInit cfg) + 2 + (15 - unat (P02_MaxDeltaCounter r)))"

definition P02_bound :: "P02_cfg \<Rightarrow> nat" where
  "P02_bound c = unat (P02_SyncCounterInit (fst (snd c))) + 17"

lemma P02_delta_bounds:
  assumes "n < 16" and "l < 16"
  shows "calculateDeltaCounterP02 n l \<le> 15" and "calculateDeltaCounterP02 n l = 0 \<longleftrightarrow> n = l"
proof -
  have *: "unat n < 16" "unat l < 16" using assms by (simp_all add: word_less_nat_alt)
  have "unat (calculateDeltaCounterP02 n l) = (if l \<le> n then unat n - unat l else 16 + unat n - unat l)"
  proof (cases "l \<le> n")
    case True
    then show ?thesis by (simp add: calculateDeltaCounterP02_def unat_sub)
  next
    case False
    have "unat (16 + n :: uint8) = 16 + unat n" using *(1) by (simp add: unat_word_ariths)
    moreover from this have "l \<le> 16 + n" using *(2) by (simp add: word_le_nat_alt)
    ultimately show ?thesis using False
      by (simp add: calculateDeltaCounterP02_def MAX_P02_COUNTER_VALUE_def unat_sub)
  qed
  then have u: "unat (calculateDeltaCounterP02 n l) \<le> 15" "unat (calculateDeltaCounterP02 n l) = 0 \<longleftrightarrow> unat n = unat l"
    using * by (auto simp: word_le_nat_alt)
  show "calculateDeltaCounterP02 n l \<le> 15" using u(1) by (simp add: word_le_nat_alt)
  show "calculateDeltaCounterP02 n l = 0 \<longleftrightarrow> n = l" using u(2) by (metis unsigned_0 unsigned_word_eqI)
qed

text \<open>An intact message makes the receiver follow or widens the accepted distance.\<close>

lemma P02_after_progress:
  assumes "P02_receiver_ok c r" and "n < 16"
  shows "P02_receiver_ok c (P02_after c r n)" and "\<not> P02_WaitForFirstData (P02_after c r n)"
    and "P02_LastValidCounter (P02_after c r n) = n
       \<or> unat (P02_MaxDeltaCounter r) < 15 \<and> unat (P02_MaxDeltaCounter (P02_after c r n)) = unat (P02_MaxDeltaCounter r) + 1"
proof -
  let ?cfg = "fst (snd c)" and ?delta = "calculateDeltaCounterP02 n (P02_LastValidCounter r)"
  define q where "q = r\<lparr>P02_NewDataAvailable := True,
    P02_MaxDeltaCounter := P02_MaxDeltaCounter r + (if P02_MaxDeltaCounter r < 15 then 1 else 0)\<rparr>"
  have sel: "P02_LastValidCounter q = P02_LastValidCounter r" "P02_SyncCounter q = P02_SyncCounter r"
      "P02_WaitForFirstData q = P02_WaitForFirstData r"
    by (simp_all add: q_def)
  have after: "P02_after c r n = (if P02_WaitForFirstData r then snd (isFirstDataSinceInitialisationP02 ?cfg q n) else doChecksP02 ?cfg q n)"
    by (simp add: P02_after_def q_def)
  have r: "P02_LastValidCounter r < 16" "P02_SyncCounter r \<le> P02_SyncCounterInit ?cfg"
    using assms(1) by (simp_all add: P02_receiver_ok_def)
  have sync: "P02_SyncCounter (sync_P02 ?cfg g t) \<le> P02_SyncCounterInit ?cfg"
      "P02_LastValidCounter (sync_P02 ?cfg g t) = P02_LastValidCounter t"
      "P02_WaitForFirstData (sync_P02 ?cfg g t) = P02_WaitForFirstData t"
    if "P02_SyncCounter t \<le> P02_SyncCounterInit ?cfg" for g t
    using that uint8_dec(2) [of "P02_SyncCounter t"] by (auto simp: sync_P02_def Let_def)
  show "P02_receiver_ok c (P02_after c r n)"
    unfolding after using assms(2) r
    by (simp add: P02_receiver_ok_def isFirstDataSinceInitialisationP02_def doChecksP02_def sync sel Let_def)
  show "\<not> P02_WaitForFirstData (P02_after c r n)"
    unfolding after using r(2)
    by (simp add: isFirstDataSinceInitialisationP02_def doChecksP02_def sync sel Let_def)
  show "P02_LastValidCounter (P02_after c r n) = n
       \<or> unat (P02_MaxDeltaCounter r) < 15 \<and> unat (P02_MaxDeltaCounter (P02_after c r n)) = unat (P02_MaxDeltaCounter r) + 1"
  proof (rule ccontr)
    assume not: "\<not> ?thesis"
    then have *: "\<not> P02_WaitForFirstData r" "?delta \<noteq> 0" "?delta \<noteq> 1" "\<not> ?delta \<le> P02_MaxDeltaCounter q"
      "\<not> P02_SyncCounterInit ?cfg > 0"
      using P02_delta_bounds(2) [OF assms(2) r(1)] r(2) unfolding after
      by (auto simp: isFirstDataSinceInitialisationP02_def doChecksP02_def sync sel Let_def not_less split: if_splits)
    then have eq: "P02_MaxDeltaCounter (P02_after c r n) = P02_MaxDeltaCounter q"
      unfolding after by (simp add: doChecksP02_def sel Let_def not_le)
    have "\<not> 15 \<le> P02_MaxDeltaCounter q" using *(4) P02_delta_bounds(1) [OF assms(2) r(1)] by (meson order_trans)
    then have "unat (P02_MaxDeltaCounter r) < 15"
      by (cases "P02_MaxDeltaCounter r < 15") (simp_all add: q_def word_less_nat_alt word_le_nat_alt)
    moreover from this have "unat (P02_MaxDeltaCounter q) = unat (P02_MaxDeltaCounter r) + 1"
      by (simp add: q_def word_less_nat_alt unat_word_ariths)
    ultimately show False using not eq by simp
  qed
qed

lemma P02_lag_decreases:
  assumes "P02_receiver_ok c r" and "P02_sender_ok c s" and "\<not> P02_synced c s r" and n: "n = P02_next (P02Protect_Counter s)"
  shows "P02_lag c (s\<lparr>P02Protect_Counter := n\<rparr>) (P02_after c r n) < P02_lag c s r"
proof -
  let ?cfg = "fst (snd c)" and ?r = "P02_after c r n" and ?s = "s\<lparr>P02Protect_Counter := n\<rparr>"
  have n': "n < 16" using assms(2) unfolding n by (simp add: P02_sender_ok_def P02_next_less)
  note progress = P02_after_progress [OF assms(1) n']
  have follows: "P02_follows ?s ?r" if "P02_LastValidCounter ?r = n"
    using that progress(2) by (simp add: P02_follows_def)
  show ?thesis
  proof (cases "P02_follows s r")
    case True
    then have delta: "calculateDeltaCounterP02 n (P02_LastValidCounter r) = 1" "\<not> P02_WaitForFirstData r"
      using assms(1,2) P02_delta_next [of "P02Protect_Counter s"] by (simp_all add: P02_follows_def P02_receiver_ok_def P02_sender_ok_def n)
    have "P02_LastValidCounter ?r = n" "P02_NoNewOrRepeatedDataCounter ?r = 0"
      "P02_SyncCounter ?r = (if P02_NoNewOrRepeatedDataCounter r \<le> P02_MaxNoNewOrRepeatedData ?cfg
         then (if P02_SyncCounter r > 0 then P02_SyncCounter r - 1 else P02_SyncCounter r) else P02_SyncCounterInit ?cfg)"
      using delta by (simp_all add: P02_after_def doChecksP02_def sync_P02_def Let_def)
    moreover have "P02_SyncCounter r > 0" if "P02_NoNewOrRepeatedDataCounter r \<le> P02_MaxNoNewOrRepeatedData ?cfg"
      using assms(1,3) True that by (auto simp: P02_synced_def P02_follows_def P02_receiver_ok_def word_gt_0)
    ultimately show ?thesis
      using True follows uint8_dec(1) [of "P02_SyncCounter r"] by (auto simp: P02_lag_def Let_def)
  next
    case False
    have "unat (P02_SyncCounter ?r) \<le> unat (P02_SyncCounterInit ?cfg)"
      using progress(1) by (simp add: P02_receiver_ok_def word_le_nat_alt)
    then have "P02_lag c ?s ?r < P02_lag c s r" if "P02_follows ?s ?r"
      using that False by (simp add: P02_lag_def Let_def)
    moreover have "P02_lag c ?s ?r < P02_lag c s r" if "\<not> P02_follows ?s ?r"
      using that False progress(3) follows by (auto simp: P02_lag_def Let_def)
    ultimately show ?thesis by blast
  qed
qed

lemma P02_lag_bound: "P02_receiver_ok c r \<Longrightarrow> P02_lag c s r \<le> P02_bound c"
  by (simp add: P02_lag_def P02_bound_def P02_receiver_ok_def word_le_nat_alt Let_def)

lemma P02_receiver_keeps:
  assumes "P02_valid c" and "P02_receiver_ok c r"
  shows "P02_receiver_ok c (fst (P02_receive c r d))"
proof (cases "P02_intact c d")
  case True
  have "d 1 AND 0xF < 16" by (simp add: nibble_less)
  with P02_after_progress(1) [OF assms(2)] show ?thesis by (simp add: P02_receive_eq(1) [OF assms(1) True])
next
  case False
  then have "P02_LastValidCounter (fst (P02_receive c r d)) = P02_LastValidCounter r
      \<and> P02_SyncCounter (fst (P02_receive c r d)) = P02_SyncCounter r"
    using assms(1)
    by (cases c) (simp add: P02_intact_def E2E_P02Check_def Let_def)
  with assms(2) show ?thesis by (simp add: P02_receiver_ok_def)
qed

lemma P02_map_new: "E2E_P02MapStatusToSM E2E_E_OK st b = E2E_P_NONEWDATA \<longleftrightarrow> st = E2E_P02STATUS_NONEWDATA"
  by (cases st) (simp_all add: E2E_P02MapStatusToSM_def doE2E_P02MapStatusToSM_TRUE_def doE2E_P02MapStatusToSM_FALSE_def)

lemma P02_after_new: "P02_Status (P02_after c r n) \<noteq> E2E_P02STATUS_NONEWDATA"
  by (simp add: P02_after_def isFirstDataSinceInitialisationP02_def doChecksP02_def sync_P02_def Let_def)

interpretation p02: e2e_resync P02_valid P02_size "\<lambda>_. {0, 1}" P02_covers P02_sender_ok P02_send P02_receive P02_synced
  P02_receiver_ok P02_lag P02_bound
proof
  fix c s d
  assume v: "P02_valid c"
  note [simp] = P02_send_eq(1,3) [OF v] P02_receive_eq(1) [OF v P02_send_eq(3) [OF v]]
  show "{0, 1} \<subseteq> {..<P02_size c}" using P02_room [OF v] by auto
  show "P02_receiver_ok c r \<Longrightarrow> P02_receiver_ok c (fst (P02_receive c r d))" for r by (rule P02_receiver_keeps [OF v])
  show "P02_receiver_ok c r \<Longrightarrow> P02_lag c s r \<le> P02_bound c" for r by (rule P02_lag_bound)
  show "snd (P02_receive c r d) \<noteq> E2E_P_NONEWDATA" for r
    by (cases "P02_intact c d") (simp_all add: P02_receive_eq [OF v] P02_map_new P02_after_new)
  show "i \<notin> {0, 1} \<Longrightarrow> snd (P02_send c s d) i = d i" for i by (rule P02_send_eq(2) [OF v])
  show "P02_sender_ok c (fst (P02_send c s d))" by (simp add: P02_sender_ok_def P02_next_less)
  show "snd (P02_receive c r (snd (P02_send c s d))) \<noteq> E2E_P_ERROR" for r
    by (simp add: P02_map_error P02_after_not_wrong)
  show "snd (P02_receive c r (d'(k := d' k XOR x))) = E2E_P_ERROR"
    if "k < P02_size c" "x \<noteq> 0" "P02_covers c k x" "d' = snd (P02_send c s d)" for k x r d'
  proof -
    let ?e = "d'(k := d' k XOR x)"
    define i where "i = P02_DataIDList (fst (snd c)) ! unat (d' 1 AND 0xF)"
    have "?e 1 AND 0xF = d' 1 AND 0xF" using that(3) by (auto simp: P02_covers_def nibble_xor)
    moreover have "?e 0 \<noteq> crc_P02 (fst c) (fst (snd c)) i ?e"
      using p02crc.byte_change_detected [of "(c, i)" d' k x] v that P02_send_eq(3) [OF v, of s d]
      by (simp add: P02_intact_def i_def)
    ultimately have "\<not> P02_intact c ?e" unfolding P02_intact_def by (simp only: i_def) simp
    then show ?thesis by (rule P02_receive_eq(2) [OF v])
  qed
  assume ok: "P02_sender_ok c s"
  have after: "P02_Status (P02_after c r n) = E2E_P02STATUS_OK \<and> P02_synced c (s\<lparr>P02Protect_Counter := n\<rparr>) (P02_after c r n)"
    if "P02_synced c s r" "n = P02_next (P02Protect_Counter s)" for r n
    using that ok P02_delta_next [of "P02Protect_Counter s"]
    by (simp add: P02_after_def P02_synced_def P02_sender_ok_def doChecksP02_def sync_P02_def Let_def)
  show "snd (P02_receive c r (snd (P02_send c s d))) = E2E_P_OK"
    and "P02_synced c (fst (P02_send c s d)) (fst (P02_receive c r (snd (P02_send c s d))))" if "P02_synced c s r" for r
    using after [OF that refl] P02_send_eq(4) [OF v]
    by (simp_all add: E2E_P02MapStatusToSM_def doE2E_P02MapStatusToSM_TRUE_def doE2E_P02MapStatusToSM_FALSE_def)
  show "P02_lag c (fst (P02_send c s d)) (fst (P02_receive c r (snd (P02_send c s d)))) < P02_lag c s r"
    if "P02_receiver_ok c r" "\<not> P02_synced c s r" for r
    using P02_lag_decreases [OF that(1) ok that(2) refl] P02_send_eq(4) [OF v] by simp
next
  fix c r and d e :: byte_ptr
  assume v: "P02_valid c" and eq: "\<And>i. i < P02_size c \<Longrightarrow> d i = e i"
  have "d 1 = e 1" "d 0 = e 0" using eq P02_room [OF v] by simp_all
  moreover have "crc_P02 (fst c) (fst (snd c)) i d = crc_P02 (fst c) (fst (snd c)) i e" for i
    using p02crc.inside_cong(1) [of "(c, i)" d e] v eq by simp
  ultimately show "P02_receive c r d = P02_receive c r e"
    by (cases c) (simp add: E2E_P02Check_def Let_def)
qed

end
