(* ===== verification/E2E_P04.thy ===== *)
theory E2E_P04
  imports E2E_Profile
begin

unbundle bit_operations_syntax

text \<open>
  Profile 4 of the end-to-end library, SafeLib/E2E/src/E2E\_P04.c: a header of twelve bytes with
  length, counter, data identifier and a 32 bit CRC over all other bytes of the message.
  \<open>mode\<close> is the compile-time choice of the CRC library.
\<close>

subsection \<open>Types\<close>

datatype E2E_P04CheckStatusType = E2E_P04STATUS_OK | E2E_P04STATUS_NONEWDATA | E2E_P04STATUS_ERROR
  | E2E_P04STATUS_REPEATED | E2E_P04STATUS_OKSOMELOST | E2E_P04STATUS_WRONGSEQUENCE

record E2E_P04ConfigType =
  P04_DataID :: uint32
  P04_Offset :: uint16
  P04_MinDataLength :: uint16
  P04_MaxDataLength :: uint16
  P04_MaxDeltaCounter :: uint8

record E2E_P04ProtectStateType =
  P04Protect_Counter :: uint16

record E2E_P04CheckStateType =
  P04Check_Status :: E2E_P04CheckStatusType
  P04Check_Counter :: uint16

subsection \<open>Sender\<close>

text \<open>The limits of the configuration, the length against them, and the room for the header.\<close>

definition P04_config_wrong :: "E2E_P04ConfigType \<Rightarrow> bool" where
  "P04_config_wrong cfg \<longleftrightarrow>
     unat (P04_MinDataLength cfg) < 8 * 12 \<or> unat (P04_MaxDataLength cfg) < 8 * 12
     \<or> unat (P04_MinDataLength cfg) > 8 * 4096 \<or> unat (P04_MaxDataLength cfg) > 8 * 4096
     \<or> P04_MinDataLength cfg > P04_MaxDataLength cfg"

definition P04_length_wrong :: "E2E_P04ConfigType \<Rightarrow> uint16 \<Rightarrow> bool" where
  "P04_length_wrong cfg Length \<longleftrightarrow>
     unat Length * 8 < unat (P04_MinDataLength cfg) \<or> unat Length * 8 > unat (P04_MaxDataLength cfg)"

definition P04_offset_wrong :: "E2E_P04ConfigType \<Rightarrow> uint16 \<Rightarrow> bool" where
  "P04_offset_wrong cfg Length \<longleftrightarrow>
     P04_Offset cfg mod 8 \<noteq> 0 \<or> int (unat (P04_Offset cfg)) > int (unat Length) * 8 - 8 * 12"

definition verifyProtectInputsP04 :: "E2E_P04ConfigType option \<Rightarrow> E2E_P04ProtectStateType option
    \<Rightarrow> byte_ptr option \<Rightarrow> uint16 \<Rightarrow> E2E_ReturnType" where
  "verifyProtectInputsP04 ConfigPtr StatePtr DataPtr Length =
     (case (ConfigPtr, StatePtr, DataPtr) of
        (Some cfg, Some st, Some d) \<Rightarrow>
          if P04_config_wrong cfg then E2E_E_INPUTERR_WRONG
          else if P04_length_wrong cfg Length then E2E_E_INPUTERR_WRONG
          else if P04_offset_wrong cfg Length then E2E_E_INPUTERR_WRONG
          else E2E_E_OK
      | _ \<Rightarrow> E2E_E_INPUTERR_NULL)"

definition computeOffsetP04 :: "E2E_P04ConfigType \<Rightarrow> uint16" where
  "computeOffsetP04 cfg = P04_Offset cfg div 8"

definition writeLengthP04 :: "byte_ptr \<Rightarrow> nat \<Rightarrow> uint16 \<Rightarrow> byte_ptr" where
  "writeLengthP04 d offset Length =
     d(offset := ucast (drop_bit 8 (Length AND 0xFF00) AND 0xFF),
       offset + 1 := ucast ((Length AND 0x00FF) AND 0xFF))"

definition writeCounterP04 :: "byte_ptr \<Rightarrow> nat \<Rightarrow> E2E_P04ProtectStateType \<Rightarrow> byte_ptr" where
  "writeCounterP04 d offset st =
     d(offset + 2 := ucast (drop_bit 8 (P04Protect_Counter st AND 0xFF00) AND 0xFF),
       offset + 3 := ucast ((P04Protect_Counter st AND 0x00FF) AND 0xFF))"

definition writeDataIDP04 :: "byte_ptr \<Rightarrow> nat \<Rightarrow> E2E_P04ConfigType \<Rightarrow> byte_ptr" where
  "writeDataIDP04 d offset cfg =
     d(offset + 4 := ucast (drop_bit 24 (P04_DataID cfg AND 0xFF000000) AND 0xFF),
       offset + 5 := ucast (drop_bit 16 (P04_DataID cfg AND 0x00FF0000) AND 0xFF),
       offset + 6 := ucast (drop_bit 8 (P04_DataID cfg AND 0x0000FF00) AND 0xFF),
       offset + 7 := ucast ((P04_DataID cfg AND 0x000000FF) AND 0xFF))"

definition computeCRCP04 :: "Crc_Mode \<Rightarrow> byte_ptr \<Rightarrow> nat \<Rightarrow> nat \<Rightarrow> uint32" where
  "computeCRCP04 mode d offset Length =
     (let crc = Crc_CalculateCRC32P4 mode (Some d) (of_nat (offset + 8)) 0xFFFFFFFF True
      in if offset + 12 < Length
         then Crc_CalculateCRC32P4 mode (Some (\<lambda>i. d (offset + 12 + i))) (of_nat (Length - offset - 12)) crc False
         else crc)"

definition writeCRCP04 :: "byte_ptr \<Rightarrow> nat \<Rightarrow> uint32 \<Rightarrow> byte_ptr" where
  "writeCRCP04 d offset crc =
     d(offset + 8 := ucast (drop_bit 24 (crc AND 0xFF000000) AND 0xFF),
       offset + 9 := ucast (drop_bit 16 (crc AND 0x00FF0000) AND 0xFF),
       offset + 10 := ucast (drop_bit 8 (crc AND 0x0000FF00) AND 0xFF),
       offset + 11 := ucast ((crc AND 0x000000FF) AND 0xFF))"

definition incrementCounterP04 :: "E2E_P04ProtectStateType \<Rightarrow> E2E_P04ProtectStateType" where
  "incrementCounterP04 st =
     st\<lparr>P04Protect_Counter := of_nat ((unat (P04Protect_Counter st) + 1) mod (65535 + 1))\<rparr>"

definition E2E_P04Protect :: "Crc_Mode \<Rightarrow> E2E_P04ConfigType option \<Rightarrow> E2E_P04ProtectStateType option
    \<Rightarrow> byte_ptr option \<Rightarrow> uint16 \<Rightarrow> E2E_ReturnType \<times> E2E_P04ProtectStateType option \<times> byte_ptr option" where
  "E2E_P04Protect mode ConfigPtr StatePtr DataPtr Length =
     (let returnValue = verifyProtectInputsP04 ConfigPtr StatePtr DataPtr Length
      in if returnValue = E2E_E_OK
         then (let cfg = the ConfigPtr; st = the StatePtr; d = the DataPtr;
                   offset = unat (computeOffsetP04 cfg);
                   d = writeLengthP04 d offset Length;
                   d = writeCounterP04 d offset st;
                   d = writeDataIDP04 d offset cfg;
                   crc = computeCRCP04 mode d offset (unat Length);
                   d = writeCRCP04 d offset crc
               in (returnValue, Some (incrementCounterP04 st), Some d))
         else (returnValue, StatePtr, DataPtr))"

definition E2E_P04ProtectInit :: "E2E_P04ProtectStateType option \<Rightarrow> E2E_ReturnType \<times> E2E_P04ProtectStateType option" where
  "E2E_P04ProtectInit StatePtr =
     (case StatePtr of None \<Rightarrow> (E2E_E_INPUTERR_NULL, None)
      | Some st \<Rightarrow> (E2E_E_OK, Some (st\<lparr>P04Protect_Counter := 0\<rparr>)))"

subsection \<open>Receiver\<close>

text \<open>The result code and the value of \<open>NewDataAvailable\<close>.\<close>

definition verifyCheckInputsP04 :: "E2E_P04ConfigType option \<Rightarrow> E2E_P04CheckStateType option
    \<Rightarrow> byte_ptr option \<Rightarrow> uint16 \<Rightarrow> E2E_ReturnType \<times> bool" where
  "verifyCheckInputsP04 ConfigPtr StatePtr DataPtr Length =
     (case (ConfigPtr, StatePtr) of
        (Some cfg, Some st) \<Rightarrow>
          if P04_config_wrong cfg then (E2E_E_INPUTERR_WRONG, False)
          else if \<not> ((DataPtr \<noteq> None \<and> Length \<noteq> 0) \<or> (DataPtr = None \<and> Length = 0)) then (E2E_E_INPUTERR_WRONG, False)
          else if DataPtr = None then (E2E_E_OK, False)
          else if P04_length_wrong cfg Length then (E2E_E_INPUTERR_WRONG, False)
          else if P04_offset_wrong cfg Length then (E2E_E_INPUTERR_WRONG, False)
          else (E2E_E_OK, True)
      | _ \<Rightarrow> (E2E_E_INPUTERR_NULL, False))"

definition readLengthP04 :: "byte_ptr \<Rightarrow> nat \<Rightarrow> uint16" where
  "readLengthP04 d offset =
     (0 OR (push_bit 8 (ucast (d offset)) AND 0xFF00)) OR (ucast (d (offset + 1)) AND 0x00FF)"

definition readCounterP04 :: "byte_ptr \<Rightarrow> nat \<Rightarrow> uint16" where
  "readCounterP04 d offset =
     (0 OR (push_bit 8 (ucast (d (offset + 2))) AND 0xFF00)) OR (ucast (d (offset + 3)) AND 0x00FF)"

definition readDataIDP04 :: "byte_ptr \<Rightarrow> nat \<Rightarrow> uint32" where
  "readDataIDP04 d offset =
     (((0 OR (push_bit 24 (ucast (d (offset + 4))) AND 0xFF000000))
       OR (push_bit 16 (ucast (d (offset + 5))) AND 0x00FF0000))
      OR (push_bit 8 (ucast (d (offset + 6))) AND 0x0000FF00))
     OR (ucast (d (offset + 7)) AND 0x000000FF)"

definition readCRCP04 :: "byte_ptr \<Rightarrow> nat \<Rightarrow> uint32" where
  "readCRCP04 d offset =
     (((0 OR (push_bit 24 (ucast (d (offset + 8))) AND 0xFF000000))
       OR (push_bit 16 (ucast (d (offset + 9))) AND 0x00FF0000))
      OR (push_bit 8 (ucast (d (offset + 10))) AND 0x0000FF00))
     OR (ucast (d (offset + 11)) AND 0x000000FF)"

definition calculateDeltaCounterP04 :: "uint16 \<Rightarrow> uint16 \<Rightarrow> uint16" where
  "calculateDeltaCounterP04 receivedCounter lastValidCounter =
     (if receivedCounter \<ge> lastValidCounter then receivedCounter - lastValidCounter
      else ucast ((65535 :: uint32) + 1 + ucast receivedCounter - ucast lastValidCounter))"

definition doChecksP04 :: "E2E_P04CheckStateType \<Rightarrow> bool \<Rightarrow> E2E_P04ConfigType \<Rightarrow> uint32 \<Rightarrow> uint32 \<Rightarrow> uint32
    \<Rightarrow> uint16 \<Rightarrow> uint16 \<Rightarrow> uint16 \<Rightarrow> E2E_P04CheckStateType" where
  "doChecksP04 st NewDataAvailable cfg receivedCRC computedCRC receivedDataID receivedLength Length receivedCounter =
     (if \<not> NewDataAvailable then st\<lparr>P04Check_Status := E2E_P04STATUS_NONEWDATA\<rparr>
      else if receivedCRC \<noteq> computedCRC \<or> receivedDataID \<noteq> P04_DataID cfg \<or> receivedLength \<noteq> Length
      then st\<lparr>P04Check_Status := E2E_P04STATUS_ERROR\<rparr>
      else
        (let deltaCounter = calculateDeltaCounterP04 receivedCounter (P04Check_Counter st);
             st = (if deltaCounter > ucast (P04_MaxDeltaCounter cfg)
                   then st\<lparr>P04Check_Status := E2E_P04STATUS_WRONGSEQUENCE\<rparr>
                   else if deltaCounter = 0 then st\<lparr>P04Check_Status := E2E_P04STATUS_REPEATED\<rparr>
                   else if deltaCounter = 1 then st\<lparr>P04Check_Status := E2E_P04STATUS_OK\<rparr>
                   else st\<lparr>P04Check_Status := E2E_P04STATUS_OKSOMELOST\<rparr>)
         in st\<lparr>P04Check_Counter := receivedCounter\<rparr>))"

definition E2E_P04Check :: "Crc_Mode \<Rightarrow> E2E_P04ConfigType option \<Rightarrow> E2E_P04CheckStateType option
    \<Rightarrow> byte_ptr option \<Rightarrow> uint16 \<Rightarrow> E2E_ReturnType \<times> E2E_P04CheckStateType option" where
  "E2E_P04Check mode ConfigPtr StatePtr DataPtr Length =
     (case verifyCheckInputsP04 ConfigPtr StatePtr DataPtr Length of (returnValue, NewDataAvailable) \<Rightarrow>
        if returnValue = E2E_E_OK
        then (let cfg = the ConfigPtr; st = the StatePtr; d = the DataPtr;
                  offset = unat (computeOffsetP04 cfg)
              in (returnValue,
                  Some (if NewDataAvailable
                        then doChecksP04 st NewDataAvailable cfg (readCRCP04 d offset)
                               (computeCRCP04 mode d offset (unat Length)) (readDataIDP04 d offset)
                               (readLengthP04 d offset) Length (readCounterP04 d offset)
                        else doChecksP04 st NewDataAvailable cfg 0 0 0 0 Length 0)))
        else (returnValue, StatePtr))"

definition E2E_P04CheckInit :: "E2E_P04CheckStateType option \<Rightarrow> E2E_ReturnType \<times> E2E_P04CheckStateType option" where
  "E2E_P04CheckInit StatePtr =
     (case StatePtr of None \<Rightarrow> (E2E_E_INPUTERR_NULL, None)
      | Some st \<Rightarrow> (E2E_E_OK, Some (st\<lparr>P04Check_Status := E2E_P04STATUS_ERROR, P04Check_Counter := 0xFFFF\<rparr>)))"

definition E2E_P04MapStatusToSM :: "E2E_ReturnType \<Rightarrow> E2E_P04CheckStatusType \<Rightarrow> E2E_PCheckStatusType" where
  "E2E_P04MapStatusToSM CheckReturn Status =
     (if CheckReturn = E2E_E_OK
      then (case Status of
              E2E_P04STATUS_OK \<Rightarrow> E2E_P_OK
            | E2E_P04STATUS_OKSOMELOST \<Rightarrow> E2E_P_OK
            | E2E_P04STATUS_REPEATED \<Rightarrow> E2E_P_REPEATED
            | E2E_P04STATUS_NONEWDATA \<Rightarrow> E2E_P_NONEWDATA
            | E2E_P04STATUS_WRONGSEQUENCE \<Rightarrow> E2E_P_WRONGSEQUENCE
            | E2E_P04STATUS_ERROR \<Rightarrow> E2E_P_ERROR)
      else E2E_P_ERROR)"

subsection \<open>Correctness\<close>

text \<open>A configuration with the CRC mode and the length of the messages.\<close>

type_synonym P04_cfg = "Crc_Mode \<times> E2E_P04ConfigType \<times> uint16"

fun P04_valid :: "P04_cfg \<Rightarrow> bool" where
  "P04_valid (mode, cfg, Length) \<longleftrightarrow>
     \<not> P04_config_wrong cfg \<and> \<not> P04_length_wrong cfg Length \<and> \<not> P04_offset_wrong cfg Length
     \<and> P04_MaxDeltaCounter cfg > 0"

fun P04_size :: "P04_cfg \<Rightarrow> nat" where
  "P04_size (mode, cfg, Length) = unat Length"

fun P04_off :: "P04_cfg \<Rightarrow> nat" where
  "P04_off (mode, cfg, Length) = unat (computeOffsetP04 cfg)"

definition P04_header :: "P04_cfg \<Rightarrow> nat set" where
  "P04_header c = {P04_off c ..< P04_off c + 12}"

fun P04_send :: "P04_cfg \<Rightarrow> E2E_P04ProtectStateType \<Rightarrow> byte_ptr \<Rightarrow> E2E_P04ProtectStateType \<times> byte_ptr" where
  "P04_send (mode, cfg, Length) s d =
     (case E2E_P04Protect mode (Some cfg) (Some s) (Some d) Length of (_, s', d') \<Rightarrow> (the s', the d'))"

fun P04_receive :: "P04_cfg \<Rightarrow> E2E_P04CheckStateType \<Rightarrow> byte_ptr \<Rightarrow> E2E_P04CheckStateType \<times> E2E_PCheckStatusType" where
  "P04_receive (mode, cfg, Length) r d =
     (case E2E_P04Check mode (Some cfg) (Some r) (Some d) Length of
        (ret, r') \<Rightarrow> (the r', E2E_P04MapStatusToSM ret (P04Check_Status (the r'))))"

definition P04_synced :: "P04_cfg \<Rightarrow> E2E_P04ProtectStateType \<Rightarrow> E2E_P04CheckStateType \<Rightarrow> bool" where
  "P04_synced c s r \<longleftrightarrow> P04Protect_Counter s = P04Check_Counter r + 1"

lemma P04_room:
  assumes "P04_valid c"
  shows "P04_off c + 12 \<le> P04_size c"
proof (cases c)
  case (fields mode cfg Length)
  with assms have "unat (P04_Offset cfg) + 96 \<le> 8 * unat Length"
    unfolding fields P04_valid.simps P04_offset_wrong_def by linarith
  with fields show ?thesis by (simp add: computeOffsetP04_def unat_div)
qed

lemma P04_size_bound: "P04_size c < 2 ^ 16"
  using unsigned_less [of "snd (snd c)"] by (cases c) simp

lemma P04_crc_around:
  assumes "off + 12 \<le> n" and "n < 2 ^ 16"
  shows "computeCRCP04 mode d off n
       = foldl crc32p4.byte_step 0xFFFFFFFF (around d (off + 8) (off + 12) n) XOR 0xFFFFFFFF"
proof -
  have *: "unat (of_nat (off + 8) :: uint32) = off + 8" "unat (of_nat (n - off - 12) :: uint32) = n - off - 12"
    using assms by (auto intro!: unat_small simp del: of_nat_add of_nat_diff)
  show ?thesis
  proof (cases "off + 12 < n")
    case True
    then show ?thesis
      unfolding computeCRCP04_def Crc_CalculateCRC32P4_fold Let_def * around_def
      by (simp add: xor.assoc)
  next
    case False
    with assms have "n - (off + 12) = 0" by simp
    with False show ?thesis
      unfolding computeCRCP04_def Crc_CalculateCRC32P4_fold Let_def * around_def by simp
  qed
qed

lemma delta_P04: "calculateDeltaCounterP04 r l = r - l"
  by (simp add: calculateDeltaCounterP04_def wrap_diff)

text \<open>The fields of a received message.\<close>

lemma P04_reads:
  "readLengthP04 d off = be16 (d off) (d (off + 1))"
  "readCounterP04 d off = be16 (d (off + 2)) (d (off + 3))"
  "readDataIDP04 d off = be32 (d (off + 4)) (d (off + 5)) (d (off + 6)) (d (off + 7))"
  "readCRCP04 d off = be32 (d (off + 8)) (d (off + 9)) (d (off + 10)) (d (off + 11))"
  unfolding readLengthP04_def readCounterP04_def readDataIDP04_def readCRCP04_def join_uint16 join_uint32
  by (rule refl)+

lemma P04_writes:
  "writeLengthP04 d off n = d(off := ucast (drop_bit 8 n), off + 1 := ucast n)"
  "writeCounterP04 d off s = d(off + 2 := ucast (drop_bit 8 (P04Protect_Counter s)), off + 3 := ucast (P04Protect_Counter s))"
  "writeDataIDP04 d off cfg = d(off + 4 := ucast (drop_bit 24 (P04_DataID cfg)), off + 5 := ucast (drop_bit 16 (P04_DataID cfg)),
     off + 6 := ucast (drop_bit 8 (P04_DataID cfg)), off + 7 := ucast (P04_DataID cfg))"
  "writeCRCP04 d off crc = d(off + 8 := ucast (drop_bit 24 crc), off + 9 := ucast (drop_bit 16 crc),
     off + 10 := ucast (drop_bit 8 crc), off + 11 := ucast crc)"
  unfolding writeLengthP04_def writeCounterP04_def writeDataIDP04_def writeCRCP04_def byte_of_uint16 byte_of_uint32
  by (rule refl)+

interpretation p04crc: e2e_crc P04_valid P04_size "\<lambda>c. P04_off c + 8" "\<lambda>c. P04_off c + 12"
  "\<lambda>c d. computeCRCP04 (fst c) d (P04_off c) (P04_size c)" "\<lambda>c d. readCRCP04 d (P04_off c)"
proof
  fix c :: P04_cfg and d e :: byte_ptr and k j :: nat and v :: uint8
  assume "P04_valid c"
  note n = P04_room [OF this] P04_size_bound [of c]
  let ?lo = "P04_off c + 8" and ?hi = "P04_off c + 12"
  show "?lo \<le> ?hi \<and> ?hi \<le> P04_size c" using n by simp
  show "(\<And>i. ?lo \<le> i \<Longrightarrow> i < ?hi \<Longrightarrow> d i = e i) \<Longrightarrow> readCRCP04 d (P04_off c) = readCRCP04 e (P04_off c)"
    by (simp add: P04_reads)
  assume eq: "around d ?lo ?hi (P04_size c) = around e ?lo ?hi (P04_size c)"
  then show "computeCRCP04 (fst c) d (P04_off c) (P04_size c) = computeCRCP04 (fst c) e (P04_off c) (P04_size c)"
    by (simp only: P04_crc_around [OF n])
next
  fix c :: P04_cfg and d e :: byte_ptr and k j :: nat and v :: uint8
  assume "P04_valid c"
  note n = P04_room [OF this] P04_size_bound [of c]
  let ?lo = "P04_off c + 8" and ?hi = "P04_off c + 12"
  show "readCRCP04 (d(k := v)) (P04_off c) \<noteq> readCRCP04 d (P04_off c)" if "?lo \<le> k" "k < ?hi" "v \<noteq> d k"
  proof -
    from that have "k \<in> {P04_off c + 8, P04_off c + 9, P04_off c + 10, P04_off c + 11}" by auto
    with that(3) show ?thesis by (auto simp: P04_reads)
  qed
  assume e: "around e ?lo ?hi (P04_size c) = (around d ?lo ?hi (P04_size c))[j := v]"
    and j: "j < length (around d ?lo ?hi (P04_size c))" and v: "v \<noteq> around d ?lo ?hi (P04_size c) ! j"
  show "computeCRCP04 (fst c) e (P04_off c) (P04_size c) \<noteq> computeCRCP04 (fst c) d (P04_off c) (P04_size c)"
    unfolding P04_crc_around [OF n] e xor_right_eq
    by (rule crc32p4.one_byte_detected_update) (use j v in \<open>simp_all add: nth_append\<close>)
qed

definition P04_intact :: "P04_cfg \<Rightarrow> byte_ptr \<Rightarrow> bool" where
  "P04_intact c d \<longleftrightarrow>
     (let off = P04_off c; n = P04_size c
      in readCRCP04 d off = computeCRCP04 (fst c) d off n \<and> readDataIDP04 d off = P04_DataID (fst (snd c))
         \<and> readLengthP04 d off = snd (snd c))"

lemma P04_send_eq:
  assumes "P04_valid c"
  shows "fst (P04_send c s d) = s\<lparr>P04Protect_Counter := P04Protect_Counter s + 1\<rparr>"
    and "i \<notin> P04_header c \<Longrightarrow> snd (P04_send c s d) i = d i"
    and "P04_intact c (snd (P04_send c s d))"
    and "readCounterP04 (snd (P04_send c s d)) (P04_off c) = P04Protect_Counter s"
proof -
  obtain mode cfg Length where c: "c = (mode, cfg, Length)" by (cases c)
  let ?o = "P04_off c" and ?n = "P04_size c"
  define d1 where "d1 = writeDataIDP04 (writeCounterP04 (writeLengthP04 d ?o Length) ?o s) ?o cfg"
  have verify: "verifyProtectInputsP04 (Some cfg) (Some s) (Some d) Length = E2E_E_OK"
    using assms c by (simp add: verifyProtectInputsP04_def)
  then have send: "P04_send c s d = (incrementCounterP04 s, writeCRCP04 d1 ?o (computeCRCP04 mode d1 ?o ?n))"
    unfolding c by (simp add: E2E_P04Protect_def d1_def c Let_def)
  have "incrementCounterP04 s = s\<lparr>P04Protect_Counter := P04Protect_Counter s + 1\<rparr>"
    unfolding incrementCounterP04_def by (subst next_counter) simp_all
  then show "fst (P04_send c s d) = s\<lparr>P04Protect_Counter := P04Protect_Counter s + 1\<rparr>"
    by (simp add: send)
  show "i \<notin> P04_header c \<Longrightarrow> snd (P04_send c s d) i = d i"
    by (auto simp: send P04_writes d1_def P04_header_def)
  have "writeCRCP04 d1 ?o v i = d1 i" if "\<not> (?o + 8 \<le> i \<and> i < ?o + 12)" for v i
    using that by (auto simp: P04_writes)
  then have crc: "computeCRCP04 (fst c) (writeCRCP04 d1 ?o v) (P04_off c) (P04_size c) = computeCRCP04 (fst c) d1 (P04_off c) (P04_size c)" for v
    by (intro p04crc.computed_gap [OF assms]) simp
  have reads: "readCRCP04 (writeCRCP04 d1 ?o v) ?o = v" "readDataIDP04 (writeCRCP04 d1 ?o v) ?o = P04_DataID cfg"
      "readLengthP04 (writeCRCP04 d1 ?o v) ?o = Length" "readCounterP04 (writeCRCP04 d1 ?o v) ?o = P04Protect_Counter s" for v
    by (simp_all add: P04_reads P04_writes d1_def)
  have sel: "fst c = mode" "fst (snd c) = cfg" "snd (snd c) = Length" by (simp_all add: c)
  show "P04_intact c (snd (P04_send c s d))"
    by (simp only: P04_intact_def send sel crc [unfolded sel] reads snd_conv Let_def)
  show "readCounterP04 (snd (P04_send c s d)) (P04_off c) = P04Protect_Counter s"
    by (simp only: send reads snd_conv)
qed

lemma P04_receive_eq:
  assumes "P04_valid c"
  shows "P04_receive c r d =
    (if P04_intact c d
     then (let delta = readCounterP04 d (P04_off c) - P04Check_Counter r;
               st = (if delta > ucast (P04_MaxDeltaCounter (fst (snd c))) then E2E_P04STATUS_WRONGSEQUENCE
                     else if delta = 0 then E2E_P04STATUS_REPEATED
                     else if delta = 1 then E2E_P04STATUS_OK else E2E_P04STATUS_OKSOMELOST)
           in (r\<lparr>P04Check_Status := st, P04Check_Counter := readCounterP04 d (P04_off c)\<rparr>,
               E2E_P04MapStatusToSM E2E_E_OK st))
     else (r\<lparr>P04Check_Status := E2E_P04STATUS_ERROR\<rparr>, E2E_P_ERROR))"
proof -
  obtain mode cfg Length where c: "c = (mode, cfg, Length)" by (cases c)
  have "Length \<noteq> 0" using P04_room [OF assms] c by auto
  then have "verifyCheckInputsP04 (Some cfg) (Some r) (Some d) Length = (E2E_E_OK, True)"
    using assms c by (simp add: verifyCheckInputsP04_def)
  then show ?thesis
    by (simp add: c E2E_P04Check_def doChecksP04_def P04_intact_def delta_P04 Let_def E2E_P04MapStatusToSM_def)
qed

lemma P04_not_intact:
  assumes "P04_valid c" and "P04_intact c d" and "k < P04_size c" and "x \<noteq> 0"
  shows "\<not> P04_intact c (d(k := d k XOR x))"
  using p04crc.byte_change_detected [OF assms(1) _ assms(3,4), of d] assms(2)
  by (simp add: P04_intact_def Let_def)

interpretation p04: e2e_resync P04_valid P04_size P04_header "\<lambda>_ _ _. True" "\<lambda>_ _. True" P04_send P04_receive P04_synced
  "\<lambda>_ _. True" "\<lambda>c s r. if P04_synced c s r then 0 else 1" "\<lambda>_. 1"
proof
  fix c s d
  assume v: "P04_valid c"
  note [simp] = P04_send_eq(1,3,4) [OF v] P04_receive_eq [OF v]
  show "P04_header c \<subseteq> {..<P04_size c}" using P04_room [OF v] by (auto simp: P04_header_def)
  show "i \<notin> P04_header c \<Longrightarrow> snd (P04_send c s d) i = d i" for i by (rule P04_send_eq(2) [OF v])
  show "snd (P04_receive c r (snd (P04_send c s d))) \<noteq> E2E_P_ERROR" for r
    by (simp add: Let_def E2E_P04MapStatusToSM_def)
  show "snd (P04_receive c r (d'(k := d' k XOR x))) = E2E_P_ERROR"
    if "k < P04_size c" "x \<noteq> 0" "d' = snd (P04_send c s d)" for k x r d'
    using P04_not_intact [OF v P04_send_eq(3) [OF v], of k x s d] that by simp
  have follow: "P04_synced c (fst (P04_send c s d)) (fst (P04_receive c r (snd (P04_send c s d))))" for r
    by (simp add: P04_synced_def Let_def)
  show "snd (P04_receive c r d) \<noteq> E2E_P_NONEWDATA" for r
    by (simp add: Let_def E2E_P04MapStatusToSM_def)
  show "P04_synced c (fst (P04_send c s d)) (fst (P04_receive c r (snd (P04_send c s d))))" for r by (rule follow)
  show "(if P04_synced c (fst (P04_send c s d)) (fst (P04_receive c r (snd (P04_send c s d)))) then 0 else 1)
      < (if P04_synced c s r then 0 else 1 :: nat)" if "\<not> P04_synced c s r" for r
    using that follow [of r] by simp
  show "snd (P04_receive c r (snd (P04_send c s d))) = E2E_P_OK" if "P04_synced c s r" for r
  proof -
    have "\<not> (1 :: uint16) > ucast (P04_MaxDeltaCounter (fst (snd c)))"
      using v by (cases c) (simp add: word_less_nat_alt unat_ucast_up)
    with that show ?thesis by (simp add: P04_synced_def E2E_P04MapStatusToSM_def Let_def)
  qed
next
  fix c r and d e :: byte_ptr
  assume v: "P04_valid c" and eq: "\<And>i. i < P04_size c \<Longrightarrow> d i = e i"
  note n = P04_room [OF v] and crc = p04crc.inside_cong [OF v eq]
  have "P04_intact c d = P04_intact c e" and "readCounterP04 d (P04_off c) = readCounterP04 e (P04_off c)"
    using n eq crc by (simp_all add: P04_intact_def Let_def P04_reads)
  then show "P04_receive c r d = P04_receive c r e" by (simp add: P04_receive_eq [OF v])
qed simp_all

end
