(* ===== verification/E2E_P05.thy ===== *)
theory E2E_P05
  imports E2E_Profile
begin

unbundle bit_operations_syntax

text \<open>
  Profile 5 of the end-to-end library, SafeLib/E2E/src/E2E\_P05.c: a header of three bytes with a
  16 bit CRC, low byte first, and a counter; the CRC covers all other bytes of the message and
  the data identifier, which is not transmitted.
\<close>

subsection \<open>Types\<close>

datatype E2E_P05CheckStatusType = E2E_P05STATUS_OK | E2E_P05STATUS_NONEWDATA | E2E_P05STATUS_ERROR
  | E2E_P05STATUS_REPEATED | E2E_P05STATUS_OKSOMELOST | E2E_P05STATUS_WRONGSEQUENCE

record E2E_P05ConfigType =
  P05_Offset :: uint16
  P05_DataLength :: uint16
  P05_DataID :: uint16
  P05_MaxDeltaCounter :: uint8

record E2E_P05ProtectStateType =
  P05Protect_Counter :: uint8

record E2E_P05CheckStateType =
  P05Check_Status :: E2E_P05CheckStatusType
  P05Check_Counter :: uint8

subsection \<open>Sender\<close>

definition P05_length_wrong :: "E2E_P05ConfigType \<Rightarrow> uint16 \<Rightarrow> bool" where
  "P05_length_wrong cfg Length \<longleftrightarrow>
     8 * unat Length < 8 * 3 \<or> 8 * unat Length > 8 * 4096 \<or> 8 * unat Length \<noteq> unat (P05_DataLength cfg)"

definition P05_offset_wrong :: "E2E_P05ConfigType \<Rightarrow> uint16 \<Rightarrow> bool" where
  "P05_offset_wrong cfg Length \<longleftrightarrow>
     P05_Offset cfg mod 8 \<noteq> 0 \<or> int (unat (P05_Offset cfg)) > 8 * int (unat Length) - 8 * 3"

definition verifyProtectInputsP05 :: "E2E_P05ConfigType option \<Rightarrow> E2E_P05ProtectStateType option
    \<Rightarrow> byte_ptr option \<Rightarrow> uint16 \<Rightarrow> E2E_ReturnType" where
  "verifyProtectInputsP05 ConfigPtr StatePtr DataPtr Length =
     (case (ConfigPtr, StatePtr, DataPtr) of
        (Some cfg, Some st, Some d) \<Rightarrow>
          if P05_length_wrong cfg Length then E2E_E_INPUTERR_WRONG
          else if P05_offset_wrong cfg Length then E2E_E_INPUTERR_WRONG
          else E2E_E_OK
      | _ \<Rightarrow> E2E_E_INPUTERR_NULL)"

definition computeOffsetP05 :: "E2E_P05ConfigType \<Rightarrow> uint16" where
  "computeOffsetP05 cfg = P05_Offset cfg div 8"

definition writeCounterP05 :: "byte_ptr \<Rightarrow> nat \<Rightarrow> E2E_P05ProtectStateType \<Rightarrow> byte_ptr" where
  "writeCounterP05 d offset st = d(offset + 2 := (P05Protect_Counter st AND 0xFF) AND 0xFF)"

definition computeCRCP05 :: "Crc_Mode \<Rightarrow> byte_ptr \<Rightarrow> nat \<Rightarrow> nat \<Rightarrow> uint16 \<Rightarrow> uint16" where
  "computeCRCP05 mode d Length offset dataId =
     (let lengthBytes = Length - offset - 2;
          crc = (if offset > 0
                 then Crc_CalculateCRC16 mode (Some (\<lambda>i. d (offset + 2 + i))) (of_nat lengthBytes)
                        (Crc_CalculateCRC16 mode (Some d) (of_nat offset) 0xFFFF True) False
                 else Crc_CalculateCRC16 mode (Some (\<lambda>i. d (offset + 2 + i))) (of_nat lengthBytes) 0xFFFF True);
          dataIdNibble = ucast (dataId AND 0xFF);
          crc = Crc_CalculateCRC16 mode (Some (\<lambda>_. dataIdNibble)) 1 crc False;
          dataIdNibble = ucast (drop_bit 8 dataId AND 0xFF)
      in Crc_CalculateCRC16 mode (Some (\<lambda>_. dataIdNibble)) 1 crc False)"

definition writeCRCP05 :: "byte_ptr \<Rightarrow> nat \<Rightarrow> uint16 \<Rightarrow> byte_ptr" where
  "writeCRCP05 d offset crc =
     d(offset := ucast ((crc AND 0x00FF) AND 0xFF),
       offset + 1 := ucast (drop_bit 8 (crc AND 0xFF00) AND 0xFF))"

definition incrementCounterP05 :: "E2E_P05ProtectStateType \<Rightarrow> E2E_P05ProtectStateType" where
  "incrementCounterP05 st = st\<lparr>P05Protect_Counter := of_nat ((unat (P05Protect_Counter st) + 1) mod (255 + 1))\<rparr>"

definition E2E_P05Protect :: "Crc_Mode \<Rightarrow> E2E_P05ConfigType option \<Rightarrow> E2E_P05ProtectStateType option
    \<Rightarrow> byte_ptr option \<Rightarrow> uint16 \<Rightarrow> E2E_ReturnType \<times> E2E_P05ProtectStateType option \<times> byte_ptr option" where
  "E2E_P05Protect mode ConfigPtr StatePtr DataPtr Length =
     (let returnValue = verifyProtectInputsP05 ConfigPtr StatePtr DataPtr Length
      in if returnValue = E2E_E_OK
         then (let cfg = the ConfigPtr; st = the StatePtr; d = the DataPtr;
                   offset = unat (computeOffsetP05 cfg);
                   d = writeCounterP05 d offset st;
                   crc = computeCRCP05 mode d (unat Length) offset (P05_DataID cfg);
                   d = writeCRCP05 d offset crc
               in (returnValue, Some (incrementCounterP05 st), Some d))
         else (returnValue, StatePtr, DataPtr))"

definition E2E_P05ProtectInit :: "E2E_P05ProtectStateType option \<Rightarrow> E2E_ReturnType \<times> E2E_P05ProtectStateType option" where
  "E2E_P05ProtectInit StatePtr =
     (case StatePtr of None \<Rightarrow> (E2E_E_INPUTERR_NULL, None)
      | Some st \<Rightarrow> (E2E_E_OK, Some (st\<lparr>P05Protect_Counter := 0\<rparr>)))"

subsection \<open>Receiver\<close>

definition verifyCheckInputsP05 :: "E2E_P05ConfigType option \<Rightarrow> E2E_P05CheckStateType option
    \<Rightarrow> byte_ptr option \<Rightarrow> uint16 \<Rightarrow> E2E_ReturnType \<times> bool" where
  "verifyCheckInputsP05 ConfigPtr StatePtr DataPtr Length =
     (case (ConfigPtr, StatePtr) of
        (Some cfg, Some st) \<Rightarrow>
          if \<not> ((DataPtr \<noteq> None \<and> Length \<noteq> 0) \<or> (DataPtr = None \<and> Length = 0)) then (E2E_E_INPUTERR_WRONG, False)
          else if DataPtr = None then (E2E_E_OK, False)
          else if P05_length_wrong cfg Length then (E2E_E_INPUTERR_WRONG, False)
          else if P05_offset_wrong cfg Length then (E2E_E_INPUTERR_WRONG, False)
          else (E2E_E_OK, True)
      | _ \<Rightarrow> (E2E_E_INPUTERR_NULL, False))"

definition readCounterP05 :: "byte_ptr \<Rightarrow> nat \<Rightarrow> uint8" where
  "readCounterP05 d offset = 0 OR (d (offset + 2) AND 0xFF)"

definition readCRCP05 :: "byte_ptr \<Rightarrow> nat \<Rightarrow> uint16" where
  "readCRCP05 d offset =
     (0 OR (ucast (d offset) AND 0x00FF)) OR (push_bit 8 (ucast (d (offset + 1))) AND 0xFF00)"

definition calculateDeltaCounterP05 :: "uint8 \<Rightarrow> uint8 \<Rightarrow> uint8" where
  "calculateDeltaCounterP05 receivedCounter lastValidCounter =
     (if receivedCounter \<ge> lastValidCounter then receivedCounter - lastValidCounter
      else ucast ((255 :: uint32) + 1 + ucast receivedCounter - ucast lastValidCounter))"

definition doChecksP05 :: "E2E_P05CheckStateType \<Rightarrow> bool \<Rightarrow> E2E_P05ConfigType \<Rightarrow> uint16 \<Rightarrow> uint16 \<Rightarrow> uint8
    \<Rightarrow> E2E_P05CheckStateType" where
  "doChecksP05 st NewDataAvailable cfg receivedCRC computedCRC receivedCounter =
     (if \<not> NewDataAvailable then st\<lparr>P05Check_Status := E2E_P05STATUS_NONEWDATA\<rparr>
      else if receivedCRC \<noteq> computedCRC then st\<lparr>P05Check_Status := E2E_P05STATUS_ERROR\<rparr>
      else
        (let deltaCounter = calculateDeltaCounterP05 receivedCounter (P05Check_Counter st);
             st = (if deltaCounter > P05_MaxDeltaCounter cfg
                   then st\<lparr>P05Check_Status := E2E_P05STATUS_WRONGSEQUENCE\<rparr>
                   else if deltaCounter = 0 then st\<lparr>P05Check_Status := E2E_P05STATUS_REPEATED\<rparr>
                   else if deltaCounter = 1 then st\<lparr>P05Check_Status := E2E_P05STATUS_OK\<rparr>
                   else st\<lparr>P05Check_Status := E2E_P05STATUS_OKSOMELOST\<rparr>)
         in st\<lparr>P05Check_Counter := receivedCounter\<rparr>))"

definition E2E_P05Check :: "Crc_Mode \<Rightarrow> E2E_P05ConfigType option \<Rightarrow> E2E_P05CheckStateType option
    \<Rightarrow> byte_ptr option \<Rightarrow> uint16 \<Rightarrow> E2E_ReturnType \<times> E2E_P05CheckStateType option" where
  "E2E_P05Check mode ConfigPtr StatePtr DataPtr Length =
     (case verifyCheckInputsP05 ConfigPtr StatePtr DataPtr Length of (returnValue, NewDataAvailable) \<Rightarrow>
        if returnValue = E2E_E_OK
        then (let cfg = the ConfigPtr; st = the StatePtr; d = the DataPtr;
                  offset = unat (computeOffsetP05 cfg)
              in (returnValue,
                  Some (if NewDataAvailable
                        then doChecksP05 st NewDataAvailable cfg (readCRCP05 d offset)
                               (computeCRCP05 mode d (unat Length) offset (P05_DataID cfg)) (readCounterP05 d offset)
                        else doChecksP05 st NewDataAvailable cfg 0 0 0)))
        else (returnValue, StatePtr))"

definition E2E_P05CheckInit :: "E2E_P05CheckStateType option \<Rightarrow> E2E_ReturnType \<times> E2E_P05CheckStateType option" where
  "E2E_P05CheckInit StatePtr =
     (case StatePtr of None \<Rightarrow> (E2E_E_INPUTERR_NULL, None)
      | Some st \<Rightarrow> (E2E_E_OK, Some (st\<lparr>P05Check_Status := E2E_P05STATUS_ERROR, P05Check_Counter := 0xFF\<rparr>)))"

definition E2E_P05MapStatusToSM :: "E2E_ReturnType \<Rightarrow> E2E_P05CheckStatusType \<Rightarrow> E2E_PCheckStatusType" where
  "E2E_P05MapStatusToSM CheckReturn Status =
     (if CheckReturn = E2E_E_OK
      then (case Status of
              E2E_P05STATUS_OK \<Rightarrow> E2E_P_OK
            | E2E_P05STATUS_OKSOMELOST \<Rightarrow> E2E_P_OK
            | E2E_P05STATUS_REPEATED \<Rightarrow> E2E_P_REPEATED
            | E2E_P05STATUS_NONEWDATA \<Rightarrow> E2E_P_NONEWDATA
            | E2E_P05STATUS_WRONGSEQUENCE \<Rightarrow> E2E_P_WRONGSEQUENCE
            | E2E_P05STATUS_ERROR \<Rightarrow> E2E_P_ERROR)
      else E2E_P_ERROR)"

subsection \<open>Correctness\<close>

text \<open>A configuration with the CRC mode and the length of the messages.\<close>

type_synonym P05_cfg = "Crc_Mode \<times> E2E_P05ConfigType \<times> uint16"

fun P05_valid :: "P05_cfg \<Rightarrow> bool" where
  "P05_valid (mode, cfg, Length) \<longleftrightarrow>
     \<not> P05_length_wrong cfg Length \<and> \<not> P05_offset_wrong cfg Length \<and> P05_MaxDeltaCounter cfg > 0"

fun P05_size :: "P05_cfg \<Rightarrow> nat" where
  "P05_size (mode, cfg, Length) = unat Length"

fun P05_off :: "P05_cfg \<Rightarrow> nat" where
  "P05_off (mode, cfg, Length) = unat (computeOffsetP05 cfg)"

definition P05_header :: "P05_cfg \<Rightarrow> nat set" where
  "P05_header c = {P05_off c ..< P05_off c + 3}"

fun P05_send :: "P05_cfg \<Rightarrow> E2E_P05ProtectStateType \<Rightarrow> byte_ptr \<Rightarrow> E2E_P05ProtectStateType \<times> byte_ptr" where
  "P05_send (mode, cfg, Length) s d =
     (case E2E_P05Protect mode (Some cfg) (Some s) (Some d) Length of (_, s', d') \<Rightarrow> (the s', the d'))"

fun P05_receive :: "P05_cfg \<Rightarrow> E2E_P05CheckStateType \<Rightarrow> byte_ptr \<Rightarrow> E2E_P05CheckStateType \<times> E2E_PCheckStatusType" where
  "P05_receive (mode, cfg, Length) r d =
     (case E2E_P05Check mode (Some cfg) (Some r) (Some d) Length of
        (ret, r') \<Rightarrow> (the r', E2E_P05MapStatusToSM ret (P05Check_Status (the r'))))"

definition P05_synced :: "P05_cfg \<Rightarrow> E2E_P05ProtectStateType \<Rightarrow> E2E_P05CheckStateType \<Rightarrow> bool" where
  "P05_synced c s r \<longleftrightarrow> P05Protect_Counter s = P05Check_Counter r + 1"

lemma P05_room:
  assumes "P05_valid c"
  shows "P05_off c + 3 \<le> P05_size c"
proof (cases c)
  case (fields mode cfg Length)
  with assms have "unat (P05_Offset cfg) + 24 \<le> 8 * unat Length"
    unfolding fields P05_valid.simps P05_offset_wrong_def by linarith
  with fields show ?thesis by (simp add: computeOffsetP05_def unat_div)
qed

lemma P05_size_bound: "P05_size c < 2 ^ 16"
  using unsigned_less [of "snd (snd c)"] by (cases c) simp

text \<open>The bytes the CRC is computed over, the identifier last.\<close>

lemma P05_crc_around:
  assumes "off + 3 \<le> n" and "n < 2 ^ 16"
  shows "computeCRCP05 mode d n off dataId
       = foldl crc16.byte_step 0xFFFF (around d off (off + 2) n @ [ucast dataId, ucast (drop_bit 8 dataId)])"
proof -
  have *: "unat (of_nat off :: uint32) = off" "unat (of_nat (n - off - 2) :: uint32) = n - off - 2"
    using assms by (auto intro!: unat_small simp del: of_nat_add of_nat_diff)
  show ?thesis
    unfolding computeCRCP05_def Crc_CalculateCRC16_fold Let_def * id_bytes around_def unat_1 read_one
    by (simp add: numeral_2_eq_2)
qed

lemma delta_P05: "calculateDeltaCounterP05 r l = r - l"
  by (simp add: calculateDeltaCounterP05_def wrap_diff)

text \<open>The fields of a received message.\<close>

lemma P05_reads:
  "readCounterP05 d off = d (off + 2)"
  "readCRCP05 d off = be16 (d (off + 1)) (d off)"
  unfolding readCounterP05_def readCRCP05_def using join_uint16 [of "d (off + 1)" "d off"]
  by (simp_all add: or.commute)

lemma P05_writes:
  "writeCounterP05 d off s = d(off + 2 := P05Protect_Counter s)"
  "writeCRCP05 d off crc = d(off := ucast crc, off + 1 := ucast (drop_bit 8 crc))"
  unfolding writeCounterP05_def writeCRCP05_def byte_of_uint16 by simp_all

interpretation p05crc: e2e_crc P05_valid P05_size P05_off "\<lambda>c. P05_off c + 2"
  "\<lambda>c d. computeCRCP05 (fst c) d (P05_size c) (P05_off c) (P05_DataID (fst (snd c)))" "\<lambda>c d. readCRCP05 d (P05_off c)"
proof
  fix c :: P05_cfg and d e :: byte_ptr and k j :: nat and v :: uint8
  assume "P05_valid c"
  note n = P05_room [OF this] P05_size_bound [of c]
  let ?lo = "P05_off c" and ?hi = "P05_off c + 2"
  show "?lo \<le> ?hi \<and> ?hi \<le> P05_size c" using n by simp
  show "(\<And>i. ?lo \<le> i \<Longrightarrow> i < ?hi \<Longrightarrow> d i = e i) \<Longrightarrow> readCRCP05 d (P05_off c) = readCRCP05 e (P05_off c)"
    by (simp add: P05_reads)
  assume eq: "around d ?lo ?hi (P05_size c) = around e ?lo ?hi (P05_size c)"
  then show "computeCRCP05 (fst c) d (P05_size c) (P05_off c) (P05_DataID (fst (snd c))) = computeCRCP05 (fst c) e (P05_size c) (P05_off c) (P05_DataID (fst (snd c)))"
    by (simp only: P05_crc_around [OF n])
next
  fix c :: P05_cfg and d e :: byte_ptr and k j :: nat and v :: uint8
  assume "P05_valid c"
  note n = P05_room [OF this] P05_size_bound [of c]
  let ?lo = "P05_off c" and ?hi = "P05_off c + 2"
  show "readCRCP05 (d(k := v)) (P05_off c) \<noteq> readCRCP05 d (P05_off c)" if "?lo \<le> k" "k < ?hi" "v \<noteq> d k"
  proof -
    from that have "k \<in> {P05_off c + 0, P05_off c + 1}" by auto
    with that(3) show ?thesis by (auto simp: P05_reads)
  qed
  assume e: "around e ?lo ?hi (P05_size c) = (around d ?lo ?hi (P05_size c))[j := v]"
    and j: "j < length (around d ?lo ?hi (P05_size c))" and v: "v \<noteq> around d ?lo ?hi (P05_size c) ! j"
  show "computeCRCP05 (fst c) e (P05_size c) (P05_off c) (P05_DataID (fst (snd c))) \<noteq> computeCRCP05 (fst c) d (P05_size c) (P05_off c) (P05_DataID (fst (snd c)))"
    unfolding P05_crc_around [OF n] e list_update_append1 [OF j, symmetric]
    by (rule crc16.one_byte_detected_update) (use j v in \<open>simp_all add: nth_append\<close>)
qed

definition P05_intact :: "P05_cfg \<Rightarrow> byte_ptr \<Rightarrow> bool" where
  "P05_intact c d \<longleftrightarrow>
     readCRCP05 d (P05_off c) = computeCRCP05 (fst c) d (P05_size c) (P05_off c) (P05_DataID (fst (snd c)))"

lemma P05_send_eq:
  assumes "P05_valid c"
  shows "fst (P05_send c s d) = s\<lparr>P05Protect_Counter := P05Protect_Counter s + 1\<rparr>"
    and "i \<notin> P05_header c \<Longrightarrow> snd (P05_send c s d) i = d i"
    and "P05_intact c (snd (P05_send c s d))"
    and "readCounterP05 (snd (P05_send c s d)) (P05_off c) = P05Protect_Counter s"
proof -
  obtain mode cfg Length where c: "c = (mode, cfg, Length)" by (cases c)
  let ?o = "P05_off c" and ?n = "P05_size c"
  define d1 where "d1 = writeCounterP05 d ?o s"
  have verify: "verifyProtectInputsP05 (Some cfg) (Some s) (Some d) Length = E2E_E_OK"
    using assms c by (simp add: verifyProtectInputsP05_def)
  then have send: "P05_send c s d
      = (incrementCounterP05 s, writeCRCP05 d1 ?o (computeCRCP05 mode d1 ?n ?o (P05_DataID cfg)))"
    unfolding c by (simp add: E2E_P05Protect_def d1_def c Let_def)
  have "incrementCounterP05 s = s\<lparr>P05Protect_Counter := P05Protect_Counter s + 1\<rparr>"
    unfolding incrementCounterP05_def by (subst next_counter) simp_all
  then show "fst (P05_send c s d) = s\<lparr>P05Protect_Counter := P05Protect_Counter s + 1\<rparr>"
    by (simp add: send)
  show "i \<notin> P05_header c \<Longrightarrow> snd (P05_send c s d) i = d i"
    by (auto simp: send P05_writes d1_def P05_header_def)
  have "writeCRCP05 d1 ?o v i = d1 i" if "\<not> (?o \<le> i \<and> i < ?o + 2)" for v i
    using that by (auto simp: P05_writes)
  then have crc: "computeCRCP05 (fst c) (writeCRCP05 d1 ?o v) (P05_size c) (P05_off c) (P05_DataID (fst (snd c))) = computeCRCP05 (fst c) d1 (P05_size c) (P05_off c) (P05_DataID (fst (snd c)))" for v
    by (intro p05crc.computed_gap [OF assms]) simp
  have reads: "readCRCP05 (writeCRCP05 d1 ?o v) ?o = v" "readCounterP05 (writeCRCP05 d1 ?o v) ?o = P05Protect_Counter s" for v
    by (simp_all add: P05_reads P05_writes d1_def)
  have sel: "fst c = mode" "fst (snd c) = cfg" by (simp_all add: c)
  show "P05_intact c (snd (P05_send c s d))"
    by (simp only: P05_intact_def send sel crc [unfolded sel] reads snd_conv)
  show "readCounterP05 (snd (P05_send c s d)) (P05_off c) = P05Protect_Counter s"
    by (simp only: send reads snd_conv)
qed

lemma P05_receive_eq:
  assumes "P05_valid c"
  shows "P05_receive c r d =
    (if P05_intact c d
     then (let delta = readCounterP05 d (P05_off c) - P05Check_Counter r;
               st = (if delta > P05_MaxDeltaCounter (fst (snd c)) then E2E_P05STATUS_WRONGSEQUENCE
                     else if delta = 0 then E2E_P05STATUS_REPEATED
                     else if delta = 1 then E2E_P05STATUS_OK else E2E_P05STATUS_OKSOMELOST)
           in (r\<lparr>P05Check_Status := st, P05Check_Counter := readCounterP05 d (P05_off c)\<rparr>,
               E2E_P05MapStatusToSM E2E_E_OK st))
     else (r\<lparr>P05Check_Status := E2E_P05STATUS_ERROR\<rparr>, E2E_P_ERROR))"
proof -
  obtain mode cfg Length where c: "c = (mode, cfg, Length)" by (cases c)
  have "Length \<noteq> 0" using P05_room [OF assms] c by auto
  then have "verifyCheckInputsP05 (Some cfg) (Some r) (Some d) Length = (E2E_E_OK, True)"
    using assms c by (simp add: verifyCheckInputsP05_def)
  then show ?thesis
    by (simp add: c E2E_P05Check_def doChecksP05_def P05_intact_def delta_P05 Let_def E2E_P05MapStatusToSM_def)
qed

lemma P05_not_intact:
  assumes "P05_valid c" and "P05_intact c d" and "k < P05_size c" and "x \<noteq> 0"
  shows "\<not> P05_intact c (d(k := d k XOR x))"
  using p05crc.byte_change_detected [OF assms(1) _ assms(3,4), of d] assms(2)
  by (simp add: P05_intact_def Let_def)

interpretation p05: e2e_resync P05_valid P05_size P05_header "\<lambda>_ _ _. True" "\<lambda>_ _. True" P05_send P05_receive P05_synced
  "\<lambda>_ _. True" "\<lambda>c s r. if P05_synced c s r then 0 else 1" "\<lambda>_. 1"
proof
  fix c s d
  assume v: "P05_valid c"
  note [simp] = P05_send_eq(1,3,4) [OF v] P05_receive_eq [OF v]
  show "P05_header c \<subseteq> {..<P05_size c}" using P05_room [OF v] by (auto simp: P05_header_def)
  show "i \<notin> P05_header c \<Longrightarrow> snd (P05_send c s d) i = d i" for i by (rule P05_send_eq(2) [OF v])
  show "snd (P05_receive c r (snd (P05_send c s d))) \<noteq> E2E_P_ERROR" for r
    by (simp add: Let_def E2E_P05MapStatusToSM_def)
  show "snd (P05_receive c r (d'(k := d' k XOR x))) = E2E_P_ERROR"
    if "k < P05_size c" "x \<noteq> 0" "d' = snd (P05_send c s d)" for k x r d'
    using P05_not_intact [OF v P05_send_eq(3) [OF v], of k x s d] that by simp
  have follow: "P05_synced c (fst (P05_send c s d)) (fst (P05_receive c r (snd (P05_send c s d))))" for r
    by (simp add: P05_synced_def Let_def)
  show "snd (P05_receive c r d) \<noteq> E2E_P_NONEWDATA" for r
    by (simp add: Let_def E2E_P05MapStatusToSM_def)
  show "P05_synced c (fst (P05_send c s d)) (fst (P05_receive c r (snd (P05_send c s d))))" for r by (rule follow)
  show "(if P05_synced c (fst (P05_send c s d)) (fst (P05_receive c r (snd (P05_send c s d)))) then 0 else 1)
      < (if P05_synced c s r then 0 else 1 :: nat)" if "\<not> P05_synced c s r" for r
    using that follow [of r] by simp
  show "snd (P05_receive c r (snd (P05_send c s d))) = E2E_P_OK" if "P05_synced c s r" for r
  proof -
    have "\<not> 1 > P05_MaxDeltaCounter (fst (snd c))"
      using v by (cases c) (simp add: word_less_nat_alt)
    with that show ?thesis by (simp add: P05_synced_def E2E_P05MapStatusToSM_def Let_def)
  qed
next
  fix c r and d e :: byte_ptr
  assume v: "P05_valid c" and eq: "\<And>i. i < P05_size c \<Longrightarrow> d i = e i"
  note n = P05_room [OF v] and crc = p05crc.inside_cong [OF v eq]
  have "P05_intact c d = P05_intact c e" and "readCounterP05 d (P05_off c) = readCounterP05 e (P05_off c)"
    using n eq crc by (simp_all add: P05_intact_def P05_reads)
  then show "P05_receive c r d = P05_receive c r e" by (simp add: P05_receive_eq [OF v])
qed simp_all

end
