(* ===== verification/E2E_P06.thy ===== *)
theory E2E_P06
  imports E2E_Profile
begin

unbundle bit_operations_syntax

text \<open>
  Profile 6 of the end-to-end library, SafeLib/E2E/src/E2E\_P06.c: a header of five bytes with a
  16 bit CRC, the length and a counter, each byte with its bits reversed; the CRC covers all
  other bytes of the message and the data identifier, which is not transmitted.
\<close>

subsection \<open>Types\<close>

datatype E2E_P06CheckStatusType = E2E_P06STATUS_OK | E2E_P06STATUS_NONEWDATA | E2E_P06STATUS_ERROR
  | E2E_P06STATUS_REPEATED | E2E_P06STATUS_OKSOMELOST | E2E_P06STATUS_WRONGSEQUENCE

record E2E_P06ConfigType =
  P06_Offset :: uint16
  P06_MinDataLength :: uint16
  P06_MaxDataLength :: uint16
  P06_DataID :: uint16
  P06_MaxDeltaCounter :: uint8

record E2E_P06ProtectStateType =
  P06Protect_Counter :: uint8

record E2E_P06CheckStateType =
  P06Check_Status :: E2E_P06CheckStatusType
  P06Check_Counter :: uint8

subsection \<open>Sender\<close>

definition P06_config_wrong :: "E2E_P06ConfigType \<Rightarrow> bool" where
  "P06_config_wrong cfg \<longleftrightarrow>
     unat (P06_MinDataLength cfg) < 8 * 5 \<or> unat (P06_MaxDataLength cfg) < 8 * 5
     \<or> unat (P06_MinDataLength cfg) > 8 * 4096 \<or> unat (P06_MaxDataLength cfg) > 8 * 4096
     \<or> P06_MinDataLength cfg > P06_MaxDataLength cfg"

definition P06_length_wrong :: "E2E_P06ConfigType \<Rightarrow> uint16 \<Rightarrow> bool" where
  "P06_length_wrong cfg Length \<longleftrightarrow>
     8 * unat Length < unat (P06_MinDataLength cfg) \<or> 8 * unat Length > unat (P06_MaxDataLength cfg)"

definition P06_offset_wrong :: "E2E_P06ConfigType \<Rightarrow> uint16 \<Rightarrow> bool" where
  "P06_offset_wrong cfg Length \<longleftrightarrow>
     P06_Offset cfg mod 8 \<noteq> 0 \<or> int (unat (P06_Offset cfg)) > 8 * int (unat Length) - 8 * 5"

definition verifyProtectInputsP06 :: "E2E_P06ConfigType option \<Rightarrow> E2E_P06ProtectStateType option
    \<Rightarrow> byte_ptr option \<Rightarrow> uint16 \<Rightarrow> E2E_ReturnType" where
  "verifyProtectInputsP06 ConfigPtr StatePtr DataPtr Length =
     (case (ConfigPtr, StatePtr, DataPtr) of
        (Some cfg, Some st, Some d) \<Rightarrow>
          if P06_config_wrong cfg then E2E_E_INPUTERR_WRONG
          else if P06_length_wrong cfg Length then E2E_E_INPUTERR_WRONG
          else if P06_offset_wrong cfg Length then E2E_E_INPUTERR_WRONG
          else E2E_E_OK
      | _ \<Rightarrow> E2E_E_INPUTERR_NULL)"

definition changeBitEndiannessP06 :: "uint8 \<Rightarrow> uint8" where
  "changeBitEndiannessP06 v =
     (((((((0 OR push_bit 7 (v AND 0x01)) OR push_bit 5 (v AND 0x02)) OR push_bit 3 (v AND 0x04))
       OR push_bit 1 (v AND 0x08)) OR drop_bit 1 (v AND 0x10)) OR drop_bit 3 (v AND 0x20))
      OR drop_bit 5 (v AND 0x40)) OR drop_bit 7 (v AND 0x80)"

definition computeOffsetP06 :: "E2E_P06ConfigType \<Rightarrow> uint16" where
  "computeOffsetP06 cfg = P06_Offset cfg div 8"

definition writeLengthP06 :: "byte_ptr \<Rightarrow> nat \<Rightarrow> uint16 \<Rightarrow> byte_ptr" where
  "writeLengthP06 d offset Length =
     d(offset + 2 := changeBitEndiannessP06 (ucast (drop_bit 8 (Length AND 0xFF00) AND 0xFF)),
       offset + 3 := changeBitEndiannessP06 (ucast ((Length AND 0x00FF) AND 0xFF)))"

definition writeCounterP06 :: "byte_ptr \<Rightarrow> nat \<Rightarrow> E2E_P06ProtectStateType \<Rightarrow> byte_ptr" where
  "writeCounterP06 d offset st =
     d(offset + 4 := changeBitEndiannessP06 ((P06Protect_Counter st AND 0xFF) AND 0xFF))"

definition computeCRCP06 :: "Crc_Mode \<Rightarrow> byte_ptr \<Rightarrow> nat \<Rightarrow> uint16 \<Rightarrow> nat \<Rightarrow> uint16" where
  "computeCRCP06 mode d offset dataId Length =
     (let lengthBytes = Length - offset - 2;
          crc = (if offset > 0
                 then Crc_CalculateCRC16 mode (Some (\<lambda>i. d (offset + 2 + i))) (of_nat lengthBytes)
                        (Crc_CalculateCRC16 mode (Some d) (of_nat offset) 0xFFFF True) False
                 else Crc_CalculateCRC16 mode (Some (\<lambda>i. d (offset + 2 + i))) (of_nat lengthBytes) 0xFFFF True);
          dataIdNibble = ucast (drop_bit 8 dataId AND 0xFF);
          crc = Crc_CalculateCRC16 mode (Some (\<lambda>_. dataIdNibble)) 1 crc False;
          dataIdNibble = ucast (dataId AND 0xFF)
      in Crc_CalculateCRC16 mode (Some (\<lambda>_. dataIdNibble)) 1 crc False)"

definition writeCRCP06 :: "byte_ptr \<Rightarrow> nat \<Rightarrow> uint16 \<Rightarrow> byte_ptr" where
  "writeCRCP06 d offset crc =
     d(offset := changeBitEndiannessP06 (ucast (drop_bit 8 (crc AND 0xFF00) AND 0xFF)),
       offset + 1 := changeBitEndiannessP06 (ucast ((crc AND 0x00FF) AND 0xFF)))"

definition incrementCounterP06 :: "E2E_P06ProtectStateType \<Rightarrow> E2E_P06ProtectStateType" where
  "incrementCounterP06 st = st\<lparr>P06Protect_Counter := of_nat ((unat (P06Protect_Counter st) + 1) mod (255 + 1))\<rparr>"

definition E2E_P06Protect :: "Crc_Mode \<Rightarrow> E2E_P06ConfigType option \<Rightarrow> E2E_P06ProtectStateType option
    \<Rightarrow> byte_ptr option \<Rightarrow> uint16 \<Rightarrow> E2E_ReturnType \<times> E2E_P06ProtectStateType option \<times> byte_ptr option" where
  "E2E_P06Protect mode ConfigPtr StatePtr DataPtr Length =
     (let returnValue = verifyProtectInputsP06 ConfigPtr StatePtr DataPtr Length
      in if returnValue = E2E_E_OK
         then (let cfg = the ConfigPtr; st = the StatePtr; d = the DataPtr;
                   offset = unat (computeOffsetP06 cfg);
                   d = writeLengthP06 d offset Length;
                   d = writeCounterP06 d offset st;
                   crc = computeCRCP06 mode d offset (P06_DataID cfg) (unat Length);
                   d = writeCRCP06 d offset crc
               in (returnValue, Some (incrementCounterP06 st), Some d))
         else (returnValue, StatePtr, DataPtr))"

definition E2E_P06ProtectInit :: "E2E_P06ProtectStateType option \<Rightarrow> E2E_ReturnType \<times> E2E_P06ProtectStateType option" where
  "E2E_P06ProtectInit StatePtr =
     (case StatePtr of None \<Rightarrow> (E2E_E_INPUTERR_NULL, None)
      | Some st \<Rightarrow> (E2E_E_OK, Some (st\<lparr>P06Protect_Counter := 0\<rparr>)))"

subsection \<open>Receiver\<close>

definition verifyCheckInputsP06 :: "E2E_P06ConfigType option \<Rightarrow> E2E_P06CheckStateType option
    \<Rightarrow> byte_ptr option \<Rightarrow> uint16 \<Rightarrow> E2E_ReturnType \<times> bool" where
  "verifyCheckInputsP06 ConfigPtr StatePtr DataPtr Length =
     (case (ConfigPtr, StatePtr) of
        (Some cfg, Some st) \<Rightarrow>
          if P06_config_wrong cfg then (E2E_E_INPUTERR_WRONG, False)
          else if \<not> ((DataPtr \<noteq> None \<and> Length \<noteq> 0) \<or> (DataPtr = None \<and> Length = 0)) then (E2E_E_INPUTERR_WRONG, False)
          else if DataPtr = None then (E2E_E_OK, False)
          else if P06_length_wrong cfg Length then (E2E_E_INPUTERR_WRONG, False)
          else if P06_offset_wrong cfg Length then (E2E_E_INPUTERR_WRONG, False)
          else (E2E_E_OK, True)
      | _ \<Rightarrow> (E2E_E_INPUTERR_NULL, False))"

definition readLengthP06 :: "byte_ptr \<Rightarrow> nat \<Rightarrow> uint16" where
  "readLengthP06 d offset =
     (0 OR (push_bit 8 (ucast (changeBitEndiannessP06 (d (offset + 2)))) AND 0xFF00))
     OR (ucast (changeBitEndiannessP06 (d (offset + 3))) AND 0x00FF)"

definition readCounterP06 :: "byte_ptr \<Rightarrow> nat \<Rightarrow> uint8" where
  "readCounterP06 d offset = 0 OR (changeBitEndiannessP06 (d (offset + 4)) AND 0xFF)"

definition readCRCP06 :: "byte_ptr \<Rightarrow> nat \<Rightarrow> uint16" where
  "readCRCP06 d offset =
     (0 OR (push_bit 8 (ucast (changeBitEndiannessP06 (d offset))) AND 0xFF00))
     OR (ucast (changeBitEndiannessP06 (d (offset + 1))) AND 0x00FF)"

definition calculateDeltaCounterP06 :: "uint8 \<Rightarrow> uint8 \<Rightarrow> uint8" where
  "calculateDeltaCounterP06 receivedCounter lastValidCounter =
     (if receivedCounter \<ge> lastValidCounter then receivedCounter - lastValidCounter
      else ucast ((255 :: uint32) + 1 + ucast receivedCounter - ucast lastValidCounter))"

definition doChecksP06 :: "E2E_P06CheckStateType \<Rightarrow> bool \<Rightarrow> E2E_P06ConfigType \<Rightarrow> uint16 \<Rightarrow> uint16
    \<Rightarrow> uint16 \<Rightarrow> uint16 \<Rightarrow> uint8 \<Rightarrow> E2E_P06CheckStateType" where
  "doChecksP06 st NewDataAvailable cfg receivedCRC computedCRC receivedLength Length receivedCounter =
     (if \<not> NewDataAvailable then st\<lparr>P06Check_Status := E2E_P06STATUS_NONEWDATA\<rparr>
      else if receivedCRC \<noteq> computedCRC \<or> receivedLength \<noteq> Length then st\<lparr>P06Check_Status := E2E_P06STATUS_ERROR\<rparr>
      else
        (let deltaCounter = calculateDeltaCounterP06 receivedCounter (P06Check_Counter st);
             st = (if deltaCounter > P06_MaxDeltaCounter cfg
                   then st\<lparr>P06Check_Status := E2E_P06STATUS_WRONGSEQUENCE\<rparr>
                   else if deltaCounter = 0 then st\<lparr>P06Check_Status := E2E_P06STATUS_REPEATED\<rparr>
                   else if deltaCounter = 1 then st\<lparr>P06Check_Status := E2E_P06STATUS_OK\<rparr>
                   else st\<lparr>P06Check_Status := E2E_P06STATUS_OKSOMELOST\<rparr>)
         in st\<lparr>P06Check_Counter := receivedCounter\<rparr>))"

definition E2E_P06Check :: "Crc_Mode \<Rightarrow> E2E_P06ConfigType option \<Rightarrow> E2E_P06CheckStateType option
    \<Rightarrow> byte_ptr option \<Rightarrow> uint16 \<Rightarrow> E2E_ReturnType \<times> E2E_P06CheckStateType option" where
  "E2E_P06Check mode ConfigPtr StatePtr DataPtr Length =
     (case verifyCheckInputsP06 ConfigPtr StatePtr DataPtr Length of (returnValue, NewDataAvailable) \<Rightarrow>
        if returnValue = E2E_E_OK
        then (let cfg = the ConfigPtr; st = the StatePtr; d = the DataPtr;
                  offset = unat (computeOffsetP06 cfg)
              in (returnValue,
                  Some (if NewDataAvailable
                        then doChecksP06 st NewDataAvailable cfg (readCRCP06 d offset)
                               (computeCRCP06 mode d offset (P06_DataID cfg) (unat Length))
                               (readLengthP06 d offset) Length (readCounterP06 d offset)
                        else doChecksP06 st NewDataAvailable cfg 0 0 0 Length 0)))
        else (returnValue, StatePtr))"

definition E2E_P06CheckInit :: "E2E_P06CheckStateType option \<Rightarrow> E2E_ReturnType \<times> E2E_P06CheckStateType option" where
  "E2E_P06CheckInit StatePtr =
     (case StatePtr of None \<Rightarrow> (E2E_E_INPUTERR_NULL, None)
      | Some st \<Rightarrow> (E2E_E_OK, Some (st\<lparr>P06Check_Status := E2E_P06STATUS_ERROR, P06Check_Counter := 0xFF\<rparr>)))"

definition E2E_P06MapStatusToSM :: "E2E_ReturnType \<Rightarrow> E2E_P06CheckStatusType \<Rightarrow> E2E_PCheckStatusType" where
  "E2E_P06MapStatusToSM CheckReturn Status =
     (if CheckReturn = E2E_E_OK
      then (case Status of
              E2E_P06STATUS_OK \<Rightarrow> E2E_P_OK
            | E2E_P06STATUS_OKSOMELOST \<Rightarrow> E2E_P_OK
            | E2E_P06STATUS_REPEATED \<Rightarrow> E2E_P_REPEATED
            | E2E_P06STATUS_NONEWDATA \<Rightarrow> E2E_P_NONEWDATA
            | E2E_P06STATUS_WRONGSEQUENCE \<Rightarrow> E2E_P_WRONGSEQUENCE
            | E2E_P06STATUS_ERROR \<Rightarrow> E2E_P_ERROR)
      else E2E_P_ERROR)"

subsection \<open>Correctness\<close>

text \<open>A configuration with the CRC mode and the length of the messages.\<close>

type_synonym P06_cfg = "Crc_Mode \<times> E2E_P06ConfigType \<times> uint16"

fun P06_valid :: "P06_cfg \<Rightarrow> bool" where
  "P06_valid (mode, cfg, Length) \<longleftrightarrow>
     \<not> P06_config_wrong cfg \<and> \<not> P06_length_wrong cfg Length \<and> \<not> P06_offset_wrong cfg Length \<and> P06_MaxDeltaCounter cfg > 0"

fun P06_size :: "P06_cfg \<Rightarrow> nat" where
  "P06_size (mode, cfg, Length) = unat Length"

fun P06_off :: "P06_cfg \<Rightarrow> nat" where
  "P06_off (mode, cfg, Length) = unat (computeOffsetP06 cfg)"

definition P06_header :: "P06_cfg \<Rightarrow> nat set" where
  "P06_header c = {P06_off c ..< P06_off c + 5}"

fun P06_send :: "P06_cfg \<Rightarrow> E2E_P06ProtectStateType \<Rightarrow> byte_ptr \<Rightarrow> E2E_P06ProtectStateType \<times> byte_ptr" where
  "P06_send (mode, cfg, Length) s d =
     (case E2E_P06Protect mode (Some cfg) (Some s) (Some d) Length of (_, s', d') \<Rightarrow> (the s', the d'))"

fun P06_receive :: "P06_cfg \<Rightarrow> E2E_P06CheckStateType \<Rightarrow> byte_ptr \<Rightarrow> E2E_P06CheckStateType \<times> E2E_PCheckStatusType" where
  "P06_receive (mode, cfg, Length) r d =
     (case E2E_P06Check mode (Some cfg) (Some r) (Some d) Length of
        (ret, r') \<Rightarrow> (the r', E2E_P06MapStatusToSM ret (P06Check_Status (the r'))))"

definition P06_synced :: "P06_cfg \<Rightarrow> E2E_P06ProtectStateType \<Rightarrow> E2E_P06CheckStateType \<Rightarrow> bool" where
  "P06_synced c s r \<longleftrightarrow> P06Protect_Counter s = P06Check_Counter r + 1"

lemma P06_room:
  assumes "P06_valid c"
  shows "P06_off c + 5 \<le> P06_size c"
proof (cases c)
  case (fields mode cfg Length)
  with assms have "unat (P06_Offset cfg) + 40 \<le> 8 * unat Length"
    unfolding fields P06_valid.simps P06_offset_wrong_def by linarith
  with fields show ?thesis by (simp add: computeOffsetP06_def unat_div)
qed

lemma P06_size_bound: "P06_size c < 2 ^ 16"
  using unsigned_less [of "snd (snd c)"] by (cases c) simp

text \<open>The bytes the CRC is computed over, the identifier last.\<close>

lemma P06_crc_around:
  assumes "off + 5 \<le> n" and "n < 2 ^ 16"
  shows "computeCRCP06 mode d off dataId n
       = foldl crc16.byte_step 0xFFFF (around d off (off + 2) n @ [ucast (drop_bit 8 dataId), ucast dataId])"
proof -
  have *: "unat (of_nat off :: uint32) = off" "unat (of_nat (n - off - 2) :: uint32) = n - off - 2"
    using assms by (auto intro!: unat_small simp del: of_nat_add of_nat_diff)
  show ?thesis
    unfolding computeCRCP06_def Crc_CalculateCRC16_fold Let_def * id_bytes around_def unat_1 read_one
    by (simp add: numeral_2_eq_2)
qed

lemma delta_P06: "calculateDeltaCounterP06 r l = r - l"
  by (simp add: calculateDeltaCounterP06_def wrap_diff)

text \<open>The fields of a received message.\<close>

lemma bit_shift_single:
  fixes v :: uint8
  assumes "k < 8" and "w = 2 ^ n"
  shows "bit (push_bit m (v AND w)) k \<longleftrightarrow> k = m + n \<and> bit v n"
    and "bit (drop_bit m (v AND w)) k \<longleftrightarrow> m + k = n \<and> bit v n"
  using assms by (auto simp: bit_simps dest: bit_imp_le_length)

lemma bit_changeBitEndianness:
  assumes "k < 8"
  shows "bit (changeBitEndiannessP06 v) k \<longleftrightarrow> bit v (7 - k)"
proof -
  note single = bit_shift_single [OF assms]
  have "bit (changeBitEndiannessP06 v) k \<longleftrightarrow> (k = 7 \<and> bit v 0) \<or> (k = 6 \<and> bit v 1) \<or> (k = 5 \<and> bit v 2)
    \<or> (k = 4 \<and> bit v 3) \<or> (k = 3 \<and> bit v 4) \<or> (k = 2 \<and> bit v 5) \<or> (k = 1 \<and> bit v 6) \<or> (k = 0 \<and> bit v 7)"
    using single(1) [of 1 0 7 v] single(1) [of 2 1 5 v] single(1) [of 4 2 3 v] single(1) [of 8 3 1 v]
      single(2) [of 16 4 1 v] single(2) [of 32 5 3 v] single(2) [of 64 6 5 v] single(2) [of 128 7 7 v]
    unfolding changeBitEndiannessP06_def bit_or_iff by force
  also have "\<dots> \<longleftrightarrow> bit v (7 - k)"
  proof -
    from assms have "k \<in> {0, 1, 2, 3, 4, 5, 6, 7}" by auto
    then show ?thesis by (elim insertE emptyE) simp_all
  qed
  finally show ?thesis .
qed
lemma changeBitEndianness_involutive [simp]: "changeBitEndiannessP06 (changeBitEndiannessP06 v) = v"
  by (rule bit_word_eqI) (simp add: bit_changeBitEndianness)

lemma changeBitEndianness_inject [simp]: "changeBitEndiannessP06 v = changeBitEndiannessP06 w \<longleftrightarrow> v = w"
  by (metis changeBitEndianness_involutive)

lemma P06_reads:
  "readLengthP06 d off = be16 (changeBitEndiannessP06 (d (off + 2))) (changeBitEndiannessP06 (d (off + 3)))"
  "readCounterP06 d off = changeBitEndiannessP06 (d (off + 4))"
  "readCRCP06 d off = be16 (changeBitEndiannessP06 (d off)) (changeBitEndiannessP06 (d (off + 1)))"
  unfolding readLengthP06_def readCounterP06_def readCRCP06_def join_uint16 by simp_all

lemma P06_writes:
  "writeLengthP06 d off n = d(off + 2 := changeBitEndiannessP06 (ucast (drop_bit 8 n)), off + 3 := changeBitEndiannessP06 (ucast n))"
  "writeCounterP06 d off s = d(off + 4 := changeBitEndiannessP06 (P06Protect_Counter s))"
  "writeCRCP06 d off crc = d(off := changeBitEndiannessP06 (ucast (drop_bit 8 crc)), off + 1 := changeBitEndiannessP06 (ucast crc))"
  unfolding writeLengthP06_def writeCounterP06_def writeCRCP06_def byte_of_uint16 by simp_all

interpretation p06crc: e2e_crc P06_valid P06_size P06_off "\<lambda>c. P06_off c + 2"
  "\<lambda>c d. computeCRCP06 (fst c) d (P06_off c) (P06_DataID (fst (snd c))) (P06_size c)" "\<lambda>c d. readCRCP06 d (P06_off c)"
proof
  fix c :: P06_cfg and d e :: byte_ptr and k j :: nat and v :: uint8
  assume "P06_valid c"
  note n = P06_room [OF this] P06_size_bound [of c]
  let ?lo = "P06_off c" and ?hi = "P06_off c + 2"
  show "?lo \<le> ?hi \<and> ?hi \<le> P06_size c" using n by simp
  show "(\<And>i. ?lo \<le> i \<Longrightarrow> i < ?hi \<Longrightarrow> d i = e i) \<Longrightarrow> readCRCP06 d (P06_off c) = readCRCP06 e (P06_off c)"
    by (simp add: P06_reads)
  assume eq: "around d ?lo ?hi (P06_size c) = around e ?lo ?hi (P06_size c)"
  then show "computeCRCP06 (fst c) d (P06_off c) (P06_DataID (fst (snd c))) (P06_size c) = computeCRCP06 (fst c) e (P06_off c) (P06_DataID (fst (snd c))) (P06_size c)"
    by (simp only: P06_crc_around [OF n])
next
  fix c :: P06_cfg and d e :: byte_ptr and k j :: nat and v :: uint8
  assume "P06_valid c"
  note n = P06_room [OF this] P06_size_bound [of c]
  let ?lo = "P06_off c" and ?hi = "P06_off c + 2"
  show "readCRCP06 (d(k := v)) (P06_off c) \<noteq> readCRCP06 d (P06_off c)" if "?lo \<le> k" "k < ?hi" "v \<noteq> d k"
  proof -
    from that have "k \<in> {P06_off c + 0, P06_off c + 1}" by auto
    with that(3) show ?thesis by (auto simp: P06_reads)
  qed
  assume e: "around e ?lo ?hi (P06_size c) = (around d ?lo ?hi (P06_size c))[j := v]"
    and j: "j < length (around d ?lo ?hi (P06_size c))" and v: "v \<noteq> around d ?lo ?hi (P06_size c) ! j"
  show "computeCRCP06 (fst c) e (P06_off c) (P06_DataID (fst (snd c))) (P06_size c) \<noteq> computeCRCP06 (fst c) d (P06_off c) (P06_DataID (fst (snd c))) (P06_size c)"
    unfolding P06_crc_around [OF n] e list_update_append1 [OF j, symmetric]
    by (rule crc16.one_byte_detected_update) (use j v in \<open>simp_all add: nth_append\<close>)
qed

definition P06_intact :: "P06_cfg \<Rightarrow> byte_ptr \<Rightarrow> bool" where
  "P06_intact c d \<longleftrightarrow>
     readCRCP06 d (P06_off c) = computeCRCP06 (fst c) d (P06_off c) (P06_DataID (fst (snd c))) (P06_size c)
     \<and> readLengthP06 d (P06_off c) = snd (snd c)"

lemma P06_send_eq:
  assumes "P06_valid c"
  shows "fst (P06_send c s d) = s\<lparr>P06Protect_Counter := P06Protect_Counter s + 1\<rparr>"
    and "i \<notin> P06_header c \<Longrightarrow> snd (P06_send c s d) i = d i"
    and "P06_intact c (snd (P06_send c s d))"
    and "readCounterP06 (snd (P06_send c s d)) (P06_off c) = P06Protect_Counter s"
proof -
  obtain mode cfg Length where c: "c = (mode, cfg, Length)" by (cases c)
  let ?o = "P06_off c" and ?n = "P06_size c"
  define d1 where "d1 = writeCounterP06 (writeLengthP06 d ?o Length) ?o s"
  have verify: "verifyProtectInputsP06 (Some cfg) (Some s) (Some d) Length = E2E_E_OK"
    using assms c by (simp add: verifyProtectInputsP06_def)
  then have send: "P06_send c s d
      = (incrementCounterP06 s, writeCRCP06 d1 ?o (computeCRCP06 mode d1 ?o (P06_DataID cfg) ?n))"
    unfolding c by (simp add: E2E_P06Protect_def d1_def c Let_def)
  have "incrementCounterP06 s = s\<lparr>P06Protect_Counter := P06Protect_Counter s + 1\<rparr>"
    unfolding incrementCounterP06_def by (subst next_counter) simp_all
  then show "fst (P06_send c s d) = s\<lparr>P06Protect_Counter := P06Protect_Counter s + 1\<rparr>"
    by (simp add: send)
  show "i \<notin> P06_header c \<Longrightarrow> snd (P06_send c s d) i = d i"
    by (auto simp: send P06_writes d1_def P06_header_def)
  have "writeCRCP06 d1 ?o v i = d1 i" if "\<not> (?o \<le> i \<and> i < ?o + 2)" for v i
    using that by (auto simp: P06_writes)
  then have crc: "computeCRCP06 (fst c) (writeCRCP06 d1 ?o v) (P06_off c) (P06_DataID (fst (snd c))) (P06_size c) = computeCRCP06 (fst c) d1 (P06_off c) (P06_DataID (fst (snd c))) (P06_size c)" for v
    by (intro p06crc.computed_gap [OF assms]) simp
  have reads: "readCRCP06 (writeCRCP06 d1 ?o v) ?o = v" "readLengthP06 (writeCRCP06 d1 ?o v) ?o = Length"
      "readCounterP06 (writeCRCP06 d1 ?o v) ?o = P06Protect_Counter s" for v
    by (simp_all add: P06_reads P06_writes d1_def)
  have sel: "fst c = mode" "fst (snd c) = cfg" "snd (snd c) = Length" by (simp_all add: c)
  show "P06_intact c (snd (P06_send c s d))"
    by (simp only: P06_intact_def send sel crc [unfolded sel] reads snd_conv)
  show "readCounterP06 (snd (P06_send c s d)) (P06_off c) = P06Protect_Counter s"
    by (simp only: send reads snd_conv)
qed

lemma P06_receive_eq:
  assumes "P06_valid c"
  shows "P06_receive c r d =
    (if P06_intact c d
     then (let delta = readCounterP06 d (P06_off c) - P06Check_Counter r;
               st = (if delta > P06_MaxDeltaCounter (fst (snd c)) then E2E_P06STATUS_WRONGSEQUENCE
                     else if delta = 0 then E2E_P06STATUS_REPEATED
                     else if delta = 1 then E2E_P06STATUS_OK else E2E_P06STATUS_OKSOMELOST)
           in (r\<lparr>P06Check_Status := st, P06Check_Counter := readCounterP06 d (P06_off c)\<rparr>,
               E2E_P06MapStatusToSM E2E_E_OK st))
     else (r\<lparr>P06Check_Status := E2E_P06STATUS_ERROR\<rparr>, E2E_P_ERROR))"
proof -
  obtain mode cfg Length where c: "c = (mode, cfg, Length)" by (cases c)
  have "Length \<noteq> 0" using P06_room [OF assms] c by auto
  then have "verifyCheckInputsP06 (Some cfg) (Some r) (Some d) Length = (E2E_E_OK, True)"
    using assms c by (simp add: verifyCheckInputsP06_def)
  then show ?thesis
    by (simp add: c E2E_P06Check_def doChecksP06_def P06_intact_def delta_P06 Let_def E2E_P06MapStatusToSM_def)
qed

lemma P06_not_intact:
  assumes "P06_valid c" and "P06_intact c d" and "k < P06_size c" and "x \<noteq> 0"
  shows "\<not> P06_intact c (d(k := d k XOR x))"
  using p06crc.byte_change_detected [OF assms(1) _ assms(3,4), of d] assms(2)
  by (simp add: P06_intact_def Let_def)

interpretation p06: e2e_resync P06_valid P06_size P06_header "\<lambda>_ _ _. True" "\<lambda>_ _. True" P06_send P06_receive P06_synced
  "\<lambda>_ _. True" "\<lambda>c s r. if P06_synced c s r then 0 else 1" "\<lambda>_. 1"
proof
  fix c s d
  assume v: "P06_valid c"
  note [simp] = P06_send_eq(1,3,4) [OF v] P06_receive_eq [OF v]
  show "P06_header c \<subseteq> {..<P06_size c}" using P06_room [OF v] by (auto simp: P06_header_def)
  show "i \<notin> P06_header c \<Longrightarrow> snd (P06_send c s d) i = d i" for i by (rule P06_send_eq(2) [OF v])
  show "snd (P06_receive c r (snd (P06_send c s d))) \<noteq> E2E_P_ERROR" for r
    by (simp add: Let_def E2E_P06MapStatusToSM_def)
  show "snd (P06_receive c r (d'(k := d' k XOR x))) = E2E_P_ERROR"
    if "k < P06_size c" "x \<noteq> 0" "d' = snd (P06_send c s d)" for k x r d'
    using P06_not_intact [OF v P06_send_eq(3) [OF v], of k x s d] that by simp
  have follow: "P06_synced c (fst (P06_send c s d)) (fst (P06_receive c r (snd (P06_send c s d))))" for r
    by (simp add: P06_synced_def Let_def)
  show "snd (P06_receive c r d) \<noteq> E2E_P_NONEWDATA" for r
    by (simp add: Let_def E2E_P06MapStatusToSM_def)
  show "P06_synced c (fst (P06_send c s d)) (fst (P06_receive c r (snd (P06_send c s d))))" for r by (rule follow)
  show "(if P06_synced c (fst (P06_send c s d)) (fst (P06_receive c r (snd (P06_send c s d)))) then 0 else 1)
      < (if P06_synced c s r then 0 else 1 :: nat)" if "\<not> P06_synced c s r" for r
    using that follow [of r] by simp
  show "snd (P06_receive c r (snd (P06_send c s d))) = E2E_P_OK" if "P06_synced c s r" for r
  proof -
    have "\<not> 1 > P06_MaxDeltaCounter (fst (snd c))"
      using v by (cases c) (simp add: word_less_nat_alt)
    with that show ?thesis by (simp add: P06_synced_def E2E_P06MapStatusToSM_def Let_def)
  qed
next
  fix c r and d e :: byte_ptr
  assume v: "P06_valid c" and eq: "\<And>i. i < P06_size c \<Longrightarrow> d i = e i"
  note n = P06_room [OF v] and crc = p06crc.inside_cong [OF v eq]
  have "P06_intact c d = P06_intact c e" and "readCounterP06 d (P06_off c) = readCounterP06 e (P06_off c)"
    using n eq crc by (simp_all add: P06_intact_def P06_reads)
  then show "P06_receive c r d = P06_receive c r e" by (simp add: P06_receive_eq [OF v])
qed simp_all

end
