(* ===== verification/E2E_Props.thy ===== *)
theory E2E_Props
  imports E2E_P01 E2E_P02 E2E_P04 E2E_P05 E2E_P06
begin

unbundle bit_operations_syntax

text \<open>
  What the end-to-end library guarantees to a receiver, for all five profiles: which messages
  are reported as errors, when the state machine of theory \<open>E2E_SM\<close> blocks the data, when it
  accepts them again, how lost messages are reported, and that a message of another sender is
  rejected.
\<close>

subsection \<open>Sample configurations\<close>

definition demo_p01 :: P01_cfg where
  "demo_p01 = (CRC_TABLE,
     \<lparr>P01_CounterOffset = 8, P01_CRCOffset = 0, P01_DataID = 0x123, P01_DataIDNibbleOffset = 12,
      P01_DataIDMode = E2E_P01_DATAID_NIBBLE, P01_DataLength = 64, P01_MaxDeltaCounterInit = 1,
      P01_MaxNoNewOrRepeatedData = 14, P01_SyncCounterInit = 2\<rparr>, True)"

definition demo_p02 :: P02_cfg where
  "demo_p02 = (CRC_RUNTIME,
     \<lparr>P02_DataLength = 64, P02_DataIDList = replicate 16 7, P02_MaxDeltaCounterInit = 1,
      P02_MaxNoNewOrRepeatedData = 15, P02_SyncCounterInit = 2, P02_Offset = 0\<rparr>, False)"

definition demo_p04 :: P04_cfg where
  "demo_p04 = (CRC_TABLE,
     \<lparr>P04_DataID = 0x0A0B0C0D, P04_Offset = 0, P04_MinDataLength = 96, P04_MaxDataLength = 800,
      P04_MaxDeltaCounter = 2\<rparr>, 16)"

definition demo_p05 :: P05_cfg where
  "demo_p05 = (CRC_RUNTIME, \<lparr>P05_Offset = 8, P05_DataLength = 64, P05_DataID = 0x1234, P05_MaxDeltaCounter = 3\<rparr>, 8)"

definition demo_p06 :: P06_cfg where
  "demo_p06 = (CRC_TABLE,
     \<lparr>P06_Offset = 0, P06_MinDataLength = 40, P06_MaxDataLength = 800, P06_DataID = 0x1234, P06_MaxDeltaCounter = 4\<rparr>, 16)"

lemma demo_valid:
  "P01_valid demo_p01" "P02_valid demo_p02" "P04_valid demo_p04" "P05_valid demo_p05" "P06_valid demo_p06"
  by (simp_all add: demo_p01_def demo_p02_def demo_p04_def demo_p05_def demo_p06_def checkConfigP01_def P01_nibble_ok_def
      checkConfigP02_def P04_config_wrong_def P04_length_wrong_def P04_offset_wrong_def P05_length_wrong_def
      P05_offset_wrong_def P06_config_wrong_def P06_length_wrong_def P06_offset_wrong_def)

subsection \<open>Errors, blocking and recovery\<close>


text \<open>A first message, a lost one, one with a changed payload byte and one with a changed counter.\<close>

definition demo_messages :: "(byte_ptr \<times> fault) list" where
  "demo_messages = [(\<lambda>_. 0, Intact), (\<lambda>_. 1, Lost), (\<lambda>_. 2, Flipped 7 0x80), (\<lambda>_. 3, Flipped 1 0x30)]"

lemma demo_faults:
  "list_all (fault_ok (P01_size demo_p01) (P01_covers demo_p01)) (map snd demo_messages)"
  "list_all (fault_ok (P02_size demo_p02) (P02_covers demo_p02)) (map snd demo_messages)"
  "list_all (fault_ok (P04_size demo_p04) (\<lambda>_ _. True)) (map snd demo_messages)"
  "list_all (fault_ok (P05_size demo_p05) (\<lambda>_ _. True)) (map snd demo_messages)"
  "list_all (fault_ok (P06_size demo_p06) (\<lambda>_ _. True)) (map snd demo_messages)"
  by (simp_all add: demo_messages_def fault_ok_def demo_p01_def demo_p02_def demo_p04_def demo_p05_def demo_p06_def
      P01_covers_def P02_covers_def)



lemma demo_sm_ready:
  "\<exists>st. sm_ready demo_sm_cfg st \<and> E2E_SMCheckInit (Some demo_sm) (Some demo_sm_cfg) = Some (E2E_E_OK, Some st)"
proof -
  have "WindowSize demo_sm_cfg > 0" "ProfileStatusWindow demo_sm = Some [7, 7, 7]" "length [7, 7, 7 :: uint8] = unat (WindowSize demo_sm_cfg)"
    by (simp_all add: demo_sm_cfg_def demo_sm_def)
  with SMCheckInit_spec [OF this] show ?thesis unfolding sm_ready_def by blast
qed


text \<open>
  C9. In all five profiles the receiver recovers: after any history of losses and changes, detected or
  not, an uninterrupted run of intact messages that exceeds the window by the profile's bound
  leaves the state machine valid, provided the configured minimal numbers of accepted messages
  fit into the window. The bound is one message for profiles 4 to 6 and
  \<open>SyncCounterInit + 16\<close> and \<open>SyncCounterInit + 17\<close> for profiles 1 and 2.
\<close>
theorem e2e_recovers:
  assumes "P01_valid c1" and "P02_valid c2" and "P04_valid c4" and "P05_valid c5" and "P06_valid c6"
  shows "recovers (unat (P01_SyncCounterInit (fst (snd c1))) + 16) (P01_sender_ok c1) (P01_receiver_ok c1) (P01_send c1) (P01_receive c1)
       \<and> recovers (unat (P02_SyncCounterInit (fst (snd c2))) + 17) (P02_sender_ok c2) (P02_receiver_ok c2) (P02_send c2) (P02_receive c2)
       \<and> recovers 1 (\<lambda>_. True) (\<lambda>_. True) (P04_send c4) (P04_receive c4)
       \<and> recovers 1 (\<lambda>_. True) (\<lambda>_. True) (P05_send c5) (P05_receive c5)
       \<and> recovers 1 (\<lambda>_. True) (\<lambda>_. True) (P06_send c6) (P06_receive c6)"
  unfolding P01_bound_def [symmetric] P02_bound_def [symmetric]
  by (intro conjI p01.channel_recovers p02.channel_recovers p04.channel_recovers p05.channel_recovers
      p06.channel_recovers assms)

theorem e2e_recovers_witness:
  "\<exists>st r. E2E_SMCheckInit (Some demo_sm) (Some demo_sm_cfg) = Some (E2E_E_OK, Some st)
     \<and> E2E_P01CheckInit (Some \<lparr>P01_LastValidCounter = 9, P01_MaxDeltaCounter = 1, P01_WaitForFirstData = False,
          P01_NewDataAvailable = True, P01_LostData = 0, P01_Status = E2E_P01STATUS_OK, P01_SyncCounter = 0,
          P01_NoNewOrRepeatedDataCounter = 0\<rparr>) = (E2E_E_OK, Some r)
     \<and> map_option SMState (sm_run demo_sm_cfg (e2e_stream (P01_send demo_p01) (P01_receive demo_p01)
          (demo_messages @ map (\<lambda>d. (d, Intact)) (replicate 22 (\<lambda>_. 5))) \<lparr>P01Protect_Counter = 0\<rparr> r) st) = Some E2E_SM_VALID"
proof -
  obtain st where st: "sm_ready demo_sm_cfg st" "E2E_SMCheckInit (Some demo_sm) (Some demo_sm_cfg) = Some (E2E_E_OK, Some st)"
    using demo_sm_ready by blast
  define r where "r = \<lparr>P01_LastValidCounter = 0, P01_MaxDeltaCounter = 0, P01_WaitForFirstData = True,
    P01_NewDataAvailable = False, P01_LostData = 0, P01_Status = E2E_P01STATUS_NONEWDATA, P01_SyncCounter = 0,
    P01_NoNewOrRepeatedDataCounter = 0\<rparr>"
  have ok: "P01_sender_ok demo_p01 \<lparr>P01Protect_Counter = 0\<rparr>" "P01_receiver_ok demo_p01 r"
    by (simp_all add: P01_sender_ok_def P01_receiver_ok_def r_def)
  have n: "min_oks demo_sm_cfg \<le> unat (WindowSize demo_sm_cfg)"
    "length (replicate 22 (\<lambda>_. 5) :: byte_ptr list) > unat (P01_SyncCounterInit (fst (snd demo_p01))) + 16 + unat (WindowSize demo_sm_cfg)"
    by (simp_all add: min_oks_def demo_sm_cfg_def demo_p01_def)
  have "recovers (unat (P01_SyncCounterInit (fst (snd demo_p01))) + 16) (P01_sender_ok demo_p01) (P01_receiver_ok demo_p01)
      (P01_send demo_p01) (P01_receive demo_p01)"
    using e2e_recovers [OF demo_valid] by blast
  then have "map_option SMState (sm_run demo_sm_cfg (e2e_stream (P01_send demo_p01) (P01_receive demo_p01)
      (demo_messages @ map (\<lambda>d. (d, Intact)) (replicate 22 (\<lambda>_. 5))) \<lparr>P01Protect_Counter = 0\<rparr> r) st) = Some E2E_SM_VALID"
    using st(1) ok n unfolding recovers_def by blast
  then show ?thesis using st(2) by (intro exI [of _ st] exI [of _ r]) (simp add: E2E_P01CheckInit_def r_def)
qed

subsection \<open>Messages of another sender\<close>

lemma P05_foreign:
  assumes "P05_valid (mode, cfg, n)" and "i \<noteq> P05_DataID cfg"
  shows "snd (P05_receive (mode, cfg, n) r (snd (P05_send (mode', cfg\<lparr>P05_DataID := i\<rparr>, n) s d))) = E2E_P_ERROR"
proof -
  let ?c = "(mode, cfg, n)" and ?c' = "(mode', cfg\<lparr>P05_DataID := i\<rparr>, n)"
  define e where "e = snd (P05_send ?c' s d)"
  have v': "P05_valid ?c'" using assms(1) by (simp add: P05_length_wrong_def P05_offset_wrong_def)
  have off: "P05_off ?c' = P05_off ?c" by (simp add: computeOffsetP05_def)
  note crc = P05_crc_around [OF P05_room [OF assms(1)] P05_size_bound]
  have "\<not> P05_intact ?c e"
  proof
    assume "P05_intact ?c e"
    with P05_send_eq(3) [OF v', of s d] have "computeCRCP05 mode' e (P05_size ?c) (P05_off ?c) i = computeCRCP05 mode e (P05_size ?c) (P05_off ?c) (P05_DataID cfg)"
      unfolding e_def [symmetric] P05_intact_def off by (simp del: P05_off.simps)
    then have "ucast i = (ucast (P05_DataID cfg) :: uint8)" "ucast (drop_bit 8 i) = (ucast (drop_bit 8 (P05_DataID cfg)) :: uint8)"
      unfolding crc foldl_append foldl_Cons foldl_Nil by (auto dest: crc16_two_bytes_inj)
    then have "i = P05_DataID cfg" by (metis be16_split)
    with assms(2) show False ..
  qed
  then show ?thesis unfolding P05_receive_eq [OF assms(1)] e_def by (simp del: P05_send.simps)
qed

lemma P06_foreign:
  assumes "P06_valid (mode, cfg, n)" and "i \<noteq> P06_DataID cfg"
  shows "snd (P06_receive (mode, cfg, n) r (snd (P06_send (mode', cfg\<lparr>P06_DataID := i\<rparr>, n) s d))) = E2E_P_ERROR"
proof -
  let ?c = "(mode, cfg, n)" and ?c' = "(mode', cfg\<lparr>P06_DataID := i\<rparr>, n)"
  define e where "e = snd (P06_send ?c' s d)"
  have v': "P06_valid ?c'" using assms(1) by (simp add: P06_config_wrong_def P06_length_wrong_def P06_offset_wrong_def)
  have off: "P06_off ?c' = P06_off ?c" by (simp add: computeOffsetP06_def)
  note crc = P06_crc_around [OF P06_room [OF assms(1)] P06_size_bound]
  have "\<not> P06_intact ?c e"
  proof
    assume "P06_intact ?c e"
    with P06_send_eq(3) [OF v', of s d] have "computeCRCP06 mode' e (P06_off ?c) i (P06_size ?c) = computeCRCP06 mode e (P06_off ?c) (P06_DataID cfg) (P06_size ?c)"
      unfolding e_def [symmetric] P06_intact_def off by (simp del: P06_off.simps)
    then have "ucast i = (ucast (P06_DataID cfg) :: uint8)" "ucast (drop_bit 8 i) = (ucast (drop_bit 8 (P06_DataID cfg)) :: uint8)"
      unfolding crc foldl_append foldl_Cons foldl_Nil by (auto dest: crc16_two_bytes_inj)
    then have "i = P06_DataID cfg" by (metis be16_split)
    with assms(2) show False ..
  qed
  then show ?thesis unfolding P06_receive_eq [OF assms(1)] e_def by (simp del: P06_send.simps)
qed

lemma P04_foreign:
  assumes "P04_valid (mode, cfg, n)" and "i \<noteq> P04_DataID cfg"
  shows "snd (P04_receive (mode, cfg, n) r (snd (P04_send (mode', cfg\<lparr>P04_DataID := i\<rparr>, n) s d))) = E2E_P_ERROR"
proof -
  let ?c = "(mode, cfg, n)" and ?c' = "(mode', cfg\<lparr>P04_DataID := i\<rparr>, n)"
  have v': "P04_valid ?c'" using assms(1) by (simp add: P04_config_wrong_def P04_length_wrong_def P04_offset_wrong_def)
  have "P04_off ?c' = P04_off ?c" by (simp add: computeOffsetP04_def)
  then have "\<not> P04_intact ?c (snd (P04_send ?c' s d))"
    using P04_send_eq(3) [OF v', of s d] assms(2) by (simp add: P04_intact_def Let_def del: P04_send.simps P04_off.simps)
  then show ?thesis unfolding P04_receive_eq [OF assms(1)] by (simp del: P04_send.simps)
qed

text \<open>
  C20. In profiles 4, 5 and 6 a message protected for another data identifier is rejected with
  \<open>E2E_P_ERROR\<close>, for every payload, counter and state of the receiver: profile 4 compares
  the identifier, and the 16 bit CRC of profiles 5 and 6 keeps any two identifiers apart.
\<close>
theorem e2e_foreign_rejected:
  assumes "P04_valid (mode, c4, n)" and "i4 \<noteq> P04_DataID c4"
    and "P05_valid (mode, c5, n')" and "i5 \<noteq> P05_DataID c5"
    and "P06_valid (mode, c6, n'')" and "i6 \<noteq> P06_DataID c6"
  shows "snd (P04_receive (mode, c4, n) r4 (snd (P04_send (mode', c4\<lparr>P04_DataID := i4\<rparr>, n) s4 d))) = E2E_P_ERROR
       \<and> snd (P05_receive (mode, c5, n') r5 (snd (P05_send (mode', c5\<lparr>P05_DataID := i5\<rparr>, n') s5 d))) = E2E_P_ERROR
       \<and> snd (P06_receive (mode, c6, n'') r6 (snd (P06_send (mode', c6\<lparr>P06_DataID := i6\<rparr>, n'') s6 d))) = E2E_P_ERROR"
  using P04_foreign [OF assms(1,2)] P05_foreign [OF assms(3,4)] P06_foreign [OF assms(5,6)] by blast

definition demo_c4 :: E2E_P04ConfigType where "demo_c4 = fst (snd demo_p04)"

definition demo_c5 :: E2E_P05ConfigType where "demo_c5 = fst (snd demo_p05)"

definition demo_c6 :: E2E_P06ConfigType where "demo_c6 = fst (snd demo_p06)"

lemma demo_valid_cfg:
  "P04_valid (CRC_TABLE, demo_c4, 16)" "P05_valid (CRC_TABLE, demo_c5, 8)" "P06_valid (CRC_TABLE, demo_c6, 16)"
  "0 \<noteq> P04_DataID demo_c4" "0 \<noteq> P05_DataID demo_c5" "0 \<noteq> P06_DataID demo_c6"
  using demo_valid(3-5) by (simp_all add: demo_c4_def demo_c5_def demo_c6_def demo_p04_def demo_p05_def demo_p06_def)

theorem e2e_foreign_rejected_witness:
  "snd (P04_receive (CRC_TABLE, demo_c4, 16) \<lparr>P04Check_Status = E2E_P04STATUS_OK, P04Check_Counter = 3\<rparr>
      (snd (P04_send (CRC_RUNTIME, demo_c4\<lparr>P04_DataID := 0\<rparr>, 16) \<lparr>P04Protect_Counter = 4\<rparr> (\<lambda>_. 0)))) = E2E_P_ERROR
   \<and> snd (P05_receive (CRC_TABLE, demo_c5, 8) \<lparr>P05Check_Status = E2E_P05STATUS_OK, P05Check_Counter = 3\<rparr>
      (snd (P05_send (CRC_RUNTIME, demo_c5\<lparr>P05_DataID := 0\<rparr>, 8) \<lparr>P05Protect_Counter = 4\<rparr> (\<lambda>_. 0)))) = E2E_P_ERROR
   \<and> snd (P06_receive (CRC_TABLE, demo_c6, 16) \<lparr>P06Check_Status = E2E_P06STATUS_OK, P06Check_Counter = 3\<rparr>
      (snd (P06_send (CRC_RUNTIME, demo_c6\<lparr>P06_DataID := 0\<rparr>, 16) \<lparr>P06Protect_Counter = 4\<rparr> (\<lambda>_. 0)))) = E2E_P_ERROR"
  by (rule e2e_foreign_rejected [OF demo_valid_cfg(1,4,2,5,3,6)])

subsection \<open>Lost messages\<close>

lemma P04_loss:
  assumes "P04_valid c"
  shows "last (e2e_stream (P04_send c) (P04_receive c) ((d, Intact) # map (\<lambda>d. (d, Lost)) ds @ [(e, Intact)]) s r)
       = loss_status (2 ^ 16) (unat (P04_MaxDeltaCounter (fst (snd c)))) (length ds)"
proof -
  define delta :: uint16 where "delta = of_nat (length ds + 1)"
  define s1 where "s1 = fst (P04_send c s d)"
  define r1 where "r1 = fst (P04_receive c r (snd (P04_send c s d)))"
  define s2 where "s2 = foldl (\<lambda>s d. fst (P04_send c s d)) s1 ds"
  note eqs = P04_send_eq(1,3,4) [OF assms] P04_receive_eq [OF assms]
  have r1: "P04Check_Counter r1 = P04Protect_Counter s" by (simp add: r1_def eqs Let_def)
  have "P04Protect_Counter (foldl (\<lambda>s d. fst (P04_send c s d)) s ds) = P04Protect_Counter s + of_nat (length ds)" for s
    by (induction ds arbitrary: s) (simp_all add: eqs)
  then have s2: "P04Protect_Counter s2 = P04Protect_Counter s + delta"
    by (simp add: s2_def s1_def eqs delta_def)
  have u: "unat delta = (length ds + 1) mod (2 ^ 16)" unfolding delta_def unat_of_nat by simp
  have cmp: "delta > ucast (P04_MaxDeltaCounter (fst (snd c))) \<longleftrightarrow> unat delta > unat (P04_MaxDeltaCounter (fst (snd c)))" "delta = 0 \<longleftrightarrow> unat delta = 0"
    by (simp_all add: word_less_nat_alt unat_ucast_up unsigned_eq_0_iff)
  have "last (e2e_stream (P04_send c) (P04_receive c) ((d, Intact) # map (\<lambda>d. (d, Lost)) ds @ [(e, Intact)]) s r)
      = snd (P04_receive c r1 (snd (P04_send c s2 e)))"
    by (simp add: lost_stream split_beta r1_def s2_def s1_def)
  also have "\<dots> = loss_status (2 ^ 16) (unat (P04_MaxDeltaCounter (fst (snd c)))) (length ds)"
    unfolding loss_status_def u [symmetric] Let_def cmp [symmetric]
    by (simp add: eqs Let_def r1 s2 E2E_P04MapStatusToSM_def)
  finally show ?thesis .
qed

lemma P05_loss:
  assumes "P05_valid c"
  shows "last (e2e_stream (P05_send c) (P05_receive c) ((d, Intact) # map (\<lambda>d. (d, Lost)) ds @ [(e, Intact)]) s r)
       = loss_status (2 ^ 8) (unat (P05_MaxDeltaCounter (fst (snd c)))) (length ds)"
proof -
  define delta :: uint8 where "delta = of_nat (length ds + 1)"
  define s1 where "s1 = fst (P05_send c s d)"
  define r1 where "r1 = fst (P05_receive c r (snd (P05_send c s d)))"
  define s2 where "s2 = foldl (\<lambda>s d. fst (P05_send c s d)) s1 ds"
  note eqs = P05_send_eq(1,3,4) [OF assms] P05_receive_eq [OF assms]
  have r1: "P05Check_Counter r1 = P05Protect_Counter s" by (simp add: r1_def eqs Let_def)
  have "P05Protect_Counter (foldl (\<lambda>s d. fst (P05_send c s d)) s ds) = P05Protect_Counter s + of_nat (length ds)" for s
    by (induction ds arbitrary: s) (simp_all add: eqs)
  then have s2: "P05Protect_Counter s2 = P05Protect_Counter s + delta"
    by (simp add: s2_def s1_def eqs delta_def)
  have u: "unat delta = (length ds + 1) mod (2 ^ 8)" unfolding delta_def unat_of_nat by simp
  have cmp: "delta > P05_MaxDeltaCounter (fst (snd c)) \<longleftrightarrow> unat delta > unat (P05_MaxDeltaCounter (fst (snd c)))" "delta = 0 \<longleftrightarrow> unat delta = 0"
    by (simp_all add: word_less_nat_alt  unsigned_eq_0_iff)
  have "last (e2e_stream (P05_send c) (P05_receive c) ((d, Intact) # map (\<lambda>d. (d, Lost)) ds @ [(e, Intact)]) s r)
      = snd (P05_receive c r1 (snd (P05_send c s2 e)))"
    by (simp add: lost_stream split_beta r1_def s2_def s1_def)
  also have "\<dots> = loss_status (2 ^ 8) (unat (P05_MaxDeltaCounter (fst (snd c)))) (length ds)"
    unfolding loss_status_def u [symmetric] Let_def cmp [symmetric]
    by (simp add: eqs Let_def r1 s2 E2E_P05MapStatusToSM_def)
  finally show ?thesis .
qed

lemma P06_loss:
  assumes "P06_valid c"
  shows "last (e2e_stream (P06_send c) (P06_receive c) ((d, Intact) # map (\<lambda>d. (d, Lost)) ds @ [(e, Intact)]) s r)
       = loss_status (2 ^ 8) (unat (P06_MaxDeltaCounter (fst (snd c)))) (length ds)"
proof -
  define delta :: uint8 where "delta = of_nat (length ds + 1)"
  define s1 where "s1 = fst (P06_send c s d)"
  define r1 where "r1 = fst (P06_receive c r (snd (P06_send c s d)))"
  define s2 where "s2 = foldl (\<lambda>s d. fst (P06_send c s d)) s1 ds"
  note eqs = P06_send_eq(1,3,4) [OF assms] P06_receive_eq [OF assms]
  have r1: "P06Check_Counter r1 = P06Protect_Counter s" by (simp add: r1_def eqs Let_def)
  have "P06Protect_Counter (foldl (\<lambda>s d. fst (P06_send c s d)) s ds) = P06Protect_Counter s + of_nat (length ds)" for s
    by (induction ds arbitrary: s) (simp_all add: eqs)
  then have s2: "P06Protect_Counter s2 = P06Protect_Counter s + delta"
    by (simp add: s2_def s1_def eqs delta_def)
  have u: "unat delta = (length ds + 1) mod (2 ^ 8)" unfolding delta_def unat_of_nat by simp
  have cmp: "delta > P06_MaxDeltaCounter (fst (snd c)) \<longleftrightarrow> unat delta > unat (P06_MaxDeltaCounter (fst (snd c)))" "delta = 0 \<longleftrightarrow> unat delta = 0"
    by (simp_all add: word_less_nat_alt  unsigned_eq_0_iff)
  have "last (e2e_stream (P06_send c) (P06_receive c) ((d, Intact) # map (\<lambda>d. (d, Lost)) ds @ [(e, Intact)]) s r)
      = snd (P06_receive c r1 (snd (P06_send c s2 e)))"
    by (simp add: lost_stream split_beta r1_def s2_def s1_def)
  also have "\<dots> = loss_status (2 ^ 8) (unat (P06_MaxDeltaCounter (fst (snd c)))) (length ds)"
    unfolding loss_status_def u [symmetric] Let_def cmp [symmetric]
    by (simp add: eqs Let_def r1 s2 E2E_P06MapStatusToSM_def)
  finally show ?thesis .
qed

text \<open>
  C22. In profiles 4, 5 and 6 the first message after \<open>k\<close> lost ones, in whatever state the message
  before them found the receiver, is reported as accepted when \<open>k + 1\<close> does not exceed
  \<open>MaxDeltaCounter\<close> and as out of sequence beyond, modulo the range of the counter: 65536 in
  profile 4, 256 in profiles 5 and 6, where after exactly 255 losses it is taken for a repetition.
\<close>
theorem e2e_losses_reported:
  assumes "P04_valid c4" and "P05_valid c5" and "P06_valid c6"
  shows "last (e2e_stream (P04_send c4) (P04_receive c4) ((d, Intact) # map (\<lambda>d. (d, Lost)) ds @ [(e, Intact)]) s4 r4)
           = loss_status (2 ^ 16) (unat (P04_MaxDeltaCounter (fst (snd c4)))) (length ds)
       \<and> last (e2e_stream (P05_send c5) (P05_receive c5) ((d, Intact) # map (\<lambda>d. (d, Lost)) ds @ [(e, Intact)]) s5 r5)
           = loss_status (2 ^ 8) (unat (P05_MaxDeltaCounter (fst (snd c5)))) (length ds)
       \<and> last (e2e_stream (P06_send c6) (P06_receive c6) ((d, Intact) # map (\<lambda>d. (d, Lost)) ds @ [(e, Intact)]) s6 r6)
           = loss_status (2 ^ 8) (unat (P06_MaxDeltaCounter (fst (snd c6)))) (length ds)"
  using P04_loss [OF assms(1)] P05_loss [OF assms(2)] P06_loss [OF assms(3)] by blast

theorem e2e_losses_reported_witness:
  "last (e2e_stream (P04_send demo_p04) (P04_receive demo_p04) [(\<lambda>_. 0, Intact), (\<lambda>_. 1, Lost), (\<lambda>_. 2, Lost), (\<lambda>_. 3, Intact)]
       \<lparr>P04Protect_Counter = 0xFFFE\<rparr> \<lparr>P04Check_Status = E2E_P04STATUS_OK, P04Check_Counter = 3\<rparr>) = E2E_P_WRONGSEQUENCE
   \<and> last (e2e_stream (P05_send demo_p05) (P05_receive demo_p05) [(\<lambda>_. 0, Intact), (\<lambda>_. 1, Lost), (\<lambda>_. 2, Lost), (\<lambda>_. 3, Intact)]
       \<lparr>P05Protect_Counter = 0xFE\<rparr> \<lparr>P05Check_Status = E2E_P05STATUS_OK, P05Check_Counter = 3\<rparr>) = E2E_P_OK
   \<and> last (e2e_stream (P06_send demo_p06) (P06_receive demo_p06) [(\<lambda>_. 0, Intact), (\<lambda>_. 1, Lost), (\<lambda>_. 2, Lost), (\<lambda>_. 3, Intact)]
       \<lparr>P06Protect_Counter = 0xFE\<rparr> \<lparr>P06Check_Status = E2E_P06STATUS_OK, P06Check_Counter = 3\<rparr>) = E2E_P_OK"
proof -
  have "loss_status (2 ^ 16) (unat (P04_MaxDeltaCounter (fst (snd demo_p04)))) (length [\<lambda>_. 1 :: uint8, \<lambda>_ :: nat. 2]) = E2E_P_WRONGSEQUENCE"
    "loss_status (2 ^ 8) (unat (P05_MaxDeltaCounter (fst (snd demo_p05)))) (length [\<lambda>_. 1 :: uint8, \<lambda>_ :: nat. 2]) = E2E_P_OK"
    "loss_status (2 ^ 8) (unat (P06_MaxDeltaCounter (fst (snd demo_p06)))) (length [\<lambda>_. 1 :: uint8, \<lambda>_ :: nat. 2]) = E2E_P_OK"
    by (simp_all add: loss_status_def demo_p04_def demo_p05_def demo_p06_def)
  with e2e_losses_reported [OF demo_valid(3-5), of "\<lambda>_. 0" "[\<lambda>_. 1, \<lambda>_. 2]" "\<lambda>_. 3"] show ?thesis by simp
qed

subsection \<open>The bytes of a message\<close>



text \<open>
  C39. The configuration check of profile 1 does not look at the position of the identifier's nibble:
  with one beyond the end of the message the sender succeeds and overwrites half of a byte behind
  the message.
\<close>
theorem p01_nibble_outside_message:
  assumes "checkConfigP01 (Some cfg) = E2E_E_OK" and "P01_DataIDMode cfg = E2E_P01_DATAID_NIBBLE"
    and "P01_DataIDNibbleOffset cfg mod 8 = 0"
    and "unat (P01_DataIDNibbleOffset cfg) div 8 \<ge> unat (P01_DataLength cfg) div 8"
  shows "\<exists>st' d'. E2E_P01Protect mode (Some cfg) (Some st) (Some d) = (E2E_E_OK, Some st', Some d')
       \<and> d' (unat (P01_DataIDNibbleOffset cfg) div 8) AND 0x0F = ucast (drop_bit 8 (P01_DataID cfg)) AND 0x0F"
proof -
  have config: "unat (P01_CRCOffset cfg) div 8 < unat (P01_DataLength cfg) div 8"
    using assms(1) by (auto simp: checkConfigP01_def mod_word_unat intro!: div8_less split: if_splits)
  with assms(4) have "unat (P01_DataIDNibbleOffset cfg) div 8 \<noteq> unat (P01_CRCOffset cfg) div 8" by linarith
  then show ?thesis
    using assms(1-3) unfolding E2E_P01Protect_def Let_def id_nibble by (simp add: low_nibble)
qed

theorem p01_nibble_outside_message_witness:
  "\<exists>st' d'. E2E_P01Protect CRC_TABLE (Some (fst (snd demo_p01)\<lparr>P01_DataIDNibbleOffset := 64\<rparr>)) (Some \<lparr>P01Protect_Counter = 0\<rparr>)
       (Some (\<lambda>_. 0xFF)) = (E2E_E_OK, Some st', Some d')
     \<and> d' 8 AND 0x0F = 1"
  using p01_nibble_outside_message [of "fst (snd demo_p01)\<lparr>P01_DataIDNibbleOffset := 64\<rparr>" CRC_TABLE "\<lparr>P01Protect_Counter = 0\<rparr>" "\<lambda>_. 0xFF"]
  by (simp add: demo_p01_def checkConfigP01_def)

end
