(* ===== verification/RamTst.thy ===== *)
theory RamTst
  imports Prelude
begin

unbundle bit_operations_syntax

text \<open>
  The RAM test, memory/RamTst/src/RamTst.c with inc/RamTst\_Types.h: the March X test of a block
  of memory cells and the services that run it on the configured blocks. The tested memory is
  hardware and therefore a parameter: \<open>rd m p\<close> is what a read of the cell at \<open>p\<close>
  gives and \<open>wr p v m\<close> the memory after a write, both as they may be on a defective chip.
  A pointer to 32 bit cells is the number of the cell in the 32 bit address space.

  The services are those of a build with all of them enabled; \<open>RAMTST_DEV_ERROR_DETECT\<close> is
  a parameter of the environment. The functions without a body in the source are left out.
\<close>

type_synonym cell = "30 word"

subsection \<open>Types\<close>

datatype RamTst_ExecutionStatusType = RAMTST_EXECUTION_UNINIT | RAMTST_EXECUTION_STOPPED
  | RAMTST_EXECUTION_RUNNING | RAMTST_EXECUTION_SUSPENDED

datatype RamTst_TestResultType = RAMTST_RESULT_NOT_TESTED | RAMTST_RESULT_OK | RAMTST_RESULT_NOT_OK
  | RAMTST_RESULT_UNDEFINED

datatype RamTst_AlgorithmType = RAMTST_ALGORITHM_UNDEFINED | RAMTST_CHECKERBOARD_TEST | RAMTST_MARCH_TEST
  | RAMTST_WALK_PATH_TEST | RAMTST_GALPAT_TEST | RAMTST_TRANSP_GALPAT_TEST | RAMTST_ABRAHAM_TEST

record RamTst_BlockParamsType =
  RamTstEndAddress :: cell
  RamTstStartAddress :: cell
  RamTstBlockId :: uint16
  RamTstBlockIndex :: uint16

record RamTst_AlgParamsType =
  RamTstAlgParamsId :: uint8
  RamTstAlgorithm :: RamTst_AlgorithmType
  RamTstNumberOfBlocks :: uint16
  RamTstBlockParams :: "RamTst_BlockParamsType list"

record RamTst_ConfigParamsType =
  RamTstDefaultAlgParamsId :: uint8
  RamTstNumberOfAlgParamSets :: uint8
  RAMTST_E_RAM_FAILURE :: uint16
  RamTstAlgParams :: "RamTst_AlgParamsType list"

datatype RamTstInitInitStatus = RAMTST_UNINIT | RAMTST_INIT

datatype RamTst_ErrorId = RAMTST_E_STATUS_FAILURE | RAMTST_E_OUT_OF_RANGE | RAMTST_E_UNINIT | RAMTST_E_PARAM_POINTER

datatype RamTst_ServiceId = RAMTST_INIT_SERVICE_ID | RAMTST_STOP_SERVICE_ID | RAMTST_ALLOW_SERVICE_ID
  | RAMTST_GETTESTRESULT_SERVICE_ID | RAMTST_GETRESULTPERBLOCK_SERVICE_ID | RAMTST_GETALGPARAMS_SERVICE_ID
  | RAMTST_GETTESTALGORITHM_SERVICE_ID | RAMTST_SELECTALGPARAMS_SERVICE_ID | RAMTST_RUNFULLTEST_SERVICE_ID

text \<open>What the module tells DET and DEM.\<close>

datatype RamTst_Event = Ram_Det RamTst_ServiceId RamTst_ErrorId | Ram_Dem_Failed uint16

text \<open>The static variable of the module, with the calls it made to other modules.\<close>

record RamTst_State =
  RamTst_BlockResultBuffer :: "RamTst_TestResultType list"
  ExecStatus :: RamTst_ExecutionStatusType
  OrderedStatus :: RamTst_ExecutionStatusType
  ActiveAlgParamID :: uint8
  InitStatus :: RamTstInitInitStatus
  CurrentTestResult :: RamTst_TestResultType
  ram_log :: "RamTst_Event list"

subsection \<open>March X\<close>

text \<open>Step 1, upwards.\<close>

function march_write :: "(cell \<Rightarrow> uint32 \<Rightarrow> 'm \<Rightarrow> 'm) \<Rightarrow> cell \<Rightarrow> cell \<Rightarrow> 'm \<Rightarrow> 'm" where
  "march_write wr ptr_start ptr_end m =
     (if ptr_start < ptr_end then march_write wr (ptr_start + 1) ptr_end (wr ptr_start 0 m) else m)"
  by pat_completeness auto

lemma cell_up: "unat (p + 1) = unat p + 1" if "p < e" for p e :: cell
proof -
  have "unat e < 2 ^ LENGTH(30)" by (rule unsigned_less)
  with that show ?thesis by (simp add: word_less_nat_alt unat_word_ariths)
qed

lemma cell_up_decreases: "p < e \<Longrightarrow> unat e - unat (p + 1) < unat e - unat p" for p e :: cell
  using cell_up [of p e] by (simp add: word_less_nat_alt)

termination march_write
  by (relation "measure (\<lambda>(wr, p, e, m). unat e - unat p)") (simp_all add: cell_up_decreases)

text \<open>Step 2, upwards; the flag is \<open>ret\<close>.\<close>

function march_up :: "('m \<Rightarrow> cell \<Rightarrow> uint32) \<Rightarrow> (cell \<Rightarrow> uint32 \<Rightarrow> 'm \<Rightarrow> 'm) \<Rightarrow> cell \<Rightarrow> cell \<Rightarrow> 'm \<Rightarrow> bool \<times> 'm" where
  "march_up rd wr ptr_start ptr_end m =
     (if ptr_start < ptr_end
      then (if 0 \<noteq> rd m ptr_start then (False, m) else march_up rd wr (ptr_start + 1) ptr_end (wr ptr_start 1 m))
      else (True, m))"
  by pat_completeness auto

termination march_up
  by (relation "measure (\<lambda>(rd, wr, p, e, m). unat e - unat p)") (simp_all add: cell_up_decreases)

text \<open>
  Steps 3 and 4, downwards. The loops end when \<open>ptr_end\<close> has passed below
  \<open>ptr_start\<close>; \<open>None\<close> is a loop that does not end.
\<close>

partial_function (option) march_down :: "('m \<Rightarrow> cell \<Rightarrow> uint32) \<Rightarrow> (cell \<Rightarrow> uint32 \<Rightarrow> 'm \<Rightarrow> 'm) \<Rightarrow> cell \<Rightarrow> cell \<Rightarrow> 'm
    \<Rightarrow> (bool \<times> 'm) option" where
  "march_down rd wr ptr_start ptr_end m =
     (if ptr_end \<ge> ptr_start
      then (if 1 \<noteq> rd m ptr_end then Some (False, m) else march_down rd wr ptr_start (ptr_end - 1) (wr ptr_end 0 m))
      else Some (True, m))"

partial_function (option) march_read :: "('m \<Rightarrow> cell \<Rightarrow> uint32) \<Rightarrow> cell \<Rightarrow> cell \<Rightarrow> 'm \<Rightarrow> bool option" where
  "march_read rd ptr_start ptr_end m =
     (if ptr_end \<ge> ptr_start
      then (if 0 \<noteq> rd m ptr_end then Some False else march_read rd ptr_start (ptr_end - 1) m)
      else Some True)"

definition ramTstMarchX :: "('m \<Rightarrow> cell \<Rightarrow> uint32) \<Rightarrow> (cell \<Rightarrow> uint32 \<Rightarrow> 'm \<Rightarrow> 'm) \<Rightarrow> cell \<Rightarrow> cell \<Rightarrow> 'm
    \<Rightarrow> (RamTst_TestResultType \<times> 'm) option" where
  "ramTstMarchX rd wr sa ea m =
     (case march_up rd wr sa ea (march_write wr sa ea m) of
        (False, m) \<Rightarrow> Some (RAMTST_RESULT_NOT_OK, m)
      | (True, m) \<Rightarrow>
          (case march_down rd wr sa (ea - 1) m of
             None \<Rightarrow> None
           | Some (False, m) \<Rightarrow> Some (RAMTST_RESULT_NOT_OK, m)
           | Some (True, m) \<Rightarrow>
               (case march_read rd sa (ea - 1) m of
                  None \<Rightarrow> None
                | Some ok \<Rightarrow> Some (if ok then RAMTST_RESULT_OK else RAMTST_RESULT_NOT_OK, m))))"

subsection \<open>Services\<close>

definition ram_det :: "RamTst_ServiceId \<Rightarrow> RamTst_ErrorId \<Rightarrow> RamTst_State \<Rightarrow> RamTst_State" where
  "ram_det api err s = s\<lparr>ram_log := ram_log s @ [Ram_Det api err]\<rparr>"

text \<open>
  \<open>VALIDATE\<close> with development error detection switched on (\<open>dev\<close>) reports and returns; switched
  off it is empty.
\<close>

definition VALIDATE :: "bool \<Rightarrow> bool \<Rightarrow> RamTst_ServiceId \<Rightarrow> RamTst_ErrorId \<Rightarrow> (RamTst_State \<Rightarrow> RamTst_State)
    \<Rightarrow> RamTst_State \<Rightarrow> RamTst_State" where
  "VALIDATE dev expr api err k s = (if dev \<and> \<not> expr then ram_det api err s else k s)"

definition RamTst_Init :: "bool \<Rightarrow> RamTst_ConfigParamsType \<Rightarrow> RamTst_State \<Rightarrow> RamTst_State" where
  "RamTst_Init dev cfg s =
     (let s = s\<lparr>InitStatus := RAMTST_INIT\<rparr>
      in VALIDATE dev (ExecStatus s = RAMTST_EXECUTION_UNINIT) RAMTST_INIT_SERVICE_ID RAMTST_E_STATUS_FAILURE
           (\<lambda>s. s\<lparr>ExecStatus := RAMTST_EXECUTION_STOPPED, ActiveAlgParamID := RamTstDefaultAlgParamsId cfg,
                  RamTst_BlockResultBuffer := replicate (length (RamTst_BlockResultBuffer s)) RAMTST_RESULT_NOT_TESTED,
                  CurrentTestResult := RAMTST_RESULT_NOT_TESTED\<rparr>) s)"

definition RamTst_DeInit :: "bool \<Rightarrow> RamTst_State \<Rightarrow> RamTst_State" where
  "RamTst_DeInit dev s =
     VALIDATE dev (InitStatus s \<noteq> RAMTST_UNINIT) RAMTST_INIT_SERVICE_ID RAMTST_E_UNINIT
       (\<lambda>s. s\<lparr>ExecStatus := RAMTST_EXECUTION_UNINIT, InitStatus := RAMTST_UNINIT,
              CurrentTestResult := RAMTST_RESULT_NOT_TESTED\<rparr>) s"

definition RamTst_Stop :: "bool \<Rightarrow> RamTst_State \<Rightarrow> RamTst_State" where
  "RamTst_Stop dev s =
     VALIDATE dev (InitStatus s \<noteq> RAMTST_UNINIT) RAMTST_INIT_SERVICE_ID RAMTST_E_UNINIT
       (VALIDATE dev (\<not> (ExecStatus s = RAMTST_EXECUTION_UNINIT \<or> ExecStatus s = RAMTST_EXECUTION_STOPPED))
          RAMTST_STOP_SERVICE_ID RAMTST_E_STATUS_FAILURE
          (\<lambda>s. s\<lparr>OrderedStatus := RAMTST_EXECUTION_STOPPED\<rparr>)) s"

definition RamTst_Allow :: "bool \<Rightarrow> RamTst_State \<Rightarrow> RamTst_State" where
  "RamTst_Allow dev s =
     VALIDATE dev (InitStatus s \<noteq> RAMTST_UNINIT) RAMTST_INIT_SERVICE_ID RAMTST_E_UNINIT
       (VALIDATE dev (ExecStatus s = RAMTST_EXECUTION_STOPPED) RAMTST_ALLOW_SERVICE_ID RAMTST_E_STATUS_FAILURE
          (\<lambda>s. s\<lparr>ExecStatus := RAMTST_EXECUTION_RUNNING\<rparr>)) s"

definition RamTst_GetTestResult :: "bool \<Rightarrow> RamTst_State \<Rightarrow> RamTst_TestResultType \<times> RamTst_State" where
  "RamTst_GetTestResult dev s =
     (if dev \<and> InitStatus s = RAMTST_UNINIT
      then (RAMTST_RESULT_NOT_TESTED, ram_det RAMTST_GETTESTRESULT_SERVICE_ID RAMTST_E_UNINIT s)
      else (CurrentTestResult s, s))"

text \<open>The parameter sets in use, and the first one with a given identifier.\<close>

definition alg_sets :: "RamTst_ConfigParamsType \<Rightarrow> RamTst_AlgParamsType list" where
  "alg_sets cfg = take (unat (RamTstNumberOfAlgParamSets cfg)) (RamTstAlgParams cfg)"

definition alg_blocks :: "RamTst_AlgParamsType \<Rightarrow> RamTst_BlockParamsType list" where
  "alg_blocks a = take (unat (RamTstNumberOfBlocks a)) (RamTstBlockParams a)"

definition find_alg :: "RamTst_ConfigParamsType \<Rightarrow> uint8 \<Rightarrow> RamTst_AlgParamsType option" where
  "find_alg cfg i = List.find (\<lambda>a. RamTstAlgParamsId a = i) (alg_sets cfg)"

text \<open>\<open>None\<close>: the index of the block lies outside the buffer.\<close>

definition RamTst_GetTestResultPerBlock :: "bool \<Rightarrow> RamTst_ConfigParamsType \<Rightarrow> uint16 \<Rightarrow> RamTst_State
    \<Rightarrow> (RamTst_TestResultType \<times> RamTst_State) option" where
  "RamTst_GetTestResultPerBlock dev cfg BlockID s =
     (if dev \<and> InitStatus s = RAMTST_UNINIT
      then Some (RAMTST_RESULT_NOT_TESTED, ram_det RAMTST_GETRESULTPERBLOCK_SERVICE_ID RAMTST_E_UNINIT s)
      else
        (case List.find (\<lambda>b. RamTstBlockId b = BlockID) (concat (map alg_blocks (alg_sets cfg))) of
           Some b \<Rightarrow>
             if unat (RamTstBlockIndex b) < length (RamTst_BlockResultBuffer s)
             then Some (RamTst_BlockResultBuffer s ! unat (RamTstBlockIndex b), s) else None
         | None \<Rightarrow>
             Some (RAMTST_RESULT_UNDEFINED,
                   if dev then ram_det RAMTST_GETRESULTPERBLOCK_SERVICE_ID RAMTST_E_OUT_OF_RANGE s else s)))"

definition RamTst_GetAlgParams :: "bool \<Rightarrow> RamTst_State \<Rightarrow> uint8 \<times> RamTst_State" where
  "RamTst_GetAlgParams dev s =
     (if dev \<and> InitStatus s = RAMTST_UNINIT then (0, ram_det RAMTST_GETALGPARAMS_SERVICE_ID RAMTST_E_UNINIT s)
      else (ActiveAlgParamID s, s))"

text \<open>The loop goes on while the algorithm found so far is undefined.\<close>

primrec algorithm_loop :: "uint8 \<Rightarrow> RamTst_AlgParamsType list \<Rightarrow> RamTst_AlgorithmType \<Rightarrow> RamTst_AlgorithmType" where
  "algorithm_loop i [] algorithm = algorithm"
| "algorithm_loop i (a # as) algorithm =
     (if algorithm = RAMTST_ALGORITHM_UNDEFINED
      then algorithm_loop i as (if RamTstAlgParamsId a = i then RamTstAlgorithm a else algorithm)
      else algorithm)"

definition RamTst_GetTestAlgorithm :: "bool \<Rightarrow> RamTst_ConfigParamsType \<Rightarrow> RamTst_State
    \<Rightarrow> RamTst_AlgorithmType \<times> RamTst_State" where
  "RamTst_GetTestAlgorithm dev cfg s =
     (if dev \<and> InitStatus s = RAMTST_UNINIT
      then (RAMTST_ALGORITHM_UNDEFINED, ram_det RAMTST_GETTESTALGORITHM_SERVICE_ID RAMTST_E_UNINIT s)
      else (algorithm_loop (ActiveAlgParamID s) (alg_sets cfg) RAMTST_ALGORITHM_UNDEFINED, s))"

text \<open>A write to the buffer of results; \<open>None\<close> outside of it.\<close>

definition write_result :: "uint16 \<Rightarrow> RamTst_TestResultType \<Rightarrow> RamTst_State \<Rightarrow> RamTst_State option" where
  "write_result i v s =
     (if unat i < length (RamTst_BlockResultBuffer s)
      then Some (s\<lparr>RamTst_BlockResultBuffer := (RamTst_BlockResultBuffer s)[unat i := v]\<rparr>) else None)"

primrec clear_results :: "RamTst_BlockParamsType list \<Rightarrow> RamTst_State \<Rightarrow> RamTst_State option" where
  "clear_results [] s = Some s"
| "clear_results (b # bs) s =
     (case write_result (RamTstBlockIndex b) RAMTST_RESULT_NOT_TESTED s of
        None \<Rightarrow> None
      | Some s \<Rightarrow> clear_results bs s)"

definition RamTst_SelectAlgParams :: "bool \<Rightarrow> RamTst_ConfigParamsType \<Rightarrow> uint8 \<Rightarrow> RamTst_State \<Rightarrow> RamTst_State option" where
  "RamTst_SelectAlgParams dev cfg NewAlgParamsId s =
     (if dev \<and> InitStatus s = RAMTST_UNINIT
      then Some (ram_det RAMTST_SELECTALGPARAMS_SERVICE_ID RAMTST_E_UNINIT s)
      else if dev \<and> ExecStatus s \<noteq> RAMTST_EXECUTION_STOPPED
      then Some (ram_det RAMTST_SELECTALGPARAMS_SERVICE_ID RAMTST_E_STATUS_FAILURE s)
      else
        (case find_alg cfg NewAlgParamsId of
           None \<Rightarrow> Some (if dev then ram_det RAMTST_SELECTALGPARAMS_SERVICE_ID RAMTST_E_OUT_OF_RANGE s else s)
         | Some a \<Rightarrow>
             (case clear_results (alg_blocks a) s of None \<Rightarrow> None
              | Some s \<Rightarrow>
                  Some (s\<lparr>ActiveAlgParamID := NewAlgParamsId, ExecStatus := RAMTST_EXECUTION_STOPPED,
                          CurrentTestResult := RAMTST_RESULT_NOT_TESTED\<rparr>))))"

text \<open>One block of the full test.\<close>

definition run_block :: "('m \<Rightarrow> cell \<Rightarrow> uint32) \<Rightarrow> (cell \<Rightarrow> uint32 \<Rightarrow> 'm \<Rightarrow> 'm) \<Rightarrow> RamTst_ConfigParamsType
    \<Rightarrow> RamTst_AlgorithmType \<Rightarrow> RamTst_BlockParamsType \<Rightarrow> RamTst_State \<times> 'm \<Rightarrow> (RamTst_State \<times> 'm) option" where
  "run_block rd wr cfg alg b x =
     (case x of (s, m) \<Rightarrow>
        (case (if alg = RAMTST_MARCH_TEST then ramTstMarchX rd wr (RamTstStartAddress b) (RamTstEndAddress b) m
               else Some (RAMTST_RESULT_NOT_OK, m)) of
           None \<Rightarrow> None
         | Some (res, m) \<Rightarrow>
             (let s = (if res \<noteq> RAMTST_RESULT_OK
                       then (let s = (if RAMTST_E_RAM_FAILURE cfg \<noteq> 0
                                      then s\<lparr>ram_log := ram_log s @ [Ram_Dem_Failed (RAMTST_E_RAM_FAILURE cfg)]\<rparr> else s)
                             in s\<lparr>CurrentTestResult := RAMTST_RESULT_NOT_OK\<rparr>)
                       else s)
              in (case write_result (RamTstBlockIndex b) res s of None \<Rightarrow> None | Some s \<Rightarrow> Some (s, m)))))"

primrec run_blocks :: "('m \<Rightarrow> cell \<Rightarrow> uint32) \<Rightarrow> (cell \<Rightarrow> uint32 \<Rightarrow> 'm \<Rightarrow> 'm) \<Rightarrow> RamTst_ConfigParamsType
    \<Rightarrow> RamTst_AlgorithmType \<Rightarrow> RamTst_BlockParamsType list \<Rightarrow> RamTst_State \<times> 'm \<Rightarrow> (RamTst_State \<times> 'm) option" where
  "run_blocks rd wr cfg alg [] x = Some x"
| "run_blocks rd wr cfg alg (b # bs) x =
     (case run_block rd wr cfg alg b x of None \<Rightarrow> None | Some x \<Rightarrow> run_blocks rd wr cfg alg bs x)"

definition RamTst_RunFullTest :: "('m \<Rightarrow> cell \<Rightarrow> uint32) \<Rightarrow> (cell \<Rightarrow> uint32 \<Rightarrow> 'm \<Rightarrow> 'm) \<Rightarrow> bool
    \<Rightarrow> RamTst_ConfigParamsType \<Rightarrow> RamTst_State \<times> 'm \<Rightarrow> (RamTst_State \<times> 'm) option" where
  "RamTst_RunFullTest rd wr dev cfg x =
     (case x of (s, m) \<Rightarrow>
        if dev \<and> InitStatus s = RAMTST_UNINIT then Some (ram_det RAMTST_INIT_SERVICE_ID RAMTST_E_UNINIT s, m)
        else if dev \<and> ExecStatus s \<noteq> RAMTST_EXECUTION_STOPPED
        then Some (ram_det RAMTST_RUNFULLTEST_SERVICE_ID RAMTST_E_STATUS_FAILURE s, m)
        else
          (case find_alg cfg (ActiveAlgParamID s) of
             None \<Rightarrow> Some (s, m)
           | Some a \<Rightarrow>
               (let s = s\<lparr>ExecStatus := RAMTST_EXECUTION_RUNNING, CurrentTestResult := RAMTST_RESULT_UNDEFINED\<rparr>
                in (case clear_results (alg_blocks a) s of None \<Rightarrow> None
                    | Some s \<Rightarrow>
                        (case run_blocks rd wr cfg (RamTstAlgorithm a) (alg_blocks a) (s, m) of None \<Rightarrow> None
                         | Some (s, m) \<Rightarrow>
                             Some (s\<lparr>CurrentTestResult := (if CurrentTestResult s = RAMTST_RESULT_UNDEFINED
                                        then RAMTST_RESULT_OK else CurrentTestResult s),
                                     ExecStatus := RAMTST_EXECUTION_STOPPED\<rparr>, m))))))"

declare march_write.simps [simp del] march_up.simps [simp del]

subsection \<open>The loops as passes over lists of cells\<close>

definition cells :: "cell \<Rightarrow> cell \<Rightarrow> cell list" where
  "cells sa ea = map of_nat [unat sa..<unat ea]"

text \<open>One pass that expects a value in every cell and replaces it.\<close>

primrec pass :: "('m \<Rightarrow> cell \<Rightarrow> uint32) \<Rightarrow> (cell \<Rightarrow> uint32 \<Rightarrow> 'm \<Rightarrow> 'm) \<Rightarrow> uint32 \<Rightarrow> uint32 \<Rightarrow> cell list \<Rightarrow> 'm \<Rightarrow> bool \<times> 'm" where
  "pass rd wr v w [] m = (True, m)"
| "pass rd wr v w (x # xs) m = (if rd m x \<noteq> v then (False, m) else pass rd wr v w xs (wr x w m))"

lemma cells_empty: "\<not> p < e \<Longrightarrow> cells p e = []"
  by (simp add: cells_def word_less_nat_alt)

lemma cells_Cons: "p < e \<Longrightarrow> cells p e = p # cells (p + 1) e"
proof -
  assume p: "p < e"
  then have "unat p < unat e" by (simp add: word_less_nat_alt)
  then show ?thesis unfolding cells_def cell_up [OF p] by (simp add: upt_conv_Cons)
qed

lemma cell_of_nat: "unat (of_nat n :: cell) = n" if "n < unat e" for e :: cell
proof -
  have "unat e < 2 ^ LENGTH(30)" by (rule unsigned_less)
  with that have "n < 2 ^ LENGTH(30)" by (rule less_trans)
  then show ?thesis by (simp only: unat_of_nat mod_less)
qed

lemma set_cells: "set (cells sa ea) = {sa..<ea}"
proof (rule set_eqI)
  fix x
  have set: "set (cells sa ea) = of_nat ` {unat sa..<unat ea}" by (simp only: cells_def set_map set_upt)
  have iff: "x \<in> {sa..<ea} \<longleftrightarrow> unat x \<in> {unat sa..<unat ea}"
    by (simp only: atLeastLessThan_iff word_le_nat_alt word_less_nat_alt)
  show "x \<in> set (cells sa ea) \<longleftrightarrow> x \<in> {sa..<ea}"
    unfolding set iff
  proof
    assume "x \<in> of_nat ` {unat sa..<unat ea}"
    then obtain n where n: "x = of_nat n" "n \<in> {unat sa..<unat ea}" by blast
    then have "unat x = n" using cell_of_nat [of n ea] by (simp only: atLeastLessThan_iff)
    with n(2) show "unat x \<in> {unat sa..<unat ea}" by simp
  next
    assume "unat x \<in> {unat sa..<unat ea}"
    then have "(of_nat (unat x) :: cell) \<in> of_nat ` {unat sa..<unat ea}" by (rule imageI)
    moreover have "(of_nat (unat x) :: cell) = x" by simp
    ultimately show "x \<in> of_nat ` {unat sa..<unat ea}" by (simp only:)
  qed
qed

lemma distinct_cells: "distinct (cells sa ea)"
proof -
  have "inj_on (of_nat :: nat \<Rightarrow> cell) {unat sa..<unat ea}"
  proof (rule inj_on_inverseI [where g = unat])
    fix n assume n: "n \<in> {unat sa..<unat ea}"
    then show "unat (of_nat n :: cell) = n" using cell_of_nat [of n ea] by simp
  qed
  then show ?thesis by (simp add: cells_def distinct_map)
qed

lemma march_write_cells: "march_write wr sa ea m = foldl (\<lambda>m x. wr x 0 m) m (cells sa ea)"
proof (induction wr sa ea m rule: march_write.induct)
  case (1 wr p e m)
  then show ?case by (subst march_write.simps) (simp add: cells_Cons cells_empty)
qed

lemma march_up_cells: "march_up rd wr sa ea m = pass rd wr 0 1 (cells sa ea) m"
proof (induction rd wr sa ea m rule: march_up.induct)
  case (1 rd wr p e m)
  then show ?case by (subst march_up.simps) (auto simp: cells_Cons cells_empty)
qed

text \<open>A block that does not start at address zero: going down, the loops end.\<close>

lemma cells_snoc:
  assumes "sa < ea"
  shows "cells sa ea = cells sa (ea - 1) @ [ea - 1]"
proof -
  have "1 \<le> ea" using assms by (simp add: word_le_nat_alt word_less_nat_alt)
  then have e: "unat (ea - 1) = unat ea - 1" by (simp add: unat_sub)
  have "(of_nat (unat (ea - 1)) :: cell) = ea - 1" by simp
  then have last: "(of_nat (unat ea - 1) :: cell) = ea - 1" unfolding e .
  have "[unat sa..<unat ea] = [unat sa..<unat ea - 1] @ [unat ea - 1]"
    using assms by (cases "unat ea") (simp_all add: word_less_nat_alt)
  then show ?thesis using last by (simp add: cells_def e)
qed

lemma below_start: "0 < sa \<Longrightarrow> \<not> sa - 1 \<ge> sa" for sa :: cell
  by (simp add: word_less_nat_alt word_le_nat_alt unat_sub)

lemma last_cell: "sa < ea \<Longrightarrow> sa \<le> ea - 1 \<and> ea - 1 \<le> ea \<and> unat (ea - 1) < unat ea" for sa ea :: cell
proof -
  assume "sa < ea"
  then have "1 \<le> ea" "unat sa < unat ea" by (simp_all add: word_le_nat_alt word_less_nat_alt)
  then show ?thesis by (simp add: word_le_nat_alt unat_sub)
qed

lemma march_down_cells:
  assumes "0 < sa" and "sa \<le> ea"
  shows "march_down rd wr sa (ea - 1) m = Some (pass rd wr 1 0 (rev (cells sa ea)) m)"
  using assms(2)
proof (induction "unat ea" arbitrary: ea m rule: less_induct)
  case less
  show ?case
  proof (cases "sa < ea")
    case True
    note l = last_cell [OF True]
    have "march_down rd wr sa (ea - 1 - 1) m' = Some (pass rd wr 1 0 (rev (cells sa (ea - 1))) m')" for m'
      using less.hyps [of "ea - 1"] l by blast
    then show ?thesis
      using l by (subst march_down.simps) (auto simp: cells_snoc [OF True])
  next
    case False
    with less.prems have "ea = sa" by simp
    then show ?thesis by (subst march_down.simps) (simp add: below_start [OF assms(1)] cells_empty)
  qed
qed

lemma march_read_cells:
  assumes "0 < sa" and "sa \<le> ea"
  shows "march_read rd sa (ea - 1) m = Some (list_all (\<lambda>x. rd m x = 0) (cells sa ea))"
  using assms(2)
proof (induction "unat ea" arbitrary: ea rule: less_induct)
  case less
  show ?case
  proof (cases "sa < ea")
    case True
    note l = last_cell [OF True]
    have "march_read rd sa (ea - 1 - 1) m = Some (list_all (\<lambda>x. rd m x = 0) (cells sa (ea - 1)))"
      using less.hyps [of "ea - 1"] l by blast
    then show ?thesis
      using l by (subst march_read.simps) (auto simp: cells_snoc [OF True])
  next
    case False
    with less.prems have "ea = sa" by simp
    then show ?thesis by (subst march_read.simps) (simp add: below_start [OF assms(1)] cells_empty)
  qed
qed

text \<open>March X of a block as four passes over its cells.\<close>

definition march_passes :: "('m \<Rightarrow> cell \<Rightarrow> uint32) \<Rightarrow> (cell \<Rightarrow> uint32 \<Rightarrow> 'm \<Rightarrow> 'm) \<Rightarrow> cell list \<Rightarrow> 'm \<Rightarrow> bool \<times> 'm" where
  "march_passes rd wr xs m =
     (case pass rd wr 0 1 xs (foldl (\<lambda>m x. wr x 0 m) m xs) of
        (False, m) \<Rightarrow> (False, m)
      | (True, m) \<Rightarrow>
          (case pass rd wr 1 0 (rev xs) m of
             (False, m) \<Rightarrow> (False, m)
           | (True, m) \<Rightarrow> (list_all (\<lambda>x. rd m x = 0) xs, m)))"

lemma ramTstMarchX_passes:
  assumes "0 < sa" and "sa \<le> ea"
  shows "ramTstMarchX rd wr sa ea m
       = (case march_passes rd wr (cells sa ea) m of
            (ok, m) \<Rightarrow> Some (if ok then RAMTST_RESULT_OK else RAMTST_RESULT_NOT_OK, m))"
  by (simp add: ramTstMarchX_def march_write_cells march_up_cells march_down_cells [OF assms] march_read_cells [OF assms]
      march_passes_def split: prod.split bool.split)

lemma pass_append:
  "pass rd wr v w (xs @ ys) m = (case pass rd wr v w xs m of (True, m) \<Rightarrow> pass rd wr v w ys m | (False, m) \<Rightarrow> (False, m))"
  by (induction xs arbitrary: m) simp_all

end
