(* ===== verification/RamTst_Props.thy ===== *)
theory RamTst_Props
  imports RamTst Steps
begin

unbundle bit_operations_syntax

text \<open>
  What the RAM test finds and what its services guarantee: which faults of the memory March X
  detects, what a full test reports for every block, and which states the module can reach.
\<close>

subsection \<open>Faults of single cells\<close>

text \<open>
  The contract of a memory whose cells do not influence each other: reading cell \<open>x\<close> after
  writing \<open>v\<close> gives \<open>f x v\<close>.
\<close>

locale cell_memory =
  fixes rd :: "'m \<Rightarrow> cell \<Rightarrow> uint32" and wr :: "cell \<Rightarrow> uint32 \<Rightarrow> 'm \<Rightarrow> 'm" and f :: "cell \<Rightarrow> uint32 \<Rightarrow> uint32"
  assumes read_written: "rd (wr x v m) x = f x v"
    and read_other: "x \<noteq> y \<Longrightarrow> rd (wr x v m) y = rd m y"
begin

lemma read_writes:
  "rd (foldl (\<lambda>m x. wr x 0 m) m xs) y = (if y \<in> set xs then f y 0 else rd m y)"
proof (induction xs arbitrary: m)
  case (Cons x xs)
  then show ?case by (cases "x = y") (simp_all add: read_written read_other)
qed simp

lemma pass_cells:
  assumes "distinct xs"
  shows "fst (pass rd wr v w xs m) = (\<forall>x\<in>set xs. rd m x = v)
    \<and> (fst (pass rd wr v w xs m) \<longrightarrow> (\<forall>x\<in>set xs. rd (snd (pass rd wr v w xs m)) x = f x w)
         \<and> (\<forall>y. y \<notin> set xs \<longrightarrow> rd (snd (pass rd wr v w xs m)) y = rd m y))"
  using assms
proof (induction xs arbitrary: m)
  case (Cons x xs)
  have "\<forall>y\<in>set xs. rd (wr x w m) y = rd m y" using Cons.prems by (auto intro: read_other)
  with Cons.IH [of "wr x w m"] Cons.prems show ?case by (auto simp: read_written read_other)
qed simp

lemma march_passes_cells:
  assumes "distinct xs"
  shows "fst (march_passes rd wr xs m) \<longleftrightarrow> (\<forall>x\<in>set xs. f x 0 = 0 \<and> f x 1 = 1)"
proof -
  define m1 where "m1 = foldl (\<lambda>m x. wr x 0 m) m xs"
  define p2 where "p2 = pass rd wr 0 1 xs m1"
  define p3 where "p3 = pass rd wr 1 0 (rev xs) (snd p2)"
  have m1: "\<forall>x\<in>set xs. rd m1 x = f x 0" by (simp add: m1_def read_writes)
  have p2: "fst p2 = (\<forall>x\<in>set xs. f x 0 = 0)" "fst p2 \<Longrightarrow> \<forall>x\<in>set xs. rd (snd p2) x = f x 1"
    using pass_cells [OF assms, of 0 1 m1] m1 by (simp_all flip: p2_def)
  have rev: "distinct (rev xs)" using assms by simp
  have p3: "fst p3 = (\<forall>x\<in>set xs. f x 1 = 1)" "fst p3 \<Longrightarrow> \<forall>x\<in>set xs. rd (snd p3) x = f x 0" if "fst p2"
    using pass_cells [OF rev, of 1 0 "snd p2"] p2(2) [OF that] by (simp_all flip: p3_def)
  have "march_passes rd wr xs m
      = (if fst p2 then if fst p3 then (list_all (\<lambda>x. rd (snd p3) x = 0) xs, snd p3) else (False, snd p3) else (False, snd p2))"
    by (cases p2; cases p3) (simp add: march_passes_def flip: m1_def p2_def, auto simp: p3_def split: bool.split)
  then show ?thesis using p2 p3 by (auto simp: list_all_iff)
qed

lemma march_cells:
  assumes "0 < sa" and "sa \<le> ea"
  shows "map_option fst (ramTstMarchX rd wr sa ea m)
       = Some (if \<forall>x\<in>{sa..<ea}. f x 0 = 0 \<and> f x 1 = 1 then RAMTST_RESULT_OK else RAMTST_RESULT_NOT_OK)"
  unfolding ramTstMarchX_passes [OF assms] set_cells [symmetric] march_passes_cells [OF distinct_cells, of sa ea m, symmetric]
  by (simp add: split_beta)

end

text \<open>The memory with the given behaviour of its cells.\<close>

type_synonym ram = "cell \<Rightarrow> uint32"

definition cell_rd :: "(cell \<Rightarrow> uint32 \<Rightarrow> uint32) \<Rightarrow> ram \<Rightarrow> cell \<Rightarrow> uint32" where
  "cell_rd f m x = f x (m x)"

definition cell_wr :: "cell \<Rightarrow> uint32 \<Rightarrow> ram \<Rightarrow> ram" where
  "cell_wr x v m = m(x := v)"

interpretation ram: cell_memory "cell_rd f" cell_wr f for f
  by unfold_locales (simp_all add: cell_rd_def cell_wr_def)

text \<open>Bit \<open>b\<close> of cell \<open>a\<close> is stuck at \<open>v\<close>.\<close>

definition stuck_at :: "cell \<Rightarrow> nat \<Rightarrow> bool \<Rightarrow> cell \<Rightarrow> uint32 \<Rightarrow> uint32" where
  "stuck_at a b v x w = (if x = a then (if v then set_bit b w else unset_bit b w) else w)"

lemma stuck_at_values:
  assumes "b < 32"
  shows "stuck_at a b v a 0 = 0 \<longleftrightarrow> \<not> v" and "\<not> v \<Longrightarrow> stuck_at a b v a 1 = 1 \<longleftrightarrow> b \<noteq> 0"
proof -
  have "bit (set_bit b 0 :: uint32) b" unfolding bit_set_bit_iff using assms by simp
  have "set_bit b 0 \<noteq> (0 :: uint32)"
  proof
    assume "set_bit b 0 = (0 :: uint32)"
    with \<open>bit (set_bit b 0) b\<close> have "bit (0 :: uint32) b" by (simp only:)
    then show False by simp
  qed
  then show "stuck_at a b v a 0 = 0 \<longleftrightarrow> \<not> v" by (simp add: stuck_at_def unset_bit_eq)
  have "unset_bit b (1 :: uint32) = 1 \<longleftrightarrow> b \<noteq> 0"
  proof
    assume "unset_bit b (1 :: uint32) = 1"
    then have "\<not> bit (1 :: uint32) b" by (metis bit_unset_bit_iff)
    then show "b \<noteq> 0" by (auto intro: ccontr)
  next
    assume "b \<noteq> 0"
    then show "unset_bit b (1 :: uint32) = 1" by (intro bit_word_eqI) (auto simp: bit_unset_bit_iff bit_1_iff)
  qed
  then show "stuck_at a b v a 1 = 1 \<longleftrightarrow> b \<noteq> 0" if "\<not> v" using that by (simp add: stuck_at_def)
qed

text \<open>
  C26. March X as implemented, with the values 0 and 1 for a whole cell, on a memory with one stuck bit:
  it reports every bit that is stuck at one, and of the bits stuck at zero exactly the lowest one
  of a cell. The other 31 bits of every cell may be stuck at zero without being noticed.
\<close>
theorem march_stuck_at:
  assumes "0 < sa" and "a \<in> {sa..<ea}" and "b < 32"
  shows "map_option fst (ramTstMarchX (cell_rd (stuck_at a b v)) cell_wr sa ea m)
       = Some (if v \<or> b = 0 then RAMTST_RESULT_NOT_OK else RAMTST_RESULT_OK)"
proof -
  have le: "sa \<le> ea" using assms(2) by (simp only: atLeastLessThan_iff) (meson order.strict_implies_order order_trans)
  have iff: "(\<forall>x\<in>{sa..<ea}. stuck_at a b v x 0 = 0 \<and> stuck_at a b v x 1 = 1) \<longleftrightarrow> \<not> (v \<or> b = 0)"
  proof
    assume "\<forall>x\<in>{sa..<ea}. stuck_at a b v x 0 = 0 \<and> stuck_at a b v x 1 = 1"
    with assms(2) have "stuck_at a b v a 0 = 0 \<and> stuck_at a b v a 1 = 1" by blast
    then show "\<not> (v \<or> b = 0)" using stuck_at_values [OF assms(3)] by blast
  next
    assume *: "\<not> (v \<or> b = 0)"
    show "\<forall>x\<in>{sa..<ea}. stuck_at a b v x 0 = 0 \<and> stuck_at a b v x 1 = 1"
    proof
      fix x
      show "stuck_at a b v x 0 = 0 \<and> stuck_at a b v x 1 = 1"
        using * stuck_at_values [OF assms(3)] by (cases "x = a") (auto simp: stuck_at_def)
    qed
  qed
  show ?thesis unfolding ram.march_cells [OF assms(1) le] iff by simp
qed

theorem march_stuck_at_witness:
  "map_option fst (ramTstMarchX (cell_rd (stuck_at 0x101 7 False)) cell_wr 0x100 0x104 (\<lambda>_. 5)) = Some RAMTST_RESULT_OK
   \<and> map_option fst (ramTstMarchX (cell_rd (stuck_at 0x101 7 True)) cell_wr 0x100 0x104 (\<lambda>_. 5)) = Some RAMTST_RESULT_NOT_OK"
  by (intro conjI) (subst march_stuck_at; simp)+

subsection \<open>Coupled cells\<close>

text \<open>
  A memory with an inversion coupling fault: when bit 0 of cell \<open>g\<close> rises (\<open>up\<close>) or falls, bit
  \<open>b\<close> of cell \<open>v\<close> flips.
\<close>

definition couple_wr :: "cell \<Rightarrow> cell \<Rightarrow> nat \<Rightarrow> bool \<Rightarrow> cell \<Rightarrow> uint32 \<Rightarrow> ram \<Rightarrow> ram" where
  "couple_wr g v b up x w m =
     (let m' = m(x := w)
      in if x = g \<and> bit (m g) 0 \<noteq> bit w 0 \<and> bit w 0 = up then m'(v := flip_bit b (m' v)) else m')"

definition plain_rd :: "ram \<Rightarrow> cell \<Rightarrow> uint32" where
  "plain_rd m x = m x"

lemma flip_bit_ne: "b < 32 \<Longrightarrow> flip_bit b w \<noteq> (w :: uint32)"
proof
  assume "b < 32" and "flip_bit b w = w"
  then have "bit (flip_bit b w) b = bit w b" by simp
  with \<open>b < 32\<close> show False by (simp add: bit_flip_bit_iff)
qed

text \<open>The writes of the first step: \<open>v\<close> may be flipped after it was written.\<close>

lemma couple_writes:
  assumes "g \<noteq> v"
  shows "y \<noteq> v \<Longrightarrow> y \<in> set xs \<Longrightarrow> foldl (\<lambda>m x. couple_wr g v b up x 0 m) m xs y = 0"
    and "g \<notin> set xs \<Longrightarrow> v \<notin> set xs \<Longrightarrow> foldl (\<lambda>m x. couple_wr g v b up x 0 m) m xs v = m v"
proof (induction xs arbitrary: m rule: rev_induct)
  case (snoc x xs)
  {
    case 1
    then show ?case using snoc.IH(1) assms by (auto simp: couple_wr_def Let_def)
  next
    case 2
    then show ?case using snoc.IH(2) by (auto simp: couple_wr_def Let_def)
  }
qed simp_all

text \<open>A pass over cells other than \<open>v\<close>, and one over all.\<close>

lemma couple_segment:
  assumes "g \<noteq> v" and "a = 0 \<and> w = 1 \<or> a = 1 \<and> w = 0"
  shows "distinct xs \<Longrightarrow> v \<notin> set xs \<Longrightarrow> \<forall>y\<in>set xs. m y = a \<Longrightarrow>
    pass plain_rd (couple_wr g v b up) a w xs m
      = (True, \<lambda>y. if y \<in> set xs then w else if y = v \<and> g \<in> set xs \<and> (w = 1) = up then flip_bit b (m v) else m y)"
proof (induction xs arbitrary: m)
  case (Cons x xs)
  define m' where "m' = couple_wr g v b up x w m"
  have bits: "bit a 0 \<noteq> bit w 0" "bit w 0 = (w = 1)" using assms(2) by auto
  have m': "m' = (\<lambda>y. if y = x then w else if y = v \<and> x = g \<and> (w = 1) = up then flip_bit b (m v) else m y)"
    using Cons.prems bits assms(1) by (auto simp: m'_def couple_wr_def Let_def fun_eq_iff)
  have same: "\<forall>y\<in>set xs. m' y = a" using Cons.prems by (auto simp: m')
  have "pass plain_rd (couple_wr g v b up) a w (x # xs) m = pass plain_rd (couple_wr g v b up) a w xs m'"
    using Cons.prems by (simp add: plain_rd_def m'_def)
  also have "\<dots> = (True, \<lambda>y. if y \<in> set xs then w else if y = v \<and> g \<in> set xs \<and> (w = 1) = up then flip_bit b (m' v) else m' y)"
    using Cons.prems same by (intro Cons.IH) simp_all
  finally show ?case using Cons.prems by (auto simp: m' fun_eq_iff)
qed auto

lemma couple_pass:
  assumes "g \<noteq> v" and "a = 0 \<and> w = 1 \<or> a = 1 \<and> w = 0" and "distinct (ys @ v # zs)" and "\<forall>y\<in>set ys \<union> set zs. m y = a"
    and p_def: "p = pass plain_rd (couple_wr g v b up) a w (ys @ v # zs) m"
  shows "fst p \<longleftrightarrow> (if g \<in> set ys \<and> (w = 1) = up then flip_bit b (m v) else m v) = a"
    and "fst p \<Longrightarrow> \<forall>y\<in>set ys \<union> set zs. snd p y = w"
    and "fst p \<Longrightarrow> snd p v = (if g \<in> set zs \<and> (w = 1) = up then flip_bit b w else w)"
proof -
  define m1 where "m1 = (\<lambda>y. if y \<in> set ys then w else if y = v \<and> g \<in> set ys \<and> (w = 1) = up then flip_bit b (m v) else m y)"
  have seg: "pass plain_rd (couple_wr g v b up) a w ys m = (True, m1)"
    unfolding m1_def using assms(3,4) by (intro couple_segment [OF assms(1,2)]) auto
  have v: "m1 v = (if g \<in> set ys \<and> (w = 1) = up then flip_bit b (m v) else m v)" using assms(3) by (simp add: m1_def)
  define m2 where "m2 = m1(v := w)"
  have wr: "couple_wr g v b up v w m1 = m2" using assms(1) by (simp add: couple_wr_def m2_def)
  have split: "p = (if m1 v \<noteq> a then (False, m1) else pass plain_rd (couple_wr g v b up) a w zs m2)"
    unfolding p_def pass_append seg by (simp add: wr) (simp add: plain_rd_def)
  have "\<forall>y\<in>set zs. m2 y = a" using assms(3,4) by (auto simp: m2_def m1_def)
  then have zs: "pass plain_rd (couple_wr g v b up) a w zs m2
      = (True, \<lambda>y. if y \<in> set zs then w else if y = v \<and> g \<in> set zs \<and> (w = 1) = up then flip_bit b (m2 v) else m2 y)"
    using assms(3) by (intro couple_segment [OF assms(1,2)]) auto
  show ok: "fst p \<longleftrightarrow> (if g \<in> set ys \<and> (w = 1) = up then flip_bit b (m v) else m v) = a"
    unfolding split zs v [symmetric] by simp
  assume "fst p"
  then have "p = pass plain_rd (couple_wr g v b up) a w zs m2" unfolding split by (auto split: if_splits)
  then show "\<forall>y\<in>set ys \<union> set zs. snd p y = w"
    and "snd p v = (if g \<in> set zs \<and> (w = 1) = up then flip_bit b w else w)"
    unfolding zs using assms(3) by (auto simp: m2_def m1_def)
qed

lemma couple_first_step:
  assumes "g \<noteq> v" and "distinct (ys @ v # zs)" and "g \<in> set ys"
  shows "foldl (\<lambda>m x. couple_wr g v b up x 0 m) m (ys @ v # zs) v = 0"
proof -
  have "g \<notin> set zs" "v \<notin> set zs" using assms by auto
  then show ?thesis using assms(1) couple_writes(2) [OF assms(1), of zs] by (simp add: couple_wr_def)
qed

lemma march_passes_couple:
  assumes "g \<noteq> v" and "b < 32" and "distinct (ys @ v # zs)" and g: "g \<in> set ys \<union> set zs"
  shows "\<not> fst (march_passes plain_rd (couple_wr g v b up) (ys @ v # zs) m)"
proof
  let ?wr = "couple_wr g v b up" and ?xs = "ys @ v # zs"
  assume ok: "fst (march_passes plain_rd ?wr ?xs m)"
  define m1 where "m1 = foldl (\<lambda>m x. ?wr x 0 m) m ?xs"
  define p2 where "p2 = pass plain_rd ?wr 0 1 ?xs m1"
  define p3 where "p3 = pass plain_rd ?wr 1 0 (rev zs @ v # rev ys) (snd p2)"
  have all: "fst p2" "fst p3" "snd p3 v = 0"
    using ok by (auto simp: march_passes_def plain_rd_def m1_def p2_def p3_def split: prod.splits bool.splits)
  have flip: "flip_bit b w \<noteq> (w :: uint32)" for w by (rule flip_bit_ne [OF assms(2)])
  have m1: "\<forall>y\<in>set ys \<union> set zs. m1 y = 0"
  proof
    fix y assume "y \<in> set ys \<union> set zs"
    with assms(3) have "y \<noteq> v" "y \<in> set ?xs" by auto
    then show "m1 y = 0" unfolding m1_def by (rule couple_writes(1) [OF assms(1)])
  qed
  note s2 = couple_pass [OF assms(1) _ assms(3) m1 p2_def, simplified]
  have d3: "distinct (rev zs @ v # rev ys)" using assms(3) by auto
  have "\<forall>y\<in>set (rev zs) \<union> set (rev ys). snd p2 y = 1" using s2(2) [OF all(1)] by auto
  note s3 = couple_pass [OF assms(1) _ d3 this p3_def, simplified]
  show False
  proof (cases "g \<in> set ys")
    case True
    then have "g \<notin> set zs" using assms(3) by auto
    moreover have "m1 v = 0" unfolding m1_def by (rule couple_first_step [OF assms(1,3) True])
    ultimately show False
      using True s2(1) s3(3) all flip assms(2) by (cases up) auto
  next
    case False
    with g have "g \<in> set zs" by simp
    then show False
      using False s2(1,3) s3(1) all flip assms(2) by (cases up) auto
  qed
qed

text \<open>
  C27. March X detects every inversion coupling fault between two cells of a block: when rising or
  falling of the lowest bit of one cell flips any bit of another one, the test fails, whatever
  the cells contained and whichever of the two comes first.
\<close>
theorem march_detects_coupling:
  assumes "0 < sa" and "g \<in> {sa..<ea}" and "v \<in> {sa..<ea}" and "g \<noteq> v" and "b < 32"
  shows "map_option fst (ramTstMarchX plain_rd (couple_wr g v b up) sa ea m) = Some RAMTST_RESULT_NOT_OK"
proof -
  have le: "sa \<le> ea" using assms(2) by (simp only: atLeastLessThan_iff) (meson order.strict_implies_order order_trans)
  have "v \<in> set (cells sa ea)" using assms(3) by (simp only: set_cells)
  then obtain ys zs where xs: "cells sa ea = ys @ v # zs" by (meson split_list)
  have "g \<in> set (cells sa ea)" using assms(2) by (simp only: set_cells)
  with assms(4) have g: "g \<in> set ys \<union> set zs" by (simp add: xs)
  have "\<not> fst (march_passes plain_rd (couple_wr g v b up) (cells sa ea) m)"
    unfolding xs by (rule march_passes_couple [OF assms(4,5) _ g]) (use distinct_cells [of sa ea] in \<open>simp only: xs\<close>)
  then show ?thesis unfolding ramTstMarchX_passes [OF assms(1) le] by (simp add: split_beta)
qed

theorem march_detects_coupling_witness:
  "map_option fst (ramTstMarchX plain_rd (couple_wr 0x103 0x101 9 False) 0x100 0x104 (\<lambda>_. 5)) = Some RAMTST_RESULT_NOT_OK"
  by (rule march_detects_coupling) simp_all

subsection \<open>A block at address zero\<close>

lemma march_down_zero:
  "march_down rd wr 0 (ea - 1) m
     = (case pass rd wr 1 0 (rev (cells 0 ea)) m of (False, m) \<Rightarrow> Some (False, m) | (True, m) \<Rightarrow> march_down rd wr 0 (- 1) m)"
proof (induction "unat ea" arbitrary: ea m rule: less_induct)
  case less
  show ?case
  proof (cases "0 < ea")
    case True
    note l = last_cell [OF True]
    have "march_down rd wr 0 (ea - 1 - 1) m' = (case pass rd wr 1 0 (rev (cells 0 (ea - 1))) m' of
        (False, m) \<Rightarrow> Some (False, m) | (True, m) \<Rightarrow> march_down rd wr 0 (- 1) m)" for m'
      using less.hyps [of "ea - 1"] l by blast
    then show ?thesis
      by (subst march_down.simps) (simp add: cells_snoc [OF True])
  next
    case False
    then have "ea = 0" by (simp add: word_gt_0)
    then show ?thesis by (simp add: cells_empty)
  qed
qed

text \<open>
  A block that starts at address zero: no pointer is below it, so going down the test leaves the
  block at the other end of the address space. A memory without any fault is then reported as
  defective as soon as the last cell of the address space does not happen to hold the value 1.
\<close>
theorem march_block_at_zero:
  assumes "0 < ea" and "m (- 1) \<noteq> 1"
  shows "map_option fst (ramTstMarchX plain_rd cell_wr 0 ea m) = Some RAMTST_RESULT_NOT_OK"
proof -
  have out: "- 1 \<notin> set (cells 0 ea)" by (simp only: set_cells atLeastLessThan_iff) simp
  have mem: "cell_memory plain_rd cell_wr (\<lambda>_ v. v)" by unfold_locales (simp_all add: plain_rd_def cell_wr_def)
  have rev: "distinct (rev (cells 0 ea))" using distinct_cells [of 0 ea] by simp
  define m1 where "m1 = foldl (\<lambda>m x. cell_wr x 0 m) m (cells 0 ea)"
  define p2 where "p2 = pass plain_rd cell_wr 0 1 (cells 0 ea) m1"
  define p3 where "p3 = pass plain_rd cell_wr 1 0 (rev (cells 0 ea)) (snd p2)"
  have m1: "\<forall>x\<in>set (cells 0 ea). plain_rd m1 x = 0" "plain_rd m1 (- 1) = plain_rd m (- 1)"
    using cell_memory.read_writes [OF mem] out unfolding m1_def by simp_all
  have p2: "fst p2" "\<forall>x\<in>set (cells 0 ea). plain_rd (snd p2) x = 1" "plain_rd (snd p2) (- 1) = plain_rd m (- 1)"
    using cell_memory.pass_cells [OF mem distinct_cells, of 0 1 0 ea m1] m1 out unfolding p2_def by simp_all
  have p3: "fst p3" "plain_rd (snd p3) (- 1) = plain_rd m (- 1)"
    using cell_memory.pass_cells [OF mem rev, of 1 0 "snd p2"] p2 out unfolding p3_def by simp_all
  have "march_down plain_rd cell_wr 0 (- 1) (snd p3) = Some (False, snd p3)"
    using p3(2) assms(2) by (subst march_down.simps) (simp add: plain_rd_def)
  then have "march_down plain_rd cell_wr 0 (ea - 1) (snd p2) = Some (False, snd p3)"
    using p3(1) unfolding march_down_zero p3_def [symmetric] by (cases p3) simp
  moreover have "march_up plain_rd cell_wr 0 ea (march_write cell_wr 0 ea m) = (True, snd p2)"
    using p2(1) unfolding march_up_cells march_write_cells m1_def [symmetric] p2_def [symmetric] by (cases p2) simp
  ultimately show ?thesis by (simp add: ramTstMarchX_def)
qed

theorem march_block_at_zero_witness:
  "map_option fst (ramTstMarchX plain_rd cell_wr 0 8 (\<lambda>_. 5)) = Some RAMTST_RESULT_NOT_OK"
  by (rule march_block_at_zero) simp_all

subsection \<open>The full test\<close>

definition block_ok :: "(cell \<Rightarrow> uint32 \<Rightarrow> uint32) \<Rightarrow> RamTst_BlockParamsType \<Rightarrow> bool" where
  "block_ok f b \<longleftrightarrow> (\<forall>x\<in>{RamTstStartAddress b..<RamTstEndAddress b}. f x 0 = 0 \<and> f x 1 = 1)"

definition result_of :: "bool \<Rightarrow> RamTst_TestResultType" where
  "result_of ok = (if ok then RAMTST_RESULT_OK else RAMTST_RESULT_NOT_OK)"

text \<open>A block the code can run through: it does not start at address zero, and its result has a place.\<close>

definition block_wf :: "nat \<Rightarrow> RamTst_BlockParamsType \<Rightarrow> bool" where
  "block_wf n b \<longleftrightarrow> 0 < RamTstStartAddress b \<and> RamTstStartAddress b \<le> RamTstEndAddress b \<and> unat (RamTstBlockIndex b) < n"

lemma march_returns:
  assumes "block_wf n b"
  shows "\<exists>ok m'. ramTstMarchX rd wr (RamTstStartAddress b) (RamTstEndAddress b) m = Some (result_of ok, m')"
  using assms ramTstMarchX_passes [of "RamTstStartAddress b" "RamTstEndAddress b" rd wr m]
  by (simp add: block_wf_def result_of_def split_beta) blast

lemma march_block:
  assumes "block_wf n b"
  shows "\<exists>m'. ramTstMarchX (cell_rd f) cell_wr (RamTstStartAddress b) (RamTstEndAddress b) m = Some (result_of (block_ok f b), m')"
  using ram.march_cells [of "RamTstStartAddress b" "RamTstEndAddress b" f m] assms
  by (auto simp: block_wf_def block_ok_def result_of_def)

lemma clear_results_wf:
  "list_all (block_wf (length (RamTst_BlockResultBuffer s))) bs \<Longrightarrow>
     \<exists>buf. clear_results bs s = Some (s\<lparr>RamTst_BlockResultBuffer := buf\<rparr>) \<and> length buf = length (RamTst_BlockResultBuffer s)"
proof (induction bs arbitrary: s)
  case Nil
  then show ?case by (intro exI [of _ "RamTst_BlockResultBuffer s"]) simp
next
  case (Cons b bs)
  let ?s = "s\<lparr>RamTst_BlockResultBuffer := (RamTst_BlockResultBuffer s)[unat (RamTstBlockIndex b) := RAMTST_RESULT_NOT_TESTED]\<rparr>"
  have "write_result (RamTstBlockIndex b) RAMTST_RESULT_NOT_TESTED s = Some ?s"
    using Cons.prems by (simp add: write_result_def block_wf_def)
  with Cons.IH [of ?s] Cons.prems show ?case by auto
qed

text \<open>One block: the result is stored, a failure is remembered and reported.\<close>

lemma run_block_eq:
  assumes "ramTstMarchX rd wr (RamTstStartAddress b) (RamTstEndAddress b) m = Some (result_of ok, m')"
    and "block_wf (length (RamTst_BlockResultBuffer s)) b"
  shows "run_block rd wr cfg RAMTST_MARCH_TEST b (s, m)
       = Some (s\<lparr>RamTst_BlockResultBuffer := (RamTst_BlockResultBuffer s)[unat (RamTstBlockIndex b) := result_of ok],
                 CurrentTestResult := (if ok then CurrentTestResult s else RAMTST_RESULT_NOT_OK),
                 ram_log := ram_log s @ (if ok \<or> RAMTST_E_RAM_FAILURE cfg = 0 then [] else [Ram_Dem_Failed (RAMTST_E_RAM_FAILURE cfg)])\<rparr>, m')"
  using assms by (auto simp: run_block_def result_of_def write_result_def block_wf_def Let_def)

lemma run_blocks_cells:
  assumes "list_all (block_wf (length (RamTst_BlockResultBuffer s))) bs" and "distinct (map RamTstBlockIndex bs)"
  shows "\<exists>s' m'. run_blocks (cell_rd f) cell_wr cfg RAMTST_MARCH_TEST bs (s, m) = Some (s', m')
       \<and> length (RamTst_BlockResultBuffer s') = length (RamTst_BlockResultBuffer s)
       \<and> (\<forall>b\<in>set bs. RamTst_BlockResultBuffer s' ! unat (RamTstBlockIndex b) = result_of (block_ok f b))
       \<and> (\<forall>i. (\<forall>b\<in>set bs. i \<noteq> unat (RamTstBlockIndex b)) \<longrightarrow> RamTst_BlockResultBuffer s' ! i = RamTst_BlockResultBuffer s ! i)
       \<and> CurrentTestResult s' = (if list_all (block_ok f) bs then CurrentTestResult s else RAMTST_RESULT_NOT_OK)
       \<and> ram_log s' = ram_log s @ (if RAMTST_E_RAM_FAILURE cfg = 0 then []
            else replicate (length (filter (\<lambda>b. \<not> block_ok f b) bs)) (Ram_Dem_Failed (RAMTST_E_RAM_FAILURE cfg)))
       \<and> InitStatus s' = InitStatus s \<and> ActiveAlgParamID s' = ActiveAlgParamID s"
  using assms
proof (induction bs arbitrary: s m)
  case (Cons b bs)
  have wf: "block_wf (length (RamTst_BlockResultBuffer s)) b" using Cons.prems by simp
  obtain m1 where m1: "ramTstMarchX (cell_rd f) cell_wr (RamTstStartAddress b) (RamTstEndAddress b) m = Some (result_of (block_ok f b), m1)"
    using march_block [OF wf] by blast
  define s1 where "s1 = s\<lparr>RamTst_BlockResultBuffer := (RamTst_BlockResultBuffer s)[unat (RamTstBlockIndex b) := result_of (block_ok f b)],
     CurrentTestResult := (if block_ok f b then CurrentTestResult s else RAMTST_RESULT_NOT_OK),
     ram_log := ram_log s @ (if block_ok f b \<or> RAMTST_E_RAM_FAILURE cfg = 0 then [] else [Ram_Dem_Failed (RAMTST_E_RAM_FAILURE cfg)])\<rparr>"
  have run: "run_block (cell_rd f) cell_wr cfg RAMTST_MARCH_TEST b (s, m) = Some (s1, m1)"
    unfolding s1_def by (rule run_block_eq [OF m1 wf])
  have len: "length (RamTst_BlockResultBuffer s1) = length (RamTst_BlockResultBuffer s)" by (simp add: s1_def)
  have other: "\<forall>b'\<in>set bs. unat (RamTstBlockIndex b) \<noteq> unat (RamTstBlockIndex b')"
    using Cons.prems(2) by (auto simp: image_iff) (metis unsigned_word_eqI)
  have i: "unat (RamTstBlockIndex b) < length (RamTst_BlockResultBuffer s)" using wf by (simp add: block_wf_def)
  from Cons.IH [of s1 m1] Cons.prems len obtain s' m' where
    IH: "run_blocks (cell_rd f) cell_wr cfg RAMTST_MARCH_TEST bs (s1, m1) = Some (s', m')"
      "length (RamTst_BlockResultBuffer s') = length (RamTst_BlockResultBuffer s1)"
      "\<forall>b\<in>set bs. RamTst_BlockResultBuffer s' ! unat (RamTstBlockIndex b) = result_of (block_ok f b)"
      "\<forall>i. (\<forall>b\<in>set bs. i \<noteq> unat (RamTstBlockIndex b)) \<longrightarrow> RamTst_BlockResultBuffer s' ! i = RamTst_BlockResultBuffer s1 ! i"
      "CurrentTestResult s' = (if list_all (block_ok f) bs then CurrentTestResult s1 else RAMTST_RESULT_NOT_OK)"
      "ram_log s' = ram_log s1 @ (if RAMTST_E_RAM_FAILURE cfg = 0 then []
            else replicate (length (filter (\<lambda>b. \<not> block_ok f b) bs)) (Ram_Dem_Failed (RAMTST_E_RAM_FAILURE cfg)))"
      "InitStatus s' = InitStatus s1" "ActiveAlgParamID s' = ActiveAlgParamID s1"
    by auto
  have own: "RamTst_BlockResultBuffer s' ! unat (RamTstBlockIndex b) = result_of (block_ok f b)"
    using IH(4) other i by (simp add: s1_def)
  show ?case
  proof (intro exI conjI)
    show "run_blocks (cell_rd f) cell_wr cfg RAMTST_MARCH_TEST (b # bs) (s, m) = Some (s', m')" by (simp add: run IH(1))
    show "\<forall>b\<in>set (b # bs). RamTst_BlockResultBuffer s' ! unat (RamTstBlockIndex b) = result_of (block_ok f b)"
      using own IH(3) by simp
    show "\<forall>i. (\<forall>b\<in>set (b # bs). i \<noteq> unat (RamTstBlockIndex b)) \<longrightarrow> RamTst_BlockResultBuffer s' ! i = RamTst_BlockResultBuffer s ! i"
      using IH(4) by (simp add: s1_def)
  qed (simp_all add: IH(2,5-8) len, simp_all add: s1_def)
qed simp


definition demo_ram_alg :: RamTst_AlgParamsType where
  "demo_ram_alg = \<lparr>RamTstAlgParamsId = 4, RamTstAlgorithm = RAMTST_MARCH_TEST, RamTstNumberOfBlocks = 2, RamTstBlockParams =
     [\<lparr>RamTstEndAddress = 0x110, RamTstStartAddress = 0x100, RamTstBlockId = 7, RamTstBlockIndex = 1\<rparr>,
      \<lparr>RamTstEndAddress = 0x210, RamTstStartAddress = 0x200, RamTstBlockId = 9, RamTstBlockIndex = 0\<rparr>]\<rparr>"

definition demo_ram_cfg :: RamTst_ConfigParamsType where
  "demo_ram_cfg = \<lparr>RamTstDefaultAlgParamsId = 4, RamTstNumberOfAlgParamSets = 1, RAMTST_E_RAM_FAILURE = 12,
     RamTstAlgParams = [demo_ram_alg]\<rparr>"

definition demo_ram :: RamTst_State where
  "demo_ram = \<lparr>RamTst_BlockResultBuffer = [RAMTST_RESULT_NOT_TESTED, RAMTST_RESULT_NOT_TESTED], ExecStatus = RAMTST_EXECUTION_STOPPED,
     OrderedStatus = RAMTST_EXECUTION_UNINIT, ActiveAlgParamID = 4, InitStatus = RAMTST_INIT,
     CurrentTestResult = RAMTST_RESULT_NOT_TESTED, ram_log = []\<rparr>"

lemma demo_ram_alg_found: "find_alg demo_ram_cfg (ActiveAlgParamID demo_ram) = Some demo_ram_alg"
  by (simp add: find_alg_def alg_sets_def demo_ram_cfg_def demo_ram_alg_def demo_ram_def)

lemma demo_ram_blocks: "alg_blocks demo_ram_alg =
   [\<lparr>RamTstEndAddress = 0x110, RamTstStartAddress = 0x100, RamTstBlockId = 7, RamTstBlockIndex = 1\<rparr>,
    \<lparr>RamTstEndAddress = 0x210, RamTstStartAddress = 0x200, RamTstBlockId = 9, RamTstBlockIndex = 0\<rparr>]"
  by (simp add: alg_blocks_def demo_ram_alg_def)

lemma demo_block_ok:
  "block_ok (stuck_at 0x201 3 True) \<lparr>RamTstEndAddress = 0x110, RamTstStartAddress = 0x100, RamTstBlockId = 7, RamTstBlockIndex = 1\<rparr>"
  "\<not> block_ok (stuck_at 0x201 3 True) \<lparr>RamTstEndAddress = 0x210, RamTstStartAddress = 0x200, RamTstBlockId = 9, RamTstBlockIndex = 0\<rparr>"
proof -
  have "x \<noteq> 0x201" if "x \<in> {0x100..<0x110}" for x :: cell using that by (auto simp: word_le_nat_alt word_less_nat_alt)
  then show "block_ok (stuck_at 0x201 3 True) \<lparr>RamTstEndAddress = 0x110, RamTstStartAddress = 0x100, RamTstBlockId = 7, RamTstBlockIndex = 1\<rparr>"
    by (simp add: block_ok_def stuck_at_def)
  have "0x201 \<in> {0x200..<0x210 :: cell}" by simp
  moreover have "stuck_at 0x201 3 True 0x201 0 \<noteq> 0" using stuck_at_values(1) [of 3 "0x201" True] by simp
  ultimately show "\<not> block_ok (stuck_at 0x201 3 True) \<lparr>RamTstEndAddress = 0x210, RamTstStartAddress = 0x200, RamTstBlockId = 9, RamTstBlockIndex = 0\<rparr>"
    unfolding block_ok_def by (simp only: RamTst_BlockParamsType.simps) blast
qed


subsection \<open>Sequences of calls\<close>

text \<open>
  The calls of the services that have a body, with development error detection; the caller of a
  getter drops its result.
\<close>

datatype RamTst_Call = Do_Init | Do_DeInit | Do_Stop | Do_Allow | Do_GetTestResult | Do_GetTestResultPerBlock uint16
  | Do_GetAlgParams | Do_GetTestAlgorithm | Do_SelectAlgParams uint8 | Do_RunFullTest

primrec ram_call :: "('m \<Rightarrow> cell \<Rightarrow> uint32) \<Rightarrow> (cell \<Rightarrow> uint32 \<Rightarrow> 'm \<Rightarrow> 'm) \<Rightarrow> RamTst_ConfigParamsType \<Rightarrow> RamTst_Call
    \<Rightarrow> RamTst_State \<times> 'm \<Rightarrow> (RamTst_State \<times> 'm) option" where
  "ram_call rd wr cfg Do_Init x = Some (RamTst_Init True cfg (fst x), snd x)"
| "ram_call rd wr cfg Do_DeInit x = Some (RamTst_DeInit True (fst x), snd x)"
| "ram_call rd wr cfg Do_Stop x = Some (RamTst_Stop True (fst x), snd x)"
| "ram_call rd wr cfg Do_Allow x = Some (RamTst_Allow True (fst x), snd x)"
| "ram_call rd wr cfg Do_GetTestResult x = Some (snd (RamTst_GetTestResult True (fst x)), snd x)"
| "ram_call rd wr cfg (Do_GetTestResultPerBlock BlockID) x =
     map_option (\<lambda>(r, s). (s, snd x)) (RamTst_GetTestResultPerBlock True cfg BlockID (fst x))"
| "ram_call rd wr cfg Do_GetAlgParams x = Some (snd (RamTst_GetAlgParams True (fst x)), snd x)"
| "ram_call rd wr cfg Do_GetTestAlgorithm x = Some (snd (RamTst_GetTestAlgorithm True cfg (fst x)), snd x)"
| "ram_call rd wr cfg (Do_SelectAlgParams i) x = map_option (\<lambda>s. (s, snd x)) (RamTst_SelectAlgParams True cfg i (fst x))"
| "ram_call rd wr cfg Do_RunFullTest x = RamTst_RunFullTest rd wr True cfg x"

text \<open>A configuration whose blocks the code can run through, for \<open>n\<close> places in the buffer.\<close>

definition ram_cfg_wf :: "nat \<Rightarrow> RamTst_ConfigParamsType \<Rightarrow> bool" where
  "ram_cfg_wf n cfg \<longleftrightarrow> list_all (\<lambda>a. list_all (block_wf n) (alg_blocks a)) (alg_sets cfg)"

definition ram_inv :: "nat \<Rightarrow> RamTst_State \<times> 'm \<Rightarrow> bool" where
  "ram_inv n x \<longleftrightarrow>
     (case x of (s, m) \<Rightarrow>
        length (RamTst_BlockResultBuffer s) = n \<and> (InitStatus s = RAMTST_UNINIT \<longleftrightarrow> ExecStatus s = RAMTST_EXECUTION_UNINIT)
        \<and> ExecStatus s \<noteq> RAMTST_EXECUTION_SUSPENDED \<and> CurrentTestResult s \<noteq> RAMTST_RESULT_UNDEFINED)"

lemma found_wf: "find_alg cfg i = Some a \<Longrightarrow> ram_cfg_wf n cfg \<Longrightarrow> list_all (block_wf n) (alg_blocks a)"
  by (auto simp: find_alg_def ram_cfg_wf_def list_all_iff find_Some_iff)

lemma run_blocks_wf:
  assumes "list_all (block_wf n) bs" and "length (RamTst_BlockResultBuffer s) = n"
  shows "\<exists>s' m'. run_blocks rd wr cfg alg bs (s, m) = Some (s', m') \<and> length (RamTst_BlockResultBuffer s') = n
       \<and> InitStatus s' = InitStatus s"
  using assms
proof (induction bs arbitrary: s m)
  case (Cons b bs)
  have wf: "block_wf n b" using Cons.prems by simp
  obtain r m1 where r: "(if alg = RAMTST_MARCH_TEST then ramTstMarchX rd wr (RamTstStartAddress b) (RamTstEndAddress b) m
      else Some (RAMTST_RESULT_NOT_OK, m)) = Some (r, m1)"
    using march_returns [OF wf, of rd wr m] by (cases "alg = RAMTST_MARCH_TEST") auto
  define s0 where "s0 = (if r \<noteq> RAMTST_RESULT_OK
      then (let s = (if RAMTST_E_RAM_FAILURE cfg \<noteq> 0
                     then s\<lparr>ram_log := ram_log s @ [Ram_Dem_Failed (RAMTST_E_RAM_FAILURE cfg)]\<rparr> else s)
            in s\<lparr>CurrentTestResult := RAMTST_RESULT_NOT_OK\<rparr>)
      else s)"
  have s0: "length (RamTst_BlockResultBuffer s0) = n" "InitStatus s0 = InitStatus s"
    using Cons.prems(2) by (simp_all add: s0_def Let_def)
  have "run_block rd wr cfg alg b (s, m)
      = (case write_result (RamTstBlockIndex b) r s0 of None \<Rightarrow> None | Some s \<Rightarrow> Some (s, m1))"
    unfolding run_block_def prod.case r s0_def by (simp only: option.case prod.case Let_def)
  then obtain s1 where "run_block rd wr cfg alg b (s, m) = Some (s1, m1)" "length (RamTst_BlockResultBuffer s1) = n" "InitStatus s1 = InitStatus s"
    using wf s0 by (simp add: write_result_def block_wf_def)
  with Cons.IH [of s1 m1] Cons.prems show ?case by auto
qed simp

lemma RunFullTest_safe:
  assumes "ram_cfg_wf n cfg" and "ram_inv n x"
  shows "\<exists>x'. RamTst_RunFullTest rd wr True cfg x = Some x' \<and> ram_inv n x'"
proof -
  obtain s m where x: "x = (s, m)" by (cases x)
  have inv: "length (RamTst_BlockResultBuffer s) = n" "InitStatus s = RAMTST_UNINIT \<longleftrightarrow> ExecStatus s = RAMTST_EXECUTION_UNINIT"
      "ExecStatus s \<noteq> RAMTST_EXECUTION_SUSPENDED" "CurrentTestResult s \<noteq> RAMTST_RESULT_UNDEFINED"
    using assms(2) by (simp_all add: x ram_inv_def)
  show ?thesis
  proof (cases "InitStatus s \<noteq> RAMTST_UNINIT \<and> ExecStatus s = RAMTST_EXECUTION_STOPPED \<and> find_alg cfg (ActiveAlgParamID s) \<noteq> None")
    case True
    then obtain a where a: "find_alg cfg (ActiveAlgParamID s) = Some a" by blast
    define s1 where "s1 = s\<lparr>ExecStatus := RAMTST_EXECUTION_RUNNING, CurrentTestResult := RAMTST_RESULT_UNDEFINED\<rparr>"
    have bs: "list_all (block_wf n) (alg_blocks a)" by (rule found_wf [OF a assms(1)])
    then have "list_all (block_wf (length (RamTst_BlockResultBuffer s1))) (alg_blocks a)" by (simp add: s1_def inv(1))
    from clear_results_wf [OF this] obtain buf where
      clear: "clear_results (alg_blocks a) s1 = Some (s1\<lparr>RamTst_BlockResultBuffer := buf\<rparr>)" and "length buf = n"
      by (auto simp: s1_def inv(1))
    then have "length (RamTst_BlockResultBuffer (s1\<lparr>RamTst_BlockResultBuffer := buf\<rparr>)) = n" by simp
    from run_blocks_wf [OF bs this, of rd wr cfg "RamTstAlgorithm a" m] obtain s3 m3 where
      run: "run_blocks rd wr cfg (RamTstAlgorithm a) (alg_blocks a) (s1\<lparr>RamTst_BlockResultBuffer := buf\<rparr>, m) = Some (s3, m3)"
      and s3: "length (RamTst_BlockResultBuffer s3) = n" "InitStatus s3 = InitStatus (s1\<lparr>RamTst_BlockResultBuffer := buf\<rparr>)"
      by blast
    have "RamTst_RunFullTest rd wr True cfg x = Some (s3\<lparr>CurrentTestResult := (if CurrentTestResult s3 = RAMTST_RESULT_UNDEFINED
        then RAMTST_RESULT_OK else CurrentTestResult s3), ExecStatus := RAMTST_EXECUTION_STOPPED\<rparr>, m3)"
      using True a clear run by (simp add: x RamTst_RunFullTest_def Let_def flip: s1_def)
    with s3 True show ?thesis by (simp add: ram_inv_def s1_def)
  next
    case False
    with inv show ?thesis by (auto simp: x RamTst_RunFullTest_def ram_inv_def ram_det_def)
  qed
qed

lemma SelectAlgParams_safe:
  assumes "ram_cfg_wf n cfg" and "ram_inv n (s, m)"
  shows "\<exists>s'. RamTst_SelectAlgParams True cfg i s = Some s' \<and> ram_inv n (s', m)"
proof (cases "find_alg cfg i")
  case None
  with assms(2) show ?thesis by (auto simp: RamTst_SelectAlgParams_def ram_inv_def ram_det_def)
next
  case (Some a)
  have "list_all (block_wf (length (RamTst_BlockResultBuffer s))) (alg_blocks a)"
    using found_wf [OF Some assms(1)] assms(2) by (simp add: ram_inv_def)
  with clear_results_wf [OF this] Some assms(2) show ?thesis
    by (auto simp: RamTst_SelectAlgParams_def ram_inv_def ram_det_def)
qed

lemma GetTestResultPerBlock_safe:
  assumes "ram_cfg_wf n cfg" and "ram_inv n (s, m)"
  shows "\<exists>r s'. RamTst_GetTestResultPerBlock True cfg i s = Some (r, s') \<and> ram_inv n (s', m)"
proof (cases "List.find (\<lambda>b. RamTstBlockId b = i) (concat (map alg_blocks (alg_sets cfg)))")
  case None
  with assms(2) show ?thesis by (auto simp: RamTst_GetTestResultPerBlock_def ram_inv_def ram_det_def)
next
  case (Some b)
  then have "b \<in> set (concat (map alg_blocks (alg_sets cfg)))" by (metis find_Some_iff nth_mem)
  then have "block_wf n b" using assms(1) by (auto simp: ram_cfg_wf_def list_all_iff)
  with Some assms(2) show ?thesis
    by (auto simp: RamTst_GetTestResultPerBlock_def ram_inv_def ram_det_def block_wf_def)
qed

lemma ram_call_safe:
  assumes "ram_cfg_wf n cfg" and "ram_inv n x"
  shows "\<exists>x'. ram_call rd wr cfg c x = Some x' \<and> ram_inv n x'"
proof (cases c)
  case Do_RunFullTest
  then show ?thesis using RunFullTest_safe [OF assms] by simp
next
  case (Do_SelectAlgParams i)
  then show ?thesis using SelectAlgParams_safe [OF assms(1), of "fst x" "snd x" i] assms(2) by auto
next
  case (Do_GetTestResultPerBlock i)
  then show ?thesis using GetTestResultPerBlock_safe [OF assms(1), of "fst x" "snd x" i] assms(2) by auto
qed (use assms(2) in \<open>auto simp: ram_inv_def ram_det_def VALIDATE_def RamTst_Init_def RamTst_DeInit_def RamTst_Stop_def
    RamTst_Allow_def RamTst_GetTestResult_def RamTst_GetAlgParams_def RamTst_GetTestAlgorithm_def Let_def split: prod.splits\<close>)

text \<open>The module with a well formed configuration, and the module while tests are allowed.\<close>

definition ram_env :: "nat \<Rightarrow> RamTst_ConfigParamsType \<Rightarrow> RamTst_Call \<Rightarrow> RamTst_State \<times> 'm \<Rightarrow> bool" where
  "ram_env n cfg c x \<longleftrightarrow> ram_cfg_wf n cfg"

interpretation ramtst: safe_steps "ram_env n cfg" "ram_call rd wr cfg" "ram_inv n" for n cfg rd wr
  by unfold_locales (use ram_call_safe in \<open>unfold ram_env_def, blast\<close>)

definition no_deinit :: "RamTst_Call \<Rightarrow> RamTst_State \<times> 'm \<Rightarrow> bool" where
  "no_deinit c x \<longleftrightarrow> c \<noteq> Do_DeInit"

definition allowed :: "'m \<Rightarrow> RamTst_State \<times> 'm \<Rightarrow> bool" where
  "allowed m x \<longleftrightarrow> InitStatus (fst x) = RAMTST_INIT \<and> ExecStatus (fst x) = RAMTST_EXECUTION_RUNNING \<and> snd x = m"

interpretation ram_allowed: kept_steps no_deinit "ram_call rd wr cfg" "allowed m" for rd wr cfg m
proof
  fix x c x'
  assume "allowed m x" and "no_deinit c x" and "ram_call rd wr cfg c x = Some x'"
  then show "allowed m x'"
    by (cases c) (auto simp: allowed_def no_deinit_def ram_det_def VALIDATE_def RamTst_Init_def RamTst_Stop_def RamTst_Allow_def
        RamTst_GetTestResult_def RamTst_GetTestResultPerBlock_def RamTst_GetAlgParams_def RamTst_GetTestAlgorithm_def
        RamTst_SelectAlgParams_def RamTst_RunFullTest_def split: prod.splits option.splits if_splits)
qed





end
