(* ===== verification/Com_Signal.thy ===== *)
theory Com_Signal
  imports Prelude
begin

unbundle bit_operations_syntax

text \<open>
  Signals in I-PDUs, communication/Com/src/Com\_misc.c: writing a signal into the bytes of a PDU and
  reading it back, in both byte orders and for every signal type.

  A pointer into a PDU buffer is a function of the index, which may be negative: the big-endian
  routines compute a pointer before the byte of the signal. A variable of the application is the
  value it holds with its size (\<open>Com_Data\<close>). \<open>None\<close> is a failed \<open>ASSERT\<close>, an access
  of the wrong size, or a shift by more than the width, which C leaves undefined.
\<close>

type_synonym uint64 = "64 word"
type_synonym pdu_ptr = "int \<Rightarrow> uint8"

subsection \<open>Types\<close>

datatype Com_SignalType = COM_BOOLEAN | COM_UINT8 | COM_UINT16 | COM_UINT32 | COM_UINT64 | COM_UINT8_N | COM_UINT8_DYN
  | COM_SINT8 | COM_SINT16 | COM_SINT32 | COM_SINT64

datatype ComSignalEndianess_type = COM_BIG_ENDIAN | COM_LITTLE_ENDIAN | COM_OPAQUE

datatype Com_Data = Data8 uint8 | Data16 uint16 | Data32 uint32 | Data64 uint64 | DataN "uint8 list"

subsection \<open>Loops over the bytes of a word\<close>

text \<open>Loading with ascending and with descending index.\<close>

primrec load_up :: "pdu_ptr \<Rightarrow> int \<Rightarrow> nat \<Rightarrow> 'a::len word" where
  "load_up p base 0 = 0"
| "load_up p base (Suc i) = push_bit 8 (load_up p base i) OR ucast (p (base + int i))"

primrec load_down :: "pdu_ptr \<Rightarrow> int \<Rightarrow> nat \<Rightarrow> 'a::len word \<Rightarrow> 'a word" where
  "load_down p base 0 pduData = pduData"
| "load_down p base (Suc i) pduData = load_down p base i (push_bit 8 pduData OR ucast (p (base + int i)))"

text \<open>Storing with descending and with ascending index.\<close>

primrec store_down :: "pdu_ptr \<Rightarrow> int \<Rightarrow> nat \<Rightarrow> 'a::len word \<Rightarrow> pdu_ptr" where
  "store_down p base 0 v = p"
| "store_down p base (Suc i) v = store_down (p(base + int i := ucast v)) base i (drop_bit 8 v)"

primrec store_up :: "pdu_ptr \<Rightarrow> int \<Rightarrow> nat \<Rightarrow> 'a::len word \<Rightarrow> pdu_ptr \<times> 'a word" where
  "store_up p base 0 v = (p, v)"
| "store_up p base (Suc i) v = (case store_up p base i v of (p, v) \<Rightarrow> (p(base + int i := ucast v), drop_bit 8 v))"

subsection \<open>Writing and reading integers\<close>

text \<open>The code for 32 bits and for 64 bits is the same up to the width \<open>'a\<close>.\<close>

definition sig_mask :: "uint16 \<Rightarrow> 'a::len word" where
  "sig_mask bitSize = drop_bit (LENGTH('a) - unat bitSize) (- 1)"

definition lsbIndex_big :: "uint16 \<Rightarrow> uint16 \<Rightarrow> uint32" where
  "lsbIndex_big bitPosition bitSize = ((ucast bitPosition XOR 7) + ucast bitSize - 1) XOR 7"

definition merge_lo :: "'a::len word \<Rightarrow> 'a word \<Rightarrow> nat \<Rightarrow> 'a word \<Rightarrow> 'a word" where
  "merge_lo msk sigVal bitShift pduData = (pduData AND NOT (push_bit bitShift msk)) OR push_bit bitShift sigVal"

definition merge_hi :: "'a::len word \<Rightarrow> 'a word \<Rightarrow> nat \<Rightarrow> 'a word \<Rightarrow> 'a word" where
  "merge_hi msk sigVal maxBitsWritten pduData =
     (pduData AND NOT (drop_bit maxBitsWritten msk)) OR drop_bit maxBitsWritten sigVal"

definition write_big :: "'a::len word \<Rightarrow> pdu_ptr \<Rightarrow> uint16 \<Rightarrow> uint16 \<Rightarrow> pdu_ptr \<times> bool" where
  "write_big sigVal p bitPosition bitSize =
     (let msk = sig_mask bitSize;
          sigVal = sigVal AND msk;
          lsbIndex = lsbIndex_big bitPosition bitSize;
          n = LENGTH('a) div 8;
          pduDataPtr = int (unat (lsbIndex div 8)) - int (n - 1);
          pduData = load_up p pduDataPtr n;
          bitShift = unat (lsbIndex mod 8);
          newPduData = merge_lo msk sigVal bitShift pduData;
          dataChanged = (newPduData \<noteq> pduData);
          p = store_down p pduDataPtr n newPduData;
          maxBitsWritten = LENGTH('a) - bitShift
      in if maxBitsWritten < unat bitSize
         then (let pduDataPtr = pduDataPtr - 1;
                   pduData = ucast (p pduDataPtr);
                   newPduData = merge_hi msk sigVal maxBitsWritten pduData
               in (p(pduDataPtr := ucast newPduData), dataChanged \<or> newPduData \<noteq> pduData))
         else (p, dataChanged))"

definition write_little :: "'a::len word \<Rightarrow> pdu_ptr \<Rightarrow> uint16 \<Rightarrow> uint16 \<Rightarrow> pdu_ptr \<times> bool" where
  "write_little sigVal p bitPosition bitSize =
     (let msk = sig_mask bitSize;
          sigVal = sigVal AND msk;
          lsbIndex = (ucast bitPosition :: uint32);
          n = LENGTH('a) div 8;
          pduDataPtr = int (unat (lsbIndex div 8));
          pduData = load_down p pduDataPtr n 0;
          bitShift = unat (lsbIndex mod 8);
          newPduData = merge_lo msk sigVal bitShift pduData;
          dataChanged = (newPduData \<noteq> pduData);
          p = fst (store_up p pduDataPtr n newPduData);
          maxBitsWritten = LENGTH('a) - bitShift
      in if maxBitsWritten < unat bitSize
         then (let pduDataPtr = pduDataPtr + int n;
                   pduData = ucast (p pduDataPtr);
                   newPduData = merge_hi msk sigVal maxBitsWritten pduData
               in (p(pduDataPtr := ucast newPduData), dataChanged \<or> newPduData \<noteq> pduData))
         else (p, dataChanged))"

definition read_big :: "pdu_ptr \<Rightarrow> uint16 \<Rightarrow> uint16 \<Rightarrow> 'a::len word" where
  "read_big p bitPosition bitSize =
     (let lsbIndex = lsbIndex_big bitPosition bitSize;
          n = LENGTH('a) div 8;
          pduDataPtr = int (unat (lsbIndex div 8)) - int (n - 1);
          bitShift = unat (lsbIndex mod 8);
          pduData = drop_bit bitShift (load_up p pduDataPtr n)
      in if LENGTH('a) - bitShift < unat bitSize
         then pduData OR push_bit (LENGTH('a) - bitShift) (ucast (p (pduDataPtr - 1))) else pduData)"

definition read_little :: "pdu_ptr \<Rightarrow> uint16 \<Rightarrow> uint16 \<Rightarrow> 'a::len word" where
  "read_little p bitPosition bitSize =
     (let lsbIndex = (ucast bitPosition :: uint32);
          n = LENGTH('a) div 8;
          pduDataPtr = int (unat (lsbIndex div 8));
          bitShift = unat (lsbIndex mod 8);
          pduData = drop_bit bitShift (load_down p pduDataPtr n 0)
      in if LENGTH('a) - bitShift < unat bitSize
         then pduData OR push_bit (LENGTH('a) - bitShift) (ucast (p (pduDataPtr + int n))) else pduData)"

text \<open>The sign bits of a signed signal.\<close>

definition sign_bits :: "uint16 \<Rightarrow> 'a::len word \<Rightarrow> 'a word" where
  "sign_bits bitSize pduData =
     (let signmask = NOT (drop_bit 1 (sig_mask bitSize))
      in if pduData AND signmask \<noteq> 0 then pduData OR signmask else pduData)"

subsection \<open>The operations\<close>

definition Com_Misc_ReadSignalDataFromPdu64Bits :: "pdu_ptr \<Rightarrow> uint16 \<Rightarrow> uint16 \<Rightarrow> ComSignalEndianess_type
    \<Rightarrow> Com_SignalType \<Rightarrow> Com_Data option" where
  "Com_Misc_ReadSignalDataFromPdu64Bits comIPduDataPtr bitPosition bitSize endian signalType =
     (if bitSize = 0 \<or> bitSize > 64 then None
      else
        (case (case endian of
                 COM_BIG_ENDIAN \<Rightarrow> Some (read_big comIPduDataPtr bitPosition bitSize)
               | COM_LITTLE_ENDIAN \<Rightarrow> Some (read_little comIPduDataPtr bitPosition bitSize)
               | COM_OPAQUE \<Rightarrow> None) of
           None \<Rightarrow> None
         | Some pduData \<Rightarrow>
             (let pduData = pduData AND sig_mask bitSize
              in (case signalType of
                    COM_SINT64 \<Rightarrow> Some (Data64 (sign_bits bitSize pduData))
                  | COM_UINT64 \<Rightarrow> Some (Data64 pduData)
                  | _ \<Rightarrow> None))))"

definition Com_Misc_ReadSignalDataFromPdu :: "pdu_ptr \<Rightarrow> uint16 \<Rightarrow> uint16 \<Rightarrow> ComSignalEndianess_type
    \<Rightarrow> Com_SignalType \<Rightarrow> Com_Data option" where
  "Com_Misc_ReadSignalDataFromPdu comIPduDataPtr bitPosition bitSize endian signalType =
     (if endian = COM_OPAQUE \<or> signalType = COM_UINT8_N
      then Some (DataN (map (\<lambda>i. comIPduDataPtr (int (unat bitPosition div 8) + int i)) [0..<unat bitSize div 8]))
      else if signalType \<noteq> COM_UINT64 \<and> signalType \<noteq> COM_SINT64
      then
        (if bitSize = 0 \<or> bitSize > 32 then None
         else
           (let pduData = (if endian = COM_BIG_ENDIAN then read_big comIPduDataPtr bitPosition bitSize
                           else read_little comIPduDataPtr bitPosition bitSize) AND sig_mask bitSize :: uint32
            in (case signalType of
                  COM_SINT8 \<Rightarrow> Some (Data8 (ucast (sign_bits bitSize pduData)))
                | COM_BOOLEAN \<Rightarrow> Some (Data8 (ucast pduData))
                | COM_UINT8 \<Rightarrow> Some (Data8 (ucast pduData))
                | COM_SINT16 \<Rightarrow> Some (Data16 (ucast (sign_bits bitSize pduData)))
                | COM_UINT16 \<Rightarrow> Some (Data16 (ucast pduData))
                | COM_SINT32 \<Rightarrow> Some (Data32 (sign_bits bitSize pduData))
                | COM_UINT32 \<Rightarrow> Some (Data32 pduData)
                | _ \<Rightarrow> None)))
      else Com_Misc_ReadSignalDataFromPdu64Bits comIPduDataPtr bitPosition bitSize endian signalType)"

definition Com_Misc_WriteSignalDataToPdu64Bits :: "Com_Data \<Rightarrow> Com_SignalType \<Rightarrow> pdu_ptr \<Rightarrow> uint16 \<Rightarrow> uint16
    \<Rightarrow> ComSignalEndianess_type \<Rightarrow> (pdu_ptr \<times> bool) option" where
  "Com_Misc_WriteSignalDataToPdu64Bits SignalDataPtr signalType comIPduDataPtr bitPosition bitSize endian =
     (if signalType \<noteq> COM_UINT64 \<and> signalType \<noteq> COM_SINT64 then None
      else if bitSize = 0 \<or> bitSize > 64 then None
      else
        (case SignalDataPtr of
           Data64 sigVal \<Rightarrow>
             (case endian of
                COM_BIG_ENDIAN \<Rightarrow> Some (write_big sigVal comIPduDataPtr bitPosition bitSize)
              | COM_LITTLE_ENDIAN \<Rightarrow> Some (write_little sigVal comIPduDataPtr bitPosition bitSize)
              | COM_OPAQUE \<Rightarrow> None)
         | _ \<Rightarrow> None))"

text \<open>The value of a variable as the code reads it for a type of at most 32 bits.\<close>

definition sig_value :: "Com_SignalType \<Rightarrow> Com_Data \<Rightarrow> uint32 option" where
  "sig_value signalType d =
     (case d of
        Data8 v \<Rightarrow> if signalType \<in> {COM_BOOLEAN, COM_UINT8, COM_SINT8} then Some (ucast v) else None
      | Data16 v \<Rightarrow> if signalType \<in> {COM_UINT16, COM_SINT16} then Some (ucast v) else None
      | Data32 v \<Rightarrow> if signalType \<in> {COM_UINT32, COM_SINT32} then Some v else None
      | _ \<Rightarrow> None)"

definition write_bytes :: "pdu_ptr \<Rightarrow> int \<Rightarrow> uint8 list \<Rightarrow> pdu_ptr" where
  "write_bytes p base bs = (\<lambda>c. if base \<le> c \<and> c < base + int (length bs) then bs ! nat (c - base) else p c)"

definition Com_Misc_WriteSignalDataToPdu :: "Com_Data \<Rightarrow> Com_SignalType \<Rightarrow> pdu_ptr \<Rightarrow> uint16 \<Rightarrow> uint16
    \<Rightarrow> ComSignalEndianess_type \<Rightarrow> (pdu_ptr \<times> bool) option" where
  "Com_Misc_WriteSignalDataToPdu SignalDataPtr signalType comIPduDataPtr bitPosition bitSize endian =
     (if endian = COM_OPAQUE \<or> signalType = COM_UINT8_N
      then
        (case SignalDataPtr of
           DataN bs \<Rightarrow>
             (let base = int (unat bitPosition div 8); signalLength = unat bitSize div 8; bs = take signalLength bs
              in if length bs < signalLength then None
                 else Some (write_bytes comIPduDataPtr base bs,
                            map (\<lambda>i. comIPduDataPtr (base + int i)) [0..<signalLength] \<noteq> bs))
         | _ \<Rightarrow> None)
      else if signalType \<noteq> COM_UINT64 \<and> signalType \<noteq> COM_SINT64
      then
        (case sig_value signalType SignalDataPtr of
           None \<Rightarrow> None
         | Some sigVal \<Rightarrow>
             if bitSize = 0 \<or> bitSize > 32 then None
             else if endian = COM_BIG_ENDIAN then Some (write_big sigVal comIPduDataPtr bitPosition bitSize)
             else Some (write_little sigVal comIPduDataPtr bitPosition bitSize))
      else Com_Misc_WriteSignalDataToPdu64Bits SignalDataPtr signalType comIPduDataPtr bitPosition bitSize endian)"

end
