(* ===== verification/Com_Signal_Props.thy ===== *)
theory Com_Signal_Props
  imports Com_Signal
begin

unbundle bit_operations_syntax

text \<open>
  Signals in PDUs bit by bit: where a signal lies, that writing it changes these bits and no others,
  that reading gives back what was written, and that signals at different places do not disturb
  each other.
\<close>

subsection \<open>Words\<close>

lemma bit_sig_mask:
  "unat n \<le> LENGTH('a) \<Longrightarrow> bit (sig_mask n :: 'a::len word) i \<longleftrightarrow> i < unat n"
  by (auto simp: sig_mask_def bit_mask_iff)

lemma bit_merge_lo:
  fixes v d :: "'a::len word"
  assumes "unat n \<le> LENGTH('a)" and "i < LENGTH('a)"
  shows "bit (merge_lo (sig_mask n) (v AND sig_mask n) s d) i = (if s \<le> i \<and> i < s + unat n then bit v (i - s) else bit d i)"
  using assms by (auto simp: merge_lo_def bit_simps bit_sig_mask)

lemma bit_merge_hi:
  fixes v d :: "'a::len word"
  assumes "unat n \<le> LENGTH('a)" and "i < LENGTH('a)"
  shows "bit (merge_hi (sig_mask n) (v AND sig_mask n) m d) i = (if i + m < unat n then bit v (i + m) else bit d i)"
  using assms by (auto simp: merge_hi_def bit_simps bit_sig_mask add.commute)

lemma bit_uint8_range: "\<not> 8 > k \<Longrightarrow> \<not> bit (b :: uint8) k"
  using bit_imp_le_length [of b k] by auto

subsection \<open>Loads and stores\<close>

lemma div8_step: "8 \<le> j \<Longrightarrow> (j - 8) div 8 = j div 8 - 1" "8 \<le> j \<Longrightarrow> (j - 8) mod 8 = j mod 8" for j :: nat
  by (simp_all add: le_div_geq le_mod_geq)

lemma bit_load_up:
  "bit (load_up p base k :: 'a::len word) j \<longleftrightarrow>
     j < LENGTH('a) \<and> j < 8 * k \<and> bit (p (base + int k - 1 - int (j div 8))) (j mod 8)"
proof (induction k arbitrary: j)
  case (Suc k)
  show ?case
  proof (cases "j < 8")
    case True
    then show ?thesis by (auto simp: bit_simps bit_ucast_iff)
  next
    case False
    then have "1 \<le> j div 8" by (simp add: div_greater_zero_iff)
    then have "int ((j - 8) div 8) = int (j div 8) - 1" using False div8_step(1) [of j] by (simp add: of_nat_diff)
    then have pos: "base + int k - 1 - int ((j - 8) div 8) = base + int (Suc k) - 1 - int (j div 8)" by simp
    have "bit (load_up p base (Suc k) :: 'a word) j \<longleftrightarrow> j < LENGTH('a) \<and> bit (load_up p base k :: 'a word) (j - 8)"
      using False by (auto simp: bit_simps bit_ucast_iff bit_uint8_range)
    also have "\<dots> \<longleftrightarrow> j < LENGTH('a) \<and> j < 8 * Suc k \<and> bit (p (base + int (Suc k) - 1 - int (j div 8))) (j mod 8)"
      unfolding Suc.IH pos using False div8_step(2) [of j] by auto
    finally show ?thesis .
  qed
qed simp

lemma bit_load_down:
  "bit (load_down p base k acc :: 'a::len word) j \<longleftrightarrow>
     j < LENGTH('a) \<and> (if j < 8 * k then bit (p (base + int (j div 8))) (j mod 8) else bit acc (j - 8 * k))"
proof (induction k arbitrary: acc)
  case 0
  then show ?case by (auto dest: bit_imp_le_length)
next
  case (Suc k)
  show ?case
  proof (cases "j < 8 * k")
    case True
    then show ?thesis by (simp add: Suc.IH)
  next
    case False
    show ?thesis
    proof (cases "j - 8 * k < 8")
      case True
      define r where "r = j - 8 * k"
      have "j = 8 * k + r" "r < 8" using True False by (simp_all add: r_def)
      then have "j div 8 = k" "j mod 8 = j - 8 * k" by simp_all
      with True False show ?thesis by (auto simp: Suc.IH bit_simps bit_ucast_iff intro: less_imp_diff_less)
    next
      case no: False
      then have "j - 8 * k - 8 = j - 8 * Suc k" by simp
      with no False show ?thesis by (auto simp: Suc.IH bit_simps bit_ucast_iff bit_uint8_range)
    qed
  qed
qed

lemma store_down_eq:
  "store_down p base k v c
     = (if base \<le> c \<and> c < base + int k then ucast (drop_bit (8 * nat (base + int k - 1 - c)) v) else p c)"
proof (induction k arbitrary: p v)
  case (Suc k)
  have "8 * nat (base + int (Suc k) - 1 - c) = 8 * nat (base + int k - 1 - c) + 8" if "c < base + int k"
    using that by (simp add: nat_diff_distrib')
  then show ?case by (auto simp: Suc.IH)
qed auto

lemma store_up_eq:
  "store_up p base k v
     = (\<lambda>c. if base \<le> c \<and> c < base + int k then ucast (drop_bit (8 * nat (c - base)) v) else p c, drop_bit (8 * k) v)"
  by (induction k) (auto simp: fun_eq_iff add.commute)

subsection \<open>The bits of a signal\<close>

text \<open>
  Bit \<open>j\<close> of the buffer seen from byte \<open>q\<close>, with rising (\<open>dir = 1\<close>) or falling (\<open>dir = - 1\<close>)
  addresses.
\<close>

definition sbit :: "pdu_ptr \<Rightarrow> int \<Rightarrow> int \<Rightarrow> nat \<Rightarrow> bool" where
  "sbit p dir q j = bit (p (q + dir * int (j div 8))) (j mod 8)"

definition span :: "int \<Rightarrow> int \<Rightarrow> nat \<Rightarrow> nat \<Rightarrow> (int \<times> nat) set" where
  "span dir q s n = (\<lambda>j. (q + dir * int (j div 8), j mod 8)) ` {s..<s + n}"

lemma sbit_byte: "k < 8 \<Longrightarrow> bit (p (q + dir * int m)) k = sbit p dir q (8 * m + k)"
  by (simp add: sbit_def)

text \<open>What the two writing routines have in common.\<close>

lemma write_bits:
  fixes v d :: "'a::len word"
  assumes dir: "dir = 1 \<or> dir = - 1" and L: "LENGTH('a) = 8 * n" "0 < n" and s: "s < 8" and sz: "unat sz \<le> 8 * n"
    and old: "\<And>j. j < 8 * n \<Longrightarrow> bit d j = sbit p dir q j"
    and new: "new = merge_lo (sig_mask sz) (v AND sig_mask sz) s d"
    and stored: "\<And>j. j < 8 * n \<Longrightarrow> sbit p1 dir q j = bit new j"
    and kept: "\<And>c. (\<And>m. m < n \<Longrightarrow> c \<noteq> q + dir * int m) \<Longrightarrow> p1 c = p c"
    and hi: "hi = merge_hi (sig_mask sz) (v AND sig_mask sz) (8 * n - s) (ucast (p1 (q + dir * int n)))"
    and p2: "p2 = (if 8 * n - s < unat sz then p1(q + dir * int n := ucast hi) else p1)"
  shows "\<And>i. i < unat sz \<Longrightarrow> sbit p2 dir q (s + i) = bit v i"
    and "\<And>c k. k < 8 \<Longrightarrow> (c, k) \<notin> span dir q s (unat sz) \<Longrightarrow> bit (p2 c) k = bit (p c) k"
    and "(new \<noteq> d \<or> 8 * n - s < unat sz \<and> hi \<noteq> ucast (p1 (q + dir * int n))) \<longleftrightarrow> p2 \<noteq> p"
proof -
  have inj: "q + dir * int a = q + dir * int b \<longleftrightarrow> a = b" for a b using dir by auto
  have top: "p1 (q + dir * int n) = p (q + dir * int n)" by (rule kept) (use dir in auto)
  have lo: "sbit p2 dir q j = (if s \<le> j \<and> j < s + unat sz then bit v (j - s) else sbit p dir q j)" if "j < 8 * n" for j
  proof -
    have "j div 8 < n" using that by simp
    then have "sbit p2 dir q j = sbit p1 dir q j" using dir by (auto simp: p2 sbit_def)
    also have "\<dots> = (if s \<le> j \<and> j < s + unat sz then bit v (j - s) else bit d j)"
      using stored [OF that] that L sz by (simp add: new bit_merge_lo)
    finally show ?thesis using old [OF that] by simp
  qed
  have up: "sbit p2 dir q (8 * n + k) = (if 8 * n + k < s + unat sz then bit v (8 * n + k - s) else sbit p dir q (8 * n + k))"
    if "k < 8" for k
  proof (cases "8 * n - s < unat sz")
    case True
    have "sbit p2 dir q (8 * n + k) = bit (ucast hi :: uint8) k" using that True by (simp add: sbit_def p2)
    also have "\<dots> = bit hi k" using that by (simp add: bit_ucast_iff)
    also have "\<dots> = (if k + (8 * n - s) < unat sz then bit v (k + (8 * n - s)) else bit (p (q + dir * int n)) k)"
      using that L sz by (simp add: hi bit_merge_hi top bit_ucast_iff)
    finally show ?thesis using that s L(2) by (auto simp: sbit_def add.commute)
  next
    case False
    then have "\<not> 8 * n + k < s + unat sz" using s L(2) by linarith
    then show ?thesis using that False by (simp add: sbit_def p2 top)
  qed
  have all: "sbit p2 dir q j = (if s \<le> j \<and> j < s + unat sz then bit v (j - s) else sbit p dir q j)" if "j < 8 * n + 8" for j
  proof (cases "j < 8 * n")
    case False
    define k where "k = j - 8 * n"
    have "j = 8 * n + k" "k < 8" using False that by (simp_all add: k_def)
    then show ?thesis using up [of k] s L(2) by auto
  qed (rule lo)
  show "sbit p2 dir q (s + i) = bit v i" if "i < unat sz" for i
    using all [of "s + i"] that s sz by simp
  have same: "p2 c = p c" if "\<And>m. m \<le> n \<Longrightarrow> c \<noteq> q + dir * int m" for c
    using kept [of c] that [of n] that by (simp add: p2)
  show "bit (p2 c) k = bit (p c) k" if "k < 8" "(c, k) \<notin> span dir q s (unat sz)" for c k
  proof (cases "\<exists>m\<le>n. c = q + dir * int m")
    case True
    then obtain m where m: "m \<le> n" "c = q + dir * int m" by blast
    have "\<not> (s \<le> 8 * m + k \<and> 8 * m + k < s + unat sz)"
    proof
      assume "s \<le> 8 * m + k \<and> 8 * m + k < s + unat sz"
      then have "(\<lambda>j. (q + dir * int (j div 8), j mod 8)) (8 * m + k) \<in> span dir q s (unat sz)"
        unfolding span_def by (intro imageI) simp
      with that m(2) show False by simp
    qed
    moreover have "8 * m + k < 8 * n + 8" using m(1) that(1) by linarith
    ultimately show ?thesis using all [of "8 * m + k"] that(1) by (auto simp: m(2) sbit_byte)
  next
    case False
    then show ?thesis using same [of c] by auto
  qed
  have hi_bits: "hi = ucast (p1 (q + dir * int n)) \<longleftrightarrow> (ucast hi :: uint8) = p1 (q + dir * int n)"
    if "8 * n - s < unat sz"
  proof
    assume eq: "(ucast hi :: uint8) = p1 (q + dir * int n)"
    show "hi = ucast (p1 (q + dir * int n))"
    proof (rule bit_word_eqI)
      fix k assume k: "k < LENGTH('a)"
      show "bit hi k = bit (ucast (p1 (q + dir * int n)) :: 'a word) k"
      proof (cases "k < 8")
        case True
        then have "bit (ucast hi :: uint8) k = bit (p1 (q + dir * int n)) k" by (simp only: eq)
        with True k show ?thesis by (simp add: bit_ucast_iff)
      next
        case False
        then have "\<not> k + (8 * n - s) < unat sz" using s sz L(2) by linarith
        then show ?thesis using k L sz by (simp add: hi bit_merge_hi)
      qed
    qed
  next
    assume "hi = ucast (p1 (q + dir * int n))"
    then show "(ucast hi :: uint8) = p1 (q + dir * int n)"
      using L by (intro bit_word_eqI) (simp add: bit_ucast_iff)
  qed
  show "(new \<noteq> d \<or> 8 * n - s < unat sz \<and> hi \<noteq> ucast (p1 (q + dir * int n))) \<longleftrightarrow> p2 \<noteq> p"
  proof -
    have "new = d \<longleftrightarrow> (\<forall>j<8 * n. sbit p1 dir q j = sbit p dir q j)"
      unfolding bit_eq_iff using stored old L by (auto dest: bit_imp_le_length)
    also have "\<dots> \<longleftrightarrow> p1 = p"
    proof
      assume eq: "\<forall>j<8 * n. sbit p1 dir q j = sbit p dir q j"
      show "p1 = p"
      proof
        fix c
        show "p1 c = p c"
        proof (cases "\<exists>m<n. c = q + dir * int m")
          case True
          then obtain m where m: "m < n" "c = q + dir * int m" by blast
          show ?thesis
          proof (rule bit_word_eqI)
            fix k assume "k < LENGTH(8)"
            then show "bit (p1 c) k = bit (p c) k" using eq m by (simp add: sbit_byte)
          qed
        next
          case False
          then show ?thesis using kept [of c] by auto
        qed
      qed
    qed simp
    finally have lo_same: "new = d \<longleftrightarrow> p1 = p" .
    show ?thesis
      using hi_bits lo_same top by (auto simp: p2 fun_upd_idem_iff)
  qed
qed

text \<open>And what the two reading routines have in common.\<close>

lemma read_bits:
  fixes d r :: "'a::len word"
  assumes L: "LENGTH('a) = 8 * n" "0 < n" and s: "s < 8" and sz: "unat sz \<le> 8 * n"
    and old: "\<And>j. j < 8 * n \<Longrightarrow> bit d j = sbit p dir q j"
    and r: "r = (if 8 * n - s < unat sz then drop_bit s d OR push_bit (8 * n - s) (ucast (p (q + dir * int n))) else drop_bit s d)"
  shows "bit (r AND sig_mask sz) i \<longleftrightarrow> i < unat sz \<and> sbit p dir q (s + i)"
proof (cases "i < unat sz")
  case True
  have "bit r i = sbit p dir q (s + i)"
  proof (cases "s + i < 8 * n")
    case inside: True
    then have "\<not> 8 * n - s \<le> i" by simp
    then have "\<not> bit (push_bit (8 * n - s) (ucast (p (q + dir * int n))) :: 'a word) i"
      by (simp add: bit_push_bit_iff)
    then have "bit r i = bit d (s + i)" by (simp add: r bit_or_iff bit_drop_bit_eq)
    then show ?thesis using old [OF inside] by simp
  next
    case False
    define k where "k = s + i - 8 * n"
    have k: "s + i = 8 * n + k" "k < 8" using False True s sz by (simp_all add: k_def)
    have "\<not> bit d (s + i)" using False L(1) bit_imp_le_length [of d "s + i"] by auto
    moreover have "8 * n - s < unat sz" "8 * n - s \<le> i" "i - (8 * n - s) = k" "i < LENGTH('a)" "k < LENGTH('a)"
      unfolding k_def L(1) using True False s L(2) sz by linarith+
    ultimately have "bit r i = bit (p (q + dir * int n)) k"
      by (simp add: r bit_or_iff bit_drop_bit_eq bit_push_bit_iff bit_ucast_iff)
    then show ?thesis unfolding k(1) using k(2) by (simp add: sbit_byte)
  qed
  with True sz L(1) show ?thesis by (simp add: bit_and_iff bit_sig_mask)
next
  case False
  with sz L(1) show ?thesis by (simp add: bit_and_iff bit_sig_mask)
qed

subsection \<open>Both byte orders\<close>

lemma lsb_parts: "unat (lsb div 8) = unat lsb div 8" "unat (lsb mod 8) = unat lsb mod 8" for lsb :: uint32
  by (simp_all add: unat_div unat_mod)

lemma load_up_sbit:
  "LENGTH('a) = 8 * n \<Longrightarrow> j < 8 * n \<Longrightarrow> bit (load_up p (q - int (n - 1)) n :: 'a::len word) j = sbit p (- 1) q j"
  by (simp add: bit_load_up sbit_def)

lemma load_down_sbit:
  "LENGTH('a) = 8 * n \<Longrightarrow> j < 8 * n \<Longrightarrow> bit (load_down p q n 0 :: 'a::len word) j = sbit p 1 q j"
  by (simp add: bit_load_down sbit_def)

lemma store_down_sbit:
  fixes v :: "'a::len word"
  assumes "0 < n"
  shows "LENGTH('a) = 8 * n \<Longrightarrow> j < 8 * n \<Longrightarrow> sbit (store_down p (q - int (n - 1)) n v) (- 1) q j = bit v j"
    and "(\<And>m. m < n \<Longrightarrow> c \<noteq> q + - 1 * int m) \<Longrightarrow> store_down p (q - int (n - 1)) n v c = p c"
proof -
  have e: "q - int (n - 1) + int n - 1 = q" using assms by simp
  show "sbit (store_down p (q - int (n - 1)) n v) (- 1) q j = bit v j" if "LENGTH('a) = 8 * n" "j < 8 * n"
  proof -
    have "j div 8 < n" using that(2) by simp
    then have "store_down p (q - int (n - 1)) n v (q + - 1 * int (j div 8)) = ucast (drop_bit (8 * (j div 8)) v)"
      unfolding store_down_eq e by simp
    then show ?thesis using that by (simp add: sbit_def bit_ucast_iff bit_drop_bit_eq)
  qed
  show "store_down p (q - int (n - 1)) n v c = p c" if "\<And>m. m < n \<Longrightarrow> c \<noteq> q + - 1 * int m"
  proof -
    have "\<not> (q - int (n - 1) \<le> c \<and> c < q - int (n - 1) + int n)"
      using that [of "nat (q - c)"] assms by (auto simp: nat_less_iff of_nat_diff)
    then show ?thesis unfolding store_down_eq by auto
  qed
qed

lemma store_up_sbit:
  fixes v :: "'a::len word"
  shows "LENGTH('a) = 8 * n \<Longrightarrow> j < 8 * n \<Longrightarrow> sbit (fst (store_up p q n v)) 1 q j = bit v j"
    and "(\<And>m. m < n \<Longrightarrow> c \<noteq> q + 1 * int m) \<Longrightarrow> fst (store_up p q n v) c = p c"
proof -
  show "sbit (fst (store_up p q n v)) 1 q j = bit v j" if "LENGTH('a) = 8 * n" "j < 8 * n"
  proof -
    have "j div 8 < n" using that(2) by simp
    then show ?thesis using that by (simp add: store_up_eq sbit_def bit_ucast_iff bit_drop_bit_eq)
  qed
  show "fst (store_up p q n v) c = p c" if "\<And>m. m < n \<Longrightarrow> c \<noteq> q + 1 * int m"
  proof -
    have "\<not> (q \<le> c \<and> c < q + int n)"
      using that [of "nat (c - q)"] by (auto simp: nat_less_iff)
    then show ?thesis unfolding store_up_eq by auto
  qed
qed

lemma mod8_less: "unat (lsb mod 8 :: uint32) < 8"
  by (simp add: lsb_parts)

lemma write_big_bits:
  fixes v :: "'a::len word"
  assumes L: "LENGTH('a) = 8 * n" "0 < n" and sz: "unat sz \<le> 8 * n" and w: "write_big v p pos sz = (p2, chg)"
  defines "lsb \<equiv> lsbIndex_big pos sz"
  shows "\<And>i. i < unat sz \<Longrightarrow> sbit p2 (- 1) (int (unat (lsb div 8))) (unat (lsb mod 8) + i) = bit v i"
    and "\<And>c k. k < 8 \<Longrightarrow> (c, k) \<notin> span (- 1) (int (unat (lsb div 8))) (unat (lsb mod 8)) (unat sz)
           \<Longrightarrow> bit (p2 c) k = bit (p c) k"
    and "chg \<longleftrightarrow> p2 \<noteq> p"
proof -
  define q where "q = int (unat (lsb div 8))"
  define s where "s = unat (lsb mod 8)"
  define d where "d = (load_up p (q - int (n - 1)) n :: 'a word)"
  define new where "new = merge_lo (sig_mask sz) (v AND sig_mask sz) s d"
  define p1 where "p1 = store_down p (q - int (n - 1)) n new"
  define hi where "hi = merge_hi (sig_mask sz) (v AND sig_mask sz) (8 * n - s) (ucast (p1 (q + - 1 * int n)) :: 'a word)"
  have n: "8 * n div 8 = n" by simp
  have e: "q - int (n - 1) - 1 = q + - 1 * int n" using L(2) by simp
  have "write_big v p pos sz = ((if 8 * n - s < unat sz then p1(q + - 1 * int n := ucast hi) else p1),
      new \<noteq> d \<or> 8 * n - s < unat sz \<and> hi \<noteq> ucast (p1 (q + - 1 * int n)))"
    unfolding write_big_def Let_def L(1) n lsb_def [symmetric] q_def [symmetric] s_def [symmetric]
      e d_def [symmetric] new_def [symmetric] p1_def [symmetric] hi_def [symmetric] by auto
  with w have p2: "p2 = (if 8 * n - s < unat sz then p1(q + - 1 * int n := ucast hi) else p1)"
    and chg: "chg \<longleftrightarrow> new \<noteq> d \<or> 8 * n - s < unat sz \<and> hi \<noteq> ucast (p1 (q + - 1 * int n))" by auto
  have s8: "s < 8" unfolding s_def by (rule mod8_less)
  note B = write_bits [of "- 1" n s sz d p q new v p1 hi p2, OF _ L s8 sz _ new_def _ _ hi_def p2]
  have old: "\<And>j. j < 8 * n \<Longrightarrow> bit d j = sbit p (- 1) q j" unfolding d_def by (rule load_up_sbit [OF L(1)])
  have st: "\<And>j. j < 8 * n \<Longrightarrow> sbit p1 (- 1) q j = bit new j" unfolding p1_def by (rule store_down_sbit(1) [OF L(2) L(1)])
  have kp: "\<And>c. (\<And>m. m < n \<Longrightarrow> c \<noteq> q + - 1 * int m) \<Longrightarrow> p1 c = p c"
    unfolding p1_def by (rule store_down_sbit(2) [OF L(2)]) blast
  show "\<And>i. i < unat sz \<Longrightarrow> sbit p2 (- 1) (int (unat (lsb div 8))) (unat (lsb mod 8) + i) = bit v i"
    using B(1) [OF _ old st kp] unfolding q_def s_def by blast
  show "\<And>c k. k < 8 \<Longrightarrow> (c, k) \<notin> span (- 1) (int (unat (lsb div 8))) (unat (lsb mod 8)) (unat sz)
           \<Longrightarrow> bit (p2 c) k = bit (p c) k"
    using B(2) [OF _ old st kp] unfolding q_def s_def by blast
  show "chg \<longleftrightarrow> p2 \<noteq> p" using B(3) [OF _ old st kp] chg by blast
qed

lemma write_little_bits:
  fixes v :: "'a::len word"
  assumes L: "LENGTH('a) = 8 * n" "0 < n" and sz: "unat sz \<le> 8 * n" and w: "write_little v p pos sz = (p2, chg)"
  defines "lsb \<equiv> (ucast pos :: uint32)"
  shows "\<And>i. i < unat sz \<Longrightarrow> sbit p2 1 (int (unat (lsb div 8))) (unat (lsb mod 8) + i) = bit v i"
    and "\<And>c k. k < 8 \<Longrightarrow> (c, k) \<notin> span 1 (int (unat (lsb div 8))) (unat (lsb mod 8)) (unat sz)
           \<Longrightarrow> bit (p2 c) k = bit (p c) k"
    and "chg \<longleftrightarrow> p2 \<noteq> p"
proof -
  define q where "q = int (unat (lsb div 8))"
  define s where "s = unat (lsb mod 8)"
  define d where "d = (load_down p q n 0 :: 'a word)"
  define new where "new = merge_lo (sig_mask sz) (v AND sig_mask sz) s d"
  define p1 where "p1 = fst (store_up p q n new)"
  define hi where "hi = merge_hi (sig_mask sz) (v AND sig_mask sz) (8 * n - s) (ucast (p1 (q + 1 * int n)) :: 'a word)"
  have n: "LENGTH('a) div 8 = n" using L(1) by simp
  have "write_little v p pos sz = ((if 8 * n - s < unat sz then p1(q + 1 * int n := ucast hi) else p1),
      new \<noteq> d \<or> 8 * n - s < unat sz \<and> hi \<noteq> ucast (p1 (q + 1 * int n)))"
    unfolding write_little_def Let_def n L(1) hi_def p1_def new_def d_def s_def q_def lsb_def by auto
  with w have p2: "p2 = (if 8 * n - s < unat sz then p1(q + 1 * int n := ucast hi) else p1)"
    and chg: "chg \<longleftrightarrow> new \<noteq> d \<or> 8 * n - s < unat sz \<and> hi \<noteq> ucast (p1 (q + 1 * int n))" by auto
  have s8: "s < 8" unfolding s_def by (rule mod8_less)
  note B = write_bits [of 1 n s sz d p q new v p1 hi p2, OF _ L s8 sz _ new_def _ _ hi_def p2]
  have old: "\<And>j. j < 8 * n \<Longrightarrow> bit d j = sbit p 1 q j" unfolding d_def by (rule load_down_sbit [OF L(1)])
  have st: "\<And>j. j < 8 * n \<Longrightarrow> sbit p1 1 q j = bit new j" unfolding p1_def by (rule store_up_sbit(1) [OF L(1)])
  have kp: "\<And>c. (\<And>m. m < n \<Longrightarrow> c \<noteq> q + 1 * int m) \<Longrightarrow> p1 c = p c"
    unfolding p1_def by (rule store_up_sbit(2)) blast
  show "\<And>i. i < unat sz \<Longrightarrow> sbit p2 1 (int (unat (lsb div 8))) (unat (lsb mod 8) + i) = bit v i"
    using B(1) [OF _ old st kp] unfolding q_def s_def by blast
  show "\<And>c k. k < 8 \<Longrightarrow> (c, k) \<notin> span 1 (int (unat (lsb div 8))) (unat (lsb mod 8)) (unat sz)
           \<Longrightarrow> bit (p2 c) k = bit (p c) k"
    using B(2) [OF _ old st kp] unfolding q_def s_def by blast
  show "chg \<longleftrightarrow> p2 \<noteq> p" using B(3) [OF _ old st kp] chg by blast
qed

lemma read_big_bits:
  fixes pos :: uint16
  assumes L: "LENGTH('a) = 8 * n" "0 < n" and sz: "unat sz \<le> 8 * n"
  defines "lsb \<equiv> lsbIndex_big pos sz"
  shows "bit ((read_big p pos sz :: 'a::len word) AND sig_mask sz) i
    \<longleftrightarrow> i < unat sz \<and> sbit p (- 1) (int (unat (lsb div 8))) (unat (lsb mod 8) + i)"
proof -
  define q where "q = int (unat (lsb div 8))"
  have n: "8 * n div 8 = n" by simp
  have e: "q - int (n - 1) - 1 = q + - 1 * int n" using L(2) by simp
  show ?thesis unfolding read_big_def Let_def L(1) n lsb_def [symmetric] q_def [symmetric] e
    by (rule read_bits [OF L mod8_less sz load_up_sbit [OF L(1)] refl])
qed

lemma read_little_bits:
  fixes pos :: uint16
  assumes L: "LENGTH('a) = 8 * n" "0 < n" and sz: "unat sz \<le> 8 * n"
  defines "lsb \<equiv> (ucast pos :: uint32)"
  shows "bit ((read_little p pos sz :: 'a::len word) AND sig_mask sz) i
    \<longleftrightarrow> i < unat sz \<and> sbit p 1 (int (unat (lsb div 8))) (unat (lsb mod 8) + i)"
proof -
  define q where "q = int (unat (lsb div 8))"
  have n: "8 * n div 8 = n" by simp
  have e: "q + int n = q + 1 * int n" by simp
  show ?thesis unfolding read_little_def Let_def L(1) n lsb_def [symmetric] q_def [symmetric] e
    by (rule read_bits [OF L mod8_less sz load_down_sbit [OF L(1)] refl])
qed

section \<open>Signals in a shared buffer\<close>

text \<open>What users of a signal buffer rely on: a place for every bit of a signal, writing sets the bits at
  the signal's places and no other, and reading collects them.\<close>

locale signal_buffer =
  fixes ok :: "'k \<Rightarrow> bool" and width :: "'k \<Rightarrow> nat" and place :: "'k \<Rightarrow> nat \<Rightarrow> 'c"
    and look :: "'m \<Rightarrow> 'c \<Rightarrow> bool"
    and put :: "'k \<Rightarrow> 'a::len word \<Rightarrow> 'm \<Rightarrow> 'm \<times> bool" and get :: "'k \<Rightarrow> 'm \<Rightarrow> 'a word"
  assumes look_ext: "(\<And>c. look m c = look m' c) \<Longrightarrow> m = m'"
    and put_bits: "ok k \<Longrightarrow> i < width k \<Longrightarrow> look (fst (put k v m)) (place k i) = bit v i"
    and put_frame: "ok k \<Longrightarrow> c \<notin> place k ` {..<width k} \<Longrightarrow> look (fst (put k v m)) c = look m c"
    and put_flag: "ok k \<Longrightarrow> snd (put k v m) \<longleftrightarrow> fst (put k v m) \<noteq> m"
    and get_bits: "ok k \<Longrightarrow> bit (get k m) i \<longleftrightarrow> i < width k \<and> look m (place k i)"
    and width_le: "ok k \<Longrightarrow> width k \<le> LENGTH('a)"
begin

lemma get_put: "ok k \<Longrightarrow> get k (fst (put k v m)) = take_bit (width k) v"
  by (rule bit_word_eqI) (auto simp: get_bits put_bits bit_take_bit_iff)

lemma get_cong:
  assumes "ok k" "\<And>c. c \<in> place k ` {..<width k} \<Longrightarrow> look m c = look m' c"
  shows "get k m = get k m'"
  by (rule bit_word_eqI) (use assms in \<open>auto simp: get_bits\<close>)

lemma get_put_other:
  assumes "ok k" "ok k'" "place k ` {..<width k} \<inter> place k' ` {..<width k'} = {}"
  shows "get k' (fst (put k v m)) = get k' m"
  by (rule get_cong [OF assms(2)], rule put_frame [OF assms(1)]) (use assms(3) in blast)

lemma put_get:
  assumes k: "ok k" and "v = get k m"
  shows "put k v m = (m, False)"
proof -
  have "look (fst (put k v m)) c = look m c" for c
  proof (cases "c \<in> place k ` {..<width k}")
    case True
    then obtain i where "i < width k" "c = place k i" by auto
    with assms show ?thesis by (simp add: put_bits get_bits)
  qed (rule put_frame [OF k])
  then have "fst (put k v m) = m" by (rule look_ext)
  with put_flag [OF k, of v m] show ?thesis by (simp add: prod_eq_iff)
qed

lemma put_take:
  assumes "ok k" "\<And>i. i < width k \<Longrightarrow> bit v i = bit v' i"
  shows "fst (put k v m) = fst (put k v' m)"
proof (rule look_ext)
  show "look (fst (put k v m)) c = look (fst (put k v' m)) c" for c
    by (cases "c \<in> place k ` {..<width k}") (use assms in \<open>auto simp: put_bits put_frame\<close>)
qed

end

text \<open>The two byte orders of the model, for a signal given by its byte order, position and size.\<close>

type_synonym sig_key = "ComSignalEndianess_type \<times> uint16 \<times> uint16"

definition sig_lsb :: "sig_key \<Rightarrow> uint32" where
  "sig_lsb k = (case k of (endian, pos, sz) \<Rightarrow> if endian = COM_BIG_ENDIAN then lsbIndex_big pos sz else ucast pos)"

definition sig_place :: "sig_key \<Rightarrow> nat \<Rightarrow> int \<times> nat" where
  "sig_place k i = (int (unat (sig_lsb k div 8))
       + (if fst k = COM_BIG_ENDIAN then - 1 else 1) * int ((unat (sig_lsb k mod 8) + i) div 8),
     (unat (sig_lsb k mod 8) + i) mod 8)"

definition sig_put :: "sig_key \<Rightarrow> 'a::len word \<Rightarrow> pdu_ptr \<Rightarrow> pdu_ptr \<times> bool" where
  "sig_put k v p = (case k of (endian, pos, sz) \<Rightarrow>
     if endian = COM_BIG_ENDIAN then write_big v p pos sz else write_little v p pos sz)"

definition sig_get :: "sig_key \<Rightarrow> pdu_ptr \<Rightarrow> 'a::len word" where
  "sig_get k p = (case k of (endian, pos, sz) \<Rightarrow>
     (if endian = COM_BIG_ENDIAN then read_big p pos sz else read_little p pos sz) AND sig_mask sz)"

abbreviation sig_width :: "sig_key \<Rightarrow> nat" where
  "sig_width k \<equiv> unat (snd (snd k))"

definition pdu_look :: "pdu_ptr \<Rightarrow> int \<times> nat \<Rightarrow> bool" where
  "pdu_look p c = bit (p (fst c)) (snd c)"

lemma pdu_look_ext: "(\<And>c. pdu_look m c = pdu_look m' c) \<Longrightarrow> m = m'"
  by (auto simp: pdu_look_def fun_eq_iff intro!: bit_word_eqI)

lemma pdu_look_sbit:
  "pdu_look p (sig_place k i) = sbit p (if fst k = COM_BIG_ENDIAN then - 1 else 1)
     (int (unat (sig_lsb k div 8))) (unat (sig_lsb k mod 8) + i)"
  by (simp add: pdu_look_def sig_place_def sbit_def)

lemma span_places:
  "span (if fst k = COM_BIG_ENDIAN then - 1 else 1) (int (unat (sig_lsb k div 8))) (unat (sig_lsb k mod 8)) (sig_width k)
     = sig_place k ` {..<sig_width k}" (is "?S = ?P")
proof -
  have "{s..<s + w} = (\<lambda>i. s + i) ` {..<w}" for s w :: nat
    by (simp add: lessThan_atLeast0 add.commute)
  then show ?thesis unfolding span_def sig_place_def by (simp add: image_image)
qed

lemma sig_put_bits:
  fixes v :: "'a::len word"
  assumes L: "LENGTH('a) = 8 * n" "0 < n" and sz: "sig_width k \<le> 8 * n" and w: "sig_put k v p = (p2, chg)"
  shows "i < sig_width k \<Longrightarrow> pdu_look p2 (sig_place k i) = bit v i"
    and "c \<notin> sig_place k ` {..<sig_width k} \<Longrightarrow> pdu_look p2 c = pdu_look p c"
    and "chg \<longleftrightarrow> p2 \<noteq> p"
proof -
  obtain e pos z where k: "k = (e, pos, z)" by (metis prod.exhaust)
  have *: "(\<forall>i < sig_width k. pdu_look p2 (sig_place k i) = bit v i) \<and>
      (\<forall>c j. j < 8 \<longrightarrow> (c, j) \<notin> sig_place k ` {..<sig_width k} \<longrightarrow> bit (p2 c) j = bit (p c) j) \<and> (chg \<longleftrightarrow> p2 \<noteq> p)"
  proof (cases "e = COM_BIG_ENDIAN")
    case True
    with w k have "write_big v p pos z = (p2, chg)" by (simp add: sig_put_def)
    note B = write_big_bits [OF L _ this]
    show ?thesis unfolding pdu_look_sbit span_places [symmetric] using B sz True k by (auto simp: sig_lsb_def)
  next
    case False
    with w k have "write_little v p pos z = (p2, chg)" by (simp add: sig_put_def)
    note B = write_little_bits [OF L _ this]
    show ?thesis unfolding pdu_look_sbit span_places [symmetric] using B sz False k by (auto simp: sig_lsb_def)
  qed
  then show "i < sig_width k \<Longrightarrow> pdu_look p2 (sig_place k i) = bit v i" "chg \<longleftrightarrow> p2 \<noteq> p" by blast+
  show "pdu_look p2 c = pdu_look p c" if "c \<notin> sig_place k ` {..<sig_width k}"
  proof (cases "snd c < 8")
    case True
    with * that show ?thesis unfolding pdu_look_def by (metis prod.collapse)
  next
    case False
    then show ?thesis unfolding pdu_look_def by (simp add: bit_uint8_range)
  qed
qed

lemma sig_get_bits:
  assumes L: "LENGTH('a) = 8 * n" "0 < n" and sz: "sig_width k \<le> 8 * n"
  shows "bit (sig_get k p :: 'a::len word) i \<longleftrightarrow> i < sig_width k \<and> pdu_look p (sig_place k i)"
proof -
  obtain e pos z where k: "k = (e, pos, z)" by (metis prod.exhaust)
  show ?thesis
    unfolding pdu_look_sbit using read_big_bits [where sz = z and pos = pos and p = p and i = i, OF L] read_little_bits [where sz = z and pos = pos and p = p and i = i, OF L] sz k
    by (auto simp: sig_get_def sig_lsb_def)
qed

interpretation s32: signal_buffer "\<lambda>k. sig_width k \<le> 32" sig_width sig_place pdu_look
  "sig_put :: sig_key \<Rightarrow> uint32 \<Rightarrow> pdu_ptr \<Rightarrow> pdu_ptr \<times> bool" sig_get
proof
  fix k i c m and v :: uint32
  assume k: "sig_width k \<le> 32"
  note B = sig_put_bits [where n = 4 and k = k and v = v and p = m, OF _ _ _ prod.collapse [symmetric]]
  show "i < sig_width k \<Longrightarrow> pdu_look (fst (sig_put k v m)) (sig_place k i) = bit v i" using B(1) k by simp
  show "c \<notin> sig_place k ` {..<sig_width k} \<Longrightarrow> pdu_look (fst (sig_put k v m)) c = pdu_look m c" using B(2) k by simp
  show "snd (sig_put k v m) \<longleftrightarrow> fst (sig_put k v m) \<noteq> m" using B(3) k by simp
  show "bit (sig_get k m :: uint32) i \<longleftrightarrow> i < sig_width k \<and> pdu_look m (sig_place k i)"
    by (rule sig_get_bits [where n = 4]) (use k in simp_all)
qed (auto intro: pdu_look_ext)

interpretation s64: signal_buffer "\<lambda>k. sig_width k \<le> 64" sig_width sig_place pdu_look
  "sig_put :: sig_key \<Rightarrow> uint64 \<Rightarrow> pdu_ptr \<Rightarrow> pdu_ptr \<times> bool" sig_get
proof
  fix k i c m and v :: uint64
  assume k: "sig_width k \<le> 64"
  note B = sig_put_bits [where n = 8 and k = k and v = v and p = m, OF _ _ _ prod.collapse [symmetric]]
  show "i < sig_width k \<Longrightarrow> pdu_look (fst (sig_put k v m)) (sig_place k i) = bit v i" using B(1) k by simp
  show "c \<notin> sig_place k ` {..<sig_width k} \<Longrightarrow> pdu_look (fst (sig_put k v m)) c = pdu_look m c" using B(2) k by simp
  show "snd (sig_put k v m) \<longleftrightarrow> fst (sig_put k v m) \<noteq> m" using B(3) k by simp
  show "bit (sig_get k m :: uint64) i \<longleftrightarrow> i < sig_width k \<and> pdu_look m (sig_place k i)"
    by (rule sig_get_bits [where n = 8]) (use k in simp_all)
qed (auto intro: pdu_look_ext)

end
