(* ===== verification/Com_Counter.thy ===== *)
theory Com_Counter
  imports Com_Signal_Props
begin

unbundle bit_operations_syntax

text \<open>
  The counters that Com puts into I-PDUs (communication/Com/src/Com_misc.c, lines 45 to 157): the sender puts the next
  value of a counter into each I-PDU, the receiver accepts an I-PDU when at most the configured number was lost.
  The two static arrays are the fields of \<open>Com_Counter_State\<close>.  \<open>None\<close> stands for an access outside of them
  and for a counter range of zero.
\<close>

subsection \<open>Configuration and state\<close>

record ComIPduCounter_type =
  ComIPduCntrRange :: uint16
  ComIPduCntrStartPos :: uint16
  ComIPduCntrThrshldStep :: uint8
  ComIPduCntErrNotification :: uint32
  ComIPduCntrIndex :: uint16

record Com_Counter_State =
  ComIPduCountRxStart :: "bool list"
  Com_IPdu_Counters :: "uint8 list"

definition counters_wf :: "nat \<Rightarrow> Com_Counter_State \<Rightarrow> bool" where
  "counters_wf n st \<longleftrightarrow> length (ComIPduCountRxStart st) = n \<and> length (Com_IPdu_Counters st) = n"

subsection \<open>Resetting\<close>

definition ResetInternalCounter :: "uint16 \<Rightarrow> Com_Counter_State \<Rightarrow> Com_Counter_State option" where
  "ResetInternalCounter indx st =
     (if unat indx < length (Com_IPdu_Counters st)
      then Some (st\<lparr>Com_IPdu_Counters := (Com_IPdu_Counters st)[unat indx := 0]\<rparr>) else None)"

definition ReSetInternalRxStartSts :: "uint16 \<Rightarrow> Com_Counter_State \<Rightarrow> Com_Counter_State option" where
  "ReSetInternalRxStartSts indx st =
     (if unat indx < length (ComIPduCountRxStart st)
      then Some (st\<lparr>ComIPduCountRxStart := (ComIPduCountRxStart st)[unat indx := False]\<rparr>) else None)"

definition ResetInternalCounterRxStartSts :: "Com_Counter_State \<Rightarrow> Com_Counter_State" where
  "ResetInternalCounterRxStartSts st =
     foldl (\<lambda>st i. st\<lparr>Com_IPdu_Counters := (Com_IPdu_Counters st)[i := 0],
                      ComIPduCountRxStart := (ComIPduCountRxStart st)[i := False]\<rparr>)
       st [0..<length (Com_IPdu_Counters st)]"

subsection \<open>Sending and receiving\<close>

definition updateIPduCntr :: "ComIPduCounter_type \<Rightarrow> pdu_ptr \<Rightarrow> Com_Counter_State \<Rightarrow> (pdu_ptr \<times> uint8 \<times> uint16) option" where
  "updateIPduCntr CounterCfgRef sduPtr st =
     (let startPos = ComIPduCntrStartPos CounterCfgRef;
          bytPos = int (unat (startPos div 8));
          bitPos = unat (startPos mod 8);
          cntrRng = ComIPduCntrRange CounterCfgRef;
          bitMask = NOT (push_bit bitPos (cntrRng - 1));
          cntrIdx = ComIPduCntrIndex CounterCfgRef
      in if length (Com_IPdu_Counters st) \<le> unat cntrIdx \<or> cntrRng = 0 then None
         else
           (let cntrVal = of_nat ((unat (Com_IPdu_Counters st ! unat cntrIdx) + 1) mod unat cntrRng) :: uint8;
                val = sduPtr bytPos
            in Some (sduPtr(bytPos := (val AND ucast bitMask) OR ucast (push_bit bitPos (ucast cntrVal :: uint16))),
                     cntrVal, cntrIdx)))"

definition extractIPduCntr :: "ComIPduCounter_type \<Rightarrow> pdu_ptr \<Rightarrow> uint8" where
  "extractIPduCntr CounterCfgRef sduPtr =
     (let startPos = ComIPduCntrStartPos CounterCfgRef;
          bytPos = int (unat (startPos div 8));
          bitPos = unat (startPos mod 8);
          cntrRng = ComIPduCntrRange CounterCfgRef - 1;
          bitMask = (ucast cntrRng :: uint8);
          val = sduPtr bytPos
      in drop_bit bitPos val AND bitMask)"

definition Com_Misc_validateIPduCounter :: "ComIPduCounter_type \<Rightarrow> pdu_ptr \<Rightarrow> Com_Counter_State
    \<Rightarrow> (Com_Counter_State \<times> bool) option" where
  "Com_Misc_validateIPduCounter CounterCfgRef sduPtr st =
     (let cntrIdx = unat (ComIPduCntrIndex CounterCfgRef);
          cntrRng = ComIPduCntrRange CounterCfgRef;
          rxCntrVal = extractIPduCntr CounterCfgRef sduPtr
      in if length (ComIPduCountRxStart st) \<le> cntrIdx \<or> length (Com_IPdu_Counters st) \<le> cntrIdx \<or> cntrRng = 0 then None
         else
           (case (if ComIPduCountRxStart st ! cntrIdx
                  then
                    (let expected = Com_IPdu_Counters st ! cntrIdx;
                         diff = (if rxCntrVal \<ge> expected then rxCntrVal - expected
                                 else ucast (ucast rxCntrVal + cntrRng - ucast expected))
                     in (st, diff \<le> ComIPduCntrThrshldStep CounterCfgRef))
                  else (st\<lparr>ComIPduCountRxStart := (ComIPduCountRxStart st)[cntrIdx := True]\<rparr>, True)) of
              (st, ret) \<Rightarrow>
                Some (st\<lparr>Com_IPdu_Counters := (Com_IPdu_Counters st)
                         [cntrIdx := of_nat ((unat rxCntrVal + 1) mod unat cntrRng)]\<rparr>, ret)))"

text \<open>A counter of \<open>k\<close> bits that lies within one byte.\<close>

definition counter_cfg_ok :: "nat \<Rightarrow> ComIPduCounter_type \<Rightarrow> bool" where
  "counter_cfg_ok k cfg \<longleftrightarrow> 0 < k \<and> k \<le> 8 \<and> unat (ComIPduCntrRange cfg) = 2 ^ k
     \<and> unat (ComIPduCntrStartPos cfg) mod 8 + k \<le> 8"

definition counter_at :: "nat \<Rightarrow> ComIPduCounter_type \<Rightarrow> Com_Counter_State \<Rightarrow> nat \<Rightarrow> bool" where
  "counter_at n cfg st v \<longleftrightarrow> counters_wf n st \<and> unat (ComIPduCntrIndex cfg) < n
     \<and> unat (Com_IPdu_Counters st ! unat (ComIPduCntrIndex cfg)) = v mod unat (ComIPduCntrRange cfg)"

definition counter_bits :: "ComIPduCounter_type \<Rightarrow> nat \<Rightarrow> (int \<times> nat) set" where
  "counter_bits cfg k = {int (unat (ComIPduCntrStartPos cfg) div 8)}
     \<times> {unat (ComIPduCntrStartPos cfg) mod 8..<unat (ComIPduCntrStartPos cfg) mod 8 + k}"

section \<open>The counter in the I-PDU\<close>

lemma range_mask:
  assumes ok: "counter_cfg_ok k cfg"
  shows "ComIPduCntrRange cfg - 1 = mask k" "ComIPduCntrRange cfg \<noteq> 0" "unat (ComIPduCntrRange cfg) = 2 ^ k"
proof -
  show u: "unat (ComIPduCntrRange cfg) = 2 ^ k" using ok by (simp add: counter_cfg_ok_def)
  then have "ComIPduCntrRange cfg = of_nat (2 ^ k)" by (metis of_nat_unat ucast_id unsigned_of_nat word_unat_eq_iff)
  then show "ComIPduCntrRange cfg - 1 = mask k" by (simp add: mask_eq_exp_minus_1)
  show "ComIPduCntrRange cfg \<noteq> 0" using u by auto
qed

lemma start_parts: "unat (startPos div 8) = unat startPos div 8" "unat (startPos mod 8) = unat startPos mod 8" for startPos :: uint16
  by (simp_all add: unat_div unat_mod)

lemma unat_of_nat8: "x < 2 ^ k \<Longrightarrow> k \<le> 8 \<Longrightarrow> unat (of_nat x :: uint8) = x"
proof -
  assume "x < 2 ^ k" "k \<le> 8"
  then have "x < 2 ^ 8" by (meson less_le_trans one_le_numeral power_increasing)
  then show ?thesis by (simp add: unat_of_nat take_bit_nat_eq_self)
qed

lemma extract_bit:
  assumes ok: "counter_cfg_ok k cfg"
  shows "bit (extractIPduCntr cfg p) i \<longleftrightarrow> i < k
    \<and> bit (p (int (unat (ComIPduCntrStartPos cfg) div 8))) (unat (ComIPduCntrStartPos cfg) mod 8 + i)"
proof -
  have "k \<le> 8" using ok by (simp add: counter_cfg_ok_def)
  then show ?thesis unfolding extractIPduCntr_def Let_def range_mask(1) [OF ok] start_parts
    using bit_imp_le_length [of "p (int (unat (ComIPduCntrStartPos cfg) div 8))" "unat (ComIPduCntrStartPos cfg) mod 8 + i"]
    by (auto simp: bit_and_iff bit_drop_bit_eq bit_ucast_iff bit_mask_iff)
qed

lemma extract_less:
  assumes ok: "counter_cfg_ok k cfg"
  shows "unat (extractIPduCntr cfg p) < 2 ^ k"
proof -
  have "take_bit k (extractIPduCntr cfg p) = extractIPduCntr cfg p"
    by (rule bit_word_eqI) (auto simp: bit_take_bit_iff extract_bit [OF ok])
  then have "take_bit k (unat (extractIPduCntr cfg p)) = unat (extractIPduCntr cfg p)"
    by (metis unsigned_take_bit_eq)
  then show ?thesis by (simp add: take_bit_nat_eq_self_iff)
qed

text \<open>The field that \<open>updateIPduCntr\<close> writes.\<close>

lemma update_bits:
  assumes ok: "counter_cfg_ok k cfg" and c: "counter_at n cfg st m"
  obtains p' v where "updateIPduCntr cfg p st = Some (p', v, ComIPduCntrIndex cfg)" "unat v = (m + 1) mod 2 ^ k"
    "extractIPduCntr cfg p' = v" "\<And>c j. (c, j) \<notin> counter_bits cfg k \<Longrightarrow> bit (p' c) j = bit (p c) j"
proof -
  define B where "B = int (unat (ComIPduCntrStartPos cfg) div 8)"
  define f where "f = unat (ComIPduCntrStartPos cfg) mod 8"
  have k: "0 < k" "k \<le> 8" "f + k \<le> 8" using ok by (simp_all add: counter_cfg_ok_def f_def)
  have cnt: "unat (Com_IPdu_Counters st ! unat (ComIPduCntrIndex cfg)) = m mod 2 ^ k"
    and len: "unat (ComIPduCntrIndex cfg) < length (Com_IPdu_Counters st)"
    using c ok by (simp_all add: counter_at_def counters_wf_def counter_cfg_ok_def)
  define v where "v = (of_nat ((m + 1) mod 2 ^ k) :: uint8)"
  have v: "unat v = (m + 1) mod 2 ^ k" unfolding v_def by (rule unat_of_nat8 [OF _ k(2)]) simp
  have vk: "\<not> bit v j" if "k \<le> j" for j
  proof -
    have "take_bit k (unat v) = unat v" by (simp add: v take_bit_eq_mod)
    then have "take_bit k v = v" by (metis unsigned_take_bit_eq word_unat_eq_iff)
    then show ?thesis using that by (metis bit_take_bit_iff not_le)
  qed
  have vk': "\<not> bit v (j - f)" if "\<not> j < f + k" for j by (rule vk) (use that in simp)
  define byte where "byte = (p B AND ucast (NOT (push_bit f (mask k) :: uint16))) OR ucast (push_bit f (ucast v :: uint16))"
  have byte: "bit byte j = (if f \<le> j \<and> j < f + k then bit v (j - f) else bit (p B) j)" if "j < 8" for j
    using that vk' [of j] k
    by (auto simp: byte_def bit_or_iff bit_and_iff bit_ucast_iff bit_not_iff bit_push_bit_iff bit_mask_iff)
  have "updateIPduCntr cfg p st = Some (p(B := byte), v, ComIPduCntrIndex cfg)"
    using len range_mask [OF ok] unfolding updateIPduCntr_def Let_def
    by (simp add: cnt start_parts B_def [symmetric] f_def [symmetric] byte_def v_def mod_Suc_eq)
  moreover have "extractIPduCntr cfg (p(B := byte)) = v"
  proof (rule bit_word_eqI)
    fix i :: nat
    show "bit (extractIPduCntr cfg (p(B := byte))) i = bit v i"
      using byte [of "f + i"] k vk [of i]
      by (cases "i < k") (simp_all add: extract_bit [OF ok] B_def [symmetric] f_def [symmetric])
  qed
  moreover have "bit ((p(B := byte)) c) j = bit (p c) j" if "(c, j) \<notin> counter_bits cfg k" for c j
  proof (cases "j < 8")
    case True
    with byte [OF True] that show ?thesis by (auto simp: counter_bits_def B_def f_def)
  next
    case False
    then show ?thesis by (simp add: bit_uint8_range)
  qed
  ultimately show ?thesis using that v by blast
qed

section \<open>The receiver's window\<close>

text \<open>The difference the receiver computes in bytes is the number of I-PDUs that were lost.\<close>

lemma diff_lost:
  fixes rx ex :: uint8 and rng :: uint16
  assumes r: "unat rng = 2 ^ k" "k \<le> 8" and ex: "unat ex = e mod 2 ^ k" and rx: "unat rx = (e + lost) mod 2 ^ k"
    and lost: "lost < 2 ^ k"
  shows "unat (if rx \<ge> ex then rx - ex else ucast (ucast rx + rng - ucast ex)) = lost"
proof -
  define E where "E = e mod 2 ^ k"
  have E: "E < 2 ^ k" by (simp add: E_def)
  have rx': "unat rx = (E + lost) mod 2 ^ k" unfolding rx E_def by (simp add: mod_add_left_eq)
  have b: "(2 :: nat) ^ k \<le> 256" using power_increasing [OF r(2), of "2 :: nat"] by simp
  have u: "unat (ucast x :: uint16) = unat x" for x :: uint8
    by (simp add: unsigned_ucast_eq take_bit_nat_eq_self_iff order.strict_trans [OF unsigned_less])
  show ?thesis
  proof (cases "E + lost < 2 ^ k")
    case True
    then have "unat rx = E + lost" by (simp add: rx')
    then have "ex \<le> rx" by (simp add: word_le_nat_alt ex E_def)
    then show ?thesis using \<open>unat rx = E + lost\<close> by (simp add: unat_sub ex E_def)
  next
    case False
    then have x: "unat rx = E + lost - 2 ^ k" using E lost by (simp add: rx' mod_if)
    then have "\<not> ex \<le> rx" using False lost by (simp add: word_le_nat_alt ex E_def)
    have "unat (ucast rx + rng) = unat rx + 2 ^ k"
      using b x E lost by (subst unat_add_lem [THEN iffD1]) (simp_all add: u r)
    then have a: "unat (ucast rx + rng) = E + lost" using x False by simp
    then have "unat (ucast rx + rng - ucast ex) = lost"
      by (subst unat_sub) (simp_all add: word_le_nat_alt u ex E_def)
    moreover have "unat (ucast y :: uint8) = unat y mod 256" for y :: uint16
      by (simp add: unsigned_ucast_eq take_bit_eq_mod)
    ultimately show ?thesis using \<open>\<not> ex \<le> rx\<close> lost b by simp
  qed
qed

lemma validate_window:
  assumes ok: "counter_cfg_ok k cfg" and c: "counter_at n cfg st e" and lost: "lost < 2 ^ k"
    and rx: "unat (extractIPduCntr cfg p) = (e + lost) mod 2 ^ k"
  obtains st' acc where "Com_Misc_validateIPduCounter cfg p st = Some (st', acc)"
    "acc \<longleftrightarrow> ComIPduCountRxStart st ! unat (ComIPduCntrIndex cfg) \<longrightarrow> lost \<le> unat (ComIPduCntrThrshldStep cfg)"
    "counter_at n cfg st' (e + lost + 1)" "ComIPduCountRxStart st' ! unat (ComIPduCntrIndex cfg)"
proof -
  define i where "i = unat (ComIPduCntrIndex cfg)"
  define R where "R = ComIPduCntrRange cfg"
  have k: "k \<le> 8" using ok by (simp add: counter_cfg_ok_def)
  have R: "unat R = 2 ^ k" "R \<noteq> 0" using range_mask [OF ok] by (simp_all add: R_def)
  have w: "counters_wf n st" "i < n" "unat (Com_IPdu_Counters st ! i) = e mod 2 ^ k"
    using c R by (simp_all add: counter_at_def i_def R_def)
  note D = diff_lost [OF R(1) k w(3) rx lost]
  have nxt: "unat (of_nat ((unat (extractIPduCntr cfg p) + 1) mod 2 ^ k) :: uint8) = (e + lost + 1) mod 2 ^ k"
    using rx by (simp add: unat_of_nat8 [OF _ k] mod_Suc_eq)
  let ?acc = "ComIPduCountRxStart st ! i \<longrightarrow> lost \<le> unat (ComIPduCntrThrshldStep cfg)"
  let ?st = "st\<lparr>ComIPduCountRxStart := (ComIPduCountRxStart st)[i := True],
      Com_IPdu_Counters := (Com_IPdu_Counters st)[i := of_nat ((unat (extractIPduCntr cfg p) + 1) mod 2 ^ k)]\<rparr>"
  have "Com_Misc_validateIPduCounter cfg p st = Some (?st, ?acc)"
  proof (cases "ComIPduCountRxStart st ! i")
    case True
    then have "(ComIPduCountRxStart st)[i := True] = ComIPduCountRxStart st" by (metis list_update_id)
    with True w(1,2) R D show ?thesis
      unfolding Com_Misc_validateIPduCounter_def Let_def i_def [symmetric] R_def [symmetric]
      by (simp add: counters_wf_def word_le_nat_alt)
  next
    case False
    with w(1,2) R show ?thesis
      unfolding Com_Misc_validateIPduCounter_def Let_def i_def [symmetric] R_def [symmetric]
      by (simp add: counters_wf_def)
  qed
  moreover have "counter_at n cfg ?st (e + lost + 1)"
    using w nxt R by (simp add: counter_at_def counters_wf_def i_def [symmetric] R_def [symmetric])
  moreover have "ComIPduCountRxStart ?st ! i" using w by (simp add: counters_wf_def)
  ultimately show ?thesis using that unfolding i_def by blast
qed

section \<open>Starting\<close>

lemma reset_loop:
  assumes "counters_wf n st" "j \<le> n"
  shows "foldl (\<lambda>st i. st\<lparr>Com_IPdu_Counters := (Com_IPdu_Counters st)[i := 0],
                      ComIPduCountRxStart := (ComIPduCountRxStart st)[i := False]\<rparr>) st [0..<j]
    = st\<lparr>Com_IPdu_Counters := replicate j 0 @ drop j (Com_IPdu_Counters st),
         ComIPduCountRxStart := replicate j False @ drop j (ComIPduCountRxStart st)\<rparr>"
  using assms
  by (induction j)
     (auto simp: counters_wf_def list_update_append replicate_append_same [symmetric] Cons_nth_drop_Suc [symmetric])

lemma reset_all:
  assumes "counters_wf n st"
  shows "ResetInternalCounterRxStartSts st
    = st\<lparr>Com_IPdu_Counters := replicate n 0, ComIPduCountRxStart := replicate n False\<rparr>"
proof -
  have "length (Com_IPdu_Counters st) = n" using assms by (simp add: counters_wf_def)
  then show ?thesis unfolding ResetInternalCounterRxStartSts_def
    using reset_loop [OF assms order.refl] assms by (simp add: counters_wf_def)
qed

lemma counter_at_start:
  assumes "counters_wf n st" "unat (ComIPduCntrIndex cfg) < n"
  shows "counter_at n cfg (ResetInternalCounterRxStartSts st) 0"
    and "\<not> ComIPduCountRxStart (ResetInternalCounterRxStartSts st) ! unat (ComIPduCntrIndex cfg)"
    and "\<exists>st'. ResetInternalCounter (ComIPduCntrIndex cfg) st = Some st' \<and> counter_at n cfg st' 0"
  using assms by (auto simp: reset_all counter_at_def counters_wf_def ResetInternalCounter_def)

subsection \<open>Properties\<close>

definition ex_counter :: ComIPduCounter_type where
  "ex_counter = \<lparr>ComIPduCntrRange = 16, ComIPduCntrStartPos = 12, ComIPduCntrThrshldStep = 2,
     ComIPduCntErrNotification = 0, ComIPduCntrIndex = 1\<rparr>"

definition ex_counters :: Com_Counter_State where
  "ex_counters = \<lparr>ComIPduCountRxStart = [False, True], Com_IPdu_Counters = [0, 15]\<rparr>"

lemma ex_counter_ok: "counter_cfg_ok 4 ex_counter" "counter_at 2 ex_counter ex_counters 15" "counter_at 2 ex_counter ex_counters 31"
  by (simp_all add: counter_cfg_ok_def counter_at_def counters_wf_def ex_counter_def ex_counters_def)

text \<open>C24. The I-PDU counter over a channel that loses I-PDUs.  The sender is at \<open>m\<close>, the receiver expects \<open>e\<close>, and
  \<open>lost\<close> I-PDUs disappeared in between, fewer than the range of the counter.  The receiver accepts the I-PDU with the
  sender's next value exactly when it has not started yet or the number lost is at most the configured step, in
  either case it then expects the sender's following value, so it is synchronised also after a rejection.\<close>

theorem ipdu_counter_window:
  assumes "counter_cfg_ok k cfg" "counter_at n cfg ss m" "counter_at n' cfg rs e" "m + 1 = e + lost" "lost < 2 ^ k"
    and "updateIPduCntr cfg p ss = Some (p', v, idx)"
  shows "\<exists>rs' acc. Com_Misc_validateIPduCounter cfg p' rs = Some (rs', acc) \<and>
    (acc \<longleftrightarrow> \<not> ComIPduCountRxStart rs ! unat (ComIPduCntrIndex cfg) \<or> lost \<le> unat (ComIPduCntrThrshldStep cfg)) \<and>
    counter_at n' cfg rs' (m + 2) \<and> ComIPduCountRxStart rs' ! unat (ComIPduCntrIndex cfg)"
proof -
  have "unat (extractIPduCntr cfg p') = (e + lost) mod 2 ^ k"
    using update_bits [OF assms(1,2), of p] assms(4,6) by (metis option.inject prod.inject)
  from validate_window [OF assms(1,3,5) this] obtain rs' acc where
    "Com_Misc_validateIPduCounter cfg p' rs = Some (rs', acc)"
    "acc \<longleftrightarrow> (ComIPduCountRxStart rs ! unat (ComIPduCntrIndex cfg) \<longrightarrow> lost \<le> unat (ComIPduCntrThrshldStep cfg))"
    "counter_at n' cfg rs' (e + lost + 1)" "ComIPduCountRxStart rs' ! unat (ComIPduCntrIndex cfg)" by blast
  moreover from this(3) have "counter_at n' cfg rs' (m + 2)" using assms(4) by (simp add: add.assoc)
  ultimately show ?thesis by blast
qed

theorem ipdu_counter_window_witness:
  "\<exists>p' rs'. updateIPduCntr ex_counter (\<lambda>_. 0) ex_counters = Some (p', 0, 1) \<and>
    Com_Misc_validateIPduCounter ex_counter p' ex_counters = Some (rs', True) \<and> counter_at 2 ex_counter rs' 33"
proof -
  obtain p' v where u: "updateIPduCntr ex_counter (\<lambda>_. 0) ex_counters = Some (p', v, ComIPduCntrIndex ex_counter)"
    and v: "unat v = (31 + 1) mod 2 ^ 4"
    using update_bits [OF ex_counter_ok(1,3)] by metis
  from v have "v = 0" by (simp add: unat_eq_0)
  with u ipdu_counter_window [OF ex_counter_ok(1,3,3) _ _ u, of 1] show ?thesis
    by (auto simp: ex_counter_def ex_counters_def)
qed

end
