(* ===== verification/Com_Props.thy ===== *)
theory Com_Props
  imports Com_Counter
begin

unbundle bit_operations_syntax

text \<open>
  The typed reading and writing functions of Com: what a variable holds after it went through a signal, that signals
  with disjoint bits are independent, also of an I-PDU counter, and where the bits of a signal lie in both byte orders.
\<close>

section \<open>Typed signals\<close>

text \<open>What a variable holds after it went through a signal of \<open>bitSize\<close> bits: the low bits of the value, with
  the sign for the signed types, and for an opaque signal the whole bytes.\<close>

definition keep_bits :: "Com_SignalType \<Rightarrow> uint16 \<Rightarrow> 'a::len word \<Rightarrow> 'a word" where
  "keep_bits t sz v = (if t \<in> {COM_SINT8, COM_SINT16, COM_SINT32, COM_SINT64}
     then signed_take_bit (unat sz - 1) v else take_bit (unat sz) v)"

fun fit :: "Com_SignalType \<Rightarrow> uint16 \<Rightarrow> Com_Data \<Rightarrow> Com_Data" where
  "fit t sz (Data8 v) = Data8 (keep_bits t sz v)"
| "fit t sz (Data16 v) = Data16 (keep_bits t sz v)"
| "fit t sz (Data32 v) = Data32 (keep_bits t sz v)"
| "fit t sz (Data64 v) = Data64 (keep_bits t sz v)"
| "fit t sz (DataN bs) = DataN (take (unat sz div 8) bs)"

text \<open>The bits of the buffer a signal occupies.\<close>

definition sig_bits :: "Com_SignalType \<Rightarrow> ComSignalEndianess_type \<Rightarrow> uint16 \<Rightarrow> uint16 \<Rightarrow> (int \<times> nat) set" where
  "sig_bits t endian pos sz =
     (if endian = COM_OPAQUE \<or> t = COM_UINT8_N
      then {int (unat pos div 8)..<int (unat pos div 8) + int (unat sz div 8)} \<times> UNIV
      else sig_place (endian, pos, sz) ` {..<unat sz})"

lemma sign_bits_eq:
  fixes x :: "'a::len word"
  assumes sz: "0 < sz" "unat sz \<le> LENGTH('a)"
  shows "sign_bits sz (take_bit (unat sz) x) = signed_take_bit (unat sz - 1) x"
proof -
  define m where "m = unat sz - 1"
  have "0 < unat sz" using sz(1) by (simp add: word_less_nat_alt)
  with sz(2) have m: "unat sz = Suc m" "m < LENGTH('a)" by (simp_all add: m_def)
  define g where "g = NOT (drop_bit 1 (sig_mask sz :: 'a word))"
  have g: "bit g i \<longleftrightarrow> m \<le> i \<and> i < LENGTH('a)" for i
    using m sz(2) by (auto simp: g_def bit_not_iff bit_drop_bit_eq bit_sig_mask)
  have "(take_bit (unat sz) x AND g \<noteq> 0) = bit x m"
  proof
    assume "take_bit (unat sz) x AND g \<noteq> 0"
    then obtain i where "bit (take_bit (unat sz) x AND g) i" by (auto simp: bit_eq_iff)
    then have "i = m" "bit x i" using m by (auto simp: bit_and_iff bit_take_bit_iff g)
    then show "bit x m" by simp
  next
    assume "bit x m"
    then have "bit (take_bit (unat sz) x AND g) m" using m by (simp add: bit_and_iff bit_take_bit_iff g)
    then show "take_bit (unat sz) x AND g \<noteq> 0" by auto
  qed
  then have "sign_bits sz (take_bit (unat sz) x) = (if bit x m then take_bit (unat sz) x OR g else take_bit (unat sz) x)"
    unfolding sign_bits_def Let_def g_def by simp
  also have "\<dots> = signed_take_bit m x"
    by (rule bit_word_eqI)
       (use m in \<open>auto simp: bit_or_iff bit_take_bit_iff g bit_signed_take_bit_iff min_def le_less_Suc_eq not_le less_Suc_eq\<close>)
  finally show ?thesis by (simp add: m_def)
qed

lemma ucast_signed_take_bit:
  "LENGTH('a) \<le> LENGTH('b) \<Longrightarrow> ucast (signed_take_bit m (ucast v :: 'b::len word)) = signed_take_bit m v" for v :: "'a::len word"
  by (rule bit_word_eqI) (auto simp: bit_ucast_iff bit_signed_take_bit_iff min_def)

lemma ucast_take_bit:
  "LENGTH('a) \<le> LENGTH('b) \<Longrightarrow> ucast (take_bit m (ucast v :: 'b::len word)) = take_bit m v" for v :: "'a::len word"
  by (rule bit_word_eqI) (auto simp: bit_ucast_iff bit_take_bit_iff)

lemma write_read_bytes:
  assumes "length bs = n"
  shows "map (\<lambda>i. write_bytes p base bs (base + int i)) [0..<n] = bs"
    and "map (\<lambda>i. p (base + int i)) [0..<n] \<noteq> bs \<longleftrightarrow> write_bytes p base bs \<noteq> p"
proof -
  show *: "map (\<lambda>i. write_bytes p base bs (base + int i)) [0..<n] = bs"
    using assms by (auto simp: write_bytes_def list_eq_iff_nth_eq)
  show "map (\<lambda>i. p (base + int i)) [0..<n] \<noteq> bs \<longleftrightarrow> write_bytes p base bs \<noteq> p"
  proof
    assume "map (\<lambda>i. p (base + int i)) [0..<n] \<noteq> bs"
    with * show "write_bytes p base bs \<noteq> p" by metis
  next
    assume "write_bytes p base bs \<noteq> p"
    then obtain c where c: "write_bytes p base bs c \<noteq> p c" by blast
    then have "base \<le> c" "c < base + int n" "bs ! nat (c - base) \<noteq> p c"
      using assms by (auto simp: write_bytes_def split: if_splits)
    moreover from this have "nat (c - base) < n" by simp
    ultimately have "map (\<lambda>i. p (base + int i)) [0..<n] ! nat (c - base) \<noteq> bs ! nat (c - base)" by simp
    then show "map (\<lambda>i. p (base + int i)) [0..<n] \<noteq> bs" by metis
  qed
qed

text \<open>What the operations do on each of the three branches.\<close>

definition decode32 :: "Com_SignalType \<Rightarrow> uint16 \<Rightarrow> uint32 \<Rightarrow> Com_Data option" where
  "decode32 t sz x =
     (case t of
        COM_SINT8 \<Rightarrow> Some (Data8 (ucast (sign_bits sz x)))
      | COM_BOOLEAN \<Rightarrow> Some (Data8 (ucast x))
      | COM_UINT8 \<Rightarrow> Some (Data8 (ucast x))
      | COM_SINT16 \<Rightarrow> Some (Data16 (ucast (sign_bits sz x)))
      | COM_UINT16 \<Rightarrow> Some (Data16 (ucast x))
      | COM_SINT32 \<Rightarrow> Some (Data32 (sign_bits sz x))
      | COM_UINT32 \<Rightarrow> Some (Data32 x)
      | _ \<Rightarrow> None)"

lemma size_cond:
  "sz \<le> (32 :: uint16) \<longleftrightarrow> unat sz \<le> 32" "sz \<le> (64 :: uint16) \<longleftrightarrow> unat sz \<le> 64"
  by (simp_all add: word_le_nat_alt)

lemma Read_cases:
  "Com_Misc_ReadSignalDataFromPdu p pos sz e t =
     (if e = COM_OPAQUE \<or> t = COM_UINT8_N
      then Some (DataN (map (\<lambda>i. p (int (unat pos div 8) + int i)) [0..<unat sz div 8]))
      else if t = COM_UINT64 \<or> t = COM_SINT64
      then (if sz = 0 \<or> \<not> unat sz \<le> 64 then None
            else Some (Data64 ((if t = COM_SINT64 then sign_bits sz else id) (sig_get (e, pos, sz) p))))
      else if sz = 0 \<or> \<not> unat sz \<le> 32 then None else decode32 t sz (sig_get (e, pos, sz) p))"
  by (cases e; cases t)
     (simp_all add: Com_Misc_ReadSignalDataFromPdu_def Com_Misc_ReadSignalDataFromPdu64Bits_def sig_get_def
       decode32_def Let_def size_cond not_le [symmetric])

lemma Write_cases:
  assumes "Com_Misc_WriteSignalDataToPdu d t p pos sz e = Some (p', chg)"
  obtains (opaque) bs where "e = COM_OPAQUE \<or> t = COM_UINT8_N" "d = DataN bs" "unat sz div 8 \<le> length bs"
      "p' = write_bytes p (int (unat pos div 8)) (take (unat sz div 8) bs)"
      "chg \<longleftrightarrow> map (\<lambda>i. p (int (unat pos div 8) + int i)) [0..<unat sz div 8] \<noteq> take (unat sz div 8) bs"
  | (bits32) v where "\<not> (e = COM_OPAQUE \<or> t = COM_UINT8_N)" "\<not> (t = COM_UINT64 \<or> t = COM_SINT64)"
      "sig_value t d = Some v" "0 < sz" "unat sz \<le> 32" "sig_put (e, pos, sz) v p = (p', chg)"
  | (bits64) v where "\<not> (e = COM_OPAQUE \<or> t = COM_UINT8_N)" "t = COM_UINT64 \<or> t = COM_SINT64"
      "d = Data64 v" "0 < sz" "unat sz \<le> 64" "sig_put (e, pos, sz) v p = (p', chg)"
proof (cases "e = COM_OPAQUE \<or> t = COM_UINT8_N")
  case True
  with assms opaque show ?thesis
    by (cases d) (auto simp: Com_Misc_WriteSignalDataToPdu_def Let_def split: if_splits)
next
  case other: False
  show ?thesis
  proof (cases "t = COM_UINT64 \<or> t = COM_SINT64")
    case True
    have "Com_Misc_WriteSignalDataToPdu64Bits d t p pos sz e = Some (p', chg)"
      using assms other True by (auto simp: Com_Misc_WriteSignalDataToPdu_def)
    then show ?thesis using bits64 other True
      by (cases d; cases e) (auto simp: Com_Misc_WriteSignalDataToPdu64Bits_def sig_put_def size_cond
          not_less word_gt_0 split: if_splits)
  next
    case False
    then show ?thesis using assms bits32 other
      by (cases e) (auto simp: Com_Misc_WriteSignalDataToPdu_def sig_put_def size_cond not_less word_gt_0
          split: if_splits option.splits)
  qed
qed

lemma decode32_fit:
  assumes "sig_value t d = Some v" "0 < sz" "unat sz \<le> 32"
  shows "decode32 t sz (take_bit (unat sz) v) = Some (fit t sz d)"
  using assms sign_bits_eq [of sz v]
  by (cases d; cases t) (auto simp: sig_value_def decode32_def keep_bits_def ucast_signed_take_bit ucast_take_bit)

lemma sig_width_simp: "sig_width (e, pos, sz) = unat sz"
  by simp

lemma Write_frame:
  assumes w: "Com_Misc_WriteSignalDataToPdu d t p pos sz e = Some (p', chg)" and c: "c \<notin> sig_bits t e pos sz"
  shows "pdu_look p' c = pdu_look p c"
  using w
proof (cases rule: Write_cases)
  case (opaque bs)
  then show ?thesis using c by (cases c) (auto simp: sig_bits_def pdu_look_def write_bytes_def)
next
  case (bits32 v)
  then show ?thesis using c s32.put_frame [of "(e, pos, sz)" c v p] by (simp add: sig_bits_def)
next
  case (bits64 v)
  then show ?thesis using c s64.put_frame [of "(e, pos, sz)" c v p] by (simp add: sig_bits_def)
qed

lemma Read_cong:
  assumes "\<And>c. c \<in> sig_bits t e pos sz \<Longrightarrow> pdu_look p c = pdu_look p' c"
  shows "Com_Misc_ReadSignalDataFromPdu p pos sz e t = Com_Misc_ReadSignalDataFromPdu p' pos sz e t"
proof (cases "e = COM_OPAQUE \<or> t = COM_UINT8_N")
  case True
  have "p (int (unat pos div 8) + int i) = p' (int (unat pos div 8) + int i)" if "i < unat sz div 8" for i
    by (rule bit_word_eqI) (use that True assms in \<open>auto simp: sig_bits_def pdu_look_def\<close>)
  with True show ?thesis by (simp add: Read_cases)
next
  case False
  have "(sig_get (e, pos, sz) p :: uint32) = sig_get (e, pos, sz) p'" if "unat sz \<le> 32"
    by (rule s32.get_cong) (use that False assms in \<open>auto simp: sig_bits_def\<close>)
  moreover have "(sig_get (e, pos, sz) p :: uint64) = sig_get (e, pos, sz) p'" if "unat sz \<le> 64"
    by (rule s64.get_cong) (use that False assms in \<open>auto simp: sig_bits_def\<close>)
  ultimately show ?thesis using False by (simp add: Read_cases)
qed

subsection \<open>Where the bits lie\<close>

lemma xor7_nat: "(x XOR 7) div 8 = x div 8" "(x XOR 7) mod 8 = 7 - x mod 8" for x :: nat
proof -
  have p: "(2 :: nat) ^ 3 = 8" by simp
  have "drop_bit 3 (x XOR 7) = drop_bit 3 x XOR drop_bit 3 7" by (rule drop_bit_xor)
  then show "(x XOR 7) div 8 = x div 8" unfolding drop_bit_eq_div p by simp
  define y where "y = x mod 8"
  have "take_bit 3 (x XOR 7) = take_bit 3 x XOR take_bit 3 7" by (rule take_bit_xor)
  then have "(x XOR 7) mod 8 = y XOR 7" unfolding take_bit_eq_mod p y_def by simp
  moreover have "y \<in> {0, 1, 2, 3, 4, 5, 6, 7}" unfolding y_def by auto
  ultimately show "(x XOR 7) mod 8 = 7 - x mod 8" unfolding y_def [symmetric] by auto
qed

text \<open>Counting the bits of the buffer with the most significant bit of a byte first.\<close>

definition msb_first :: "uint16 \<Rightarrow> nat" where
  "msb_first pos = 8 * (unat pos div 8) + (7 - unat pos mod 8)"

lemma unat_ucast32: "unat (ucast x :: uint32) = unat x" for x :: uint16
  by (simp add: unsigned_ucast_eq take_bit_nat_eq_self_iff order.strict_trans [OF unsigned_less])

lemma unat_xor7: "unat (x XOR 7) = unat x XOR 7" for x :: uint32
  by (simp add: unsigned_xor_eq)

lemma lsb_big_nat:
  assumes "0 < sz"
  shows "unat (lsbIndex_big pos sz) = (msb_first pos + unat sz - 1) XOR 7"
proof -
  have m: "unat (ucast pos XOR 7 :: uint32) = msb_first pos"
    unfolding unat_xor7 msb_first_def
    using xor7_nat [of "unat pos"] mult_div_mod_eq [of 8 "unat pos XOR 7"]
    by (simp add: unat_ucast32)
  have b: "unat pos < 2 ^ 16" "unat sz < 2 ^ 16" "0 < unat sz"
    using unsigned_less [of pos] unsigned_less [of sz] assms by (simp_all add: word_less_nat_alt)
  have "msb_first pos < 2 ^ 16 + 8" using b(1) unfolding msb_first_def by linarith
  then have "unat ((ucast pos XOR 7) + ucast sz :: uint32) = msb_first pos + unat sz"
    using b m by (subst unat_add_lem [THEN iffD1]) (simp_all add: unat_ucast32)
  moreover from this have "unat ((ucast pos XOR 7) + ucast sz - 1 :: uint32) = msb_first pos + unat sz - 1"
    using b(3) by (subst unat_sub) (simp_all add: word_le_nat_alt)
  ultimately show ?thesis unfolding lsbIndex_big_def unat_xor7 by simp
qed

lemma place_arith:
  assumes "h + i = (G :: nat)"
  shows "int (G div 8) - int ((7 - G mod 8 + i) div 8) = int (h div 8)" "(7 - G mod 8 + i) mod 8 = 7 - h mod 8"
proof -
  define a b c d where "a = G div 8" and "b = G mod 8" and "c = h div 8" and "d = h mod 8"
  have e: "G = 8 * a + b" "b < 8" "h = 8 * c + d" "d < 8" by (simp_all add: a_def b_def c_def d_def)
  have "c \<le> a" unfolding a_def c_def using assms by (simp add: div_le_mono)
  moreover have "7 - b + i = (7 - d) + 8 * (a - c)" using e assms calculation by linarith
  moreover have "(7 - d) div 8 = 0" "(7 - d) mod 8 = 7 - d" by simp_all
  ultimately have "(7 - b + i) div 8 = a - c" "(7 - b + i) mod 8 = 7 - d" by simp_all
  with \<open>c \<le> a\<close> show "int (G div 8) - int ((7 - G mod 8 + i) div 8) = int (h div 8)" "(7 - G mod 8 + i) mod 8 = 7 - h mod 8"
    unfolding a_def b_def c_def d_def by (simp_all only: of_nat_diff)
qed

lemma place_big:
  assumes "i < unat sz"
  shows "sig_place (COM_BIG_ENDIAN, pos, sz) i
    = (int ((msb_first pos + (unat sz - 1 - i)) div 8), 7 - (msb_first pos + (unat sz - 1 - i)) mod 8)"
proof -
  have "0 < sz" using assms by (auto simp: word_less_nat_alt)
  note l = lsb_big_nat [OF this, of pos]
  have "msb_first pos + (unat sz - 1 - i) + i = msb_first pos + unat sz - 1" using assms by simp
  note A = place_arith [OF this]
  show ?thesis unfolding sig_place_def sig_lsb_def lsb_parts prod.case fst_conv if_True simp_thms l xor7_nat
    using A by (simp only: mult_minus_left mult_1 add_uminus_conv_diff)
qed

lemma place_little: "sig_place (COM_LITTLE_ENDIAN, pos, sz) i = (int ((unat pos + i) div 8), (unat pos + i) mod 8)"
proof -
  define a b where "a = unat pos div 8" and "b = unat pos mod 8"
  have "unat pos + i = 8 * a + (b + i)" unfolding a_def b_def by simp
  then have "(b + i) mod 8 = (unat pos + i) mod 8" "int a + int ((b + i) div 8) = int ((unat pos + i) div 8)"
    by (simp_all only: div_mult_self4 mod_mult_self4 of_nat_add)
  then show ?thesis unfolding sig_place_def sig_lsb_def lsb_parts a_def b_def by (simp add: unat_ucast32)
qed

text \<open>The bits of a variable.\<close>

fun data_bit :: "Com_Data \<Rightarrow> nat \<Rightarrow> bool" where
  "data_bit (Data8 v) i = bit v i"
| "data_bit (Data16 v) i = bit v i"
| "data_bit (Data32 v) i = bit v i"
| "data_bit (Data64 v) i = bit v i"
| "data_bit (DataN bs) i = False"

lemma bit_ucast_up: "LENGTH('a) \<le> LENGTH('b) \<Longrightarrow> bit (ucast v :: 'b::len word) i = bit v i" for v :: "'a::len word"
  using bit_imp_le_length [of v i] by (auto simp: bit_ucast_iff)

lemma sig_value_bit: "sig_value t d = Some x \<Longrightarrow> bit x i = data_bit d i"
  by (cases d) (auto simp: sig_value_def bit_ucast_up split: if_splits)

lemma Write_places:
  assumes "Com_Misc_WriteSignalDataToPdu d t p pos sz e = Some (p', chg)"
    and "\<not> (e = COM_OPAQUE \<or> t = COM_UINT8_N)" "j < unat sz"
  shows "pdu_look p' (sig_place (e, pos, sz) j) = data_bit d j"
  using assms(1)
proof (cases rule: Write_cases)
  case (opaque bs)
  with assms(2) show ?thesis by simp
next
  case (bits32 x)
  then show ?thesis using s32.put_bits [of "(e, pos, sz)" j x p] assms(3) by (simp add: sig_value_bit)
next
  case (bits64 x)
  then show ?thesis using s64.put_bits [of "(e, pos, sz)" j x p] assms(3) by simp
qed

text \<open>The example of the witnesses: a buffer with a big-endian signal of 12 bits and a signed little-endian one.\<close>

definition ex_pdu :: pdu_ptr where
  "ex_pdu = (\<lambda>c. if c = 0 then 0xA5 else if c = 1 then 0x5A else 0xFF)"

subsection \<open>Properties\<close>

text \<open>C11. A signal that was written is read back: whatever the type, byte order, position and size, after
  \<open>Com_Misc_WriteSignalDataToPdu\<close> the reading function gives the variable's value cut to the signal's bits, with
  the sign for signed types and whole bytes for opaque ones.  The change flag is set exactly when the buffer changed.\<close>

theorem Com_signal_roundtrip:
  assumes "Com_Misc_WriteSignalDataToPdu d t p pos sz e = Some (p', chg)"
  shows "Com_Misc_ReadSignalDataFromPdu p' pos sz e t = Some (fit t sz d) \<and> (chg \<longleftrightarrow> p' \<noteq> p)"
  using assms
proof (cases rule: Write_cases)
  case (opaque bs)
  then show ?thesis
    using write_read_bytes [of "take (unat sz div 8) bs" "unat sz div 8" p "int (unat pos div 8)"]
    by (auto simp: Read_cases)
next
  case (bits32 v)
  then have "sig_get (e, pos, sz) p' = take_bit (unat sz) v" "chg \<longleftrightarrow> p' \<noteq> p"
    using s32.get_put [of "(e, pos, sz)" v p] s32.put_flag [of "(e, pos, sz)" v p] by simp_all
  then show ?thesis using bits32 decode32_fit by (simp add: Read_cases word_gt_0)
next
  case (bits64 v)
  then have "sig_get (e, pos, sz) p' = take_bit (unat sz) v" "chg \<longleftrightarrow> p' \<noteq> p"
    using s64.get_put [of "(e, pos, sz)" v p] s64.put_flag [of "(e, pos, sz)" v p] by simp_all
  then show ?thesis using bits64 sign_bits_eq [of sz v] by (auto simp: Read_cases word_gt_0 keep_bits_def)
qed

theorem Com_signal_roundtrip_witness:
  "Com_Misc_ReadSignalDataFromPdu (fst (the (Com_Misc_WriteSignalDataToPdu (Data16 0xFABC) COM_SINT16 ex_pdu 3 12 COM_BIG_ENDIAN)))
     3 12 COM_BIG_ENDIAN COM_SINT16 = Some (Data16 0xFABC)"
proof -
  obtain p' chg where w: "Com_Misc_WriteSignalDataToPdu (Data16 0xFABC) COM_SINT16 ex_pdu 3 12 COM_BIG_ENDIAN = Some (p', chg)"
    by (simp add: Com_Misc_WriteSignalDataToPdu_def sig_value_def) (metis prod.exhaust)
  have "fit COM_SINT16 12 (Data16 0xFABC) = Data16 0xFABC" by code_simp
  with w Com_signal_roundtrip [OF w] show ?thesis by simp
qed

text \<open>C12. Signals at different places do not disturb each other: writing one leaves every bit outside its own
  bits as it was, although the code loads and stores whole words around it, so every other signal whose bits are
  disjoint reads as before, whatever its type and byte order.\<close>

theorem Com_signals_independent:
  assumes "Com_Misc_WriteSignalDataToPdu d t p pos sz e = Some (p', chg)"
  shows "(\<forall>c k. (c, k) \<notin> sig_bits t e pos sz \<longrightarrow> bit (p' c) k = bit (p c) k) \<and>
    (sig_bits t e pos sz \<inter> sig_bits t' e' pos' sz' = {} \<longrightarrow>
       Com_Misc_ReadSignalDataFromPdu p' pos' sz' e' t' = Com_Misc_ReadSignalDataFromPdu p pos' sz' e' t')"
proof (intro conjI allI impI)
  show "bit (p' c) k = bit (p c) k" if "(c, k) \<notin> sig_bits t e pos sz" for c k
    using Write_frame [OF assms that] by (simp add: pdu_look_def)
  show "Com_Misc_ReadSignalDataFromPdu p' pos' sz' e' t' = Com_Misc_ReadSignalDataFromPdu p pos' sz' e' t'"
    if "sig_bits t e pos sz \<inter> sig_bits t' e' pos' sz' = {}"
    by (rule Read_cong, rule Write_frame [OF assms]) (use that in blast)
qed

theorem Com_signals_independent_witness:
  "Com_Misc_ReadSignalDataFromPdu
     (fst (the (Com_Misc_WriteSignalDataToPdu (Data16 0xFABC) COM_SINT16 ex_pdu 3 12 COM_BIG_ENDIAN)))
     16 8 COM_LITTLE_ENDIAN COM_UINT8
   = Com_Misc_ReadSignalDataFromPdu ex_pdu 16 8 COM_LITTLE_ENDIAN COM_UINT8"
proof -
  obtain p' chg where w: "Com_Misc_WriteSignalDataToPdu (Data16 0xFABC) COM_SINT16 ex_pdu 3 12 COM_BIG_ENDIAN = Some (p', chg)"
    by (simp add: Com_Misc_WriteSignalDataToPdu_def sig_value_def) (metis prod.exhaust)
  have "sig_bits COM_SINT16 COM_BIG_ENDIAN 3 12 \<inter> sig_bits COM_UINT8 COM_LITTLE_ENDIAN 16 8 = {}" by code_simp
  with w Com_signals_independent [OF w] show ?thesis by simp
qed

text \<open>C23. The layout of integers in a buffer.  A little-endian signal lies with its bit \<open>i\<close> at bit
  \<open>bitPosition + i\<close>, counting from the least significant bit of byte 0.  A big-endian signal has its most
  significant bit at \<open>bitPosition\<close> and the next ones after it, counting each byte from its most significant bit.
  This is what the exclusive or in the computation of \<open>lsbIndex\<close> stands for.\<close>

theorem Com_write_layout:
  assumes w: "Com_Misc_WriteSignalDataToPdu d t p pos sz e = Some (p', chg)" and i: "i < unat sz"
    and t: "t \<noteq> COM_UINT8_N"
  shows "(e = COM_LITTLE_ENDIAN \<longrightarrow>
       bit (p' (int ((unat pos + i) div 8))) ((unat pos + i) mod 8) = data_bit d i) \<and>
    (e = COM_BIG_ENDIAN \<longrightarrow>
       (let h = 8 * (unat pos div 8) + (7 - unat pos mod 8) + i
        in bit (p' (int (h div 8))) (7 - h mod 8) = data_bit d (unat sz - 1 - i)))"
proof -
  have "bit (p' (int ((unat pos + i) div 8))) ((unat pos + i) mod 8) = data_bit d i" if "e = COM_LITTLE_ENDIAN"
    using Write_places [OF w _ i] t that unfolding pdu_look_def that place_little by simp
  moreover have "bit (p' (int ((msb_first pos + i) div 8))) (7 - (msb_first pos + i) mod 8) = data_bit d (unat sz - 1 - i)"
    if "e = COM_BIG_ENDIAN"
  proof -
    have j: "unat sz - 1 - i < unat sz" "unat sz - 1 - (unat sz - 1 - i) = i" using i by simp_all
    show ?thesis using Write_places [OF w _ j(1)] t that unfolding pdu_look_def that place_big [OF j(1)] j(2) by simp
  qed
  ultimately show ?thesis by (simp add: msb_first_def Let_def)
qed

theorem Com_write_layout_witness:
  "bit (fst (the (Com_Misc_WriteSignalDataToPdu (Data16 0xFABC) COM_SINT16 ex_pdu 3 12 COM_BIG_ENDIAN)) 0) 3
     = bit (0xFABC :: uint16) 11"
proof -
  obtain p' chg where w: "Com_Misc_WriteSignalDataToPdu (Data16 0xFABC) COM_SINT16 ex_pdu 3 12 COM_BIG_ENDIAN = Some (p', chg)"
    by (simp add: Com_Misc_WriteSignalDataToPdu_def sig_value_def) (metis prod.exhaust)
  show ?thesis using Com_write_layout [OF w, of 0] w by simp
qed

text \<open>C29. Putting the counter into an I-PDU.  \<open>updateIPduCntr\<close> succeeds, the value it puts in is the successor of the
  counter modulo its range, \<open>extractIPduCntr\<close> reads this value back, and every signal that does not overlap the
  field of the counter reads as before.\<close>

theorem ipdu_counter_roundtrip:
  assumes ok: "counter_cfg_ok k cfg" "counter_at n cfg st m"
  shows "\<exists>p' v. updateIPduCntr cfg p st = Some (p', v, ComIPduCntrIndex cfg) \<and> unat v = (m + 1) mod 2 ^ k \<and>
    extractIPduCntr cfg p' = v \<and>
    (\<forall>t e pos sz. sig_bits t e pos sz \<inter> counter_bits cfg k = {} \<longrightarrow>
       Com_Misc_ReadSignalDataFromPdu p' pos sz e t = Com_Misc_ReadSignalDataFromPdu p pos sz e t)"
proof -
  obtain p' v where u: "updateIPduCntr cfg p st = Some (p', v, ComIPduCntrIndex cfg)" "unat v = (m + 1) mod 2 ^ k"
    "extractIPduCntr cfg p' = v" and fr: "\<And>c j. (c, j) \<notin> counter_bits cfg k \<Longrightarrow> bit (p' c) j = bit (p c) j"
    using update_bits [OF ok] by metis
  have "Com_Misc_ReadSignalDataFromPdu p' pos sz e t = Com_Misc_ReadSignalDataFromPdu p pos sz e t"
    if "sig_bits t e pos sz \<inter> counter_bits cfg k = {}" for t e pos sz
  proof (rule Read_cong)
    fix c assume "c \<in> sig_bits t e pos sz"
    with that show "pdu_look p' c = pdu_look p c" using fr [of "fst c" "snd c"] by (auto simp: pdu_look_def)
  qed
  with u show ?thesis by blast
qed

theorem ipdu_counter_roundtrip_witness:
  "\<exists>p' v. updateIPduCntr ex_counter ex_pdu ex_counters = Some (p', v, 1) \<and> unat v = 0 \<and> extractIPduCntr ex_counter p' = v \<and>
     Com_Misc_ReadSignalDataFromPdu p' 0 12 COM_LITTLE_ENDIAN COM_UINT16
       = Com_Misc_ReadSignalDataFromPdu ex_pdu 0 12 COM_LITTLE_ENDIAN COM_UINT16"
proof -
  have d: "sig_bits COM_UINT16 COM_LITTLE_ENDIAN 0 12 \<inter> counter_bits ex_counter 4 = {}" by code_simp
  obtain p' v where "updateIPduCntr ex_counter ex_pdu ex_counters = Some (p', v, ComIPduCntrIndex ex_counter)"
    "unat v = (15 + 1) mod 2 ^ 4" "extractIPduCntr ex_counter p' = v"
    "Com_Misc_ReadSignalDataFromPdu p' 0 12 COM_LITTLE_ENDIAN COM_UINT16
       = Com_Misc_ReadSignalDataFromPdu ex_pdu 0 12 COM_LITTLE_ENDIAN COM_UINT16"
    using ipdu_counter_roundtrip [OF ex_counter_ok(1,2), of ex_pdu] d by metis
  then show ?thesis by (auto simp: ex_counter_def)
qed

end
