(* ===== verification/Spec2Isabelle.thy ===== *)
theory Spec2Isabelle
  imports Safety_Queue WdgM_Props E2E_Props RamTst_Props Com_Props
begin

text \<open>
  Verification of the Arctic Core AUTOSAR classic platform (C sources under src/).

  \<^bold>\<open>The parts and how they interact.\<close> The platform is an operating system kernel
  (system/Os), libraries (datastructures, safety\_security/SafeLib) and service modules above
  them. Modelled are the kernel's tasks, events, resources, counters, alarms and schedule tables,
  the interrupt suspension of Os.h, the CRC library, the end-to-end protection library, the two
  queues, the watchdog manager with its interface to the drivers, the RAM test, and the packing of
  signals and counters into I-PDUs by Com. They depend on each other as in the code: \<open>Queue\<close> suspends
  interrupts through \<open>Os_Irq\<close>; \<open>Safety_Queue\<close> and the profiles \<open>E2E_P01\<close> to \<open>E2E_P06\<close>
  compute their checksums with \<open>Crc\<close>, and the profiles report to the state machine \<open>E2E_SM\<close>; an
  expiring alarm or expiry point activates a task or sets an event through \<open>Os_Kernel\<close>; the
  deadline supervision of \<open>WdgM\<close> reads the kernel's counters through
  \<open>GetElapsedValue\<close> of \<open>Os_Timing\<close>.

  \<^bold>\<open>Theories.\<close>

  \<^item> \<open>Prelude\<close>: integer types as words of their width, byte pointers, loops as folds.

  \<^item> \<open>Crc_Lib\<close>, \<open>Crc\<close>: SafeLib/Crc/src/Crc\_8.c, Crc\_16.c, Crc\_32.c, Crc\_32P4.c.
  The tables are those of the source. The locale \<open>crc_division\<close> holds the algebra of a
  division step, \<open>crc_table\<close> that of a table loop; both are interpreted on the five
  polynomials. Table and bitwise variants agree, a message may be fed in parts, one changed byte is
  always detected.

  \<^item> \<open>E2E_SM\<close>: SafeLib/E2E/src/E2E\_SM.c. The window of the last statuses is the array of the
  caller, which may be NULL. The machine on the circular array refines a machine on a sliding window.

  \<^item> \<open>E2E_Profile\<close>: the contract of a profile. The locale \<open>e2e_crc\<close> is a checksum
  inside the message it covers; \<open>e2e_profile\<close>, \<open>e2e_synced\<close> and \<open>e2e_resync\<close>
  say what protecting and checking promise: which bytes are touched, that intact messages are
  accepted and changed ones are errors, and that the receiver follows the sender again after a
  bounded number of intact messages. On a channel that loses messages and changes bytes these
  laws give, together with the state machine, the predicates \<open>errors_exact\<close>,
  \<open>blocks_errors\<close>, \<open>recovers\<close> and \<open>inside_message\<close>.

  \<^item> \<open>E2E_P01\<close>, \<open>E2E_P02\<close>, \<open>E2E_P04\<close>, \<open>E2E_P05\<close>, \<open>E2E_P06\<close>:
  SafeLib/E2E/src/E2E\_P01.c to E2E\_P06.c. One definition per function; \<open>P0n_valid\<close> are the
  configurations the code accepts, with a positive largest distance (profiles 4 to 6), sixteen
  identifiers (profile 2), and a nibble position inside the message (profile 1, which the code
  does not check). \<open>P0n_send\<close> and \<open>P0n_receive\<close> are one call of Protect and one of
  Check with the mapping of its status. All five interpret \<open>e2e_resync\<close>.

  \<^item> \<open>E2E_Props\<close>: what follows for a receiver, for all five profiles.

  \<^item> \<open>Os_Irq\<close>: the nesting counters of interrupt suspension in system/Os/rtos/inc/Os.h.

  \<^item> \<open>Fifo\<close>, \<open>Queue\<close>, \<open>Safety_Queue\<close>: datastructures/Queue and
  datastructures/Safety\_Queue over a byte memory. The locale \<open>bounded_fifo\<close> is the
  contract of a bounded first-in first-out buffer; both implementations interpret it, so every
  sequence of calls delivers what was accepted, in order. The safe queue moreover detects every
  one-byte change of its buffer and of its structure.

  \<^item> \<open>Os_Kernel\<close>, \<open>Steps\<close>, \<open>Os_Sched\<close>: os\_task.c, os\_event.c, os\_resource.c
  with their headers. The state is the ready list, the task and resource tables and the running
  task; a service returns its status code with the new state, and \<open>None\<close> stands for a failed
  \<open>ASSERT\<close>. The locale \<open>safe_steps\<close> is the contract of an invariant under legal
  calls; it is interpreted on the kernel's services. Legal sequences of services never run into an
  assertion, keep the kernel well formed, and always leave the first task of the highest
  occupied priority running, with the priority ceilings respected.

  \<^item> \<open>Os_Timing\<close>, \<open>Os_Timing_Props\<close>: os\_counter.c, os\_alarm.c, os\_sched\_table.c
  on top of the kernel. \<open>IncrementCounter\<close> calls itself through alarms with the action to
  increment a counter, so its model carries a depth; the configurations whose alarms form no cycle
  need at most one more than the number of counters, which is proved to be enough. Shown are the
  modular arithmetic of ticks, that an alarm acts at exactly its tick and then in exactly its
  cycle, and that a periodic table processes its expiry points once per period in order.

  \<^item> \<open>WdgM\<close>, \<open>WdgM_Supervision\<close>, \<open>WdgM_Props\<close>: WdgM/src/WdgM.c and
  WdgIf/src/WdgIf.c. The record \<open>WdgM_State\<close> holds the module's static variables, the
  state of the kernel it calls and the log of what it told the outside (drivers, DEM, DET, RTE
  ports); the record \<open>WdgM_Env\<close> holds the compile-time switches and the answers of the drivers.
  \<open>WdgM_Supervision\<close> says what alive, deadline and logical supervision accept and how the
  state of one entity evolves; \<open>WdgM_Props\<close> interprets \<open>safe_steps\<close> twice, for the invariant
  of the module and for the absence of triggers after the global state is STOPPED, and proves that
  an expired system stops.

  \<^item> \<open>RamTst\<close>, \<open>RamTst_Props\<close>: memory/RamTst/src/RamTst.c. The memory under test is a
  parameter, reading and writing a cell; addresses are word addresses. The loops that go down are
  partial functions, since they need not end; for blocks above address zero they are proved to
  end, and March X is four passes over the cells. The locale \<open>cell_memory\<close> is a memory whose
  cells fail independently; it gives what March X and a full test report. \<open>safe_steps\<close> is
  interpreted for the services of the module.

  \<^item> \<open>Com_Signal\<close>, \<open>Com_Signal_Props\<close>, \<open>Com_Props\<close>: reading and writing signals in
  communication/Com/src/Com\_misc.c. The code for 32 and for 64 bits is one definition over the width of the
  word. The locale \<open>signal_buffer\<close> says what users of a buffer rely on, namely that a write sets
  the bits at the places of the signal and no others and a read collects them; it is interpreted
  for both widths. A written signal is read back, signals with disjoint bits are independent, and
  the layout in both byte orders is the documented one.

  \<^item> \<open>Com_Counter\<close>: the I-PDU counters of Com\_misc.c. The receiver accepts exactly the I-PDUs
  before which at most the configured number was lost, and is synchronised after each of them.

  \<^bold>\<open>Conventions.\<close> A C pointer that may be NULL is an \<open>option\<close>; a struct a record with the
  fields of the source; integers keep their width. Loops over arrays are primitive recursions over
  the array or the number of completed iterations. Errors are the return codes of the source; a
  theorem that something returns is stated for every input the hypotheses allow, never as partial
  correctness.

  \<^bold>\<open>Parameters.\<close> Not in the tree and therefore arguments: the byte layout of
  \<open>Safety_Queue_t\<close>, the watchdog drivers behind WdgIf (any answer), the tick source of a
  hardware counter, the compare function of a queue (the byte comparison of the clients), the
  memory that the RAM test reads and writes.

  \<^bold>\<open>Defects shown by theorems.\<close> A restarted schedule table resumes at the index where it
  was stopped; an absolute start at a passed offset never expires; \<open>Queue_Contains\<close> misses elements
  after a wrap; a task woken while interrupts are disabled leaves two tasks in state running; a
  watchdog deadline started at tick zero is lost; a failed entity ignores single deadline and
  logical violations; the first expired entity is reported by its position; the E2E state machine
  writes through a NULL window of size zero; profile 1 writes an identifier nibble behind the message;
  March X notices only one of the 32 bits of a cell stuck at zero and leaves a block at address zero;
  once \<open>RamTst_Allow\<close> succeeded the RAM test cannot run.

  \<^bold>\<open>Not modelled.\<close> Scalability classes 3 and 4, several cores, stack and register
  handling, interrupt vectors (hardware). The rest of Com (transmission modes, deadlines, signal
  groups, gateway) and the other communication, memory, diagnostic and mode management modules:
  large state machines over configuration tables that a generator produces, which are not in the
  tree. lwIP, drivers, boards and the C library port: third party or register access.
  The version information services return constants.
\<close>

end
